(* ===== verification/Kernel_Prelude.thy ===== *)
theory Kernel_Prelude
  imports Main "HOL-Library.Word" "HOL-Library.List_Lexorder" "HOL-Library.Char_ord"
begin

text \<open>
  Shared vocabulary of the development: the machine integers of the kernel, the saturating
  operations of the Rust standard library, byte strings, and the generic facts about counting
  and concatenating that every replay proof uses.

  Integers. A \<open>u8\<close>, \<open>u32\<close> or \<open>u64\<close> field is a word of that width. The workspace sets no
  \<open>overflow-checks\<close>, so a release build wraps on \<open>+=\<close>, which is what \<open>+\<close> on words does;
  \<open>saturating_add\<close> and \<open>saturating_sub\<close> are \<open>sat_add\<close> and \<open>sat_sub\<close>. A \<open>usize\<close> that
  measures a vector or a text is a \<open>nat\<close>, and the cast \<open>as u32\<close> is \<open>of_nat\<close>.

  Strings. A Rust \<open>String\<close> is its UTF-8 byte sequence, one \<open>char\<close> per byte. The order of
  \<open>str\<close> is the lexicographic order of bytes, which is what \<open>List_Lexorder\<close> and
  \<open>Char_ord\<close> give.
\<close>

section \<open>Machine integers\<close>

type_synonym u8 = "8 word"
type_synonym u32 = "32 word"
type_synonym u64 = "64 word"

named_theorems kernel_simps \<open>evaluation rules of the kernel model\<close>

definition sat_add :: "'a::len word \<Rightarrow> 'a word \<Rightarrow> 'a word" where
  "sat_add a b = (if unat a + unat b < 2 ^ LENGTH('a) then a + b else - 1)"

definition sat_sub :: "'a::len word \<Rightarrow> 'a word \<Rightarrow> 'a word" where
  "sat_sub a b = (if b \<le> a then a - b else 0)"

definition sat_mul :: "'a::len word \<Rightarrow> 'a word \<Rightarrow> 'a word" where
  "sat_mul a b = (if unat a * unat b < 2 ^ LENGTH('a) then a * b else - 1)"

lemma unat_max_u [simp]: "unat (- 1 :: 'a::len word) = 2 ^ LENGTH('a) - 1"
  by (simp add: unsigned_minus_1_eq_mask mask_eq_exp_minus_1)

lemma unat_less_exp: "unat (a :: 'a::len word) < 2 ^ LENGTH('a)"
  by (rule unsigned_less)

lemma le_exp_minus_1 [simp]: "(x :: nat) \<le> 2 ^ n - Suc 0 \<longleftrightarrow> x < 2 ^ n"
proof -
  have "(2 :: nat) ^ n > 0" by simp
  then show ?thesis by linarith
qed

lemma unat_sat_add:
  "unat (sat_add a (b :: 'a::len word)) = min (unat a + unat b) (2 ^ LENGTH('a) - 1)"
  by (auto simp: sat_add_def unat_word_ariths min_def)

lemma unat_sat_mul:
  "unat (sat_mul a (b :: 'a::len word)) = min (unat a * unat b) (2 ^ LENGTH('a) - 1)"
  by (auto simp: sat_mul_def unat_word_ariths min_def)

lemma sat_add_0 [simp]: "sat_add a 0 = a" "sat_add 0 a = a"
  using unat_less_exp [of a] by (simp_all add: sat_add_def)

lemma sat_sub_0 [simp]: "sat_sub a 0 = (a :: 'a::len word)"
  by (simp add: sat_sub_def)

lemma sat_add_no_overflow:
  "unat a + unat b < 2 ^ LENGTH('a) \<Longrightarrow> sat_add a (b :: 'a::len word) = a + b"
  by (simp add: sat_add_def)

lemma sat_add_ge: "a \<le> sat_add a (b :: 'a::len word)"
  using unat_less_exp [of a] by (simp add: word_le_nat_alt unat_sat_add min_def)

lemma sat_add_mono: "a \<le> a' \<Longrightarrow> sat_add a b \<le> sat_add a' (b :: 'a::len word)"
  unfolding word_le_nat_alt unat_sat_add by (intro min.mono) simp_all

section \<open>Reports: the diagnostics of a verification function\<close>

text \<open>
  A verification function of the kernel collects difference messages in a vector and returns
  \<open>None\<close> when it stays empty, otherwise the messages joined by \<open>"; "\<close>. The model keeps the
  vector instead of the joined text.
\<close>

definition report :: "'d list \<Rightarrow> 'd list option" where
  "report diffs = (if diffs = [] then None else Some diffs)"

lemma report_None [simp]: "report ds = None \<longleftrightarrow> ds = []"
  by (simp add: report_def)

lemma report_Some [simp]: "report ds = Some es \<longleftrightarrow> ds \<noteq> [] \<and> es = ds"
  by (auto simp: report_def)

text \<open>\<open>if cond { diffs.push(d) }\<close> contributes one message or none.\<close>

definition push_if :: "bool \<Rightarrow> 'd \<Rightarrow> 'd list" where
  "push_if c d = (if c then [d] else [])"

lemma push_if_Nil [simp]: "push_if c d = [] \<longleftrightarrow> \<not> c"
  by (simp add: push_if_def)

lemma push_if_simps [simp]: "push_if True d = [d]" "push_if False d = []"
  by (simp_all add: push_if_def)

text \<open>\<open>if let Some(summary) = check { diffs.push(f(summary)) }\<close>\<close>

definition push_some :: "('a \<Rightarrow> 'd) \<Rightarrow> 'a option \<Rightarrow> 'd list" where
  "push_some f r = (case r of None \<Rightarrow> [] | Some s \<Rightarrow> [f s])"

lemma push_some_Nil [simp]: "push_some f r = [] \<longleftrightarrow> r = None"
  by (cases r) (simp_all add: push_some_def)

lemma push_some_simps [simp]: "push_some f None = []" "push_some f (Some s) = [f s]"
  by (simp_all add: push_some_def)

section \<open>Counting\<close>

text \<open>\<open>events.iter().filter(p).count()\<close>, as \<open>usize\<close> and cast \<open>as u32\<close>.\<close>

definition count_if :: "('a \<Rightarrow> bool) \<Rightarrow> 'a list \<Rightarrow> nat" where
  "count_if P xs = length (filter P xs)"

definition count_u32 :: "('a \<Rightarrow> bool) \<Rightarrow> 'a list \<Rightarrow> u32" where
  "count_u32 P xs = of_nat (count_if P xs)"

lemma count_if_simps [simp]:
  "count_if P [] = 0"
  "count_if P (x # xs) = of_bool (P x) + count_if P xs"
  "count_if P (xs @ ys) = count_if P xs + count_if P ys"
  by (simp_all add: count_if_def)

lemma count_if_le_length: "count_if P xs \<le> length xs"
  by (simp add: count_if_def)

lemma count_if_eq_0_iff: "count_if P xs = 0 \<longleftrightarrow> (\<forall>x \<in> set xs. \<not> P x)"
  by (simp add: count_if_def filter_empty_conv)

lemma count_if_mono: "(\<And>x. x \<in> set xs \<Longrightarrow> P x \<Longrightarrow> Q x) \<Longrightarrow> count_if P xs \<le> count_if Q xs"
  by (induction xs) (auto simp: of_bool_def)

lemma count_if_zero: "(\<And>x. x \<in> set xs \<Longrightarrow> \<not> P x) \<Longrightarrow> count_if P xs = 0"
  by (simp add: count_if_eq_0_iff)

lemma count_u32_simps [simp]:
  "count_u32 P [] = 0"
  "count_u32 P (x # xs) = of_bool (P x) + count_u32 P xs"
  "count_u32 P (xs @ ys) = count_u32 P xs + count_u32 P ys"
  by (simp_all add: count_u32_def)

lemma unat_count_u32: "length xs < 2 ^ 32 \<Longrightarrow> unat (count_u32 P xs) = count_if P xs"
  using count_if_le_length [of P xs] by (simp add: count_u32_def unat_of_nat)

lemma count_u32_le: "unat (count_u32 P xs) \<le> count_if P xs"
  by (simp add: count_u32_def unat_of_nat)

text \<open>Iteration order of a \<open>BTreeSet\<close> built by inserting the elements of a list.\<close>

definition btree_set :: "'a::linorder list \<Rightarrow> 'a list" where
  "btree_set xs = sort (remdups xs)"

lemma set_btree_set [simp]: "set (btree_set xs) = set xs"
  by (simp add: btree_set_def)

lemma distinct_btree_set [simp]: "distinct (btree_set xs)"
  by (simp add: btree_set_def)

lemma sorted_btree_set [simp]: "sorted (btree_set xs)"
  by (simp add: btree_set_def)

section \<open>Maps and searches\<close>

text \<open>\<open>*map.entry(k).or_insert(0)\<close> reads 0 where the key is absent.\<close>

definition or_insert_0 :: "u32 option \<Rightarrow> u32" where
  "or_insert_0 v = (case v of None \<Rightarrow> 0 | Some n \<Rightarrow> n)"

lemma or_insert_0_simps [simp]: "or_insert_0 None = 0" "or_insert_0 (Some n) = n"
  by (simp_all add: or_insert_0_def)

text \<open>\<open>*out.entry(n).or_default().entry(label).or_insert(0) += 1\<close>\<close>

definition bump_nested ::
  "(u32 \<Rightarrow> (string \<Rightarrow> u32 option) option) \<Rightarrow> u32 \<Rightarrow> string \<Rightarrow>
   (u32 \<Rightarrow> (string \<Rightarrow> u32 option) option)" where
  "bump_nested out n r =
     (let inner = (case out n of Some m \<Rightarrow> m | None \<Rightarrow> Map.empty)
      in out(n \<mapsto> inner(r \<mapsto> or_insert_0 (inner r) + 1)))"

text \<open>\<open>Iterator::find_map\<close>\<close>

fun find_map :: "('a \<Rightarrow> 'b option) \<Rightarrow> 'a list \<Rightarrow> 'b option" where
  "find_map f [] = None"
| "find_map f (x # xs) = (case f x of Some y \<Rightarrow> Some y | None \<Rightarrow> find_map f xs)"

lemma find_map_append:
  "find_map f (xs @ ys) = (case find_map f xs of Some y \<Rightarrow> Some y | None \<Rightarrow> find_map f ys)"
  by (induction xs) (auto split: option.split)

section \<open>Byte strings\<close>

definition starts_with :: "string \<Rightarrow> string \<Rightarrow> bool" where
  "starts_with s p \<longleftrightarrow> take (length p) s = p"

fun str_contains :: "string \<Rightarrow> string \<Rightarrow> bool" where
  "str_contains [] p = (p = [])"
| "str_contains (c # cs) p = (starts_with (c # cs) p \<or> str_contains cs p)"

definition ascii_lower_char :: "char \<Rightarrow> char" where
  "ascii_lower_char c =
     (let n = (of_char c :: nat) in if 65 \<le> n \<and> n \<le> 90 then char_of (n + 32) else c)"

definition to_ascii_lowercase :: "string \<Rightarrow> string" where
  "to_ascii_lowercase s = map ascii_lower_char s"

lemma starts_with_iff: "starts_with s p \<longleftrightarrow> (\<exists>t. s = p @ t)"
proof
  assume "starts_with s p"
  then have "s = p @ drop (length p) s"
    by (metis append_take_drop_id starts_with_def)
  then show "\<exists>t. s = p @ t" ..
next
  assume "\<exists>t. s = p @ t"
  then show "starts_with s p" by (auto simp: starts_with_def)
qed

lemma str_contains_iff: "str_contains s p \<longleftrightarrow> (\<exists>a b. s = a @ p @ b)"
proof (induction s)
  case Nil
  then show ?case by auto
next
  case (Cons c s)
  have "(\<exists>a b. c # s = a @ p @ b) \<longleftrightarrow>
      (\<exists>b. c # s = p @ b) \<or> (\<exists>a b. s = a @ p @ b)"
    by (metis append_Cons append_Nil list.exhaust list.inject)
  with Cons show ?case by (simp add: starts_with_iff)
qed

text \<open>
  \<open>str::trim\<close> removes leading and trailing Unicode white space. In UTF-8 the white space
  characters are exactly the following byte sequences, so stripping these sequences from both
  ends is \<open>trim\<close> on every valid string.
\<close>

definition white_space_seqs :: "string list" where
  "white_space_seqs =
     map (\<lambda>n. [char_of n]) [9 :: nat, 10, 11, 12, 13, 32] @
     map (map char_of)
       ([[194 :: nat, 133], [194, 160], [225, 154, 128], [226, 128, 168], [226, 128, 169],
         [226, 128, 175], [226, 129, 159], [227, 128, 128]] @
        map (\<lambda>k. [226, 128, k]) [128, 129, 130, 131, 132, 133, 134, 135, 136, 137, 138])"

function trim_start :: "string list \<Rightarrow> string \<Rightarrow> string" where
  "trim_start seqs s =
     (case find (\<lambda>w. w \<noteq> [] \<and> starts_with s w) seqs of
        None \<Rightarrow> s
      | Some w \<Rightarrow> trim_start seqs (drop (length w) s))"
  by pat_completeness auto
termination
  by (relation "measure (\<lambda>(_, s). length s)")
     (auto simp: find_Some_iff starts_with_iff)

declare trim_start.simps [simp del]

definition trim :: "string \<Rightarrow> string" where
  "trim s = rev (trim_start (map rev white_space_seqs) (rev (trim_start white_space_seqs s)))"

lemma trim_start_fixed:
  "(\<And>w. w \<in> set seqs \<Longrightarrow> w \<noteq> [] \<Longrightarrow> \<not> starts_with s w) \<Longrightarrow> trim_start seqs s = s"
  by (subst trim_start.simps) (metis (mono_tags, lifting) find_None_iff option.simps(4))

text \<open>A text is its own \<open>trim\<close> when no white space begins or ends it; the test computes.\<close>

lemma trim_fixed:
  assumes "list_all (\<lambda>w. \<not> starts_with s w) white_space_seqs"
    and "list_all (\<lambda>w. \<not> starts_with (rev s) (rev w)) white_space_seqs"
  shows "trim s = s"
proof -
  have "trim_start white_space_seqs s = s"
    using assms(1) by (intro trim_start_fixed) (simp add: list_all_iff)
  moreover have "trim_start (map rev white_space_seqs) (rev s) = rev s"
    using assms(2) by (intro trim_start_fixed) (auto simp: list_all_iff)
  ultimately show ?thesis by (simp add: trim_def)
qed

lemmas trim_eval = trim_fixed white_space_seqs_def starts_with_def char_of_def

lemma trim_Nil [simp]: "trim [] = []"
proof -
  have "trim_start seqs [] = []" for seqs
    by (rule trim_start_fixed) (simp add: starts_with_def)
  then show ?thesis by (simp add: trim_def)
qed

end
