(* ===== verification/Kernel_Events.thy ===== *)
theory Kernel_Events
  imports Kernel_Prelude
begin

text \<open>
  The event schema of the kernel log (\<open>crates/core/src/engine/kernel_event.rs\<close>) with the
  turn types it uses (\<open>crates/core/src/turn.rs\<close>, \<open>crates/core/src/models.rs\<close>). Every
  variant of \<open>KernelEvent\<close> is a constructor with the variant's fields in the order of the
  declaration, and every discriminator \<open>is_X\<close> is the pattern \<open>KernelEvent::X { .. }\<close>.
\<close>

section \<open>Turn and usage types\<close>

datatype turn_outcome_status = StatusCompleted | StatusInterrupted | StatusFailed

datatype turn_loop_mode = Agent | Yolo | Plan

definition is_plan :: "turn_loop_mode \<Rightarrow> bool" where
  "is_plan m \<longleftrightarrow> m = Plan"

definition from_setting :: "string \<Rightarrow> turn_loop_mode" where
  "from_setting value =
     (let v = to_ascii_lowercase (trim value) in
      if v = ''plan'' then Plan else if v = ''yolo'' then Yolo else Agent)"

record server_tool_usage =
  code_execution_requests :: "u32 option"
  tool_search_requests :: "u32 option"

record usage =
  input_tokens :: u32
  output_tokens :: u32
  prompt_cache_hit_tokens :: "u32 option"
  prompt_cache_miss_tokens :: "u32 option"
  reasoning_tokens :: "u32 option"
  reasoning_replay_tokens :: "u32 option"
  server_tool_use :: "server_tool_usage option"

definition default_usage :: usage where
  "default_usage =
     \<lparr>input_tokens = 0, output_tokens = 0, prompt_cache_hit_tokens = None,
      prompt_cache_miss_tokens = None, reasoning_tokens = None,
      reasoning_replay_tokens = None, server_tool_use = None\<rparr>"

section \<open>Outcomes and decisions carried by events\<close>

type_synonym turn_id = string
type_synonym call_id = string
type_synonym artifact_id = string

datatype turn_outcome =
    Completed
  | Failed string
  | Interrupted
  | Budget
  | LoopGuardOutcome string
  | MaxSteps
  | CycleHandoffOutcome u32

fun as_status :: "turn_outcome \<Rightarrow> turn_outcome_status" where
  "as_status Completed = StatusCompleted"
| "as_status Interrupted = StatusInterrupted"
| "as_status _ = StatusFailed"

datatype delta_kind = DeltaText | DeltaThinkingText | DeltaToolCallArg

datatype tool_outcome =
    Success
  | Blocked string
  | GuardHalt string
  | Timeout
  | ToolError string

datatype approval_verdict = Approved | Rejected | Retried

record policy_decision =
  approval_required :: bool
  parallel_eligible :: bool
  read_only :: bool

definition policy_decision_new :: "bool \<Rightarrow> bool \<Rightarrow> bool \<Rightarrow> policy_decision" where
  "policy_decision_new a p r =
     \<lparr>approval_required = a, parallel_eligible = p, read_only = r\<rparr>"

datatype overflow_strategy = BudgetRecompile | LlmCompaction | CycleHandoff

datatype capacity_checkpoint_kind = PreRequest | PostTool | ErrorEscalation

datatype capacity_action = CapContinue | CapTrim | CapHandoff | CapAbort string

datatype guardrail_action =
  NoIntervention | TargetedContextRefresh | VerifyWithToolReplay | VerifyAndReplan

fun from_guardrail :: "guardrail_action \<Rightarrow> string \<Rightarrow> capacity_action" where
  "from_guardrail NoIntervention _ = CapContinue"
| "from_guardrail TargetedContextRefresh _ = CapTrim"
| "from_guardrail VerifyWithToolReplay _ = CapContinue"
| "from_guardrail VerifyAndReplan _ = CapHandoff"

record message_range =
  range_from :: u32
  range_to :: u32

record request_fingerprint =
  static_prefix_sha256 :: string
  full_prefix_sha256 :: string

section \<open>The event log\<close>

datatype (plugins only: size code) kernel_event =
    is_SchemaVersion: SchemaVersion u32
  | is_TurnStarted: TurnStarted turn_id turn_loop_mode string u32
  | is_TurnEnded: TurnEnded turn_id turn_outcome u32
  | is_ModelRequestIssued: ModelRequestIssued turn_id u32 request_fingerprint u32
  | is_ModelDelta: ModelDelta turn_id u32 delta_kind "call_id option" string
  | is_ModelMessage: ModelMessage turn_id u32 usage u32 string string
  | is_ToolCallPlanned:
      ToolCallPlanned turn_id u32 call_id string string policy_decision
  | is_ToolCallStarted: ToolCallStarted turn_id call_id u32
  | is_ToolCallFinished:
      ToolCallFinished turn_id call_id string tool_outcome u32 bool string string
  | is_ApprovalResolved: ApprovalResolved turn_id call_id approval_verdict
  | is_CompactionArtifactCreated:
      CompactionArtifactCreated turn_id artifact_id message_range u32
  | is_ContextOverflowRecovered:
      ContextOverflowRecovered turn_id u32 overflow_strategy "u32 option"
  | is_SteerInjected: SteerInjected turn_id u32 string
  | is_ScratchpadReminderInjected: ScratchpadReminderInjected turn_id u32 string
  | is_ScratchpadSummaryInjected: ScratchpadSummaryInjected turn_id u32
  | is_CycleBriefingInjected: CycleBriefingInjected turn_id u32 u32
  | is_TopicMemoryInjected: TopicMemoryInjected turn_id u32 u32
  | is_MemoryPlaneQueried: MemoryPlaneQueried turn_id u32 string string string
  | is_LayeredContextSeamInjected: LayeredContextSeamInjected turn_id u32 u32 u32 string
  | is_LoopGuardTriggered: LoopGuardTriggered turn_id call_id string
  | is_CapacityCheckpoint:
      CapacityCheckpoint turn_id u32 capacity_checkpoint_kind u32 u32 capacity_action bool
  | is_CycleAdvanced: CycleAdvanced turn_id u32 u32 string
  | is_StepLimitContinuation: StepLimitContinuation turn_id u32 bool
  | is_LoopGuardContinuation: LoopGuardContinuation turn_id u32
  | is_DeferredToolActivated: DeferredToolActivated turn_id u32 string
  | is_HarnessVerify:
      HarnessVerify turn_id string string bool u32 bool u32 "string option" "string option"
  | is_StageGateBlocked:
      StageGateBlocked turn_id u32 string string string string string

fun event_turn_id :: "kernel_event \<Rightarrow> turn_id option" where
  "event_turn_id (SchemaVersion _) = None"
| "event_turn_id (TurnStarted t _ _ _) = Some t"
| "event_turn_id (TurnEnded t _ _) = Some t"
| "event_turn_id (ModelRequestIssued t _ _ _) = Some t"
| "event_turn_id (ModelDelta t _ _ _ _) = Some t"
| "event_turn_id (ModelMessage t _ _ _ _ _) = Some t"
| "event_turn_id (ToolCallPlanned t _ _ _ _ _) = Some t"
| "event_turn_id (ToolCallStarted t _ _) = Some t"
| "event_turn_id (ToolCallFinished t _ _ _ _ _ _ _) = Some t"
| "event_turn_id (ApprovalResolved t _ _) = Some t"
| "event_turn_id (CompactionArtifactCreated t _ _ _) = Some t"
| "event_turn_id (ContextOverflowRecovered t _ _ _) = Some t"
| "event_turn_id (SteerInjected t _ _) = Some t"
| "event_turn_id (ScratchpadReminderInjected t _ _) = Some t"
| "event_turn_id (ScratchpadSummaryInjected t _) = Some t"
| "event_turn_id (CycleBriefingInjected t _ _) = Some t"
| "event_turn_id (TopicMemoryInjected t _ _) = Some t"
| "event_turn_id (MemoryPlaneQueried t _ _ _ _) = Some t"
| "event_turn_id (LayeredContextSeamInjected t _ _ _ _) = Some t"
| "event_turn_id (LoopGuardTriggered t _ _) = Some t"
| "event_turn_id (CapacityCheckpoint t _ _ _ _ _ _) = Some t"
| "event_turn_id (CycleAdvanced t _ _ _) = Some t"
| "event_turn_id (StepLimitContinuation t _ _) = Some t"
| "event_turn_id (LoopGuardContinuation t _) = Some t"
| "event_turn_id (DeferredToolActivated t _ _) = Some t"
| "event_turn_id (HarnessVerify t _ _ _ _ _ _ _ _) = Some t"
| "event_turn_id (StageGateBlocked t _ _ _ _ _ _) = Some t"

fun kind_str :: "kernel_event \<Rightarrow> string" where
  "kind_str (SchemaVersion _) = ''schema_version''"
| "kind_str (TurnStarted _ _ _ _) = ''turn_started''"
| "kind_str (TurnEnded _ _ _) = ''turn_ended''"
| "kind_str (ModelRequestIssued _ _ _ _) = ''model_request_issued''"
| "kind_str (ModelDelta _ _ _ _ _) = ''model_delta''"
| "kind_str (ModelMessage _ _ _ _ _ _) = ''model_message''"
| "kind_str (ToolCallPlanned _ _ _ _ _ _) = ''tool_call_planned''"
| "kind_str (ToolCallStarted _ _ _) = ''tool_call_started''"
| "kind_str (ToolCallFinished _ _ _ _ _ _ _ _) = ''tool_call_finished''"
| "kind_str (ApprovalResolved _ _ _) = ''approval_resolved''"
| "kind_str (CompactionArtifactCreated _ _ _ _) = ''compaction_artifact_created''"
| "kind_str (ContextOverflowRecovered _ _ _ _) = ''context_overflow_recovered''"
| "kind_str (SteerInjected _ _ _) = ''steer_injected''"
| "kind_str (ScratchpadReminderInjected _ _ _) = ''scratchpad_reminder_injected''"
| "kind_str (ScratchpadSummaryInjected _ _) = ''scratchpad_summary_injected''"
| "kind_str (CycleBriefingInjected _ _ _) = ''cycle_briefing_injected''"
| "kind_str (TopicMemoryInjected _ _ _) = ''topic_memory_injected''"
| "kind_str (MemoryPlaneQueried _ _ _ _ _) = ''memory_plane_queried''"
| "kind_str (LayeredContextSeamInjected _ _ _ _ _) = ''layered_context_seam_injected''"
| "kind_str (LoopGuardTriggered _ _ _) = ''loop_guard_triggered''"
| "kind_str (CapacityCheckpoint _ _ _ _ _ _ _) = ''capacity_checkpoint''"
| "kind_str (CycleAdvanced _ _ _ _) = ''cycle_advanced''"
| "kind_str (StepLimitContinuation _ _ _) = ''step_limit_continuation''"
| "kind_str (LoopGuardContinuation _ _) = ''loop_guard_continuation''"
| "kind_str (DeferredToolActivated _ _ _) = ''deferred_tool_activated''"
| "kind_str (HarnessVerify _ _ _ _ _ _ _ _ _) = ''harness_verify''"
| "kind_str (StageGateBlocked _ _ _ _ _ _ _) = ''stage_gate_blocked''"

section \<open>Patterns several modules share\<close>

fun is_cycle_handoff_event :: "kernel_event \<Rightarrow> bool" where
  "is_cycle_handoff_event (ContextOverflowRecovered _ _ CycleHandoff _) = True"
| "is_cycle_handoff_event _ = False"

fun is_request_of_step :: "u32 \<Rightarrow> kernel_event \<Rightarrow> bool" where
  "is_request_of_step n (ModelRequestIssued _ s _ _) = (s = n)"
| "is_request_of_step n _ = False"

lemma is_request_of_step_iff:
  "is_request_of_step n e \<longleftrightarrow> (\<exists>t fp b. e = ModelRequestIssued t n fp b)"
  by (cases e) auto

lemma kind_str_turn_ended: "kind_str e = ''turn_ended'' \<longleftrightarrow> is_TurnEnded e"
  by (cases e) simp_all

end
