(* ===== verification/Kernel_Projection.thy ===== *)
theory Kernel_Projection
  imports Kernel_Events
begin

text \<open>
  The projection of the event log: \<open>TurnKernelProjection\<close> with \<open>apply\<close> and
  \<open>from_events\<close> (\<open>crates/core/src/engine/turn_machine.rs\<close>), and the path extraction of
  tool inputs that \<open>from_events\<close> consults (\<open>crates/core/src/working_set.rs\<close>,
  \<open>turn_loop/memory_plane_working_policy.rs\<close>).

  Third-party code is the record \<open>externals\<close>: \<open>serde_json::from_str\<close>, the match iterator of
  the \<open>regex\<close> crate on the path pattern, \<open>serde_json::to_string\<close> on a string, and the
  hash of \<open>DefaultHasher\<close>, whose algorithm the standard library leaves unspecified.
\<close>

section \<open>JSON values and third-party functions\<close>

text \<open>
  A number carries the text its \<open>Display\<close> prints; an object is the list of its entries in
  iteration order.
\<close>

datatype json =
    JNull
  | JBool bool
  | JNumber string
  | JString string
  | JArray "json list"
  | JObject "(string \<times> json) list"

record externals =
  json_from_str :: "string \<Rightarrow> json option"
  path_find_iter :: "string \<Rightarrow> string list"
  json_string_literal :: "string \<Rightarrow> string"
  default_hash :: "string \<Rightarrow> u64"

text \<open>An instance, for concrete runs: a parser that accepts nothing and a constant hash.\<close>

definition quiet_externals :: externals where
  "quiet_externals =
     \<lparr>json_from_str = (\<lambda>s. None), path_find_iter = (\<lambda>s. []), json_string_literal = (\<lambda>s. s),
      default_hash = (\<lambda>s. 0)\<rparr>"

section \<open>Path candidates of a tool input\<close>

definition common_extensions :: "string list" where
  "common_extensions =
     [''rs'', ''toml'', ''md'', ''txt'', ''json'', ''yaml'', ''yml'', ''ts'', ''tsx'', ''js'',
      ''jsx'', ''py'', ''go'', ''java'', ''c'', ''cc'', ''cpp'', ''h'', ''hpp'', ''sh'',
      ''bash'', ''zsh'', ''sql'', ''html'', ''css'', ''scss'']"

text \<open>
  \<open>Path::new(name).extension()\<close> for a name without separators: the text after the last dot,
  unless the name is \<open>".."\<close>, has no dot, or starts with its only dot.
\<close>

definition path_extension :: "string \<Rightarrow> string option" where
  "path_extension name =
     (if name = ''..'' then None
      else
        let after = takeWhile (\<lambda>c. c \<noteq> CHR ''.'') (rev name);
            before = drop (Suc (length after)) (rev name)
        in if length after = length name \<or> before = [] then None else Some (rev after))"

definition looks_like_path :: "string \<Rightarrow> bool" where
  "looks_like_path text =
     (let trimmed = trim text in
      if trimmed = [] then False
      else if CHR ''/'' \<in> set trimmed \<or> CHR 0x5C \<in> set trimmed then True
      else case path_extension trimmed of
             Some ext \<Rightarrow> ext \<in> set common_extensions
           | None \<Rightarrow> False)"

definition key_is_path_like :: "string \<Rightarrow> bool" where
  "key_is_path_like key =
     (let lower = to_ascii_lowercase key in
      str_contains lower ''path'' \<or> str_contains lower ''file'' \<or> str_contains lower ''dir'' \<or>
      str_contains lower ''cwd'' \<or> str_contains lower ''workspace'' \<or>
      str_contains lower ''root'' \<or> lower = ''target'')"

definition extract_paths_from_text :: "externals \<Rightarrow> string \<Rightarrow> string list" where
  "extract_paths_from_text ext text =
     (if trim text = [] then [] else filter looks_like_path (path_find_iter ext text))"

text \<open>
  \<open>extract_paths_from_value_inner\<close>: the entries it appends to \<open>out\<close>, in order.
\<close>

fun extract_paths_from_value ::
  "externals \<Rightarrow> string option \<Rightarrow> string option \<Rightarrow> json \<Rightarrow> string list" where
  "extract_paths_from_value ext tool_hint key_hint (JString s) =
     (let key_suggests_path =
        (case key_hint of Some k \<Rightarrow> key_is_path_like k | None \<Rightarrow> False)
      in if key_suggests_path \<or> looks_like_path s then
           (let found = extract_paths_from_text ext s in
            found @
            (if key_suggests_path \<and> CHR ''/'' \<notin> set s \<and> CHR 0x5C \<notin> set s then [s]
             else if found = [] \<and> key_suggests_path \<and> looks_like_path s then [trim s]
             else []))
         else if tool_hint = Some ''exec_shell'' \<and> length s < 400 then
           extract_paths_from_text ext s
         else [])"
| "extract_paths_from_value ext tool_hint key_hint (JArray items) =
     concat (map (extract_paths_from_value ext tool_hint key_hint) items)"
| "extract_paths_from_value ext tool_hint key_hint (JObject entries) =
     concat (map (\<lambda>(k, v). extract_paths_from_value ext tool_hint (Some k) v) entries)"
| "extract_paths_from_value ext tool_hint key_hint JNull = []"
| "extract_paths_from_value ext tool_hint key_hint (JBool _) = []"
| "extract_paths_from_value ext tool_hint key_hint (JNumber _) = []"

definition path_candidates_from_tool_input :: "externals \<Rightarrow> string \<Rightarrow> json \<Rightarrow> nat" where
  "path_candidates_from_tool_input ext tool_name input =
     length (extract_paths_from_value ext (Some tool_name) None input)"

definition path_touch_from_planned :: "externals \<Rightarrow> string \<Rightarrow> string \<Rightarrow> bool" where
  "path_touch_from_planned ext tool_name input_json =
     (case json_from_str ext input_json of
        None \<Rightarrow> False
      | Some value \<Rightarrow> path_candidates_from_tool_input ext tool_name value > 0)"

section \<open>The projection\<close>

record turn_kernel_projection =
  pj_turn_id :: string
  pj_mode :: "turn_loop_mode option"
  pj_step_idx :: u32
  pj_max_steps :: u32
  pj_model_message_count :: u32
  pj_total_usage :: usage
  pj_active_tool_names :: "string set"
  pj_pending_call_ids :: "string list"
  pj_scratchpad_summary_injected :: bool
  pj_scratchpad_reminder_count :: u32
  pj_compaction_artifact_count :: u32
  pj_cycle_briefing_count :: u32
  pj_steer_injection_count :: u32
  pj_readonly_tool_successes :: u32
  pj_scratchpad_writes_this_step :: u32
  pj_working_set_path_touch_count :: u32
  pj_memory_plane_query_count :: u32
  pj_refresh_user_memory_query_step :: u32
  pj_memory_plane_queried_keys_this_step :: "string set"
  pj_model_request_seen_this_step :: bool
  pj_topic_memory_injection_count :: u32
  pj_layered_context_seam_count :: u32
  pj_step_limit_continuations :: u32
  pj_loop_guard_continuations :: u32
  pj_loop_guard_triggered_count :: u32
  pj_cycle_handoff_attempts :: u32
  pj_in_turn_cycle_advances :: u32
  pj_last_capacity_action :: "capacity_action option"
  pj_capacity_checkpoint_count :: u32
  pj_outcome :: "turn_outcome option"

definition default_projection :: turn_kernel_projection where
  "default_projection =
     \<lparr>pj_turn_id = [], pj_mode = None, pj_step_idx = 0, pj_max_steps = 0,
      pj_model_message_count = 0, pj_total_usage = default_usage,
      pj_active_tool_names = {}, pj_pending_call_ids = [],
      pj_scratchpad_summary_injected = False, pj_scratchpad_reminder_count = 0,
      pj_compaction_artifact_count = 0, pj_cycle_briefing_count = 0,
      pj_steer_injection_count = 0, pj_readonly_tool_successes = 0,
      pj_scratchpad_writes_this_step = 0, pj_working_set_path_touch_count = 0,
      pj_memory_plane_query_count = 0, pj_refresh_user_memory_query_step = 0,
      pj_memory_plane_queried_keys_this_step = {}, pj_model_request_seen_this_step = False,
      pj_topic_memory_injection_count = 0, pj_layered_context_seam_count = 0,
      pj_step_limit_continuations = 0, pj_loop_guard_continuations = 0,
      pj_loop_guard_triggered_count = 0, pj_cycle_handoff_attempts = 0,
      pj_in_turn_cycle_advances = 0, pj_last_capacity_action = None,
      pj_capacity_checkpoint_count = 0, pj_outcome = None\<rparr>"

definition QUERY_USER_MEMORY :: string where
  "QUERY_USER_MEMORY = ''user_memory''"

text \<open>\<open>TurnKernelProjection::apply\<close>\<close>

fun apply_event :: "turn_kernel_projection \<Rightarrow> kernel_event \<Rightarrow> turn_kernel_projection" where
  "apply_event p (TurnStarted tid md _ mx) =
     p\<lparr>pj_turn_id := tid, pj_mode := Some md, pj_max_steps := mx, pj_step_idx := 0\<rparr>"
| "apply_event p (TurnEnded _ out _) = p\<lparr>pj_outcome := Some out\<rparr>"
| "apply_event p (ModelRequestIssued _ s _ _) =
     p\<lparr>pj_step_idx := s, pj_readonly_tool_successes := 0,
       pj_scratchpad_writes_this_step := 0, pj_pending_call_ids := [],
       pj_refresh_user_memory_query_step := 0,
       pj_memory_plane_queried_keys_this_step := {},
       pj_model_request_seen_this_step := True\<rparr>"
| "apply_event p (ModelMessage _ _ u _ _ _) =
     p\<lparr>pj_model_message_count := pj_model_message_count p + 1,
       pj_total_usage := (pj_total_usage p)\<lparr>
         input_tokens := sat_add (input_tokens (pj_total_usage p)) (input_tokens u),
         output_tokens := sat_add (output_tokens (pj_total_usage p)) (output_tokens u)\<rparr>\<rparr>"
| "apply_event p (ToolCallPlanned _ _ cid _ _ _) =
     p\<lparr>pj_pending_call_ids := pj_pending_call_ids p @ [cid]\<rparr>"
| "apply_event p (ToolCallFinished _ cid name out _ wrote _ _) =
     (let p' = p\<lparr>pj_pending_call_ids := filter (\<lambda>i. i \<noteq> cid) (pj_pending_call_ids p)\<rparr> in
      if out = Success then
        (if wrote \<and> starts_with name ''scratchpad_'' then
           p'\<lparr>pj_scratchpad_writes_this_step := pj_scratchpad_writes_this_step p + 1\<rparr>
         else if \<not> wrote then
           p'\<lparr>pj_readonly_tool_successes := pj_readonly_tool_successes p + 1\<rparr>
         else p')
      else p')"
| "apply_event p (DeferredToolActivated _ _ name) =
     p\<lparr>pj_active_tool_names := insert name (pj_active_tool_names p)\<rparr>"
| "apply_event p (ScratchpadSummaryInjected _ _) = p\<lparr>pj_scratchpad_summary_injected := True\<rparr>"
| "apply_event p (ScratchpadReminderInjected _ _ _) =
     p\<lparr>pj_scratchpad_reminder_count := pj_scratchpad_reminder_count p + 1\<rparr>"
| "apply_event p (CompactionArtifactCreated _ _ _ _) =
     p\<lparr>pj_compaction_artifact_count := pj_compaction_artifact_count p + 1\<rparr>"
| "apply_event p (CycleBriefingInjected _ _ _) =
     p\<lparr>pj_cycle_briefing_count := pj_cycle_briefing_count p + 1\<rparr>"
| "apply_event p (MemoryPlaneQueried _ s _ key _) =
     (let p' = p\<lparr>pj_memory_plane_query_count := pj_memory_plane_query_count p + 1,
                 pj_memory_plane_queried_keys_this_step :=
                   insert key (pj_memory_plane_queried_keys_this_step p)\<rparr> in
      if key = QUERY_USER_MEMORY then p'\<lparr>pj_refresh_user_memory_query_step := s\<rparr> else p')"
| "apply_event p (TopicMemoryInjected _ _ _) =
     p\<lparr>pj_topic_memory_injection_count := pj_topic_memory_injection_count p + 1\<rparr>"
| "apply_event p (LayeredContextSeamInjected _ _ _ _ _) =
     p\<lparr>pj_layered_context_seam_count := pj_layered_context_seam_count p + 1\<rparr>"
| "apply_event p (SteerInjected _ _ _) =
     p\<lparr>pj_steer_injection_count := pj_steer_injection_count p + 1\<rparr>"
| "apply_event p (LoopGuardTriggered _ _ _) =
     p\<lparr>pj_loop_guard_triggered_count := pj_loop_guard_triggered_count p + 1\<rparr>"
| "apply_event p (CapacityCheckpoint _ _ _ _ _ act _) =
     p\<lparr>pj_last_capacity_action := Some act,
       pj_capacity_checkpoint_count := pj_capacity_checkpoint_count p + 1\<rparr>"
| "apply_event p (StepLimitContinuation _ _ _) =
     p\<lparr>pj_step_limit_continuations := pj_step_limit_continuations p + 1\<rparr>"
| "apply_event p (LoopGuardContinuation _ _) =
     p\<lparr>pj_loop_guard_continuations := pj_loop_guard_continuations p + 1\<rparr>"
| "apply_event p (CycleAdvanced _ _ _ _) =
     p\<lparr>pj_in_turn_cycle_advances := pj_in_turn_cycle_advances p + 1\<rparr>"
| "apply_event p (ContextOverflowRecovered _ _ CycleHandoff _) =
     p\<lparr>pj_cycle_handoff_attempts := pj_cycle_handoff_attempts p + 1\<rparr>"
| "apply_event p _ = p"

section \<open>The planned-call index and the replay loop of the projection\<close>

type_synonym planned_calls = "string \<Rightarrow> (string \<times> string) option"

definition record_working_set_path_touch ::
  "externals \<Rightarrow> turn_kernel_projection \<Rightarrow> planned_calls \<Rightarrow> call_id \<Rightarrow> tool_outcome \<Rightarrow>
   turn_kernel_projection" where
  "record_working_set_path_touch ext p planned cid out =
     (if out \<noteq> Success then p
      else case planned cid of
             None \<Rightarrow> p
           | Some (tool_name, input_json) \<Rightarrow>
               if path_touch_from_planned ext tool_name input_json
               then p\<lparr>pj_working_set_path_touch_count := pj_working_set_path_touch_count p + 1\<rparr>
               else p)"

text \<open>
  The prologue that \<open>from_events\<close>, \<open>replay_events_with_projection\<close> and
  \<open>replay_query_memory_count_at_step\<close> run on each event before \<open>apply\<close>: a planned call is
  remembered, a finished call may count a path touch and is forgotten.
\<close>

fun track_planned ::
  "externals \<Rightarrow> turn_kernel_projection \<times> planned_calls \<Rightarrow> kernel_event \<Rightarrow>
   turn_kernel_projection \<times> planned_calls" where
  "track_planned ext (p, planned) (ToolCallPlanned _ _ cid name input _) =
     (p, planned(cid \<mapsto> (name, input)))"
| "track_planned ext (p, planned) (ToolCallFinished _ cid _ out _ _ _ _) =
     (record_working_set_path_touch ext p planned cid out, planned(cid := None))"
| "track_planned ext (p, planned) _ = (p, planned)"

fun from_events_loop ::
  "externals \<Rightarrow> turn_kernel_projection \<times> planned_calls \<Rightarrow> kernel_event list \<Rightarrow>
   turn_kernel_projection" where
  "from_events_loop ext (p, planned) [] = p"
| "from_events_loop ext (p, planned) (e # es) =
     (case track_planned ext (p, planned) e of
        (p', planned') \<Rightarrow> from_events_loop ext (apply_event p' e, planned') es)"

definition from_events :: "externals \<Rightarrow> kernel_event list \<Rightarrow> turn_kernel_projection" where
  "from_events ext events = from_events_loop ext (default_projection, Map.empty) events"

section \<open>Views of the projection: what the log alone determines\<close>

text \<open>
  A view is a component of the projection that \<open>apply\<close> updates as a function of its own
  value and the event, and that path-touch tracking leaves alone. A view of the replayed
  projection is a left fold over the log; a counter is the view that adds one for each event of
  a pattern, so it equals the number of such events cast to \<open>u32\<close>.
\<close>

locale projection_view =
  fixes view :: "turn_kernel_projection \<Rightarrow> 'v"
    and upd :: "'v \<Rightarrow> kernel_event \<Rightarrow> 'v"
  assumes view_apply: "view (apply_event p e) = upd (view p) e"
    and view_touch: "view (p\<lparr>pj_working_set_path_touch_count := n\<rparr>) = view p"
begin

lemma view_record: "view (record_working_set_path_touch ext p planned cid out) = view p"
  by (auto simp: record_working_set_path_touch_def view_touch split: option.split)

lemma view_track: "track_planned ext (p, planned) e = (p', planned') \<Longrightarrow> view p' = view p"
  by (cases e) (auto simp: view_record)

lemma view_loop: "view (from_events_loop ext (p, planned) es) = foldl upd (view p) es"
proof (induction es arbitrary: p planned)
  case Nil
  then show ?case by simp
next
  case (Cons e es)
  obtain p' planned' where t: "track_planned ext (p, planned) e = (p', planned')"
    by (cases "track_planned ext (p, planned) e")
  with Cons show ?case by (simp add: view_apply view_track [OF t])
qed

lemma view_from_events: "view (from_events ext es) = foldl upd (view default_projection) es"
  by (simp add: from_events_def view_loop)

end

locale projection_counter =
  fixes get :: "turn_kernel_projection \<Rightarrow> u32"
    and hit :: "kernel_event \<Rightarrow> bool"
  assumes get_default: "get default_projection = 0"
    and get_apply: "get (apply_event p e) = get p + of_bool (hit e)"
    and get_touch: "get (p\<lparr>pj_working_set_path_touch_count := n\<rparr>) = get p"
begin

lemma fold_counter: "foldl (\<lambda>n e. n + of_bool (hit e)) (n :: u32) es = n + count_u32 hit es"
  by (induction es arbitrary: n) (simp_all add: add.assoc)

end

sublocale projection_counter \<subseteq> projection_view get "\<lambda>n e. n + of_bool (hit e)"
  by unfold_locales (rule get_apply, rule get_touch)

context projection_counter begin

lemma get_from_events: "get (from_events ext es) = count_u32 hit es"
  by (simp add: view_from_events get_default fold_counter)

lemma get_loop: "get (from_events_loop ext (p, planned) es) = get p + count_u32 hit es"
  by (simp add: view_loop fold_counter)

end

lemma apply_event_overflow [simp]:
  "apply_event p (ContextOverflowRecovered t s strat cap) =
     (if strat = CycleHandoff
      then p\<lparr>pj_cycle_handoff_attempts := pj_cycle_handoff_attempts p + 1\<rparr> else p)"
  by (cases strat) simp_all

lemma is_cycle_handoff_event_overflow [simp]:
  "is_cycle_handoff_event (ContextOverflowRecovered t s strat cap) \<longleftrightarrow> strat = CycleHandoff"
  by (cases strat) simp_all


lemma apply_event_counters:
  "pj_model_message_count (apply_event p e) = pj_model_message_count p + of_bool (is_ModelMessage e)"
  "pj_scratchpad_reminder_count (apply_event p e) =
     pj_scratchpad_reminder_count p + of_bool (is_ScratchpadReminderInjected e)"
  "pj_compaction_artifact_count (apply_event p e) =
     pj_compaction_artifact_count p + of_bool (is_CompactionArtifactCreated e)"
  "pj_cycle_briefing_count (apply_event p e) =
     pj_cycle_briefing_count p + of_bool (is_CycleBriefingInjected e)"
  "pj_steer_injection_count (apply_event p e) =
     pj_steer_injection_count p + of_bool (is_SteerInjected e)"
  "pj_memory_plane_query_count (apply_event p e) =
     pj_memory_plane_query_count p + of_bool (is_MemoryPlaneQueried e)"
  "pj_topic_memory_injection_count (apply_event p e) =
     pj_topic_memory_injection_count p + of_bool (is_TopicMemoryInjected e)"
  "pj_layered_context_seam_count (apply_event p e) =
     pj_layered_context_seam_count p + of_bool (is_LayeredContextSeamInjected e)"
  "pj_step_limit_continuations (apply_event p e) =
     pj_step_limit_continuations p + of_bool (is_StepLimitContinuation e)"
  "pj_loop_guard_continuations (apply_event p e) =
     pj_loop_guard_continuations p + of_bool (is_LoopGuardContinuation e)"
  "pj_loop_guard_triggered_count (apply_event p e) =
     pj_loop_guard_triggered_count p + of_bool (is_LoopGuardTriggered e)"
  "pj_cycle_handoff_attempts (apply_event p e) =
     pj_cycle_handoff_attempts p + of_bool (is_cycle_handoff_event e)"
  "pj_in_turn_cycle_advances (apply_event p e) =
     pj_in_turn_cycle_advances p + of_bool (is_CycleAdvanced e)"
  "pj_capacity_checkpoint_count (apply_event p e) =
     pj_capacity_checkpoint_count p + of_bool (is_CapacityCheckpoint e)"
  by (cases e; simp add: Let_def)+

lemmas counter_laws = apply_event_counters default_projection_def

interpretation model_messages: projection_counter pj_model_message_count is_ModelMessage
  by unfold_locales (simp_all add: counter_laws)

interpretation reminders:
  projection_counter pj_scratchpad_reminder_count is_ScratchpadReminderInjected
  by unfold_locales (simp_all add: counter_laws)

interpretation artifacts:
  projection_counter pj_compaction_artifact_count is_CompactionArtifactCreated
  by unfold_locales (simp_all add: counter_laws)

interpretation briefings: projection_counter pj_cycle_briefing_count is_CycleBriefingInjected
  by unfold_locales (simp_all add: counter_laws)

interpretation steers: projection_counter pj_steer_injection_count is_SteerInjected
  by unfold_locales (simp_all add: counter_laws)

interpretation memory_queries:
  projection_counter pj_memory_plane_query_count is_MemoryPlaneQueried
  by unfold_locales (simp_all add: counter_laws)

interpretation topic_injections:
  projection_counter pj_topic_memory_injection_count is_TopicMemoryInjected
  by unfold_locales (simp_all add: counter_laws)

interpretation seams:
  projection_counter pj_layered_context_seam_count is_LayeredContextSeamInjected
  by unfold_locales (simp_all add: counter_laws)

interpretation step_limits:
  projection_counter pj_step_limit_continuations is_StepLimitContinuation
  by unfold_locales (simp_all add: counter_laws)

interpretation guard_continuations:
  projection_counter pj_loop_guard_continuations is_LoopGuardContinuation
  by unfold_locales (simp_all add: counter_laws)

interpretation guard_triggers:
  projection_counter pj_loop_guard_triggered_count is_LoopGuardTriggered
  by unfold_locales (simp_all add: counter_laws)

interpretation cycle_handoffs:
  projection_counter pj_cycle_handoff_attempts is_cycle_handoff_event
  by unfold_locales (simp_all add: counter_laws)

interpretation cycle_advances: projection_counter pj_in_turn_cycle_advances is_CycleAdvanced
  by unfold_locales (simp_all add: counter_laws)

interpretation capacity_checkpoints:
  projection_counter pj_capacity_checkpoint_count is_CapacityCheckpoint
  by unfold_locales (simp_all add: counter_laws)

text \<open>Views that are not counters: the last outcome and capacity action win, flags only rise.\<close>

fun outcome_upd :: "turn_outcome option \<Rightarrow> kernel_event \<Rightarrow> turn_outcome option" where
  "outcome_upd v (TurnEnded _ out _) = Some out"
| "outcome_upd v _ = v"

fun capacity_upd :: "capacity_action option \<Rightarrow> kernel_event \<Rightarrow> capacity_action option" where
  "capacity_upd v (CapacityCheckpoint _ _ _ _ _ act _) = Some act"
| "capacity_upd v _ = v"

fun started_upd ::
  "string \<times> turn_loop_mode option \<times> u32 \<Rightarrow> kernel_event \<Rightarrow>
   string \<times> turn_loop_mode option \<times> u32" where
  "started_upd v (TurnStarted tid md _ mx) = (tid, Some md, mx)"
| "started_upd v _ = v"

fun step_upd :: "u32 \<Rightarrow> kernel_event \<Rightarrow> u32" where
  "step_upd v (TurnStarted _ _ _ _) = 0"
| "step_upd v (ModelRequestIssued _ s _ _) = s"
| "step_upd v _ = v"

interpretation outcome_view: projection_view pj_outcome outcome_upd
proof (unfold_locales, goal_cases)
  case (1 p e)
  show ?case by (cases e) (simp_all add: Let_def)
qed simp

interpretation capacity_view: projection_view pj_last_capacity_action capacity_upd
proof (unfold_locales, goal_cases)
  case (1 p e)
  show ?case by (cases e) (simp_all add: Let_def)
qed simp

interpretation started_view:
  projection_view "\<lambda>p. (pj_turn_id p, pj_mode p, pj_max_steps p)" started_upd
proof (unfold_locales, goal_cases)
  case (1 p e)
  show ?case by (cases e) (simp_all add: Let_def)
qed simp

interpretation step_view: projection_view pj_step_idx step_upd
proof (unfold_locales, goal_cases)
  case (1 p e)
  show ?case by (cases e) (simp_all add: Let_def)
qed simp

interpretation summary_view:
  projection_view pj_scratchpad_summary_injected "\<lambda>v e. v \<or> is_ScratchpadSummaryInjected e"
proof (unfold_locales, goal_cases)
  case (1 p e)
  show ?case by (cases e) (simp_all add: Let_def)
qed simp

lemma fold_or: "foldl (\<lambda>v e. v \<or> P e) b es = (b \<or> (\<exists>e \<in> set es. P e))"
  by (induction es arbitrary: b) auto

lemma summary_injected_iff:
  "pj_scratchpad_summary_injected (from_events ext es) \<longleftrightarrow>
     (\<exists>e \<in> set es. is_ScratchpadSummaryInjected e)"
  by (simp add: summary_view.view_from_events fold_or default_projection_def)

lemma outcome_None_iff:
  "pj_outcome (from_events ext es) = None \<longleftrightarrow> (\<forall>e \<in> set es. \<not> is_TurnEnded e)"
proof -
  have "foldl outcome_upd v es = None \<longleftrightarrow> v = None \<and> (\<forall>e \<in> set es. \<not> is_TurnEnded e)" for v
  proof (induction es arbitrary: v)
    case (Cons e es)
    then show ?case by (cases e) auto
  qed simp
  then show ?thesis
    by (simp add: outcome_view.view_from_events default_projection_def)
qed

end
