(* ===== verification/Kernel_Effects.thy ===== *)
theory Kernel_Effects
  imports Kernel_Projection
begin

text \<open>
  The effect vocabulary of the kernel and the replay machine: \<open>Effect\<close>, \<open>StepOutput\<close>,
  \<open>ReplayTurnMachine::step\<close>, \<open>replay_events_with_projection\<close> and the effect counts
  (\<open>crates/core/src/engine/turn_machine.rs\<close>), with the memory-plane query and artifact
  policies the machine consults (\<open>turn_loop/memory_plane_query_policy.rs\<close>,
  \<open>memory_plane_episodic_policy.rs\<close>, \<open>memory_plane_projection_policy.rs\<close>,
  \<open>memory_artifact_policy.rs\<close>).
\<close>

section \<open>Layers, artifacts, effects\<close>

datatype memory_plane_layer = Working | Episodic | Archival

fun layer_as_str :: "memory_plane_layer \<Rightarrow> string" where
  "layer_as_str Working = ''working''"
| "layer_as_str Episodic = ''episodic''"
| "layer_as_str Archival = ''archival''"

definition from_log_layer :: "string \<Rightarrow> memory_plane_layer" where
  "from_log_layer layer =
     (let l = to_ascii_lowercase (trim layer) in
      if l = ''episodic'' then Episodic else if l = ''archival'' then Archival else Working)"

datatype memory_artifact_kind = ScratchpadSnapshot | ScratchpadReminder

fun artifact_kind_as_str :: "memory_artifact_kind \<Rightarrow> string" where
  "artifact_kind_as_str ScratchpadSnapshot = ''scratchpad_snapshot''"
| "artifact_kind_as_str ScratchpadReminder = ''scratchpad_reminder''"

datatype (plugins only: size code) effect =
    is_CallModel: CallModel u32
  | is_ExecuteBatch: ExecuteBatch "call_id list"
  | is_RequestApproval: RequestApproval call_id string
  | is_InjectSteer: InjectSteer string
  | is_RunCompaction: RunCompaction
  | is_RunLayeredContextCheckpoint: RunLayeredContextCheckpoint
  | is_NotifyLsp: NotifyLsp string
  | is_Sleep: Sleep u64
  | is_QueryMemory: QueryMemory memory_plane_layer string
  | is_RefreshSystemPrompt: RefreshSystemPrompt
  | is_EmitArtifact: EmitArtifact memory_artifact_kind "string option"

fun effect_kind_str :: "effect \<Rightarrow> string" where
  "effect_kind_str (CallModel _) = ''call_model''"
| "effect_kind_str (ExecuteBatch _) = ''execute_batch''"
| "effect_kind_str (RequestApproval _ _) = ''request_approval''"
| "effect_kind_str (InjectSteer _) = ''inject_steer''"
| "effect_kind_str RunCompaction = ''run_compaction''"
| "effect_kind_str (NotifyLsp _) = ''notify_lsp''"
| "effect_kind_str (Sleep _) = ''sleep''"
| "effect_kind_str (QueryMemory _ _) = ''query_memory''"
| "effect_kind_str RunLayeredContextCheckpoint = ''run_layered_context_checkpoint''"
| "effect_kind_str RefreshSystemPrompt = ''refresh_system_prompt''"
| "effect_kind_str (EmitArtifact _ _) = ''emit_artifact''"

section \<open>Memory-plane queries before a model call\<close>

definition QUERY_SCRATCHPAD_SUMMARY :: string where
  "QUERY_SCRATCHPAD_SUMMARY = ''scratchpad_summary''"
definition QUERY_SCRATCHPAD_REMINDER :: string where
  "QUERY_SCRATCHPAD_REMINDER = ''scratchpad_reminder''"
definition QUERY_COMPACTION_SUMMARY :: string where
  "QUERY_COMPACTION_SUMMARY = ''compaction_summary''"
definition QUERY_WORKING_SET :: string where
  "QUERY_WORKING_SET = ''working_set''"
definition QUERY_TOPIC_EPISODIC :: string where
  "QUERY_TOPIC_EPISODIC = ''topic_episodic''"

record memory_plane_episodic_hints =
  topic_memory_enabled :: bool

definition episodic_material_present ::
  "turn_kernel_projection \<Rightarrow> memory_plane_episodic_hints option \<Rightarrow> bool" where
  "episodic_material_present p hints =
     (if pj_topic_memory_injection_count p > 0 then True
      else case hints of
             None \<Rightarrow> False
           | Some h \<Rightarrow>
               topic_memory_enabled h \<and> pj_step_idx p > 1 \<and> pj_model_message_count p > 0)"

definition episodic_query_effects_before_model_call ::
  "turn_kernel_projection \<Rightarrow> memory_plane_episodic_hints option \<Rightarrow> effect list" where
  "episodic_query_effects_before_model_call p hints =
     (if \<not> episodic_material_present p hints then []
      else [QueryMemory Episodic QUERY_TOPIC_EPISODIC])"

definition query_memory_effects_before_model_call ::
  "turn_kernel_projection \<Rightarrow> memory_plane_episodic_hints option \<Rightarrow> effect list" where
  "query_memory_effects_before_model_call p hints =
     push_if (pj_scratchpad_summary_injected p)
       (QueryMemory Working QUERY_SCRATCHPAD_SUMMARY) @
     push_if (pj_scratchpad_reminder_count p > 0)
       (QueryMemory Working QUERY_SCRATCHPAD_REMINDER) @
     push_if (pj_compaction_artifact_count p > 0)
       (QueryMemory Archival QUERY_COMPACTION_SUMMARY) @
     push_if (pj_working_set_path_touch_count p > 0)
       (QueryMemory Working QUERY_WORKING_SET) @
     episodic_query_effects_before_model_call p hints"

section \<open>Artifact emission\<close>

definition emit_artifact_effect :: "memory_artifact_kind \<Rightarrow> string option \<Rightarrow> effect" where
  "emit_artifact_effect kind hint = EmitArtifact kind hint"

definition is_emit_artifact_kernel_event :: "kernel_event \<Rightarrow> bool" where
  "is_emit_artifact_kernel_event e \<longleftrightarrow>
     is_ScratchpadSummaryInjected e \<or> is_ScratchpadReminderInjected e"

fun emit_artifact_of_event :: "kernel_event \<Rightarrow> effect option" where
  "emit_artifact_of_event (ScratchpadSummaryInjected _ _) =
     Some (emit_artifact_effect ScratchpadSnapshot None)"
| "emit_artifact_of_event (ScratchpadReminderInjected _ _ area) =
     Some (emit_artifact_effect ScratchpadReminder (Some area))"
| "emit_artifact_of_event _ = None"

definition memory_plane_emit_artifact_effects_from_events :: "kernel_event list \<Rightarrow> effect list" where
  "memory_plane_emit_artifact_effects_from_events events =
     List.map_filter emit_artifact_of_event events"

section \<open>The replay machine\<close>

record step_output =
  emitted_events :: "kernel_event list"
  effects :: "effect list"
  halt :: "turn_outcome option"

definition step_output_halt :: "turn_outcome \<Rightarrow> step_output" where
  "step_output_halt out = \<lparr>emitted_events = [], effects = [], halt = Some out\<rparr>"

definition is_lsp_notify_tool :: "string \<Rightarrow> bool" where
  "is_lsp_notify_tool name \<longleftrightarrow>
     name \<in> set [''edit_file'', ''write_file'', ''apply_patch'', ''multi_tool_use.parallel''] \<or>
     starts_with name ''edit_''"

definition capacity_cooldown_backoff_millis :: u64 where
  "capacity_cooldown_backoff_millis = 100"

text \<open>
  The queries of a model request: those the projection asks for, minus the keys already logged
  at this step.
\<close>

fun unlogged_query :: "turn_kernel_projection \<Rightarrow> effect \<Rightarrow> bool" where
  "unlogged_query p (QueryMemory _ key) = (key \<notin> pj_memory_plane_queried_keys_this_step p)"
| "unlogged_query p _ = True"

text \<open>
  The effects of one event: the arms of the \<open>match\<close> of \<open>ReplayTurnMachine::step\<close>.
\<close>

fun replay_effects :: "turn_kernel_projection \<Rightarrow> kernel_event \<Rightarrow> effect list" where
  "replay_effects p (ModelRequestIssued _ _ _ budget) =
     filter (unlogged_query p) (query_memory_effects_before_model_call p None) @
     [CallModel budget]"
| "replay_effects p (SteerInjected _ _ txt) = [InjectSteer txt]"
| "replay_effects p (ScratchpadReminderInjected t s area) =
     memory_plane_emit_artifact_effects_from_events [ScratchpadReminderInjected t s area]"
| "replay_effects p (ScratchpadSummaryInjected t s) =
     memory_plane_emit_artifact_effects_from_events [ScratchpadSummaryInjected t s]"
| "replay_effects p (CycleBriefingInjected _ _ _) = [InjectSteer []]"
| "replay_effects p (ToolCallPlanned _ _ cid name _ decision) =
     push_if (approval_required decision) (RequestApproval cid name) @ [ExecuteBatch [cid]]"
| "replay_effects p (ToolCallFinished _ _ name _ _ wrote _ _) =
     push_if (wrote \<and> is_lsp_notify_tool name) (NotifyLsp name)"
| "replay_effects p (CapacityCheckpoint _ _ _ _ _ act blocked) =
     (if act = CapContinue \<and> blocked then [Sleep capacity_cooldown_backoff_millis]
      else push_if (act = CapTrim \<or> act = CapHandoff) RunCompaction)"
| "replay_effects p (CompactionArtifactCreated _ _ _ _) = [RunCompaction]"
| "replay_effects p (StepLimitContinuation _ _ _) = [InjectSteer []]"
| "replay_effects p (LoopGuardContinuation _ _) = [InjectSteer []]"
| "replay_effects p (LayeredContextSeamInjected _ _ _ _ _) = [RunLayeredContextCheckpoint]"
| "replay_effects p (MemoryPlaneQueried _ s layer key _) =
     (if s > pj_step_idx p \<or> \<not> pj_model_request_seen_this_step p then
        QueryMemory (from_log_layer layer) key #
        push_if
          (key = QUERY_TOPIC_EPISODIC \<and> s = pj_refresh_user_memory_query_step p \<and>
           pj_refresh_user_memory_query_step p > 0)
          RefreshSystemPrompt
      else [])"
| "replay_effects p _ = []"

definition replay_step :: "turn_kernel_projection \<Rightarrow> kernel_event \<Rightarrow> step_output" where
  "replay_step p e =
     \<lparr>emitted_events = [e], effects = replay_effects p e,
      halt = (case e of TurnEnded _ out _ \<Rightarrow> Some out | _ \<Rightarrow> None)\<rparr>"

lemma effects_replay_step [simp]: "effects (replay_step p e) = replay_effects p e"
  by (simp add: replay_step_def)

lemma halt_replay_step: "halt (replay_step p e) \<noteq> None \<longleftrightarrow> is_TurnEnded e"
  by (cases e) (simp_all add: replay_step_def)

section \<open>Replaying a log\<close>

fun replay_loop ::
  "externals \<Rightarrow> turn_kernel_projection \<times> planned_calls \<Rightarrow> kernel_event list \<Rightarrow> effect list" where
  "replay_loop ext (p, planned) [] = []"
| "replay_loop ext (p, planned) (e # es) =
     (case track_planned ext (p, planned) e of
        (p', planned') \<Rightarrow>
          effects (replay_step p' e) @ replay_loop ext (apply_event p' e, planned') es)"

definition replay_events_with_projection ::
  "externals \<Rightarrow> turn_kernel_projection \<Rightarrow> kernel_event list \<Rightarrow> effect list" where
  "replay_events_with_projection ext p events = replay_loop ext (p, Map.empty) events"

definition replay_turn_effects :: "externals \<Rightarrow> kernel_event list \<Rightarrow> effect list" where
  "replay_turn_effects ext events = replay_events_with_projection ext default_projection events"

record replay_effect_count =
  call_model :: u32
  execute_batch :: u32
  request_approval :: u32
  inject_steer :: u32
  run_compaction :: u32
  notify_lsp :: u32
  sleep :: u32
  query_memory :: u32
  run_layered_context_checkpoint :: u32
  refresh_system_prompt :: u32
  emit_artifact :: u32

definition default_effect_counts :: replay_effect_count where
  "default_effect_counts =
     \<lparr>call_model = 0, execute_batch = 0, request_approval = 0, inject_steer = 0,
      run_compaction = 0, notify_lsp = 0, sleep = 0, query_memory = 0,
      run_layered_context_checkpoint = 0, refresh_system_prompt = 0, emit_artifact = 0\<rparr>"

definition anchor_effect_total :: "replay_effect_count \<Rightarrow> u32" where
  "anchor_effect_total c = inject_steer c + run_compaction c + notify_lsp c"

fun count_effect :: "replay_effect_count \<Rightarrow> effect \<Rightarrow> replay_effect_count" where
  "count_effect c (CallModel _) = c\<lparr>call_model := call_model c + 1\<rparr>"
| "count_effect c (ExecuteBatch _) = c\<lparr>execute_batch := execute_batch c + 1\<rparr>"
| "count_effect c (RequestApproval _ _) = c\<lparr>request_approval := request_approval c + 1\<rparr>"
| "count_effect c (InjectSteer _) = c\<lparr>inject_steer := inject_steer c + 1\<rparr>"
| "count_effect c RunCompaction = c\<lparr>run_compaction := run_compaction c + 1\<rparr>"
| "count_effect c (NotifyLsp _) = c\<lparr>notify_lsp := notify_lsp c + 1\<rparr>"
| "count_effect c (Sleep _) = c\<lparr>sleep := sleep c + 1\<rparr>"
| "count_effect c (QueryMemory _ _) = c\<lparr>query_memory := query_memory c + 1\<rparr>"
| "count_effect c RunLayeredContextCheckpoint =
     c\<lparr>run_layered_context_checkpoint := run_layered_context_checkpoint c + 1\<rparr>"
| "count_effect c RefreshSystemPrompt =
     c\<lparr>refresh_system_prompt := refresh_system_prompt c + 1\<rparr>"
| "count_effect c (EmitArtifact _ _) = c\<lparr>emit_artifact := emit_artifact c + 1\<rparr>"

definition replay_effect_counts :: "externals \<Rightarrow> kernel_event list \<Rightarrow> replay_effect_count" where
  "replay_effect_counts ext events =
     foldl count_effect default_effect_counts (replay_turn_effects ext events)"

definition add_effect_counts ::
  "replay_effect_count \<Rightarrow> replay_effect_count \<Rightarrow> replay_effect_count" where
  "add_effect_counts t c =
     \<lparr>call_model = call_model t + call_model c,
      execute_batch = execute_batch t + execute_batch c,
      request_approval = request_approval t + request_approval c,
      inject_steer = inject_steer t + inject_steer c,
      run_compaction = run_compaction t + run_compaction c,
      notify_lsp = notify_lsp t + notify_lsp c,
      sleep = sleep t + sleep c,
      query_memory = query_memory t + query_memory c,
      run_layered_context_checkpoint =
        run_layered_context_checkpoint t + run_layered_context_checkpoint c,
      refresh_system_prompt = refresh_system_prompt t + refresh_system_prompt c,
      emit_artifact = emit_artifact t + emit_artifact c\<rparr>"

type_synonym turn_log = "string \<times> kernel_event list"

definition replay_thread_effect_counts :: "externals \<Rightarrow> turn_log list \<Rightarrow> replay_effect_count" where
  "replay_thread_effect_counts ext turns =
     foldl (\<lambda>total (_, events). add_effect_counts total (replay_effect_counts ext events))
       default_effect_counts turns"

section \<open>One step of a turn log\<close>

text \<open>
  \<open>events_for_step\<close>: from the request of the step up to the next request of another step or
  the end of the turn. The \<open>in_step\<close> flag of the loop is the boolean argument.
\<close>

fun events_for_step_loop :: "u32 \<Rightarrow> bool \<Rightarrow> kernel_event list \<Rightarrow> kernel_event list" where
  "events_for_step_loop n in_step [] = []"
| "events_for_step_loop n in_step (e # es) =
     (if is_request_of_step n e then e # events_for_step_loop n True es
      else if is_ModelRequestIssued e \<and> in_step then []
      else if is_TurnEnded e \<and> in_step then []
      else if in_step then e # events_for_step_loop n in_step es
      else events_for_step_loop n in_step es)"

definition events_for_step :: "kernel_event list \<Rightarrow> u32 \<Rightarrow> kernel_event list" where
  "events_for_step events n = events_for_step_loop n False events"

definition projection_before_step_model_request ::
  "externals \<Rightarrow> kernel_event list \<Rightarrow> u32 \<Rightarrow> turn_kernel_projection" where
  "projection_before_step_model_request ext turn_events n =
     from_events ext (takeWhile (\<lambda>e. \<not> is_request_of_step n e) turn_events)"

definition replay_step_effects_from_turn_log ::
  "externals \<Rightarrow> kernel_event list \<Rightarrow> u32 \<Rightarrow> effect list" where
  "replay_step_effects_from_turn_log ext turn_events n =
     (let step_events = events_for_step turn_events n in
      if step_events = [] then []
      else replay_events_with_projection ext
             (projection_before_step_model_request ext turn_events n) step_events)"

definition replay_step_effects :: "externals \<Rightarrow> kernel_event list \<Rightarrow> u32 \<Rightarrow> effect list" where
  "replay_step_effects ext events n = replay_step_effects_from_turn_log ext events n"

section \<open>Effect plans\<close>

definition plan_v3_step_effects :: "u32 \<Rightarrow> string list \<Rightarrow> effect list" where
  "plan_v3_step_effects budget ids = CallModel budget # map (\<lambda>i. ExecuteBatch [i]) ids"

definition plan_v3_pre_call_model_effects ::
  "turn_kernel_projection \<Rightarrow> memory_plane_episodic_hints option \<Rightarrow> effect list" where
  "plan_v3_pre_call_model_effects p hints = query_memory_effects_before_model_call p hints"

fun request_approval_of_event :: "kernel_event \<Rightarrow> effect option" where
  "request_approval_of_event (ToolCallPlanned _ _ cid name _ decision) =
     (if approval_required decision then Some (RequestApproval cid name) else None)"
| "request_approval_of_event _ = None"

definition request_approval_effects_from_step_events :: "kernel_event list \<Rightarrow> effect list" where
  "request_approval_effects_from_step_events es = List.map_filter request_approval_of_event es"

fun notify_lsp_of_event :: "kernel_event \<Rightarrow> effect option" where
  "notify_lsp_of_event (ToolCallFinished _ _ name _ _ wrote _ _) =
     (if wrote \<and> is_lsp_notify_tool name then Some (NotifyLsp name) else None)"
| "notify_lsp_of_event _ = None"

definition notify_lsp_effects_from_step_events :: "kernel_event list \<Rightarrow> effect list" where
  "notify_lsp_effects_from_step_events es = List.map_filter notify_lsp_of_event es"

fun continuation_steer_of_event :: "u32 \<Rightarrow> kernel_event \<Rightarrow> effect option" where
  "continuation_steer_of_event n (StepLimitContinuation _ s _) =
     (if s = n then Some (InjectSteer []) else None)"
| "continuation_steer_of_event n (LoopGuardContinuation _ s) =
     (if s = n then Some (InjectSteer []) else None)"
| "continuation_steer_of_event n _ = None"

definition continuation_inject_steer_effects_for_step ::
  "kernel_event list \<Rightarrow> u32 \<Rightarrow> effect list" where
  "continuation_inject_steer_effects_for_step turn_events n =
     List.map_filter (continuation_steer_of_event n) turn_events"

definition memory_plane_inject_steer_effects_from_events :: "kernel_event list \<Rightarrow> effect list" where
  "memory_plane_inject_steer_effects_from_events events =
     memory_plane_emit_artifact_effects_from_events events @
     map (\<lambda>_. InjectSteer []) (filter is_CycleBriefingInjected events)"

fun outcome_from_status :: "turn_outcome_status \<Rightarrow> string option \<Rightarrow> turn_outcome" where
  "outcome_from_status StatusCompleted _ = Completed"
| "outcome_from_status StatusInterrupted _ = Interrupted"
| "outcome_from_status StatusFailed err =
     Failed (case err of Some m \<Rightarrow> m | None \<Rightarrow> [])"

end
