(* ===== verification/Replay_Anchors.thy ===== *)
theory Replay_Anchors
  imports Kernel_Effects
begin

text \<open>
  Replay anchors: which effects the replay machine must emit for which events, and the
  verification functions of \<open>crates/core/src/engine/turn_machine.rs\<close> that count them per
  step and per thread. The contract between an event pattern and an effect pattern is a locale;
  it is interpreted once for each pattern pair of the machine, and every check rests on it.
\<close>

section \<open>Diagnostics\<close>

text \<open>
  A diagnostic is the template of its \<open>format!\<close> call with the arguments unrendered; the
  summary of a nested check is an argument of its own. An argument printed with \<open>{:?}\<close> is an
  argument when \<open>fmt_arg\<close> has a constructor for its type, and is left out otherwise.
\<close>

datatype (plugins only: size) fmt_arg =
    ArgU32 u32
  | ArgU64 u64
  | ArgUsize nat
  | ArgStr string
  | ArgBool bool
  | ArgAction capacity_action
  | ArgEffects "effect list"
  | ArgSources "string set"
  | ArgReport "diff list"
and diff = Fmt string "fmt_arg list"

section \<open>The contracts\<close>

text \<open>
  An anchor: every event of the pattern is answered by at least one effect of the pattern,
  whatever the projection. An exact anchor: the effect occurs for these events only, once each.
\<close>

locale replay_anchor =
  fixes expects :: "kernel_event \<Rightarrow> bool"
    and anchors :: "effect \<Rightarrow> bool"
  assumes anchored: "expects e \<Longrightarrow> 0 < count_if anchors (replay_effects p e)"
begin

lemma anchor_step: "of_bool (expects e) \<le> count_if anchors (replay_effects p e)"
  using anchored [of e p] by (cases "expects e") auto

lemma anchor_loop: "count_if expects es \<le> count_if anchors (replay_loop ext (p, planned) es)"
proof (induction es arbitrary: p planned)
  case Nil
  then show ?case by simp
next
  case (Cons e es)
  obtain p' planned' where "track_planned ext (p, planned) e = (p', planned')"
    by (cases "track_planned ext (p, planned) e")
  with Cons show ?case by (simp add: add_mono anchor_step)
qed

lemma anchor_turn: "count_if expects es \<le> count_if anchors (replay_turn_effects ext es)"
  by (simp add: replay_turn_effects_def replay_events_with_projection_def anchor_loop)

lemma anchor_step_slice:
  "count_if expects (events_for_step es n) \<le> count_if anchors (replay_step_effects ext es n)"
  by (simp add: replay_step_effects_def replay_step_effects_from_turn_log_def Let_def
      replay_events_with_projection_def anchor_loop)

end

locale exact_anchor =
  fixes expects :: "kernel_event \<Rightarrow> bool"
    and anchors :: "effect \<Rightarrow> bool"
  assumes exact: "count_if anchors (replay_effects p e) = of_bool (expects e)"
begin

lemma exact_loop: "count_if anchors (replay_loop ext (p, planned) es) = count_if expects es"
proof (induction es arbitrary: p planned)
  case Nil
  then show ?case by simp
next
  case (Cons e es)
  obtain p' planned' where "track_planned ext (p, planned) e = (p', planned')"
    by (cases "track_planned ext (p, planned) e")
  with Cons show ?case by (simp add: exact)
qed

lemma exact_turn: "count_if anchors (replay_turn_effects ext es) = count_if expects es"
  by (simp add: replay_turn_effects_def replay_events_with_projection_def exact_loop)

end

sublocale exact_anchor \<subseteq> replay_anchor
  by unfold_locales (simp add: exact)

section \<open>The event patterns\<close>

fun is_approval_required_planned_event :: "kernel_event \<Rightarrow> bool" where
  "is_approval_required_planned_event (ToolCallPlanned _ _ _ _ _ d) = approval_required d"
| "is_approval_required_planned_event _ = False"

fun is_lsp_write_finish :: "kernel_event \<Rightarrow> bool" where
  "is_lsp_write_finish (ToolCallFinished _ _ name _ _ wrote _ _) =
     (wrote \<and> is_lsp_notify_tool name)"
| "is_lsp_write_finish _ = False"

definition is_continuation_event :: "kernel_event \<Rightarrow> bool" where
  "is_continuation_event e \<longleftrightarrow> is_StepLimitContinuation e \<or> is_LoopGuardContinuation e"

definition is_steer_event :: "kernel_event \<Rightarrow> bool" where
  "is_steer_event e \<longleftrightarrow>
     is_SteerInjected e \<or> is_CycleBriefingInjected e \<or> is_continuation_event e"

definition is_memory_plane_injection_kernel_event :: "kernel_event \<Rightarrow> bool" where
  "is_memory_plane_injection_kernel_event e \<longleftrightarrow>
     is_ScratchpadReminderInjected e \<or> is_ScratchpadSummaryInjected e \<or>
     is_CycleBriefingInjected e"

definition is_memory_plane_replay_effect :: "effect \<Rightarrow> bool" where
  "is_memory_plane_replay_effect eff \<longleftrightarrow> is_EmitArtifact eff \<or> is_InjectSteer eff"

fun is_compaction_run_kernel_event :: "kernel_event \<Rightarrow> bool" where
  "is_compaction_run_kernel_event (CompactionArtifactCreated _ _ _ _) = True"
| "is_compaction_run_kernel_event (CapacityCheckpoint _ _ _ _ _ act _) =
     (act = CapTrim \<or> act = CapHandoff)"
| "is_compaction_run_kernel_event _ = False"

fun is_capacity_cooldown_blocked_checkpoint :: "kernel_event \<Rightarrow> bool" where
  "is_capacity_cooldown_blocked_checkpoint (CapacityCheckpoint _ _ _ _ _ act blocked) =
     (act = CapContinue \<and> blocked)"
| "is_capacity_cooldown_blocked_checkpoint _ = False"

definition compaction_run_effects_from_events :: "kernel_event list \<Rightarrow> effect list" where
  "compaction_run_effects_from_events events =
     map (\<lambda>_. RunCompaction) (filter is_compaction_run_kernel_event events)"

section \<open>The machine keeps the contracts\<close>

lemma episodic_query_is_query:
  "eff \<in> set (query_memory_effects_before_model_call p h) \<Longrightarrow> is_QueryMemory eff"
  by (auto simp: query_memory_effects_before_model_call_def push_if_def
      episodic_query_effects_before_model_call_def split: if_splits)

lemma count_query_effects:
  "(\<And>eff. is_QueryMemory eff \<Longrightarrow> \<not> P eff) \<Longrightarrow>
   count_if P (filter Q (query_memory_effects_before_model_call p h)) = 0"
  by (rule count_if_zero) (auto dest: episodic_query_is_query)

lemma query_not_other:
  "is_QueryMemory eff \<Longrightarrow> \<not> is_CallModel eff"
  "is_QueryMemory eff \<Longrightarrow> \<not> is_ExecuteBatch eff"
  "is_QueryMemory eff \<Longrightarrow> \<not> is_RequestApproval eff"
  "is_QueryMemory eff \<Longrightarrow> \<not> is_InjectSteer eff"
  "is_QueryMemory eff \<Longrightarrow> \<not> is_RunCompaction eff"
  "is_QueryMemory eff \<Longrightarrow> \<not> is_NotifyLsp eff"
  "is_QueryMemory eff \<Longrightarrow> \<not> is_Sleep eff"
  "is_QueryMemory eff \<Longrightarrow> \<not> is_RunLayeredContextCheckpoint eff"
  "is_QueryMemory eff \<Longrightarrow> \<not> is_EmitArtifact eff"
  by (cases eff; simp)+

lemmas anchor_defs =
  count_query_effects query_not_other push_if_def is_steer_event_def is_continuation_event_def
  is_memory_plane_injection_kernel_event_def is_memory_plane_replay_effect_def
  is_emit_artifact_kernel_event_def memory_plane_emit_artifact_effects_from_events_def
  emit_artifact_effect_def List.map_filter_def

interpretation call_models: exact_anchor is_ModelRequestIssued is_CallModel
proof (unfold_locales, goal_cases)
  case (1 p e)
  show ?case by (cases e) (simp_all add: anchor_defs)
qed

interpretation batches: exact_anchor is_ToolCallPlanned is_ExecuteBatch
proof (unfold_locales, goal_cases)
  case (1 p e)
  show ?case by (cases e) (simp_all add: anchor_defs)
qed

interpretation approvals: exact_anchor is_approval_required_planned_event is_RequestApproval
proof (unfold_locales, goal_cases)
  case (1 p e)
  show ?case by (cases e) (simp_all add: anchor_defs)
qed

interpretation lsp_notices: exact_anchor is_lsp_write_finish is_NotifyLsp
proof (unfold_locales, goal_cases)
  case (1 p e)
  show ?case by (cases e) (simp_all add: anchor_defs)
qed

interpretation injected_steers: exact_anchor is_steer_event is_InjectSteer
proof (unfold_locales, goal_cases)
  case (1 p e)
  show ?case by (cases e) (simp_all add: anchor_defs)
qed

interpretation compactions: exact_anchor is_compaction_run_kernel_event is_RunCompaction
proof (unfold_locales, goal_cases)
  case (1 p e)
  show ?case by (cases e) (simp_all add: anchor_defs)
qed

interpretation sleeps: exact_anchor is_capacity_cooldown_blocked_checkpoint is_Sleep
proof (unfold_locales, goal_cases)
  case (1 p e)
  show ?case by (cases e) (simp_all add: anchor_defs)
qed

interpretation layered_seams:
  exact_anchor is_LayeredContextSeamInjected is_RunLayeredContextCheckpoint
proof (unfold_locales, goal_cases)
  case (1 p e)
  show ?case by (cases e) (simp_all add: anchor_defs)
qed

interpretation artifact_emissions: exact_anchor is_emit_artifact_kernel_event is_EmitArtifact
proof (unfold_locales, goal_cases)
  case (1 p e)
  show ?case by (cases e) (simp_all add: anchor_defs)
qed

interpretation continuations: replay_anchor is_continuation_event is_InjectSteer
proof (unfold_locales, goal_cases)
  case (1 e p)
  then show ?case by (cases e) (simp_all add: anchor_defs)
qed

interpretation memory_plane_injections:
  replay_anchor is_memory_plane_injection_kernel_event is_memory_plane_replay_effect
proof (unfold_locales, goal_cases)
  case (1 e p)
  then show ?case by (cases e) (simp_all add: anchor_defs)
qed

end
