(* ===== verification/Anchor_Checks.thy ===== *)
theory Anchor_Checks
  imports Replay_Anchors
begin

text \<open>
  The anchor checks of \<open>crates/core/src/engine/turn_machine.rs\<close>: for one step of a turn log
  and for every turn of a thread, does the replay machine emit the effects the events call for?
  The theorems show that the machine passes every such check on every log, that the effect
  counts are exact, and what the two remaining step checks (message anchor, effect parity)
  accept.
\<close>

section \<open>Step checks\<close>

text \<open>\<open>issues.push(summary)\<close> of a summary that is itself a joined list of messages.\<close>

definition append_report :: "'d list option \<Rightarrow> 'd list" where
  "append_report r = (case r of None \<Rightarrow> [] | Some ds \<Rightarrow> ds)"

lemma append_report_simps [simp]:
  "append_report None = []" "append_report (Some ds) = ds"
  by (simp_all add: append_report_def)

lemma append_report_report [simp]: "append_report (report ds) = ds"
  by (simp add: report_def)

fun is_message_of_step :: "u32 \<Rightarrow> kernel_event \<Rightarrow> bool" where
  "is_message_of_step n (ModelMessage _ s _ _ _ _) = (s = n)"
| "is_message_of_step n _ = False"

definition verify_step_model_message_anchor ::
  "kernel_event list \<Rightarrow> u32 \<Rightarrow> diff list option" where
  "verify_step_model_message_anchor turn_events n =
     (let step_events = events_for_step turn_events n in
      if step_events = [] then None
      else
        let has_request = list_ex (is_request_of_step n) step_events;
            message_count = count_if (is_message_of_step n) step_events
        in if has_request \<and> message_count = 0 then
             Some [Fmt ''step {} has ModelRequestIssued but no ModelMessage'' [ArgU32 n]]
           else if has_request \<and> message_count > 1 then
             Some [Fmt ''step {} has {} ModelMessage events (expected 1)''
               [ArgU32 n, ArgUsize message_count]]
           else None)"

definition verify_step_continuation_anchor ::
  "externals \<Rightarrow> kernel_event list \<Rightarrow> u32 \<Rightarrow> diff list option" where
  "verify_step_continuation_anchor ext turn_events n =
     (if \<not> list_ex is_continuation_event (events_for_step turn_events n) then None
      else if list_ex is_InjectSteer (replay_step_effects ext turn_events n) then None
      else Some
        [Fmt ''step {} has continuation events but no InjectSteer in step replay chain''
          [ArgU32 n]])"

definition verify_step_request_approval_anchor ::
  "externals \<Rightarrow> kernel_event list \<Rightarrow> u32 \<Rightarrow> diff list option" where
  "verify_step_request_approval_anchor ext turn_events n =
     (let expected = count_if is_approval_required_planned_event (events_for_step turn_events n) in
      if expected = 0 then None
      else
        let found = count_if is_RequestApproval (replay_step_effects ext turn_events n) in
        if found \<ge> expected then None
        else Some [Fmt ''step {} expected {} RequestApproval replay effects, found {}''
               [ArgU32 n, ArgUsize expected, ArgUsize found]])"

definition verify_step_notify_lsp_anchor ::
  "externals \<Rightarrow> kernel_event list \<Rightarrow> u32 \<Rightarrow> diff list option" where
  "verify_step_notify_lsp_anchor ext turn_events n =
     (let expected = count_if is_lsp_write_finish (events_for_step turn_events n) in
      if expected = 0 then None
      else
        let found = count_if is_NotifyLsp (replay_step_effects ext turn_events n) in
        if found \<ge> expected then None
        else Some [Fmt ''step {} expected {} NotifyLsp replay effects, found {}''
               [ArgU32 n, ArgUsize expected, ArgUsize found]])"

definition verify_step_memory_plane_replay_anchor ::
  "externals \<Rightarrow> kernel_event list \<Rightarrow> u32 \<Rightarrow> diff list option" where
  "verify_step_memory_plane_replay_anchor ext turn_events n =
     (let expected =
        count_if is_memory_plane_injection_kernel_event (events_for_step turn_events n) in
      if expected = 0 then None
      else
        let found =
          count_if is_memory_plane_replay_effect (replay_step_effects ext turn_events n) in
        if found \<ge> expected then None
        else Some [Fmt ''step {} expected >= {} memory-plane replay effects, found {}''
               [ArgU32 n, ArgUsize expected, ArgUsize found]])"

definition verify_step_compaction_replay_anchor ::
  "externals \<Rightarrow> kernel_event list \<Rightarrow> u32 \<Rightarrow> diff list option" where
  "verify_step_compaction_replay_anchor ext turn_events n =
     (let expected = count_if is_compaction_run_kernel_event (events_for_step turn_events n) in
      if expected = 0 then None
      else
        let found = count_if is_RunCompaction (replay_step_effects ext turn_events n) in
        if found \<ge> expected then None
        else Some [Fmt ''step {} expected >= {} RunCompaction replay effects, found {}''
               [ArgU32 n, ArgUsize expected, ArgUsize found]])"

definition verify_step_capacity_sleep_anchor ::
  "externals \<Rightarrow> kernel_event list \<Rightarrow> u32 \<Rightarrow> diff list option" where
  "verify_step_capacity_sleep_anchor ext turn_events n =
     (let expected =
        count_if is_capacity_cooldown_blocked_checkpoint (events_for_step turn_events n) in
      if expected = 0 then None
      else
        let found = count_if is_Sleep (replay_step_effects ext turn_events n) in
        if found \<ge> expected then None
        else Some [Fmt ''step {} expected {} Sleep replay effects, found {}''
               [ArgU32 n, ArgUsize expected, ArgUsize found]])"

definition verify_step_effect_parity ::
  "externals \<Rightarrow> kernel_event list \<Rightarrow> u32 \<Rightarrow> u32 \<Rightarrow> diff list option" where
  "verify_step_effect_parity ext turn_events n executed =
     (let step_events = events_for_step turn_events n in
      if step_events = [] then
        if executed > 0 then
          Some [Fmt ''step {} has no ModelRequestIssued anchor but {} ToolCallPlanned event(s)''
            [ArgU32 n, ArgU32 executed]]
        else None
      else
        let counts = replay_effect_counts ext step_events in
        report
          (push_if (call_model counts \<noteq> 1)
             (Fmt ''step {} CallModel replay count {} != 1'' [ArgU32 n, ArgU32 (call_model counts)]) @
           push_if (execute_batch counts \<noteq> executed)
             (Fmt ''step {} ExecuteBatch replay count {} != executed {}''
               [ArgU32 n, ArgU32 (execute_batch counts), ArgU32 executed])))"

section \<open>Thread checks\<close>

definition thread_issues :: "(turn_log \<Rightarrow> diff list) \<Rightarrow> turn_log list \<Rightarrow> diff list option" where
  "thread_issues check turns = report (concat (map check turns))"

lemma thread_issues_None: "(\<And>t. check t = []) \<Longrightarrow> thread_issues check turns = None"
  by (simp add: thread_issues_def)

definition issues_of_steps ::
  "(u32 \<Rightarrow> diff list option) \<Rightarrow> u32 list \<Rightarrow> diff list" where
  "issues_of_steps check steps = concat (map (\<lambda>n. append_report (check n)) (btree_set steps))"

lemma issues_of_steps_Nil: "(\<And>n. check n = None) \<Longrightarrow> issues_of_steps check steps = []"
  by (simp add: issues_of_steps_def)

fun continuation_step :: "kernel_event \<Rightarrow> u32 option" where
  "continuation_step (StepLimitContinuation _ s _) = Some s"
| "continuation_step (LoopGuardContinuation _ s) = Some s"
| "continuation_step _ = None"

fun request_step :: "kernel_event \<Rightarrow> u32 option" where
  "request_step (ModelRequestIssued _ s _ _) = Some s"
| "request_step _ = None"

fun request_or_checkpoint_step :: "kernel_event \<Rightarrow> u32 option" where
  "request_or_checkpoint_step (ModelRequestIssued _ s _ _) = Some s"
| "request_or_checkpoint_step (CapacityCheckpoint _ s _ _ _ _ _) = Some s"
| "request_or_checkpoint_step _ = None"

definition verify_thread_continuation_anchors ::
  "externals \<Rightarrow> turn_log list \<Rightarrow> diff list option" where
  "verify_thread_continuation_anchors ext turns =
     thread_issues (\<lambda>(_, events).
       issues_of_steps (verify_step_continuation_anchor ext events)
         (List.map_filter continuation_step events)) turns"

definition verify_thread_request_approval_anchors ::
  "externals \<Rightarrow> turn_log list \<Rightarrow> diff list option" where
  "verify_thread_request_approval_anchors ext turns =
     thread_issues (\<lambda>(_, events).
       issues_of_steps (verify_step_request_approval_anchor ext events)
         (List.map_filter request_step events)) turns"

definition verify_thread_notify_lsp_anchors ::
  "externals \<Rightarrow> turn_log list \<Rightarrow> diff list option" where
  "verify_thread_notify_lsp_anchors ext turns =
     thread_issues (\<lambda>(_, events).
       issues_of_steps (verify_step_notify_lsp_anchor ext events)
         (List.map_filter request_step events)) turns"

text \<open>
  The counting loops that step the machine and then apply the event, without the planned-call
  index: \<open>count_memory_plane_replay_inject_effects\<close>, \<open>count_compaction_replay_run_effects\<close>.
\<close>

fun count_replayed ::
  "(kernel_event \<Rightarrow> bool) \<Rightarrow> (effect \<Rightarrow> bool) \<Rightarrow> turn_kernel_projection \<Rightarrow>
   kernel_event list \<Rightarrow> nat" where
  "count_replayed hit found p [] = 0"
| "count_replayed hit found p (e # es) =
     (if hit e then count_if found (effects (replay_step p e)) else 0) +
     count_replayed hit found (apply_event p e) es"

definition count_memory_plane_replay_inject_effects :: "kernel_event list \<Rightarrow> nat" where
  "count_memory_plane_replay_inject_effects events =
     count_replayed is_memory_plane_injection_kernel_event is_memory_plane_replay_effect
       default_projection events"

definition count_compaction_replay_run_effects :: "kernel_event list \<Rightarrow> nat" where
  "count_compaction_replay_run_effects events =
     count_replayed is_compaction_run_kernel_event is_RunCompaction default_projection events"

definition verify_thread_memory_plane_replay_anchors :: "turn_log list \<Rightarrow> diff list option" where
  "verify_thread_memory_plane_replay_anchors turns =
     thread_issues (\<lambda>(tid, events).
       let expected = count_if is_memory_plane_injection_kernel_event events;
           replayed = count_memory_plane_replay_inject_effects events
       in if expected = 0 then []
          else push_if (replayed < expected)
            (Fmt ''turn {} expected {} memory-plane replay effects, found {}''
              [ArgStr tid, ArgUsize expected, ArgUsize replayed])) turns"

definition verify_thread_compaction_replay_anchors :: "turn_log list \<Rightarrow> diff list option" where
  "verify_thread_compaction_replay_anchors turns =
     thread_issues (\<lambda>(tid, events).
       let expected = count_if is_compaction_run_kernel_event events;
           replayed = count_compaction_replay_run_effects events
       in if expected = 0 then []
          else push_if (replayed < expected)
            (Fmt ''turn {} expected {} RunCompaction replay effects, found {}''
              [ArgStr tid, ArgUsize expected, ArgUsize replayed])) turns"

definition verify_capacity_effect_replay_coherence ::
  "externals \<Rightarrow> kernel_event list \<Rightarrow> diff list option" where
  "verify_capacity_effect_replay_coherence ext turn_events =
     report (concat (map (\<lambda>n.
       append_report (verify_step_capacity_sleep_anchor ext turn_events n) @
       append_report (verify_step_compaction_replay_anchor ext turn_events n))
       (btree_set (List.map_filter request_or_checkpoint_step turn_events))))"

section \<open>Resume alignment\<close>

definition verify_resume_anchor_effect_alignment :: "u32 \<Rightarrow> u64 \<Rightarrow> diff list option" where
  "verify_resume_anchor_effect_alignment expected interpreted =
     (if interpreted = ucast expected then None
      else Some [Fmt ''resume anchor effect mismatch: interpreted={} expected={}''
             [ArgU64 interpreted, ArgU32 expected]])"

definition resume_anchor_alignment_is_anomalous :: "u32 \<Rightarrow> u64 \<Rightarrow> u64 \<Rightarrow> bool" where
  "resume_anchor_alignment_is_anomalous expected interpreted turns_skipped =
     (if interpreted = ucast expected then False
      else
        let benign_shortfall = interpreted < ucast expected \<and> turns_skipped > 0
        in \<not> benign_shortfall)"

section \<open>The machine passes every anchor check\<close>

context replay_anchor begin

lemma replayed_ge: "count_if expects es \<le> count_replayed expects anchors p es"
proof (induction es arbitrary: p)
  case (Cons e es)
  show ?case
    using Cons [of "apply_event p e"] anchored [of e p] by (cases "expects e") simp_all
qed simp

lemma slice_covered:
  "list_ex expects (events_for_step es n) \<Longrightarrow> list_ex anchors (replay_step_effects ext es n)"
  using anchor_step_slice [of es n ext]
  by (metis count_if_eq_0_iff le_zero_eq list_ex_iff)

end

lemma step_anchor_checks_pass:
  "verify_step_continuation_anchor ext es n = None"
  "verify_step_request_approval_anchor ext es n = None"
  "verify_step_notify_lsp_anchor ext es n = None"
  "verify_step_memory_plane_replay_anchor ext es n = None"
  "verify_step_compaction_replay_anchor ext es n = None"
  "verify_step_capacity_sleep_anchor ext es n = None"
  using continuations.slice_covered [of es n ext]
  by (auto simp: verify_step_continuation_anchor_def verify_step_request_approval_anchor_def
      verify_step_notify_lsp_anchor_def verify_step_memory_plane_replay_anchor_def
      verify_step_compaction_replay_anchor_def verify_step_capacity_sleep_anchor_def Let_def
      approvals.anchor_step_slice lsp_notices.anchor_step_slice
      memory_plane_injections.anchor_step_slice compactions.anchor_step_slice
      sleeps.anchor_step_slice)

lemma capacity_effects_coherent: "verify_capacity_effect_replay_coherence ext es = None"
  by (simp add: verify_capacity_effect_replay_coherence_def step_anchor_checks_pass)

lemma thread_replayed_ge:
  "count_if is_memory_plane_injection_kernel_event es
     \<le> count_memory_plane_replay_inject_effects es"
  "count_if is_compaction_run_kernel_event es \<le> count_compaction_replay_run_effects es"
  by (simp_all add: count_memory_plane_replay_inject_effects_def
      count_compaction_replay_run_effects_def memory_plane_injections.replayed_ge
      compactions.replayed_ge)

lemma thread_anchor_checks_pass:
  "verify_thread_continuation_anchors ext turns = None \<and>
   verify_thread_request_approval_anchors ext turns = None \<and>
   verify_thread_notify_lsp_anchors ext turns = None \<and>
   verify_thread_memory_plane_replay_anchors turns = None \<and>
   verify_thread_compaction_replay_anchors turns = None \<and>
   verify_capacity_effect_replay_coherence ext events = None"
proof (intro conjI)
  show "verify_thread_continuation_anchors ext turns = None"
    unfolding verify_thread_continuation_anchors_def
    by (rule thread_issues_None) (auto simp: issues_of_steps_Nil step_anchor_checks_pass)
  show "verify_thread_request_approval_anchors ext turns = None"
    unfolding verify_thread_request_approval_anchors_def
    by (rule thread_issues_None) (auto simp: issues_of_steps_Nil step_anchor_checks_pass)
  show "verify_thread_notify_lsp_anchors ext turns = None"
    unfolding verify_thread_notify_lsp_anchors_def
    by (rule thread_issues_None) (auto simp: issues_of_steps_Nil step_anchor_checks_pass)
  show "verify_thread_memory_plane_replay_anchors turns = None"
    unfolding verify_thread_memory_plane_replay_anchors_def
    by (rule thread_issues_None) (auto simp: Let_def thread_replayed_ge not_less)
  show "verify_thread_compaction_replay_anchors turns = None"
    unfolding verify_thread_compaction_replay_anchors_def
    by (rule thread_issues_None) (auto simp: Let_def thread_replayed_ge not_less)
  show "verify_capacity_effect_replay_coherence ext events = None"
    by (rule capacity_effects_coherent)
qed

text \<open>
  C13. Every anchor check of every thread passes, whatever its logs contain: each continuation
  step replays a steer, each approval-required call a \<open>RequestApproval\<close>, each state-writing
  edit a \<open>NotifyLsp\<close>, each memory-plane injection an artifact or steer, each compaction event
  a \<open>RunCompaction\<close>, and each cooldown-blocked checkpoint a \<open>Sleep\<close>.
\<close>
theorem replay_anchors_always_pass:
  "verify_thread_continuation_anchors ext turns = None \<and>
   verify_thread_request_approval_anchors ext turns = None \<and>
   verify_thread_notify_lsp_anchors ext turns = None \<and>
   verify_thread_memory_plane_replay_anchors turns = None \<and>
   verify_thread_compaction_replay_anchors turns = None \<and>
   verify_capacity_effect_replay_coherence ext events = None"
  by (rule thread_anchor_checks_pass)

section \<open>Effect counts are exact\<close>

lemma fold_count_effect:
  "call_model (foldl count_effect c effs) = call_model c + count_u32 is_CallModel effs"
  "execute_batch (foldl count_effect c effs) = execute_batch c + count_u32 is_ExecuteBatch effs"
  "request_approval (foldl count_effect c effs) =
     request_approval c + count_u32 is_RequestApproval effs"
  "inject_steer (foldl count_effect c effs) = inject_steer c + count_u32 is_InjectSteer effs"
  "run_compaction (foldl count_effect c effs) = run_compaction c + count_u32 is_RunCompaction effs"
  "notify_lsp (foldl count_effect c effs) = notify_lsp c + count_u32 is_NotifyLsp effs"
  "sleep (foldl count_effect c effs) = sleep c + count_u32 is_Sleep effs"
  "run_layered_context_checkpoint (foldl count_effect c effs) =
     run_layered_context_checkpoint c + count_u32 is_RunLayeredContextCheckpoint effs"
  "emit_artifact (foldl count_effect c effs) = emit_artifact c + count_u32 is_EmitArtifact effs"
proof (induction effs arbitrary: c)
  case Nil
  { case 1 then show ?case by simp next case 2 then show ?case by simp next
    case 3 then show ?case by simp next case 4 then show ?case by simp next
    case 5 then show ?case by simp next case 6 then show ?case by simp next
    case 7 then show ?case by simp next case 8 then show ?case by simp next
    case 9 then show ?case by simp }
next
  case (Cons eff effs)
  { case 1 then show ?case by (cases eff) (simp_all add: Cons) next
    case 2 then show ?case by (cases eff) (simp_all add: Cons) next
    case 3 then show ?case by (cases eff) (simp_all add: Cons) next
    case 4 then show ?case by (cases eff) (simp_all add: Cons) next
    case 5 then show ?case by (cases eff) (simp_all add: Cons) next
    case 6 then show ?case by (cases eff) (simp_all add: Cons) next
    case 7 then show ?case by (cases eff) (simp_all add: Cons) next
    case 8 then show ?case by (cases eff) (simp_all add: Cons) next
    case 9 then show ?case by (cases eff) (simp_all add: Cons) }
qed

lemma default_effect_counts_simps [simp]:
  "call_model default_effect_counts = 0" "execute_batch default_effect_counts = 0"
  "request_approval default_effect_counts = 0" "inject_steer default_effect_counts = 0"
  "run_compaction default_effect_counts = 0" "notify_lsp default_effect_counts = 0"
  "sleep default_effect_counts = 0" "run_layered_context_checkpoint default_effect_counts = 0"
  "emit_artifact default_effect_counts = 0"
  by (simp_all add: default_effect_counts_def)

context exact_anchor begin

lemma exact_u32: "count_u32 anchors (replay_turn_effects ext es) = count_u32 expects es"
  by (simp add: count_u32_def exact_turn)

end

lemma effect_counts_exact:
  "call_model (replay_effect_counts ext es) = count_u32 is_ModelRequestIssued es"
  "execute_batch (replay_effect_counts ext es) = count_u32 is_ToolCallPlanned es"
  "request_approval (replay_effect_counts ext es) =
     count_u32 is_approval_required_planned_event es"
  "inject_steer (replay_effect_counts ext es) = count_u32 is_steer_event es"
  "run_compaction (replay_effect_counts ext es) = count_u32 is_compaction_run_kernel_event es"
  "notify_lsp (replay_effect_counts ext es) = count_u32 is_lsp_write_finish es"
  "sleep (replay_effect_counts ext es) = count_u32 is_capacity_cooldown_blocked_checkpoint es"
  "run_layered_context_checkpoint (replay_effect_counts ext es) =
     count_u32 is_LayeredContextSeamInjected es"
  "emit_artifact (replay_effect_counts ext es) = count_u32 is_emit_artifact_kernel_event es"
  by (simp_all add: replay_effect_counts_def fold_count_effect call_models.exact_u32
      batches.exact_u32 approvals.exact_u32 injected_steers.exact_u32 compactions.exact_u32
      lsp_notices.exact_u32 sleeps.exact_u32 layered_seams.exact_u32
      artifact_emissions.exact_u32)

lemma anchor_total_additive:
  "anchor_effect_total (add_effect_counts a b) = anchor_effect_total a + anchor_effect_total b"
  by (simp add: anchor_effect_total_def add_effect_counts_def)

lemma anchor_total_events:
  "anchor_effect_total (replay_effect_counts ext es) =
     count_u32 is_steer_event es + count_u32 is_compaction_run_kernel_event es +
     count_u32 is_lsp_write_finish es"
  by (simp add: anchor_effect_total_def effect_counts_exact)

text \<open>
  The anchor total a resumed engine expects of a thread is exactly the number of steer,
  continuation, briefing, compaction and state-writing edit events in its logs (as \<open>u32\<close>), so
  the count does not depend on projections, paths or the order of turns.
\<close>
theorem thread_anchor_total_counts_events:
  "anchor_effect_total (replay_thread_effect_counts ext turns) =
     (let es = concat (map snd turns) in
        count_u32 is_steer_event es + count_u32 is_compaction_run_kernel_event es +
        count_u32 is_lsp_write_finish es)"
proof -
  have "anchor_effect_total
      (foldl (\<lambda>t (_, es). add_effect_counts t (replay_effect_counts ext es)) c turns) =
      anchor_effect_total c +
      (let es = concat (map snd turns) in
        count_u32 is_steer_event es + count_u32 is_compaction_run_kernel_event es +
        count_u32 is_lsp_write_finish es)" for c
    by (induction turns arbitrary: c)
       (auto simp: anchor_total_additive anchor_total_events Let_def ac_simps)
  then show ?thesis
    by (simp add: replay_thread_effect_counts_def anchor_effect_total_def)
qed

section \<open>What the remaining step checks accept\<close>

lemma events_for_step_Nil_iff:
  "events_for_step es n = [] \<longleftrightarrow> (\<forall>e \<in> set es. \<not> is_request_of_step n e)"
  unfolding events_for_step_def by (induction es) auto

lemma events_for_step_has_request:
  "events_for_step es n \<noteq> [] \<Longrightarrow> list_ex (is_request_of_step n) (events_for_step es n)"
proof -
  have "events_for_step_loop n False es \<noteq> [] \<Longrightarrow>
      is_request_of_step n (hd (events_for_step_loop n False es))"
    by (induction es) auto
  then show "events_for_step es n \<noteq> [] \<Longrightarrow> list_ex (is_request_of_step n) (events_for_step es n)"
    unfolding events_for_step_def
    by (metis list.set_sel(1) list_ex_iff)
qed

text \<open>
  The message anchor of a step passes exactly when the log has no request of the step or the
  step's slice holds exactly one model message of the step.
\<close>
theorem step_message_anchor_iff:
  "verify_step_model_message_anchor es n = None \<longleftrightarrow>
     (\<forall>e \<in> set es. \<not> is_request_of_step n e) \<or>
     count_if (is_message_of_step n) (events_for_step es n) = 1"
  using events_for_step_has_request [of es n] events_for_step_Nil_iff [of es n]
  by (auto simp: verify_step_model_message_anchor_def Let_def)

text \<open>A request whose only answer belongs to another step does not pass.\<close>

theorem step_message_anchor_iff_witness:
  "verify_step_model_message_anchor
     [ModelRequestIssued ''t'' 1 \<lparr>static_prefix_sha256 = [], full_prefix_sha256 = []\<rparr> 9,
      ModelMessage ''t'' 2 default_usage 1 [] []] 1 \<noteq> None"
  unfolding step_message_anchor_iff by (simp add: events_for_step_def)

text \<open>
  Effect parity of a step passes exactly when the step is absent and nothing was executed,
  or its slice has one model request and as many planned calls as were executed (as \<open>u32\<close>).
\<close>
theorem step_effect_parity_iff:
  "verify_step_effect_parity ext es n executed = None \<longleftrightarrow>
     (if \<forall>e \<in> set es. \<not> is_request_of_step n e then executed = 0
      else count_u32 is_ModelRequestIssued (events_for_step es n) = 1 \<and>
           count_u32 is_ToolCallPlanned (events_for_step es n) = executed)"
  unfolding events_for_step_Nil_iff [symmetric]
  by (auto simp: verify_step_effect_parity_def Let_def effect_counts_exact
      word_gt_0)

theorem step_effect_parity_iff_witness:
  "verify_step_effect_parity quiet_externals
     [ModelRequestIssued ''t'' 1 \<lparr>static_prefix_sha256 = [], full_prefix_sha256 = []\<rparr> 9,
      ToolCallPlanned ''t'' 1 ''c'' ''read_file'' [] (policy_decision_new False True True)] 1 1 = None"
  unfolding step_effect_parity_iff by (simp add: events_for_step_def)

end
