(* ===== verification/Loop_Guard.thy ===== *)
theory Loop_Guard
  imports Anchor_Checks "HOL-Library.Multiset"
begin

text \<open>
  The guard against repeated tool calls (\<open>crates/core/src/engine/loop_guard.rs\<close>), the
  write-state predicate it consults (\<open>tool_effects.rs\<close>) and the replay of its decisions from
  a log (\<open>turn_loop/loop_guard_replay_policy.rs\<close>, \<open>turn_loop/guard_projection_policy.rs\<close>).
  The specification of the guard is a history: how often a call was attempted since the last
  state change, and how many failures of a tool have come in a row. The refinement theorem
  shows that every decision of the guard is the one the history calls for.
\<close>

section \<open>Canonical arguments\<close>

fun intersperse_comma :: "string list \<Rightarrow> string" where
  "intersperse_comma [] = []"
| "intersperse_comma [x] = x"
| "intersperse_comma (x # y # xs) = x @ '','' @ intersperse_comma (y # xs)"

fun write_canonical_json :: "externals \<Rightarrow> json \<Rightarrow> string" where
  "write_canonical_json ext JNull = ''null''"
| "write_canonical_json ext (JBool b) = (if b then ''true'' else ''false'')"
| "write_canonical_json ext (JNumber n) = n"
| "write_canonical_json ext (JString s) = json_string_literal ext s"
| "write_canonical_json ext (JArray items) =
     ''['' @ intersperse_comma (map (write_canonical_json ext) items) @ '']''"
| "write_canonical_json ext (JObject entries) =
     ''{'' @
     intersperse_comma
       (map (\<lambda>(k, body). json_string_literal ext k @ '':'' @ body)
         (sort_key fst (map (\<lambda>(k, v). (k, write_canonical_json ext v)) entries))) @
     ''}''"

definition hash_args :: "externals \<Rightarrow> json \<Rightarrow> u64" where
  "hash_args ext args = default_hash ext (write_canonical_json ext args)"

section \<open>Tools that write state\<close>

definition loop_guard_state_mutating_whitelist :: "string \<Rightarrow> bool" where
  "loop_guard_state_mutating_whitelist name \<longleftrightarrow>
     name \<in> set [''write_file'', ''edit_file'', ''apply_patch'', ''create_dirs'',
       ''batch_edit'', ''refactor_imports'', ''restore_file'', ''draft_skill'']"

definition heuristic_writes_state :: "string \<Rightarrow> bool" where
  "heuristic_writes_state name =
     (let lower = to_ascii_lowercase name in
      str_contains lower ''write'' \<or> str_contains lower ''edit'' \<or>
      str_contains lower ''patch'' \<or> str_contains lower ''delete'' \<or>
      lower = ''exec_shell'' \<or> lower = ''exec_shell_wait'' \<or> lower = ''exec_shell_interact'')"

definition tool_writes_state :: "string \<Rightarrow> bool" where
  "tool_writes_state name \<longleftrightarrow>
     loop_guard_state_mutating_whitelist name \<or> heuristic_writes_state name"

section \<open>The guard\<close>

definition IDENTICAL_CALL_BLOCK_THRESHOLD :: u32 where "IDENTICAL_CALL_BLOCK_THRESHOLD = 3"
definition FAILURE_WARN_THRESHOLD :: u32 where "FAILURE_WARN_THRESHOLD = 3"
definition FAILURE_HALT_THRESHOLD :: u32 where "FAILURE_HALT_THRESHOLD = 8"

text \<open>The message of a decision interpolates the tool and the count, which it carries.\<close>

datatype attempt_decision = Proceed | is_Block: Block string u32
datatype outcome_decision = Continue | is_Warn: Warn string u32 | is_Halt: Halt string u32

record loop_guard =
  call_counts :: "string \<times> u64 \<Rightarrow> u32 option"
  failure_counts :: "string \<Rightarrow> u32 option"

definition default_loop_guard :: loop_guard where
  "default_loop_guard = \<lparr>call_counts = Map.empty, failure_counts = Map.empty\<rparr>"

definition record_attempt ::
  "externals \<Rightarrow> loop_guard \<Rightarrow> string \<Rightarrow> json \<Rightarrow> loop_guard \<times> attempt_decision" where
  "record_attempt ext g tool args =
     (let key = (tool, hash_args ext args);
          count = sat_add (or_insert_0 (call_counts g key)) 1;
          g' = g\<lparr>call_counts := (call_counts g)(key \<mapsto> count)\<rparr>
      in if count \<ge> IDENTICAL_CALL_BLOCK_THRESHOLD then (g', Block tool count)
         else (g', Proceed))"

definition record_outcome :: "loop_guard \<Rightarrow> string \<Rightarrow> bool \<Rightarrow> loop_guard \<times> outcome_decision" where
  "record_outcome g tool ok =
     (if ok then (g\<lparr>failure_counts := (failure_counts g)(tool \<mapsto> 0)\<rparr>, Continue)
      else
        let failures = sat_add (or_insert_0 (failure_counts g tool)) 1;
            g' = g\<lparr>failure_counts := (failure_counts g)(tool \<mapsto> failures)\<rparr>
        in if failures \<ge> FAILURE_HALT_THRESHOLD then (g', Halt tool failures)
           else if failures = FAILURE_WARN_THRESHOLD then (g', Warn tool failures)
           else (g', Continue))"

definition reset_failures :: "loop_guard \<Rightarrow> loop_guard" where
  "reset_failures g = g\<lparr>failure_counts := Map.empty\<rparr>"

definition note_state_changed :: "loop_guard \<Rightarrow> loop_guard" where
  "note_state_changed g = g\<lparr>call_counts := Map.empty\<rparr>"

definition is_state_mutating_tool :: "string \<Rightarrow> bool" where
  "is_state_mutating_tool tool = tool_writes_state tool"

section \<open>Specification: the history of guard operations\<close>

datatype guard_op =
    Attempt string json
  | Outcome string bool
  | StateChanged
  | ResetFailures

fun guard_step :: "externals \<Rightarrow> loop_guard \<Rightarrow> guard_op \<Rightarrow> loop_guard" where
  "guard_step ext g (Attempt tool args) = fst (record_attempt ext g tool args)"
| "guard_step ext g (Outcome tool ok) = fst (record_outcome g tool ok)"
| "guard_step ext g StateChanged = note_state_changed g"
| "guard_step ext g ResetFailures = reset_failures g"

definition run_guard :: "externals \<Rightarrow> guard_op list \<Rightarrow> loop_guard" where
  "run_guard ext ops = foldl (guard_step ext) default_loop_guard ops"

text \<open>Both specifications read the history from its newest operation.\<close>

fun attempts_since_change :: "externals \<Rightarrow> string \<times> u64 \<Rightarrow> guard_op list \<Rightarrow> nat" where
  "attempts_since_change ext key [] = 0"
| "attempts_since_change ext key (StateChanged # older) = 0"
| "attempts_since_change ext key (Attempt tool args # older) =
     of_bool (key = (tool, hash_args ext args)) + attempts_since_change ext key older"
| "attempts_since_change ext key (_ # older) = attempts_since_change ext key older"

fun failure_streak :: "string \<Rightarrow> guard_op list \<Rightarrow> nat" where
  "failure_streak tool [] = 0"
| "failure_streak tool (ResetFailures # older) = 0"
| "failure_streak tool (Outcome t ok # older) =
     (if t = tool then if ok then 0 else Suc (failure_streak tool older)
      else failure_streak tool older)"
| "failure_streak tool (_ # older) = failure_streak tool older"

text \<open>The abstraction: stored counts are the histories' counts, saturated at \<open>u32::MAX\<close>.\<close>

definition saturated :: "u32 \<Rightarrow> nat \<Rightarrow> bool" where
  "saturated w n \<longleftrightarrow> unat w = min n (2 ^ 32 - 1)"

definition guard_refines :: "externals \<Rightarrow> loop_guard \<Rightarrow> guard_op list \<Rightarrow> bool" where
  "guard_refines ext g newest_first \<longleftrightarrow>
     (\<forall>key. saturated (or_insert_0 (call_counts g key))
              (attempts_since_change ext key newest_first)) \<and>
     (\<forall>tool. saturated (or_insert_0 (failure_counts g tool)) (failure_streak tool newest_first))"

lemma saturated_0 [simp]: "saturated 0 n \<longleftrightarrow> n = 0"
  by (auto simp: saturated_def min_def)

lemma saturated_Suc: "saturated w n \<Longrightarrow> saturated (sat_add w 1) (Suc n)"
  by (auto simp: saturated_def unat_sat_add min_def)

lemma saturated_threshold:
  "saturated w n \<Longrightarrow> unat t < 2 ^ 32 - 1 \<Longrightarrow> t \<le> w \<longleftrightarrow> unat t \<le> n"
  "saturated w n \<Longrightarrow> unat t < 2 ^ 32 - 1 \<Longrightarrow> w = t \<longleftrightarrow> n = unat t"
  by (auto simp: saturated_def word_le_nat_alt word_unat_eq_iff)

lemma record_attempt_state:
  "call_counts (fst (record_attempt ext g tool args)) =
     (call_counts g)((tool, hash_args ext args) \<mapsto>
       sat_add (or_insert_0 (call_counts g (tool, hash_args ext args))) 1)"
  "failure_counts (fst (record_attempt ext g tool args)) = failure_counts g"
  by (simp_all add: record_attempt_def Let_def)

lemma record_outcome_state:
  "failure_counts (fst (record_outcome g tool ok)) =
     (failure_counts g)(tool \<mapsto>
       if ok then 0 else sat_add (or_insert_0 (failure_counts g tool)) 1)"
  "call_counts (fst (record_outcome g tool ok)) = call_counts g"
  by (simp_all add: record_outcome_def Let_def)

lemma guard_step_refines:
  "guard_refines ext g ops \<Longrightarrow> guard_refines ext (guard_step ext g op) (op # ops)"
  by (cases op)
     (auto simp: guard_refines_def record_attempt_state record_outcome_state saturated_Suc
       note_state_changed_def reset_failures_def)

lemma guard_refined: "guard_refines ext (run_guard ext ops) (rev ops)"
proof (induction ops rule: rev_induct)
  case Nil
  then show ?case by (simp add: run_guard_def default_loop_guard_def guard_refines_def)
next
  case (snoc op ops)
  then show ?case using guard_step_refines by (simp add: run_guard_def)
qed

lemma guard_history:
  "saturated (or_insert_0 (call_counts (run_guard ext ops) key))
     (attempts_since_change ext key (rev ops))"
  "saturated (or_insert_0 (failure_counts (run_guard ext ops) tool))
     (failure_streak tool (rev ops))"
  using guard_refined [of ext ops] unfolding guard_refines_def by blast+

lemma record_attempt_blocks:
  "is_Block (snd (record_attempt ext g tool args)) \<longleftrightarrow>
     3 \<le> sat_add (or_insert_0 (call_counts g (tool, hash_args ext args))) 1"
  by (simp add: record_attempt_def Let_def IDENTICAL_CALL_BLOCK_THRESHOLD_def)

lemma record_outcome_decides:
  "is_Halt (snd (record_outcome g tool ok)) \<longleftrightarrow>
     \<not> ok \<and> 8 \<le> sat_add (or_insert_0 (failure_counts g tool)) 1"
  "is_Warn (snd (record_outcome g tool ok)) \<longleftrightarrow>
     \<not> ok \<and> sat_add (or_insert_0 (failure_counts g tool)) 1 = 3"
  by (auto simp: record_outcome_def Let_def FAILURE_HALT_THRESHOLD_def
      FAILURE_WARN_THRESHOLD_def)

lemma attempt_blocks_history:
  "is_Block (snd (record_attempt ext (run_guard ext ops) tool args)) \<longleftrightarrow>
     2 \<le> attempts_since_change ext (tool, hash_args ext args) (rev ops)"
  using saturated_threshold(1) [OF saturated_Suc [OF guard_history(1)], of 3 ext]
  by (simp add: record_attempt_blocks)

lemma outcome_decides_history:
  "is_Halt (snd (record_outcome (run_guard ext ops) tool ok)) \<longleftrightarrow>
      \<not> ok \<and> 7 \<le> failure_streak tool (rev ops)"
  "is_Warn (snd (record_outcome (run_guard ext ops) tool ok)) \<longleftrightarrow>
      \<not> ok \<and> failure_streak tool (rev ops) = 2"
  using saturated_threshold [OF saturated_Suc [OF guard_history(2) [of ext ops tool]], of 8]
    saturated_threshold [OF saturated_Suc [OF guard_history(2) [of ext ops tool]], of 3]
  by (simp_all add: record_outcome_decides)


text \<open>
  A tool outcome halts the turn exactly on the eighth or a later failure in a row, and
  warns exactly on the third; a success or a granted continuation starts the count again.
\<close>
theorem outcome_decision_iff:
  "(is_Halt (snd (record_outcome (run_guard ext ops) tool ok)) \<longleftrightarrow>
      \<not> ok \<and> 7 \<le> failure_streak tool (rev ops)) \<and>
   (is_Warn (snd (record_outcome (run_guard ext ops) tool ok)) \<longleftrightarrow>
      \<not> ok \<and> failure_streak tool (rev ops) = 2)"
  by (simp add: outcome_decides_history)

section \<open>Reordered arguments are the same call\<close>

inductive json_same :: "json \<Rightarrow> json \<Rightarrow> bool" where
  same_refl: "json_same v v"
| same_array: "list_all2 json_same xs ys \<Longrightarrow> json_same (JArray xs) (JArray ys)"
| same_object:
    "distinct (map fst es) \<Longrightarrow> list_all2 (rel_prod (=) json_same) es fs \<Longrightarrow>
     mset gs = mset fs \<Longrightarrow> json_same (JObject es) (JObject gs)"

lemma sort_key_fst_unique:
  assumes "distinct (map fst es)" and "mset es = mset fs"
  shows "sort_key fst es = sort_key fst (fs :: ('a::linorder \<times> 'b) list)"
proof (rule map_sorted_distinct_set_unique)
  have eq: "set es = set fs" using assms(2) by (metis set_mset_mset)
  have "mset (map fst es) = mset (map fst fs)" using assms(2) by simp
  then have keys: "distinct (map fst fs)" using assms(1) mset_eq_imp_distinct_iff by blast
  show "inj_on fst (set (sort_key fst es) \<union> set (sort_key fst fs))"
    using assms(1) eq by (simp add: distinct_map)
  show "distinct (map fst (sort_key fst es))" "distinct (map fst (sort_key fst fs))"
    using assms(1) keys by (simp_all add: distinct_map)
  show "set (sort_key fst es) = set (sort_key fst fs)" using eq by simp
qed simp_all

lemma json_same_canonical: "json_same v w \<Longrightarrow> write_canonical_json ext v = write_canonical_json ext w"
proof (induction rule: json_same.induct)
  case (same_array xs ys)
  have "list_all2 (\<lambda>x y. write_canonical_json ext x = write_canonical_json ext y) xs ys"
    using same_array.IH by (rule list.rel_mono_strong) simp
  then have "map (write_canonical_json ext) xs = map (write_canonical_json ext) ys"
    by (simp add: list_all2_conv_all_nth list_eq_iff_nth_eq)
  then show ?case by simp
next
  case (same_object es fs gs)
  let ?w = "\<lambda>(k, v). (k, write_canonical_json ext v)"
  have "list_all2 (\<lambda>x y. ?w x = ?w y) es fs"
    using same_object.IH by (rule list.rel_mono_strong) (auto simp: rel_prod_sel)
  then have maps: "map ?w es = map ?w fs"
    by (simp add: list_all2_conv_all_nth list_eq_iff_nth_eq)
  have keys: "map fst (map ?w es) = map fst es" by (auto simp: case_prod_beta)
  have "distinct (map fst (map ?w es))" unfolding keys by (rule same_object.hyps(1))
  then have "sort_key fst (map ?w es) = sort_key fst (map ?w gs)"
    using maps same_object.hyps(2) by (intro sort_key_fst_unique) (simp_all add: mset_map)
  then show ?case by simp
qed simp

text \<open>
  Reordering the entries of objects anywhere inside the arguments does not evade the guard:
  such a call has the same canonical text, so it shares the counter of the original.
\<close>
theorem reordered_arguments_same_call:
  assumes "json_same args args'"
  shows "record_attempt ext g tool args' = record_attempt ext g tool args"
  using json_same_canonical [OF assms, of ext]
  by (simp add: record_attempt_def hash_args_def)

theorem reordered_arguments_same_call_witness:
  "record_attempt quiet_externals default_loop_guard ''read_file''
     (JObject [(''a'', JNull), (''b'', JArray [JObject [(''y'', JBool True), (''x'', JNull)]])]) =
   record_attempt quiet_externals default_loop_guard ''read_file''
     (JObject [(''b'', JArray [JObject [(''x'', JNull), (''y'', JBool True)]]), (''a'', JNull)])"
proof -
  have "json_same (JObject [(''x'', JNull), (''y'', JBool True)])
      (JObject [(''y'', JBool True), (''x'', JNull)])"
    by (rule same_object [of _ "[(''x'', JNull), (''y'', JBool True)]"])
       (simp_all add: same_refl)
  then have "json_same
      (JObject [(''b'', JArray [JObject [(''x'', JNull), (''y'', JBool True)]]), (''a'', JNull)])
      (JObject [(''a'', JNull), (''b'', JArray [JObject [(''y'', JBool True), (''x'', JNull)]])])"
    by (intro same_object [of _
          "[(''b'', JArray [JObject [(''y'', JBool True), (''x'', JNull)]]), (''a'', JNull)]"])
       (simp_all add: same_refl same_array)
  from reordered_arguments_same_call [OF this] show ?thesis .
qed

section \<open>Replaying the guard from a log\<close>

text \<open>\<open>guard_projection_policy.rs\<close>\<close>

definition count_loop_guard_triggered :: "kernel_event list \<Rightarrow> u32" where
  "count_loop_guard_triggered events = count_u32 is_LoopGuardTriggered events"

definition count_capacity_checkpoints :: "kernel_event list \<Rightarrow> u32" where
  "count_capacity_checkpoints events = count_u32 is_CapacityCheckpoint events"

fun checkpoint_action :: "kernel_event \<Rightarrow> capacity_action option" where
  "checkpoint_action (CapacityCheckpoint _ _ _ _ _ act _) = Some act"
| "checkpoint_action _ = None"

definition last_capacity_checkpoint_action :: "kernel_event list \<Rightarrow> capacity_action option" where
  "last_capacity_checkpoint_action events = find_map checkpoint_action (rev events)"

text \<open>\<open>loop_guard_replay_policy.rs\<close>\<close>

record trigger_expectations =
  identical_blocks :: u32
  failure_halts :: u32

record trigger_log_counts =
  identical_tool_call :: u32
  failure_halt :: u32
  deferred_set_area_batch :: u32
  other_reason :: u32

fun trigger_reason :: "kernel_event \<Rightarrow> string option" where
  "trigger_reason (LoopGuardTriggered _ _ r) = Some r"
| "trigger_reason _ = None"

definition count_trigger_reason :: "trigger_log_counts \<Rightarrow> string \<Rightarrow> trigger_log_counts" where
  "count_trigger_reason c r =
     (if r = ''identical_tool_call'' then c\<lparr>identical_tool_call := identical_tool_call c + 1\<rparr>
      else if r = ''failure_halt'' then c\<lparr>failure_halt := failure_halt c + 1\<rparr>
      else if r = ''deferred_set_area_batch''
        then c\<lparr>deferred_set_area_batch := deferred_set_area_batch c + 1\<rparr>
      else c\<lparr>other_reason := other_reason c + 1\<rparr>)"

definition count_loop_guard_triggers_by_reason :: "kernel_event list \<Rightarrow> trigger_log_counts" where
  "count_loop_guard_triggers_by_reason events =
     foldl (\<lambda>c e. case trigger_reason e of None \<Rightarrow> c | Some r \<Rightarrow> count_trigger_reason c r)
       \<lparr>identical_tool_call = 0, failure_halt = 0, deferred_set_area_batch = 0, other_reason = 0\<rparr>
       events"

fun simulate_trigger ::
  "externals \<Rightarrow> loop_guard \<times> trigger_expectations \<Rightarrow> kernel_event \<Rightarrow>
   loop_guard \<times> trigger_expectations" where
  "simulate_trigger ext (g, out) (ToolCallPlanned _ _ _ name input _) =
     (let args = (case json_from_str ext input of Some v \<Rightarrow> v | None \<Rightarrow> JNull);
          (g', decision) = record_attempt ext g name args
      in (g', if is_Block decision then out\<lparr>identical_blocks := identical_blocks out + 1\<rparr>
              else out))"
| "simulate_trigger ext (g, out) (ToolCallFinished _ _ name outcome _ wrote _ _) =
     (let ok = (outcome = Success);
          (g', decision) = record_outcome g name ok;
          out' = (if is_Halt decision then out\<lparr>failure_halts := failure_halts out + 1\<rparr> else out)
      in (if ok \<and> wrote \<and> is_state_mutating_tool name then note_state_changed g' else g', out'))"
| "simulate_trigger ext (g, out) (LoopGuardContinuation _ _) = (reset_failures g, out)"
| "simulate_trigger ext (g, out) _ = (g, out)"

definition simulate_loop_guard_trigger_expectations ::
  "externals \<Rightarrow> kernel_event list \<Rightarrow> trigger_expectations" where
  "simulate_loop_guard_trigger_expectations ext events =
     snd (foldl (simulate_trigger ext)
       (default_loop_guard, \<lparr>identical_blocks = 0, failure_halts = 0\<rparr>) events)"

fun references_call :: "call_id \<Rightarrow> kernel_event \<Rightarrow> bool" where
  "references_call cid (ToolCallPlanned _ _ i _ _ _) = (i = cid)"
| "references_call cid (ToolCallStarted _ i _) = (i = cid)"
| "references_call cid (ToolCallFinished _ i _ _ _ _ _ _) = (i = cid)"
| "references_call cid _ = False"

definition call_id_referenced_in_turn :: "kernel_event list \<Rightarrow> call_id \<Rightarrow> bool" where
  "call_id_referenced_in_turn events cid = list_ex (references_call cid) events"

fun trigger_call_id :: "kernel_event \<Rightarrow> call_id option" where
  "trigger_call_id (LoopGuardTriggered _ cid _) = Some cid"
| "trigger_call_id _ = None"


definition verify_loop_guard_replay_coherence ::
  "externals \<Rightarrow> kernel_event list \<Rightarrow> diff list option" where
  "verify_loop_guard_replay_coherence ext events =
     (if count_loop_guard_triggered events = 0 then None
      else
        let log = count_loop_guard_triggers_by_reason events;
            sim = simulate_loop_guard_trigger_expectations ext events
        in report
          (push_if (failure_halt log \<noteq> failure_halts sim)
             (Fmt ''failure_halt log={} sim={}''
               [ArgU32 (failure_halt log), ArgU32 (failure_halts sim)]) @
           push_if (identical_tool_call log < identical_blocks sim)
             (Fmt ''identical_tool_call log={} < sim={}''
               [ArgU32 (identical_tool_call log), ArgU32 (identical_blocks sim)]) @
           concat (map (\<lambda>cid. push_if (\<not> call_id_referenced_in_turn events cid)
               (Fmt ''loop_guard_trigger call_id {} unreferenced'' [ArgStr cid]))
             (List.map_filter trigger_call_id events))))"

fun trigger_reasons_loop ::
  "u32 \<Rightarrow> (u32 \<Rightarrow> (string \<Rightarrow> u32 option) option) \<Rightarrow> kernel_event list \<Rightarrow>
   (u32 \<Rightarrow> (string \<Rightarrow> u32 option) option)" where
  "trigger_reasons_loop current out [] = out"
| "trigger_reasons_loop current out (e # es) =
     (let current' = (case request_step e of Some s \<Rightarrow> s | None \<Rightarrow> current)
      in case trigger_reason e of
           None \<Rightarrow> trigger_reasons_loop current' out es
         | Some r \<Rightarrow> trigger_reasons_loop current' (bump_nested out current' r) es)"

definition loop_guard_trigger_reasons_by_step ::
  "kernel_event list \<Rightarrow> (u32 \<Rightarrow> (string \<Rightarrow> u32 option) option)" where
  "loop_guard_trigger_reasons_by_step events = trigger_reasons_loop 0 Map.empty events"

section \<open>The simulation replays the history\<close>

fun sim_ops :: "externals \<Rightarrow> kernel_event \<Rightarrow> guard_op list" where
  "sim_ops ext (ToolCallPlanned _ _ _ name input _) =
     [Attempt name (case json_from_str ext input of Some v \<Rightarrow> v | None \<Rightarrow> JNull)]"
| "sim_ops ext (ToolCallFinished _ _ name outcome _ wrote _ _) =
     Outcome name (outcome = Success) #
     (if outcome = Success \<and> wrote \<and> is_state_mutating_tool name then [StateChanged] else [])"
| "sim_ops ext (LoopGuardContinuation _ _) = [ResetFailures]"
| "sim_ops ext _ = []"

text \<open>When the history, newest operation first, calls for a block or a halt at an event.\<close>

fun block_due :: "externals \<Rightarrow> guard_op list \<Rightarrow> kernel_event \<Rightarrow> bool" where
  "block_due ext hist (ToolCallPlanned _ _ _ name input _) =
     (2 \<le> attempts_since_change ext
        (name, hash_args ext (case json_from_str ext input of Some v \<Rightarrow> v | None \<Rightarrow> JNull)) hist)"
| "block_due ext hist _ = False"

fun halt_due :: "externals \<Rightarrow> guard_op list \<Rightarrow> kernel_event \<Rightarrow> bool" where
  "halt_due ext hist (ToolCallFinished _ _ name outcome _ _ _ _) =
     (outcome \<noteq> Success \<and> 7 \<le> failure_streak name hist)"
| "halt_due ext hist _ = False"

fun count_due ::
  "externals \<Rightarrow> (externals \<Rightarrow> guard_op list \<Rightarrow> kernel_event \<Rightarrow> bool) \<Rightarrow> guard_op list \<Rightarrow>
   kernel_event list \<Rightarrow> nat" where
  "count_due ext due hist [] = 0"
| "count_due ext due hist (e # es) =
     of_bool (due ext hist e) + count_due ext due (rev (sim_ops ext e) @ hist) es"

lemma run_guard_snoc: "run_guard ext (ops @ ops') = foldl (guard_step ext) (run_guard ext ops) ops'"
  by (simp add: run_guard_def)

lemma simulate_trigger_step:
  assumes "simulate_trigger ext (run_guard ext ops, out) e = (g', out')"
  shows "g' = run_guard ext (ops @ sim_ops ext e) \<and>
    identical_blocks out' = identical_blocks out + of_bool (block_due ext (rev ops) e) \<and>
    failure_halts out' = failure_halts out + of_bool (halt_due ext (rev ops) e)"
proof (cases e)
  case (ToolCallPlanned t n cid name input d)
  then show ?thesis
    using assms attempt_blocks_history [of ext ops name
        "case json_from_str ext input of Some v \<Rightarrow> v | None \<Rightarrow> JNull"]
    by (auto simp: Let_def run_guard_snoc split: prod.splits if_splits)
next
  case (ToolCallFinished t cid name outcome dur wrote pre body)
  then show ?thesis
    using assms outcome_decides_history [of ext ops name "outcome = Success"]
    by (auto simp: Let_def run_guard_snoc split: prod.splits if_splits)
qed (use assms in \<open>auto simp: run_guard_snoc\<close>)

lemma simulate_history:
  "foldl (simulate_trigger ext) (run_guard ext ops, out) es = (g', out') \<Longrightarrow>
   identical_blocks out' =
     identical_blocks out + of_nat (count_due ext block_due (rev ops) es) \<and>
   failure_halts out' = failure_halts out + of_nat (count_due ext halt_due (rev ops) es)"
proof (induction es arbitrary: ops out)
  case (Cons e es)
  obtain g1 out1 where step: "simulate_trigger ext (run_guard ext ops, out) e = (g1, out1)"
    by (cases "simulate_trigger ext (run_guard ext ops, out) e")
  note s = simulate_trigger_step [OF step]
  have "foldl (simulate_trigger ext) (run_guard ext (ops @ sim_ops ext e), out1) es = (g', out')"
    using Cons.prems step s by simp
  from Cons.IH [OF this] s show ?case by simp
qed simp

lemma simulation_counts:
  "identical_blocks (simulate_loop_guard_trigger_expectations ext es) =
     of_nat (count_due ext block_due [] es)"
  "failure_halts (simulate_loop_guard_trigger_expectations ext es) =
     of_nat (count_due ext halt_due [] es)"
  using simulate_history [of ext "[]" "\<lparr>identical_blocks = 0, failure_halts = 0\<rparr>" es]
  by (simp_all add: simulate_loop_guard_trigger_expectations_def run_guard_def
      split: prod.splits) (metis prod.collapse)+

definition has_reason :: "string \<Rightarrow> kernel_event \<Rightarrow> bool" where
  "has_reason r e \<longleftrightarrow> trigger_reason e = Some r"

lemma logged_reasons:
  "failure_halt (count_loop_guard_triggers_by_reason es) = count_u32 (has_reason ''failure_halt'') es"
  "identical_tool_call (count_loop_guard_triggers_by_reason es) =
     count_u32 (has_reason ''identical_tool_call'') es"
proof -
  have "failure_halt (foldl (\<lambda>c e. case trigger_reason e of None \<Rightarrow> c
      | Some r \<Rightarrow> count_trigger_reason c r) c es) =
      failure_halt c + count_u32 (has_reason ''failure_halt'') es \<and>
    identical_tool_call (foldl (\<lambda>c e. case trigger_reason e of None \<Rightarrow> c
      | Some r \<Rightarrow> count_trigger_reason c r) c es) =
      identical_tool_call c + count_u32 (has_reason ''identical_tool_call'') es" for c
    by (induction es arbitrary: c)
       (auto simp: has_reason_def count_trigger_reason_def split: option.split)
  then show "failure_halt (count_loop_guard_triggers_by_reason es) =
      count_u32 (has_reason ''failure_halt'') es"
    "identical_tool_call (count_loop_guard_triggers_by_reason es) =
      count_u32 (has_reason ''identical_tool_call'') es"
    by (simp_all add: count_loop_guard_triggers_by_reason_def)
qed

text \<open>
  The guard check of a log that records a trigger passes exactly when the log records as
  many failure halts as its outcomes call for, at least as many identical-call triggers as its
  planned calls call for (both counted as \<open>u32\<close>), and every trigger names a call of the turn.
\<close>
theorem loop_guard_replay_coherent_iff:
  "verify_loop_guard_replay_coherence ext es = None \<longleftrightarrow>
     count_u32 is_LoopGuardTriggered es = 0 \<or>
     count_u32 (has_reason ''failure_halt'') es = of_nat (count_due ext halt_due [] es) \<and>
     of_nat (count_due ext block_due [] es) \<le> count_u32 (has_reason ''identical_tool_call'') es \<and>
     (\<forall>cid \<in> set (List.map_filter trigger_call_id es). \<exists>e \<in> set es. references_call cid e)"
  by (auto simp: verify_loop_guard_replay_coherence_def count_loop_guard_triggered_def Let_def
      simulation_counts logged_reasons call_id_referenced_in_turn_def list_ex_iff)

text \<open>A log whose outcomes call for one halt, and which records it.\<close>

theorem loop_guard_replay_coherent_iff_witness:
  "verify_loop_guard_replay_coherence quiet_externals
     (concat (replicate 8 [ToolCallFinished ''t'' ''c'' ''read_file'' Timeout 1 False [] []]) @
      [LoopGuardTriggered ''t'' ''c'' ''failure_halt'']) = None"
  unfolding loop_guard_replay_coherent_iff
  by (simp add: has_reason_def List.map_filter_def numeral_eq_Suc)

end
