(* ===== verification/Memory_Plane.thy ===== *)
theory Memory_Plane
  imports Loop_Guard
begin

text \<open>
  Memory-plane bookkeeping replayed from the log: layer counts
  (\<open>turn_loop/memory_plane_projection_policy.rs\<close>), the compaction timeline and its session
  cross-check (\<open>engine/turn_machine.rs\<close>, \<open>turn_loop/memory_plane_archival_policy.rs\<close>), tool
  signals of the working layer (\<open>turn_loop/memory_plane_working_policy.rs\<close>), query replay
  (\<open>turn_loop/memory_plane_query_replay_policy.rs\<close>), compiler sources
  (\<open>turn_loop/memory_plane_compiler_policy.rs\<close>), layered-context seams, system-prompt refresh
  and capacity fields (\<open>layered_context_replay_policy.rs\<close>,
  \<open>system_prompt_refresh_policy.rs\<close>, \<open>system_prompt_refresh_replay_policy.rs\<close>,
  \<open>capacity_replay_policy.rs\<close>).
\<close>

section \<open>Layer counts\<close>

record memory_plane_layer_counts =
  working_count :: u32
  episodic_count :: u32
  archival_count :: u32

fun layer_count :: "memory_plane_layer_counts \<Rightarrow> memory_plane_layer \<Rightarrow> u32" where
  "layer_count c Working = working_count c"
| "layer_count c Episodic = episodic_count c"
| "layer_count c Archival = archival_count c"

definition layer_total :: "memory_plane_layer_counts \<Rightarrow> u32" where
  "layer_total c = sat_add (sat_add (working_count c) (episodic_count c)) (archival_count c)"

definition is_working_event :: "kernel_event \<Rightarrow> bool" where
  "is_working_event e \<longleftrightarrow>
     is_ScratchpadReminderInjected e \<or> is_CycleBriefingInjected e \<or> is_SteerInjected e \<or>
     is_StepLimitContinuation e \<or> is_LoopGuardContinuation e"

fun count_layers_loop ::
  "bool \<Rightarrow> memory_plane_layer_counts \<Rightarrow> kernel_event list \<Rightarrow> memory_plane_layer_counts" where
  "count_layers_loop summary_seen out [] = out"
| "count_layers_loop summary_seen out (e # es) =
     (if is_working_event e then
        count_layers_loop summary_seen (out\<lparr>working_count := working_count out + 1\<rparr>) es
      else if is_ScratchpadSummaryInjected e then
        if \<not> summary_seen
        then count_layers_loop True (out\<lparr>working_count := working_count out + 1\<rparr>) es
        else count_layers_loop summary_seen out es
      else if is_CompactionArtifactCreated e then
        count_layers_loop summary_seen (out\<lparr>archival_count := archival_count out + 1\<rparr>) es
      else if is_TopicMemoryInjected e then
        count_layers_loop summary_seen (out\<lparr>episodic_count := episodic_count out + 1\<rparr>) es
      else count_layers_loop summary_seen out es)"

definition count_memory_plane_layers :: "kernel_event list \<Rightarrow> memory_plane_layer_counts" where
  "count_memory_plane_layers events =
     count_layers_loop False \<lparr>working_count = 0, episodic_count = 0, archival_count = 0\<rparr> events"

definition memory_plane_layer_counts_from_projection ::
  "turn_kernel_projection \<Rightarrow> memory_plane_layer_counts" where
  "memory_plane_layer_counts_from_projection p =
     \<lparr>working_count =
        sat_add (sat_add (sat_add (sat_add (sat_add (pj_scratchpad_reminder_count p)
          (of_bool (pj_scratchpad_summary_injected p)))
          (pj_cycle_briefing_count p)) (pj_steer_injection_count p))
          (pj_step_limit_continuations p)) (pj_loop_guard_continuations p),
      episodic_count = pj_topic_memory_injection_count p,
      archival_count = pj_compaction_artifact_count p\<rparr>"

definition verify_memory_plane_layer_coherence ::
  "externals \<Rightarrow> kernel_event list \<Rightarrow> diff list option" where
  "verify_memory_plane_layer_coherence ext events =
     (if layer_total (count_memory_plane_layers events) = 0 then None
      else
        let log = count_memory_plane_layers events;
            proj = memory_plane_layer_counts_from_projection (from_events ext events)
        in report (concat (map (\<lambda>layer.
             push_if (layer_count log layer \<noteq> layer_count proj layer)
               (Fmt ''{} log={} proj={}'' [ArgStr (layer_as_str layer),
                 ArgU32 (layer_count log layer), ArgU32 (layer_count proj layer)]))
             [Working, Episodic, Archival])))"

lemma count_layers_loop_counts:
  "working_count (count_layers_loop seen out es) =
     working_count out + count_u32 is_working_event es +
     of_bool (\<not> seen \<and> list_ex is_ScratchpadSummaryInjected es)"
  "episodic_count (count_layers_loop seen out es) =
     episodic_count out + count_u32 is_TopicMemoryInjected es"
  "archival_count (count_layers_loop seen out es) =
     archival_count out + count_u32 is_CompactionArtifactCreated es"
proof (induction es arbitrary: seen out)
  case (Cons e es)
  { case 1 then show ?case by (cases e) (simp_all add: Cons is_working_event_def) next
    case 2 then show ?case by (cases e) (simp_all add: Cons is_working_event_def) next
    case 3 then show ?case by (cases e) (simp_all add: Cons is_working_event_def) }
qed simp_all

lemma working_split:
  "count_if is_working_event es =
     count_if is_ScratchpadReminderInjected es + count_if is_CycleBriefingInjected es +
     count_if is_SteerInjected es + count_if is_StepLimitContinuation es +
     count_if is_LoopGuardContinuation es"
proof (induction es)
  case (Cons e es)
  then show ?case by (cases e) (simp_all add: is_working_event_def)
qed simp

lemma summary_and_working:
  "of_bool (list_ex is_ScratchpadSummaryInjected es) + count_if is_working_event es \<le> length es"
proof -
  have "of_bool (list_ex is_ScratchpadSummaryInjected es)
      \<le> count_if is_ScratchpadSummaryInjected es"
    by (induction es) auto
  moreover have "count_if is_ScratchpadSummaryInjected es + count_if is_working_event es
      \<le> length es"
  proof (induction es)
    case (Cons e es)
    then show ?case by (cases e) (simp_all add: is_working_event_def)
  qed simp
  ultimately show ?thesis by linarith
qed

lemma sat_add_sum:
  "unat a = m \<Longrightarrow> unat (b :: u32) = n \<Longrightarrow> m + n < 2 ^ 32 \<Longrightarrow> unat (sat_add a b) = m + n"
  by (simp add: unat_sat_add)

lemma projected_working:
  assumes "length es < 2 ^ 32"
  shows "unat (working_count (memory_plane_layer_counts_from_projection (from_events ext es))) =
    count_if is_working_event es + of_bool (list_ex is_ScratchpadSummaryInjected es)"
proof -
  let ?p = "from_events ext es"
  have c: "unat (pj_scratchpad_reminder_count ?p) = count_if is_ScratchpadReminderInjected es"
    "unat (pj_cycle_briefing_count ?p) = count_if is_CycleBriefingInjected es"
    "unat (pj_steer_injection_count ?p) = count_if is_SteerInjected es"
    "unat (pj_step_limit_continuations ?p) = count_if is_StepLimitContinuation es"
    "unat (pj_loop_guard_continuations ?p) = count_if is_LoopGuardContinuation es"
    using assms
    by (simp_all add: reminders.get_from_events briefings.get_from_events steers.get_from_events
        step_limits.get_from_events guard_continuations.get_from_events unat_count_u32)
  have s: "unat (of_bool (pj_scratchpad_summary_injected ?p) :: u32) =
      of_bool (list_ex is_ScratchpadSummaryInjected es)"
    by (simp add: summary_injected_iff list_ex_iff)
  have bound: "of_bool (list_ex is_ScratchpadSummaryInjected es) + count_if is_working_event es
      < 2 ^ 32"
    using assms summary_and_working [of es] by linarith
  have "unat (working_count (memory_plane_layer_counts_from_projection ?p)) =
      count_if is_ScratchpadReminderInjected es +
      of_bool (list_ex is_ScratchpadSummaryInjected es) +
      count_if is_CycleBriefingInjected es + count_if is_SteerInjected es +
      count_if is_StepLimitContinuation es + count_if is_LoopGuardContinuation es"
    unfolding memory_plane_layer_counts_from_projection_def
      memory_plane_layer_counts.select_convs
    by (intro sat_add_sum c s) (use bound working_split [of es] in linarith)+
  then show ?thesis using working_split [of es] by linarith
qed

lemma layers_agree:
  assumes "length es < 2 ^ 32"
  shows "count_memory_plane_layers es =
    memory_plane_layer_counts_from_projection (from_events ext es)"
proof (rule memory_plane_layer_counts.equality)
  define X where "X = count_if is_working_event es +
    of_bool (list_ex is_ScratchpadSummaryInjected es)"
  have "X < 2 ^ 32" using assms summary_and_working [of es] by (simp add: X_def)
  then have "(of_nat X :: u32) =
      working_count (memory_plane_layer_counts_from_projection (from_events ext es))"
    using projected_working [OF assms, of ext]
    by (simp add: word_unat_eq_iff unat_of_nat flip: X_def)
  then show "working_count (count_memory_plane_layers es) =
      working_count (memory_plane_layer_counts_from_projection (from_events ext es))"
    by (simp add: X_def count_memory_plane_layers_def count_layers_loop_counts count_u32_def)
qed (simp_all add: count_memory_plane_layers_def count_layers_loop_counts
    memory_plane_layer_counts_from_projection_def topic_injections.get_from_events
    artifacts.get_from_events)

lemma layer_coherence_holds:
  "length es < 2 ^ 32 \<Longrightarrow> verify_memory_plane_layer_coherence ext es = None"
  using layers_agree [of es ext] by (simp add: verify_memory_plane_layer_coherence_def Let_def)

section \<open>The compaction timeline\<close>

record thread_compaction_replay_entry =
  ce_turn_id :: string
  ce_artifact_id :: string
  ce_replaced_from :: u32
  ce_replaced_to :: u32
  ce_messages_removed_count :: u32
  ce_summary_token_count :: u32

record thread_compaction_replay_index =
  artifact_count :: u32
  messages_removed_estimate :: u32
  peak_session_depth_hint :: u32

record session_compaction_artifact_entry =
  se_artifact_id :: string
  se_replaced_start :: u32
  se_replaced_end :: u32
  se_messages_removed_count :: u32
  se_summary_token_count :: u32

text \<open>\<open>CompactionArtifact\<close> (\<open>crates/core/src/compaction.rs\<close>), the fields the index reads.\<close>

record compaction_artifact =
  ca_id :: string
  ca_replaced_start :: nat
  ca_replaced_end :: nat
  ca_summary_tokens :: u32

definition replaced_count :: "compaction_artifact \<Rightarrow> nat" where
  "replaced_count a = ca_replaced_end a - ca_replaced_start a"

definition covers_index :: "compaction_artifact \<Rightarrow> nat \<Rightarrow> bool" where
  "covers_index a idx \<longleftrightarrow> idx \<ge> ca_replaced_start a \<and> idx < ca_replaced_end a"

definition build_session_compaction_artifact_index ::
  "compaction_artifact list \<Rightarrow> session_compaction_artifact_entry list" where
  "build_session_compaction_artifact_index artifacts =
     map (\<lambda>a. \<lparr>se_artifact_id = ca_id a,
       se_replaced_start = of_nat (ca_replaced_start a),
       se_replaced_end = of_nat (ca_replaced_end a),
       se_messages_removed_count = of_nat (replaced_count a),
       se_summary_token_count = ca_summary_tokens a\<rparr>) artifacts"

definition compaction_messages_removed_count :: "u32 \<Rightarrow> u32 \<Rightarrow> u32" where
  "compaction_messages_removed_count replaced_from replaced_to =
     (if replaced_to \<ge> replaced_from then replaced_to - replaced_from + 1 else 0)"

fun compaction_entry :: "kernel_event \<Rightarrow> thread_compaction_replay_entry option" where
  "compaction_entry (CompactionArtifactCreated t aid rng tokens) =
     Some \<lparr>ce_turn_id = t, ce_artifact_id = aid, ce_replaced_from = range_from rng,
       ce_replaced_to = range_to rng,
       ce_messages_removed_count =
         compaction_messages_removed_count (range_from rng) (range_to rng),
       ce_summary_token_count = tokens\<rparr>"
| "compaction_entry _ = None"

definition replay_thread_compaction_timeline ::
  "turn_log list \<Rightarrow> thread_compaction_replay_entry list" where
  "replay_thread_compaction_timeline turns =
     concat (map (\<lambda>(_, events). List.map_filter compaction_entry events) turns)"

definition replay_thread_compaction_index ::
  "thread_compaction_replay_entry list \<Rightarrow> thread_compaction_replay_index" where
  "replay_thread_compaction_index timeline =
     \<lparr>artifact_count = of_nat (length timeline),
      messages_removed_estimate =
        foldl (\<lambda>n entry. sat_add n (ce_messages_removed_count entry)) 0 timeline,
      peak_session_depth_hint =
        foldl (\<lambda>n entry. max n (sat_add (ce_replaced_to entry) 1)) 0 timeline\<rparr>"

definition compare_artifact ::
  "thread_compaction_replay_entry \<Rightarrow> session_compaction_artifact_entry \<Rightarrow> diff list" where
  "compare_artifact k s =
     (let aid = ArgStr (ce_artifact_id k);
          kernel_end_exclusive = sat_add (ce_replaced_to k) 1 in
      push_if (ce_artifact_id k \<noteq> se_artifact_id s)
        (Fmt ''artifact id mismatch kernel={} session={}'' [aid, ArgStr (se_artifact_id s)]) @
      push_if (ce_replaced_from k \<noteq> se_replaced_start s)
        (Fmt ''artifact {} replaced_start kernel={} session={}''
          [aid, ArgU32 (ce_replaced_from k), ArgU32 (se_replaced_start s)]) @
      push_if (kernel_end_exclusive \<noteq> se_replaced_end s)
        (Fmt ''artifact {} replaced_end kernel={} session={}''
          [aid, ArgU32 kernel_end_exclusive, ArgU32 (se_replaced_end s)]) @
      push_if (ce_messages_removed_count k \<noteq> se_messages_removed_count s)
        (Fmt ''artifact {} removed_count kernel={} session={}''
          [aid, ArgU32 (ce_messages_removed_count k), ArgU32 (se_messages_removed_count s)]) @
      push_if (ce_summary_token_count k \<noteq> se_summary_token_count s)
        (Fmt ''artifact {} summary_tokens kernel={} session={}''
          [aid, ArgU32 (ce_summary_token_count k), ArgU32 (se_summary_token_count s)]))"

definition verify_compaction_artifacts_vs_kernel_timeline ::
  "thread_compaction_replay_entry list \<Rightarrow> session_compaction_artifact_entry list \<Rightarrow>
   diff list option" where
  "verify_compaction_artifacts_vs_kernel_timeline kern session =
     (if kern = [] \<and> session = [] then None
      else if length kern \<noteq> length session then
        Some [Fmt ''kernel compaction events ({}) != session artifacts ({})''
          [ArgUsize (length kern), ArgUsize (length session)]]
      else report (concat (map (\<lambda>(k, s). compare_artifact k s) (zip kern session))))"

text \<open>\<open>memory_plane_archival_policy.rs\<close>\<close>

fun archival_turn_id :: "kernel_event \<Rightarrow> string option" where
  "archival_turn_id (TurnStarted t _ _ _) = Some t"
| "archival_turn_id (CompactionArtifactCreated t _ _ _) = Some t"
| "archival_turn_id _ = None"

definition replay_turn_archival_timeline ::
  "kernel_event list \<Rightarrow> thread_compaction_replay_entry list" where
  "replay_turn_archival_timeline events =
     (let tid = (case find_map archival_turn_id events of Some t \<Rightarrow> t | None \<Rightarrow> ''unknown'')
      in replay_thread_compaction_timeline [(tid, events)])"

fun archival_event_issues :: "nat \<Rightarrow> kernel_event \<Rightarrow> diff list" where
  "archival_event_issues idx (CompactionArtifactCreated _ aid rng tokens) =
     (let f = range_from rng; t = range_to rng;
          expected_removed = compaction_messages_removed_count f t in
      push_if (trim aid = []) (Fmt ''artifact[{}] empty artifact_id'' [ArgUsize idx]) @
      push_if (f > t)
        (Fmt ''artifact[{}] invalid range {}..{}'' [ArgUsize idx, ArgU32 f, ArgU32 t]) @
      push_if (tokens = 0) (Fmt ''artifact[{}] summary_token_count is zero'' [ArgUsize idx]) @
      push_if (expected_removed = 0 \<and> f \<le> t)
        (Fmt ''artifact[{}] replaced_range {}..{} removes zero messages''
          [ArgUsize idx, ArgU32 f, ArgU32 t]))"
| "archival_event_issues idx _ = []"

definition verify_archival_artifact_field_coherence ::
  "externals \<Rightarrow> kernel_event list \<Rightarrow> diff list option" where
  "verify_archival_artifact_field_coherence ext events =
     (let timeline = replay_turn_archival_timeline events in
      if timeline = [] then None
      else
        let projection = from_events ext events;
            archival_layer = archival_count (count_memory_plane_layers events);
            timeline_len = of_nat (length timeline) :: u32
        in report
          (concat (map (\<lambda>(idx, e). archival_event_issues idx e) (enumerate 0 events)) @
           push_if (pj_compaction_artifact_count projection \<noteq> timeline_len)
             (Fmt ''compaction_artifact_count proj={} timeline={}''
               [ArgU32 (pj_compaction_artifact_count projection), ArgU32 timeline_len]) @
           push_if (archival_layer \<noteq> timeline_len)
             (Fmt ''archival layer={} timeline={}'' [ArgU32 archival_layer, ArgU32 timeline_len]) @
           concat (map (\<lambda>entry.
             let expected =
               compaction_messages_removed_count (ce_replaced_from entry) (ce_replaced_to entry)
             in push_if (ce_messages_removed_count entry \<noteq> expected)
               (Fmt ''artifact {} removed_count entry={} expected={}''
                 [ArgStr (ce_artifact_id entry), ArgU32 (ce_messages_removed_count entry),
                  ArgU32 expected])) timeline)))"

definition verify_archival_layer_vs_session ::
  "externals \<Rightarrow> kernel_event list \<Rightarrow> session_compaction_artifact_entry list \<Rightarrow> diff list option"
where
  "verify_archival_layer_vs_session ext events session =
     (let timeline = replay_turn_archival_timeline events in
      if timeline = [] \<and> session = [] then None
      else case verify_archival_artifact_field_coherence ext events of
             Some summary \<Rightarrow> Some summary
           | None \<Rightarrow> verify_compaction_artifacts_vs_kernel_timeline timeline session)"

lemma compaction_entry_iff: "compaction_entry e \<noteq> None \<longleftrightarrow> is_CompactionArtifactCreated e"
  by (cases e) simp_all

lemma timeline_entries:
  "replay_turn_archival_timeline es = List.map_filter compaction_entry es"
  by (simp add: replay_turn_archival_timeline_def replay_thread_compaction_timeline_def Let_def)

lemma length_map_filter: "length (List.map_filter f es) = count_if (\<lambda>e. f e \<noteq> None) es"
  by (simp add: List.map_filter_def count_if_def)

lemma timeline_length:
  "of_nat (length (replay_turn_archival_timeline es)) = count_u32 is_CompactionArtifactCreated es"
  using compaction_entry_iff
  by (simp add: timeline_entries length_map_filter count_u32_def)

lemma timeline_removed:
  "entry \<in> set (replay_turn_archival_timeline es) \<Longrightarrow>
   ce_messages_removed_count entry =
     compaction_messages_removed_count (ce_replaced_from entry) (ce_replaced_to entry)"
proof -
  have "compaction_entry e = Some entry \<Longrightarrow> ce_messages_removed_count entry =
     compaction_messages_removed_count (ce_replaced_from entry) (ce_replaced_to entry)" for e
    by (cases e) auto
  then show "entry \<in> set (replay_turn_archival_timeline es) \<Longrightarrow> ?thesis"
    by (auto simp: timeline_entries List.map_filter_def)
qed

fun archival_event_valid :: "kernel_event \<Rightarrow> bool" where
  "archival_event_valid (CompactionArtifactCreated _ aid rng tokens) =
     (trim aid \<noteq> [] \<and> range_from rng \<le> range_to rng \<and> tokens \<noteq> 0 \<and>
      range_to rng - range_from rng \<noteq> - 1)"
| "archival_event_valid _ = True"

lemma archival_event_issues_Nil: "archival_event_issues idx e = [] \<longleftrightarrow> archival_event_valid e"
  by (cases e) (auto simp: Let_def compaction_messages_removed_count_def not_less
      eq_neg_iff_add_eq_0)

lemma archival_valid_no_artifact: "\<not> is_CompactionArtifactCreated e \<Longrightarrow> archival_event_valid e"
  by (cases e) simp_all

lemma archival_fields_iff:
  "verify_archival_artifact_field_coherence ext es = None \<longleftrightarrow> (\<forall>e \<in> set es. archival_event_valid e)"
proof (cases "replay_turn_archival_timeline es = []")
  case True
  then have "\<forall>e \<in> set es. \<not> is_CompactionArtifactCreated e"
    by (auto simp: timeline_entries List.map_filter_def filter_empty_conv
        simp flip: compaction_entry_iff)
  with True show ?thesis
    by (simp add: verify_archival_artifact_field_coherence_def archival_valid_no_artifact)
next
  case False
  have "(\<forall>x \<in> set (enumerate 0 es). archival_event_valid (snd x)) \<longleftrightarrow>
      (\<forall>e \<in> set es. archival_event_valid e)"
    by (metis (mono_tags, lifting) imageE image_eqI list.set_map map_snd_enumerate)
  with False show ?thesis
    by (simp add: verify_archival_artifact_field_coherence_def Let_def timeline_length
        artifacts.get_from_events count_memory_plane_layers_def count_layers_loop_counts
        archival_event_issues_Nil timeline_removed case_prod_beta)
qed


text \<open>
  The archival check of a turn passes exactly when every compaction artifact it logs has a
  non-blank id, an ordered range, a summary and a range whose length fits \<open>u32\<close>; the counters
  it compares with (projection, layers, timeline, removed counts) agree on every log.
\<close>
theorem archival_fields_coherent_iff:
  "verify_archival_artifact_field_coherence ext es = None \<longleftrightarrow>
     (\<forall>e \<in> set es. archival_event_valid e)"
  by (rule archival_fields_iff)

theorem archival_fields_coherent_iff_witness:
  "verify_archival_artifact_field_coherence quiet_externals
     [CompactionArtifactCreated ''t'' ''a'' \<lparr>range_from = 2, range_to = 5\<rparr> 7] = None"
proof -
  have "trim ''a'' = ''a''" by (simp add: trim_eval)
  then show ?thesis by (simp add: archival_fields_coherent_iff)
qed

section \<open>The session cross-check\<close>

definition session_view ::
  "thread_compaction_replay_entry \<Rightarrow> session_compaction_artifact_entry" where
  "session_view k =
     \<lparr>se_artifact_id = ce_artifact_id k, se_replaced_start = ce_replaced_from k,
      se_replaced_end = sat_add (ce_replaced_to k) 1,
      se_messages_removed_count = ce_messages_removed_count k,
      se_summary_token_count = ce_summary_token_count k\<rparr>"

lemma compare_artifact_Nil: "compare_artifact k s = [] \<longleftrightarrow> session_view k = s"
  by (cases s) (auto simp: compare_artifact_def Let_def session_view_def)

lemma all_zip_iff:
  "length xs = length ys \<Longrightarrow> (\<forall>(x, y) \<in> set (zip xs ys). f x = y) \<longleftrightarrow> map f xs = ys"
  by (induction xs ys rule: list_induct2) auto

text \<open>
  The session store and the log agree on compaction exactly when the store's rows are the
  log's artifacts in order, with the inclusive range end of the log turned into the exclusive
  end of the store (saturating at \<open>u32::MAX\<close>).
\<close>
theorem compaction_cross_check_iff:
  "verify_compaction_artifacts_vs_kernel_timeline kern session = None \<longleftrightarrow>
     session = map session_view kern"
proof (cases "length kern = length session")
  case True
  then show ?thesis
    using all_zip_iff [OF True, of session_view]
    by (auto simp: verify_compaction_artifacts_vs_kernel_timeline_def compare_artifact_Nil
        case_prod_beta)
qed (auto simp: verify_compaction_artifacts_vs_kernel_timeline_def)

section \<open>Tool signals of the working layer\<close>

record working_layer_step_signals =
  sim_readonly_tool_successes :: u32
  sim_scratchpad_writes_this_step :: u32

record working_layer_replay_stats =
  final_step :: working_layer_step_signals
  working_set_path_touches :: u32

definition default_step_signals :: working_layer_step_signals where
  "default_step_signals =
     \<lparr>sim_readonly_tool_successes = 0, sim_scratchpad_writes_this_step = 0\<rparr>"

fun simulate_working_event ::
  "externals \<Rightarrow> working_layer_replay_stats \<times> planned_calls \<Rightarrow> kernel_event \<Rightarrow>
   working_layer_replay_stats \<times> planned_calls" where
  "simulate_working_event ext (st, planned) (ModelRequestIssued _ _ _ _) =
     (st\<lparr>final_step := default_step_signals\<rparr>, planned)"
| "simulate_working_event ext (st, planned) (ToolCallPlanned _ _ cid name input _) =
     (st, planned(cid \<mapsto> (name, input)))"
| "simulate_working_event ext (st, planned) (ToolCallFinished _ cid name outcome _ wrote _ _) =
     (let touched = (case planned cid of
            Some (planned_tool, input) \<Rightarrow> path_touch_from_planned ext planned_tool input
          | None \<Rightarrow> False);
          st1 = (if touched
            then st\<lparr>working_set_path_touches := working_set_path_touches st + 1\<rparr> else st);
          step = final_step st;
          st2 = (if wrote \<and> starts_with name ''scratchpad_'' then
              st1\<lparr>final_step := step\<lparr>sim_scratchpad_writes_this_step :=
                sim_scratchpad_writes_this_step step + 1\<rparr>\<rparr>
            else if \<not> wrote then
              st1\<lparr>final_step := step\<lparr>sim_readonly_tool_successes :=
                sim_readonly_tool_successes step + 1\<rparr>\<rparr>
            else st1)
      in (if outcome = Success then st2 else st, planned(cid := None)))"
| "simulate_working_event ext (st, planned) _ = (st, planned)"

definition simulate_working_layer_signals ::
  "externals \<Rightarrow> kernel_event list \<Rightarrow> working_layer_replay_stats" where
  "simulate_working_layer_signals ext events =
     fst (foldl (simulate_working_event ext)
       (\<lparr>final_step = default_step_signals, working_set_path_touches = 0\<rparr>, Map.empty) events)"

definition verify_working_layer_tool_coherence ::
  "externals \<Rightarrow> kernel_event list \<Rightarrow> diff list option" where
  "verify_working_layer_tool_coherence ext events =
     (let sim = simulate_working_layer_signals ext events in
      if working_set_path_touches sim = 0 \<and> final_step sim = default_step_signals then None
      else
        let p = from_events ext events;
            ro = sim_readonly_tool_successes (final_step sim);
            sw = sim_scratchpad_writes_this_step (final_step sim);
            touches = working_set_path_touches sim
        in report
          (push_if (ro \<noteq> pj_readonly_tool_successes p)
             (Fmt ''readonly_tool_successes sim={} proj={}''
               [ArgU32 ro, ArgU32 (pj_readonly_tool_successes p)]) @
           push_if (sw \<noteq> pj_scratchpad_writes_this_step p)
             (Fmt ''scratchpad_writes sim={} proj={}''
               [ArgU32 sw, ArgU32 (pj_scratchpad_writes_this_step p)]) @
           push_if (touches \<noteq> pj_working_set_path_touch_count p)
             (Fmt ''working_set_path_touches sim={} proj={}''
               [ArgU32 touches, ArgU32 (pj_working_set_path_touch_count p)])))"

text \<open>The signals the projection keeps, as the simulation's record.\<close>

definition projected_signals :: "turn_kernel_projection \<Rightarrow> working_layer_replay_stats" where
  "projected_signals p =
     \<lparr>final_step = \<lparr>sim_readonly_tool_successes = pj_readonly_tool_successes p,
        sim_scratchpad_writes_this_step = pj_scratchpad_writes_this_step p\<rparr>,
      working_set_path_touches = pj_working_set_path_touch_count p\<rparr>"

lemma working_event_simulated:
  "track_planned ext (p, planned) e = (p', planned') \<Longrightarrow>
   simulate_working_event ext (projected_signals p, planned) e =
     (projected_signals (apply_event p' e), planned')"
  by (cases e) (auto simp: projected_signals_def default_step_signals_def Let_def
      record_working_set_path_touch_def split: option.splits if_splits)

lemma working_layer_simulated:
  "fst (foldl (simulate_working_event ext) (projected_signals p, planned) es) =
     projected_signals (from_events_loop ext (p, planned) es)"
proof (induction es arbitrary: p planned)
  case (Cons e es)
  obtain p' planned' where t: "track_planned ext (p, planned) e = (p', planned')"
    by (cases "track_planned ext (p, planned) e")
  show ?case using Cons [of "apply_event p' e" planned'] t working_event_simulated [OF t] by simp
qed simp

lemma working_signals_projected:
  "simulate_working_layer_signals ext es = projected_signals (from_events ext es)"
  using working_layer_simulated [of ext default_projection Map.empty es]
  by (simp add: simulate_working_layer_signals_def from_events_def projected_signals_def
      default_projection_def default_step_signals_def)

lemma working_layer_holds: "verify_working_layer_tool_coherence ext es = None"
  by (simp add: verify_working_layer_tool_coherence_def Let_def working_signals_projected
      projected_signals_def)

text \<open>
  C40. The working-layer simulation is the projection: on every log, the per-step counts of
  read-only successes and scratchpad writes and the count of path touches that the simulation
  replays are the ones \<open>from_events\<close> computes, so its check never reports a difference.
\<close>
theorem working_layer_refines_projection:
  "simulate_working_layer_signals ext es = projected_signals (from_events ext es) \<and>
   verify_working_layer_tool_coherence ext es = None"
  by (simp add: working_signals_projected working_layer_holds)

section \<open>Queries\<close>

definition count_memory_plane_queried_events :: "kernel_event list \<Rightarrow> u32" where
  "count_memory_plane_queried_events events = count_u32 is_MemoryPlaneQueried events"

definition verify_memory_plane_query_replay_coherence ::
  "externals \<Rightarrow> kernel_event list \<Rightarrow> diff list option" where
  "verify_memory_plane_query_replay_coherence ext events =
     (let logged = count_memory_plane_queried_events events in
      if logged = 0 then None
      else
        let replayed = query_memory (replay_effect_counts ext events) in
        if logged = replayed then None
        else Some [Fmt ''memory_plane_queried log={} replay_query_memory={}''
               [ArgU32 logged, ArgU32 replayed]])"

definition verify_memory_plane_query_projection_coherence ::
  "externals \<Rightarrow> kernel_event list \<Rightarrow> diff list option" where
  "verify_memory_plane_query_projection_coherence ext events =
     (let logged = count_memory_plane_queried_events events in
      if logged = 0 then None
      else
        let n = pj_memory_plane_query_count (from_events ext events) in
        if n = logged then None
        else Some [Fmt ''memory_plane_query_count proj={} log={}'' [ArgU32 n, ArgU32 logged]])"

lemma query_projection_holds: "verify_memory_plane_query_projection_coherence ext es = None"
  by (simp add: verify_memory_plane_query_projection_coherence_def Let_def
      count_memory_plane_queried_events_def memory_queries.get_from_events)

fun replay_query_count_loop ::
  "externals \<Rightarrow> u32 \<Rightarrow> turn_kernel_projection \<times> planned_calls \<Rightarrow> u32 \<Rightarrow> kernel_event list \<Rightarrow> u32"
where
  "replay_query_count_loop ext n (p, planned) cnt [] = cnt"
| "replay_query_count_loop ext n (p, planned) cnt (e # es) =
     (case track_planned ext (p, planned) e of
        (p', planned') \<Rightarrow>
          replay_query_count_loop ext n (apply_event p' e, planned')
            (if is_request_of_step n e
             then of_nat (length (query_memory_effects_before_model_call p' None)) else cnt) es)"

definition replay_query_memory_count_at_step ::
  "externals \<Rightarrow> kernel_event list \<Rightarrow> u32 \<Rightarrow> u32" where
  "replay_query_memory_count_at_step ext turn_events n =
     replay_query_count_loop ext n (default_projection, Map.empty) 0 turn_events"

section \<open>Compiler sources\<close>

definition compiler_source_for_query_key :: "string \<Rightarrow> string" where
  "compiler_source_for_query_key key =
     (if key = QUERY_SCRATCHPAD_SUMMARY then ''memory.scratchpad_summary''
      else if key = QUERY_SCRATCHPAD_REMINDER then ''memory.scratchpad_reminder''
      else if key = QUERY_COMPACTION_SUMMARY then ''memory.compaction''
      else if key = QUERY_WORKING_SET then ''working_set''
      else if key = QUERY_USER_MEMORY then ''memory.user''
      else if key = QUERY_TOPIC_EPISODIC then ''topic_memory''
      else ''memory.unknown'')"

definition query_key_has_projection_material :: "turn_kernel_projection \<Rightarrow> string \<Rightarrow> bool" where
  "query_key_has_projection_material p key =
     (if key = QUERY_SCRATCHPAD_SUMMARY then pj_scratchpad_summary_injected p
      else if key = QUERY_SCRATCHPAD_REMINDER then pj_scratchpad_reminder_count p > 0
      else if key = QUERY_COMPACTION_SUMMARY then pj_compaction_artifact_count p > 0
      else if key = QUERY_WORKING_SET then pj_working_set_path_touch_count p > 0
      else if key = QUERY_TOPIC_EPISODIC then pj_topic_memory_injection_count p > 0
      else False)"

definition resolved_compiler_includes_for_queried_sources ::
  "string set \<Rightarrow> bool \<Rightarrow> bool \<Rightarrow> bool \<Rightarrow> bool \<Rightarrow> bool \<times> bool" where
  "resolved_compiler_includes_for_queried_sources queried
     compaction_compiled working_set_compiled compaction_nonempty working_set_nonempty =
     (compaction_compiled \<or> ''memory.compaction'' \<in> queried \<and> compaction_nonempty,
      working_set_compiled \<or> ''working_set'' \<in> queried \<and> working_set_nonempty)"

text \<open>An override is \<open>BudgetPolicy::Elastic\<close> with its source, minimum and maximum.\<close>

record budget_override =
  ov_source_id :: string
  ov_min :: u32
  ov_max :: u32

definition compiler_budget_overrides_for_queried_sources ::
  "string set \<Rightarrow> budget_override list" where
  "compiler_budget_overrides_for_queried_sources queried =
     push_if (''working_set'' \<in> queried)
       \<lparr>ov_source_id = ''working_set'', ov_min = 800, ov_max = 1500\<rparr> @
     push_if (''memory.compaction'' \<in> queried)
       \<lparr>ov_source_id = ''memory.compaction'', ov_min = 512, ov_max = 4000\<rparr>"

definition compiler_queried_sources_from_projection ::
  "turn_kernel_projection \<Rightarrow> string set" where
  "compiler_queried_sources_from_projection p =
     Set.filter (\<lambda>s. s \<noteq> ''memory.unknown'')
       (compiler_source_for_query_key ` pj_memory_plane_queried_keys_this_step p)"

fun query_key_at_step :: "u32 \<Rightarrow> kernel_event \<Rightarrow> string option" where
  "query_key_at_step n (MemoryPlaneQueried _ s _ key _) = (if s = n then Some key else None)"
| "query_key_at_step n _ = None"

fun query_step :: "kernel_event \<Rightarrow> u32 option" where
  "query_step (MemoryPlaneQueried _ s _ _ _) = Some s"
| "query_step _ = None"

definition compiler_sources_logged_at_step :: "kernel_event list \<Rightarrow> u32 \<Rightarrow> string set" where
  "compiler_sources_logged_at_step events n =
     set (map compiler_source_for_query_key (List.map_filter (query_key_at_step n) events))"

definition compiler_sources_from_projection_at_step :: "kernel_event list \<Rightarrow> u32 \<Rightarrow> string set" where
  "compiler_sources_from_projection_at_step events n =
     compiler_queried_sources_from_projection
       (foldl apply_event default_projection (takeWhile (\<lambda>e. \<not> is_request_of_step n e) events))"

definition verify_compiler_queried_sources_coherence ::
  "kernel_event list \<Rightarrow> diff list option" where
  "verify_compiler_queried_sources_coherence events =
     report (concat (map (\<lambda>n.
       let logged = compiler_sources_logged_at_step events n;
           derived = compiler_sources_from_projection_at_step events n
       in push_if (logged \<noteq> derived)
         (Fmt ''step {} compiler_sources log={} projection={}''
           [ArgU32 n, ArgSources logged, ArgSources derived]))
       (btree_set (List.map_filter query_step events))))"

fun verify_memory_plane_compiler_source_coherence :: "kernel_event list \<Rightarrow> diff list option" where
  "verify_memory_plane_compiler_source_coherence [] = None"
| "verify_memory_plane_compiler_source_coherence (MemoryPlaneQueried _ s _ key src # es) =
     (let expected = compiler_source_for_query_key key in
      if src \<noteq> expected then
        Some [Fmt ''step {} query_key={} compiler_source={} expected={}''
          [ArgU32 s, ArgStr key, ArgStr src, ArgStr expected]]
      else verify_memory_plane_compiler_source_coherence es)"
| "verify_memory_plane_compiler_source_coherence (_ # es) =
     verify_memory_plane_compiler_source_coherence es"

fun is_query_of_step :: "u32 \<Rightarrow> kernel_event \<Rightarrow> bool" where
  "is_query_of_step n (MemoryPlaneQueried _ s _ _ _) = (s = n)"
| "is_query_of_step n _ = False"

definition verify_step_query_memory_anchor ::
  "externals \<Rightarrow> kernel_event list \<Rightarrow> u32 \<Rightarrow> diff list option" where
  "verify_step_query_memory_anchor ext turn_events n =
     (let logged = count_if (is_query_of_step n) turn_events;
          replayed = unat (replay_query_memory_count_at_step ext turn_events n)
      in if logged = 0 \<and> replayed = 0 then None
         else if logged = replayed then
           (case verify_memory_plane_compiler_source_coherence
                   (filter (is_query_of_step n) turn_events) of
              Some summary \<Rightarrow> Some [Fmt ''step {} {}'' [ArgU32 n, ArgReport summary]]
            | None \<Rightarrow> None)
         else Some [Fmt ''step {} MemoryPlaneQueried log={} replay_query_memory={}''
                [ArgU32 n, ArgUsize logged, ArgUsize replayed]])"

section \<open>Logged queries replay to themselves\<close>

text \<open>
  How the runtime logs the queries of a step
  (\<open>runtime-server/src/core/engine/memory_plane_query_ops.rs\<close>): one \<open>MemoryPlaneQueried\<close> per
  query effect, with the layer's name and the mapped compiler source.
\<close>

fun query_log_row :: "turn_id \<Rightarrow> u32 \<Rightarrow> effect \<Rightarrow> kernel_event option" where
  "query_log_row t n (QueryMemory layer key) =
     Some (MemoryPlaneQueried t n (layer_as_str layer) key (compiler_source_for_query_key key))"
| "query_log_row t n _ = None"

lemma layer_name_round_trip: "from_log_layer (layer_as_str layer) = layer"
  by (cases layer)
     (simp_all add: from_log_layer_def Let_def trim_eval to_ascii_lowercase_def
       ascii_lower_char_def)

definition after_queries ::
  "turn_kernel_projection \<Rightarrow> effect list \<Rightarrow> turn_kernel_projection" where
  "after_queries p qs =
     p\<lparr>pj_memory_plane_query_count := pj_memory_plane_query_count p + of_nat (length qs),
       pj_memory_plane_queried_keys_this_step :=
         pj_memory_plane_queried_keys_this_step p \<union> {k. \<exists>l. QueryMemory l k \<in> set qs}\<rparr>"

definition plain_queries :: "effect list \<Rightarrow> bool" where
  "plain_queries qs \<longleftrightarrow> (\<forall>q \<in> set qs. \<exists>l k. q = QueryMemory l k \<and> k \<noteq> QUERY_USER_MEMORY)"

lemma logged_queries_replay:
  assumes "plain_queries qs" and "pj_step_idx p < n"
    and "pj_refresh_user_memory_query_step p \<noteq> n"
  shows "replay_loop ext (p, planned) (List.map_filter (query_log_row t n) qs @ es) =
    qs @ replay_loop ext (after_queries p qs, planned) es"
  using assms
proof (induction qs arbitrary: p)
  case Nil
  then show ?case by (simp add: after_queries_def List.map_filter_simps)
next
  case (Cons q qs)
  then obtain l k where q: "q = QueryMemory l k" "k \<noteq> QUERY_USER_MEMORY"
    by (auto simp: plain_queries_def)
  let ?p = "p\<lparr>pj_memory_plane_query_count := pj_memory_plane_query_count p + 1,
    pj_memory_plane_queried_keys_this_step :=
      insert k (pj_memory_plane_queried_keys_this_step p)\<rparr>"
  have after: "after_queries ?p qs = after_queries p (q # qs)"
    by (auto simp: after_queries_def q intro!: turn_kernel_projection.equality)
  have "replay_loop ext (?p, planned) (List.map_filter (query_log_row t n) qs @ es) =
      qs @ replay_loop ext (after_queries ?p qs, planned) es"
    using Cons.prems by (intro Cons.IH) (auto simp: plain_queries_def)
  then show ?case
    using Cons.prems(2,3)
    by (simp add: q after layer_name_round_trip List.map_filter_simps)
qed

lemma plain_queries_simps:
  "plain_queries []"
  "plain_queries (xs @ ys) \<longleftrightarrow> plain_queries xs \<and> plain_queries ys"
  "plain_queries (push_if c (QueryMemory l k)) \<longleftrightarrow> (c \<longrightarrow> k \<noteq> QUERY_USER_MEMORY)"
  "plain_queries [QueryMemory l k] \<longleftrightarrow> k \<noteq> QUERY_USER_MEMORY"
  by (auto simp: plain_queries_def push_if_def)

lemma query_keys_not_user:
  "QUERY_SCRATCHPAD_SUMMARY \<noteq> QUERY_USER_MEMORY" "QUERY_SCRATCHPAD_REMINDER \<noteq> QUERY_USER_MEMORY"
  "QUERY_COMPACTION_SUMMARY \<noteq> QUERY_USER_MEMORY" "QUERY_WORKING_SET \<noteq> QUERY_USER_MEMORY"
  "QUERY_TOPIC_EPISODIC \<noteq> QUERY_USER_MEMORY"
  by (simp_all add: QUERY_SCRATCHPAD_SUMMARY_def QUERY_SCRATCHPAD_REMINDER_def
      QUERY_COMPACTION_SUMMARY_def QUERY_WORKING_SET_def QUERY_TOPIC_EPISODIC_def
      QUERY_USER_MEMORY_def)

lemma derived_queries_plain: "plain_queries (query_memory_effects_before_model_call p h)"
  by (simp add: query_memory_effects_before_model_call_def plain_queries_simps
      episodic_query_effects_before_model_call_def query_keys_not_user)

lemma derived_queries_after:
  "query_memory_effects_before_model_call (after_queries p qs) None =
     query_memory_effects_before_model_call p None"
  by (simp add: query_memory_effects_before_model_call_def after_queries_def
      episodic_query_effects_before_model_call_def episodic_material_present_def)

lemma all_logged:
  "plain_queries qs \<Longrightarrow> filter (unlogged_query (after_queries p qs)) qs = []"
  by (auto simp: filter_empty_conv plain_queries_def after_queries_def)

text \<open>
  The live plan of a step and its log agree: when the runtime logs the queries planned
  before a model call and then issues the request, replaying these events from the same
  projection gives back exactly the planned queries followed by the model call, in order, and
  no query twice.
\<close>
theorem planned_queries_replay_exactly:
  assumes "pj_step_idx p < n" and "pj_refresh_user_memory_query_step p \<noteq> n"
  shows "replay_events_with_projection ext p
      (List.map_filter (query_log_row t n) (plan_v3_pre_call_model_effects p None) @
       [ModelRequestIssued t n fp budget]) =
    plan_v3_pre_call_model_effects p None @ [CallModel budget]"
  unfolding replay_events_with_projection_def plan_v3_pre_call_model_effects_def
    logged_queries_replay [OF derived_queries_plain assms]
  by (simp add: derived_queries_after all_logged [OF derived_queries_plain])

theorem planned_queries_replay_exactly_witness:
  "replay_events_with_projection quiet_externals
     (default_projection\<lparr>pj_scratchpad_summary_injected := True, pj_compaction_artifact_count := 2\<rparr>)
     [MemoryPlaneQueried ''t'' 1 ''working'' QUERY_SCRATCHPAD_SUMMARY ''memory.scratchpad_summary'',
      MemoryPlaneQueried ''t'' 1 ''archival'' QUERY_COMPACTION_SUMMARY ''memory.compaction'',
      ModelRequestIssued ''t'' 1 \<lparr>static_prefix_sha256 = [], full_prefix_sha256 = []\<rparr> 9000] =
   [QueryMemory Working QUERY_SCRATCHPAD_SUMMARY, QueryMemory Archival QUERY_COMPACTION_SUMMARY,
    CallModel 9000]"
  using planned_queries_replay_exactly
    [of "default_projection\<lparr>pj_scratchpad_summary_injected := True,
       pj_compaction_artifact_count := 2\<rparr>" 1 quiet_externals "''t''"
       "\<lparr>static_prefix_sha256 = [], full_prefix_sha256 = []\<rparr>" 9000]
  by (simp add: plan_v3_pre_call_model_effects_def query_memory_effects_before_model_call_def
      episodic_query_effects_before_model_call_def episodic_material_present_def
      default_projection_def List.map_filter_simps compiler_source_for_query_key_def
      QUERY_SCRATCHPAD_SUMMARY_def QUERY_SCRATCHPAD_REMINDER_def QUERY_COMPACTION_SUMMARY_def)

section \<open>Layered seams, prompt refresh, capacity fields\<close>

definition verify_layered_context_seam_replay_coherence ::
  "externals \<Rightarrow> kernel_event list \<Rightarrow> diff list option" where
  "verify_layered_context_seam_replay_coherence ext events =
     (let expected = count_if is_LayeredContextSeamInjected events in
      if expected = 0 then None
      else
        let found = count_if is_RunLayeredContextCheckpoint (replay_turn_effects ext events) in
        if found \<ge> expected then None
        else Some [Fmt ''expected >= {} RunLayeredContextCheckpoint replay effects, found {}''
               [ArgUsize expected, ArgUsize found]])"

definition verify_layered_context_seam_projection_coherence ::
  "externals \<Rightarrow> kernel_event list \<Rightarrow> diff list option" where
  "verify_layered_context_seam_projection_coherence ext events =
     (let n = pj_layered_context_seam_count (from_events ext events);
          event_count = count_u32 is_LayeredContextSeamInjected events
      in if n = event_count then None
         else Some [Fmt ''layered_context_seam_count proj={} events={}''
                [ArgU32 n, ArgU32 event_count]])"

lemma seam_checks_hold:
  "verify_layered_context_seam_replay_coherence ext es = None"
  "verify_layered_context_seam_projection_coherence ext es = None"
  by (simp_all add: verify_layered_context_seam_replay_coherence_def Let_def
      verify_layered_context_seam_projection_coherence_def layered_seams.exact_turn
      seams.get_from_events)

definition plan_system_prompt_refresh_query_effects :: "effect list" where
  "plan_system_prompt_refresh_query_effects =
     [QueryMemory Episodic QUERY_USER_MEMORY, QueryMemory Episodic QUERY_TOPIC_EPISODIC]"

definition plan_system_prompt_refresh_effects :: "effect list" where
  "plan_system_prompt_refresh_effects =
     plan_system_prompt_refresh_query_effects @ [RefreshSystemPrompt]"

record system_prompt_refresh_plan =
  host_io_required :: bool
  refresh_effects :: "effect list"

definition plan_system_prompt_refresh :: system_prompt_refresh_plan where
  "plan_system_prompt_refresh =
     \<lparr>host_io_required = False, refresh_effects = plan_system_prompt_refresh_effects\<rparr>"

fun is_refresh_query :: "kernel_event \<Rightarrow> bool" where
  "is_refresh_query (MemoryPlaneQueried _ _ _ key _) = (key = QUERY_USER_MEMORY)"
| "is_refresh_query _ = False"

definition count_refresh_query_cycles :: "kernel_event list \<Rightarrow> u32" where
  "count_refresh_query_cycles events = count_u32 is_refresh_query events"

definition verify_system_prompt_refresh_replay_coherence ::
  "externals \<Rightarrow> kernel_event list \<Rightarrow> diff list option" where
  "verify_system_prompt_refresh_replay_coherence ext events =
     (let expected = count_refresh_query_cycles events in
      if expected = 0 then None
      else
        let replayed = count_if is_RefreshSystemPrompt (replay_turn_effects ext events) in
        if replayed \<ge> unat expected then None
        else Some [Fmt ''expected >= {} RefreshSystemPrompt replay effects, found {}''
               [ArgU32 expected, ArgUsize replayed]])"

fun is_cooldown_blocked :: "kernel_event \<Rightarrow> bool" where
  "is_cooldown_blocked (CapacityCheckpoint _ _ _ _ _ _ blocked) = blocked"
| "is_cooldown_blocked _ = False"

definition count_capacity_cooldown_blocked :: "kernel_event list \<Rightarrow> u32" where
  "count_capacity_cooldown_blocked events = count_u32 is_cooldown_blocked events"

fun checkpoint_kind_label :: "capacity_checkpoint_kind \<Rightarrow> string" where
  "checkpoint_kind_label PreRequest = ''pre_request''"
| "checkpoint_kind_label PostTool = ''post_tool''"
| "checkpoint_kind_label ErrorEscalation = ''error_escalation''"

fun bump_checkpoint_kind ::
  "(u32 \<Rightarrow> (string \<Rightarrow> u32 option) option) \<Rightarrow> kernel_event \<Rightarrow>
   (u32 \<Rightarrow> (string \<Rightarrow> u32 option) option)" where
  "bump_checkpoint_kind out (CapacityCheckpoint _ s kind _ _ _ _) =
     bump_nested out s (checkpoint_kind_label kind)"
| "bump_checkpoint_kind out _ = out"

definition capacity_checkpoint_kinds_by_step ::
  "kernel_event list \<Rightarrow> (u32 \<Rightarrow> (string \<Rightarrow> u32 option) option)" where
  "capacity_checkpoint_kinds_by_step events = foldl bump_checkpoint_kind Map.empty events"

fun checkpoint_issues :: "nat \<Rightarrow> kernel_event \<Rightarrow> diff list" where
  "checkpoint_issues idx (CapacityCheckpoint _ _ _ used budget act blocked) =
     push_if (budget = 0) (Fmt ''checkpoint[{}] token_budget is zero'' [ArgUsize idx]) @
     push_if (blocked \<and> act \<noteq> CapContinue)
       (Fmt ''checkpoint[{}] cooldown_blocked with action={}'' [ArgUsize idx, ArgAction act]) @
     push_if ((act = CapTrim \<or> act = CapHandoff) \<and> blocked)
       (Fmt ''checkpoint[{}] intervention action={} must not be cooldown_blocked''
         [ArgUsize idx, ArgAction act]) @
     push_if (used > sat_mul budget 4)
       (Fmt ''checkpoint[{}] tokens_used={} implausibly exceeds token_budget={}''
         [ArgUsize idx, ArgU32 used, ArgU32 budget])"
| "checkpoint_issues idx _ = []"

definition verify_capacity_checkpoint_field_coherence ::
  "kernel_event list \<Rightarrow> diff list option" where
  "verify_capacity_checkpoint_field_coherence events =
     report (concat (map (\<lambda>(idx, e). checkpoint_issues idx e) (enumerate 0 events)))"

fun checkpoint_valid :: "kernel_event \<Rightarrow> bool" where
  "checkpoint_valid (CapacityCheckpoint _ _ _ used budget act blocked) =
     (budget \<noteq> 0 \<and> (\<not> blocked \<or> act = CapContinue) \<and>
      (unat used \<le> 4 * unat budget \<or> 2 ^ 32 \<le> 4 * unat budget))"
| "checkpoint_valid _ = True"

lemma checkpoint_issues_Nil: "checkpoint_issues idx e = [] \<longleftrightarrow> checkpoint_valid e"
proof (cases e)
  case (CapacityCheckpoint t s k used budget act blocked)
  have "used > sat_mul budget 4 \<longleftrightarrow>
      \<not> (unat used \<le> 4 * unat budget \<or> 2 ^ 32 \<le> 4 * unat budget)"
    using unat_less_exp [of used] by (simp add: word_less_nat_alt unat_sat_mul) linarith
  then show ?thesis using CapacityCheckpoint by auto
qed simp_all

lemma all_enumerate: "(\<forall>(i, x) \<in> set (enumerate n xs). P x) \<longleftrightarrow> (\<forall>x \<in> set xs. P x)"
  by (induction xs arbitrary: n) auto

text \<open>
  The capacity check of a log passes exactly when every checkpoint has a budget, is blocked
  by the cooldown only with the action \<open>Continue\<close>, and used at most four times its budget
  (a product that saturates at \<open>u32::MAX\<close> bounds nothing).
\<close>
theorem capacity_fields_coherent_iff:
  "verify_capacity_checkpoint_field_coherence es = None \<longleftrightarrow> (\<forall>e \<in> set es. checkpoint_valid e)"
  using all_enumerate [of 0 es checkpoint_valid]
  by (simp add: verify_capacity_checkpoint_field_coherence_def checkpoint_issues_Nil
      case_prod_beta)

theorem capacity_fields_coherent_iff_witness:
  "verify_capacity_checkpoint_field_coherence
     [CapacityCheckpoint ''t'' 1 PreRequest 90 100 CapTrim False] = None"
  by (simp add: capacity_fields_coherent_iff)

end
