(* ===== verification/Outer_Policy.thy ===== *)
theory Outer_Policy
  imports Memory_Plane
begin

text \<open>
  The pure decision surface of the turn loop: boundary eligibility
  (\<open>turn_loop/continuation_boundary_policy.rs\<close>), loop decisions
  (\<open>live_outer_loop_policy.rs\<close>, \<open>capacity_policy.rs\<close>), gates and grants
  (\<open>live_turn_outer_driver.rs\<close>), effect plans (\<open>live_turn_outer_planner.rs\<close>,
  \<open>live_turn_inner_planner.rs\<close>, \<open>live_turn_inner_driver.rs\<close>), the caps check of a log
  (\<open>outer_boundary_replay_policy.rs\<close>), inner-step replay (\<open>inner_step_replay_policy.rs\<close>) and
  the turn context (\<open>crates/core/src/turn.rs\<close>).
\<close>

section \<open>Turn context\<close>

text \<open>A duration is its number of nanoseconds.\<close>

record turn_tool_call =
  call_call_id :: string
  call_name :: string
  call_input :: json
  call_result :: "string option"
  call_error :: "string option"
  call_duration :: "nat option"

definition turn_tool_call_new :: "string \<Rightarrow> string \<Rightarrow> json \<Rightarrow> turn_tool_call" where
  "turn_tool_call_new i n v =
     \<lparr>call_call_id = i, call_name = n, call_input = v, call_result = None, call_error = None,
      call_duration = None\<rparr>"

definition set_result :: "turn_tool_call \<Rightarrow> string \<Rightarrow> nat \<Rightarrow> turn_tool_call" where
  "set_result c r d = c\<lparr>call_result := Some r, call_duration := Some d\<rparr>"

definition set_error :: "turn_tool_call \<Rightarrow> string \<Rightarrow> nat \<Rightarrow> turn_tool_call" where
  "set_error c e d = c\<lparr>call_error := Some e, call_duration := Some d\<rparr>"

record turn_context =
  tc_id :: string
  tc_step :: u32
  tc_max_steps :: u32
  tc_tool_calls :: "turn_tool_call list"
  tc_cancelled :: bool
  tc_usage :: usage

definition with_id :: "u32 \<Rightarrow> string \<Rightarrow> turn_context" where
  "with_id max_steps turn_id =
     \<lparr>tc_id = turn_id, tc_step = 0, tc_max_steps = max_steps, tc_tool_calls = [],
      tc_cancelled = False, tc_usage = default_usage\<rparr>"

definition next_step :: "turn_context \<Rightarrow> turn_context \<times> bool" where
  "next_step t = (let t' = t\<lparr>tc_step := tc_step t + 1\<rparr> in (t', tc_step t' \<le> tc_max_steps t'))"

definition at_max_steps :: "turn_context \<Rightarrow> bool" where
  "at_max_steps t \<longleftrightarrow> tc_step t \<ge> tc_max_steps t"

definition steps_remaining :: "turn_context \<Rightarrow> u32" where
  "steps_remaining t = sat_sub (tc_max_steps t) (tc_step t)"

definition record_tool_call :: "turn_context \<Rightarrow> turn_tool_call \<Rightarrow> turn_context" where
  "record_tool_call t c = t\<lparr>tc_tool_calls := tc_tool_calls t @ [c]\<rparr>"

definition cancel :: "turn_context \<Rightarrow> turn_context" where
  "cancel t = t\<lparr>tc_cancelled := True\<rparr>"

fun add_optional_usage :: "u32 option \<Rightarrow> u32 option \<Rightarrow> u32 option" where
  "add_optional_usage (Some tot) (Some delta) = Some (sat_add tot delta)"
| "add_optional_usage None (Some delta) = Some delta"
| "add_optional_usage (Some tot) None = Some tot"
| "add_optional_usage None None = None"

definition add_usage :: "turn_context \<Rightarrow> usage \<Rightarrow> turn_context" where
  "add_usage t u =
     (let s = tc_usage t in
      t\<lparr>tc_usage := s\<lparr>input_tokens := input_tokens s + input_tokens u,
        output_tokens := output_tokens s + output_tokens u,
        prompt_cache_hit_tokens :=
          add_optional_usage (prompt_cache_hit_tokens s) (prompt_cache_hit_tokens u),
        prompt_cache_miss_tokens :=
          add_optional_usage (prompt_cache_miss_tokens s) (prompt_cache_miss_tokens u),
        reasoning_tokens := add_optional_usage (reasoning_tokens s) (reasoning_tokens u)\<rparr>\<rparr>)"

section \<open>Boundary eligibility\<close>

definition MAX_STEP_LIMIT_CONTINUATIONS :: u32 where "MAX_STEP_LIMIT_CONTINUATIONS = 3"
definition MAX_LOOP_GUARD_CONTINUATIONS :: u32 where "MAX_LOOP_GUARD_CONTINUATIONS = 2"
definition MAX_CONTEXT_CYCLE_HANDOFFS :: u32 where "MAX_CONTEXT_CYCLE_HANDOFFS = 2"
definition MAX_IN_TURN_CYCLE_ADVANCES :: u32 where "MAX_IN_TURN_CYCLE_ADVANCES = 8"
definition MAX_CONTEXT_RECOVERY_ATTEMPTS :: u8 where "MAX_CONTEXT_RECOVERY_ATTEMPTS = 2"

lemmas boundary_caps =
  MAX_STEP_LIMIT_CONTINUATIONS_def MAX_LOOP_GUARD_CONTINUATIONS_def
  MAX_CONTEXT_CYCLE_HANDOFFS_def MAX_IN_TURN_CYCLE_ADVANCES_def

datatype outer_boundary_kind =
    StepLimit
  | LoopGuard
  | ContextOverflowCycleHandoff
  | InTurnCycleAdvance
  | PreRequestCapacityHold
  | ErrorEscalationCapacityHold

record outer_boundary_counters =
  bc_step_limit :: u32
  bc_loop_guard :: u32
  bc_cycle_handoff :: u32
  bc_in_turn_advances :: u32

definition step_limit_boundary_eligible ::
  "turn_loop_mode \<Rightarrow> outer_boundary_counters \<Rightarrow> bool" where
  "step_limit_boundary_eligible m c \<longleftrightarrow>
     \<not> is_plan m \<and> bc_step_limit c < MAX_STEP_LIMIT_CONTINUATIONS"

definition loop_guard_boundary_eligible ::
  "turn_loop_mode \<Rightarrow> bool \<Rightarrow> outer_boundary_counters \<Rightarrow> bool" where
  "loop_guard_boundary_eligible m halted c \<longleftrightarrow>
     halted \<and> \<not> is_plan m \<and> bc_loop_guard c < MAX_LOOP_GUARD_CONTINUATIONS"

definition context_recovery_attempts_exhausted :: "u8 \<Rightarrow> bool" where
  "context_recovery_attempts_exhausted attempts \<longleftrightarrow> attempts \<ge> MAX_CONTEXT_RECOVERY_ATTEMPTS"

definition cycle_handoff_boundary_eligible ::
  "turn_loop_mode \<Rightarrow> outer_boundary_counters \<Rightarrow> bool" where
  "cycle_handoff_boundary_eligible m c \<longleftrightarrow>
     \<not> is_plan m \<and> bc_cycle_handoff c < MAX_CONTEXT_CYCLE_HANDOFFS"

definition in_turn_cycle_advance_boundary_eligible ::
  "turn_loop_mode \<Rightarrow> outer_boundary_counters \<Rightarrow> bool" where
  "in_turn_cycle_advance_boundary_eligible m c \<longleftrightarrow>
     \<not> is_plan m \<and> bc_in_turn_advances c < MAX_IN_TURN_CYCLE_ADVANCES"

definition context_recovery_budget_after_cycle_handoff :: u8 where
  "context_recovery_budget_after_cycle_handoff = 0"

definition context_overflow_cycle_handoff_strategy :: overflow_strategy where
  "context_overflow_cycle_handoff_strategy = CycleHandoff"

definition context_overflow_budget_recompile_strategy :: overflow_strategy where
  "context_overflow_budget_recompile_strategy = BudgetRecompile"

definition step_limit_budget_after_grant :: "turn_context \<Rightarrow> u32 \<Rightarrow> u32" where
  "step_limit_budget_after_grant t increment = sat_add (tc_max_steps t) increment"

section \<open>Loop decisions\<close>

datatype step_limit_decision_t = NotAtCap | EligibleAtCap | TerminateAtCap

definition step_limit_decision ::
  "turn_loop_mode \<Rightarrow> outer_boundary_counters \<Rightarrow> bool \<Rightarrow> step_limit_decision_t" where
  "step_limit_decision m c at_max =
     (if \<not> at_max then NotAtCap
      else if step_limit_boundary_eligible m c then EligibleAtCap
      else TerminateAtCap)"

datatype context_overflow_preflight_decision_t =
  WithinBudget | TryBudgetRecompile | TryCycleHandoff | HardFail

definition context_overflow_preflight_decision ::
  "turn_loop_mode \<Rightarrow> outer_boundary_counters \<Rightarrow> u8 \<Rightarrow> nat \<Rightarrow> nat \<Rightarrow>
   context_overflow_preflight_decision_t" where
  "context_overflow_preflight_decision m c attempts estimated_input input_budget =
     (if estimated_input \<le> input_budget then WithinBudget
      else if context_recovery_attempts_exhausted attempts then
        if cycle_handoff_boundary_eligible m c then TryCycleHandoff else HardFail
      else TryBudgetRecompile)"

datatype loop_guard_halt_decision_t = NotHalted | EligibleAfterHalt | Terminate

definition loop_guard_halt_decision ::
  "turn_loop_mode \<Rightarrow> bool \<Rightarrow> outer_boundary_counters \<Rightarrow> loop_guard_halt_decision_t" where
  "loop_guard_halt_decision m halted c =
     (if \<not> halted then NotHalted
      else if loop_guard_boundary_eligible m halted c then EligibleAfterHalt
      else Terminate)"

datatype in_turn_cycle_advance_decision_t = SkipAdvance | EligibleForAdvance

definition in_turn_cycle_advance_decision ::
  "turn_loop_mode \<Rightarrow> outer_boundary_counters \<Rightarrow> in_turn_cycle_advance_decision_t" where
  "in_turn_cycle_advance_decision m c =
     (if in_turn_cycle_advance_boundary_eligible m c then EligibleForAdvance else SkipAdvance)"

text \<open>\<open>crates/core/src/error_taxonomy.rs\<close> and \<open>capacity_policy.rs\<close>\<close>

datatype error_category =
    Network | Authentication | Authorization | RateLimit | ErrTimeout | InvalidInput | Parse
  | ErrTool | ErrState | Internal

definition is_transient_category :: "error_category \<Rightarrow> bool" where
  "is_transient_category c \<longleftrightarrow> c = Network \<or> c = RateLimit \<or> c = ErrTimeout"

definition should_run_capacity_error_escalation ::
  "nat \<Rightarrow> u32 \<Rightarrow> error_category list \<Rightarrow> bool" where
  "should_run_capacity_error_escalation step_errors consecutive categories =
     (if step_errors = 0 \<and> consecutive < 2 then False
      else
        let has_context_overflow = (InvalidInput \<in> set categories);
            only_transient = (categories \<noteq> [] \<and> list_all is_transient_category categories)
        in if only_transient \<and> \<not> has_context_overflow then False
           else if \<not> has_context_overflow \<and> consecutive < 2 then False
           else True)"

section \<open>Gates\<close>

datatype pre_inner_step_limit_gate_t =
  GateNotAtCap | GateAwaitHostContinue | GateTerminateAtCap

definition pre_inner_step_limit_gate ::
  "turn_loop_mode \<Rightarrow> outer_boundary_counters \<Rightarrow> bool \<Rightarrow> pre_inner_step_limit_gate_t" where
  "pre_inner_step_limit_gate m c at_max =
     (case step_limit_decision m c at_max of
        NotAtCap \<Rightarrow> GateNotAtCap
      | EligibleAtCap \<Rightarrow> GateAwaitHostContinue
      | TerminateAtCap \<Rightarrow> GateTerminateAtCap)"

datatype pre_inner_overflow_gate_t =
  GateWithinBudget | GateAwaitBudgetRecompile | GateAwaitCycleHandoff | GateHardFail

definition pre_inner_overflow_gate ::
  "turn_loop_mode \<Rightarrow> outer_boundary_counters \<Rightarrow> u8 \<Rightarrow> nat \<Rightarrow> nat \<Rightarrow> pre_inner_overflow_gate_t" where
  "pre_inner_overflow_gate m c attempts estimated_input input_budget =
     (case context_overflow_preflight_decision m c attempts estimated_input input_budget of
        WithinBudget \<Rightarrow> GateWithinBudget
      | TryBudgetRecompile \<Rightarrow> GateAwaitBudgetRecompile
      | TryCycleHandoff \<Rightarrow> GateAwaitCycleHandoff
      | HardFail \<Rightarrow> GateHardFail)"

datatype post_inner_loop_guard_gate_t = GateNotHalted | GateAwaitNudge | GateTerminate

definition post_inner_loop_guard_gate ::
  "turn_loop_mode \<Rightarrow> bool \<Rightarrow> outer_boundary_counters \<Rightarrow> post_inner_loop_guard_gate_t" where
  "post_inner_loop_guard_gate m halted c =
     (case loop_guard_halt_decision m halted c of
        NotHalted \<Rightarrow> GateNotHalted
      | EligibleAfterHalt \<Rightarrow> GateAwaitNudge
      | Terminate \<Rightarrow> GateTerminate)"

datatype post_inner_cycle_advance_gate_t = GateSkip | GateAwaitHostAdvance

definition post_inner_cycle_advance_gate ::
  "turn_loop_mode \<Rightarrow> outer_boundary_counters \<Rightarrow> post_inner_cycle_advance_gate_t" where
  "post_inner_cycle_advance_gate m c =
     (case in_turn_cycle_advance_decision m c of
        SkipAdvance \<Rightarrow> GateSkip
      | EligibleForAdvance \<Rightarrow> GateAwaitHostAdvance)"

datatype post_inner_error_escalation_gate_t = GateSkipCheckpoint | GateRunCheckpoint

definition post_inner_error_escalation_gate ::
  "nat \<Rightarrow> u32 \<Rightarrow> error_category list \<Rightarrow> post_inner_error_escalation_gate_t" where
  "post_inner_error_escalation_gate step_errors consecutive categories =
     (if should_run_capacity_error_escalation step_errors consecutive categories
      then GateRunCheckpoint else GateSkipCheckpoint)"

text \<open>\<open>Display\<close> of an unsigned integer, and the hard-failure message.\<close>

fun show_nat :: "nat \<Rightarrow> string" where
  "show_nat n =
     (if n < 10 then [char_of (48 + n)] else show_nat (n div 10) @ [char_of (48 + n mod 10)])"

declare show_nat.simps [simp del]

definition context_overflow_hard_fail_message :: "nat \<Rightarrow> nat \<Rightarrow> string" where
  "context_overflow_hard_fail_message estimated_input input_budget =
     ''Context remains above model limit after '' @ show_nat (unat MAX_CONTEXT_RECOVERY_ATTEMPTS) @
     '' recovery attempts (~'' @ show_nat estimated_input @ '' token estimate, ~'' @
     show_nat input_budget @ '' budget). Please run /compact or /clear.''"

section \<open>Grants\<close>

record outer_boundary_grant =
  gr_counters :: outer_boundary_counters
  gr_kernel_event :: "kernel_event option"
  gr_status :: "diff option"
  gr_boundary_kind :: "outer_boundary_kind option"
  gr_context_recovery_attempts :: "u8 option"
  gr_turn_max_steps :: "u32 option"

definition apply_step_limit_continuation ::
  "turn_context \<Rightarrow> outer_boundary_counters \<Rightarrow> u32 \<Rightarrow> outer_boundary_grant" where
  "apply_step_limit_continuation t c increment =
     (let new_count = sat_add (bc_step_limit c) 1 in
      \<lparr>gr_counters = c\<lparr>bc_step_limit := new_count\<rparr>,
       gr_kernel_event = Some (StepLimitContinuation (tc_id t) (tc_step t) True),
       gr_status = Some (Fmt ''Step budget reached; continuing long-horizon task ({}/{})''
         [ArgU32 new_count, ArgU32 MAX_STEP_LIMIT_CONTINUATIONS]),
       gr_boundary_kind = Some StepLimit,
       gr_context_recovery_attempts = None,
       gr_turn_max_steps = Some (step_limit_budget_after_grant t increment)\<rparr>)"

definition apply_loop_guard_continuation ::
  "turn_context \<Rightarrow> outer_boundary_counters \<Rightarrow> outer_boundary_grant" where
  "apply_loop_guard_continuation t c =
     (let new_count = sat_add (bc_loop_guard c) 1 in
      \<lparr>gr_counters = c\<lparr>bc_loop_guard := new_count\<rparr>,
       gr_kernel_event = Some (LoopGuardContinuation (tc_id t) (tc_step t)),
       gr_status =
         Some (Fmt ''Loop-guard halt; nudging long-horizon task to change approach ({}/{})''
           [ArgU32 new_count, ArgU32 MAX_LOOP_GUARD_CONTINUATIONS]),
       gr_boundary_kind = Some LoopGuard,
       gr_context_recovery_attempts = None,
       gr_turn_max_steps = None\<rparr>)"

definition apply_context_overflow_cycle_handoff ::
  "turn_context \<Rightarrow> outer_boundary_counters \<Rightarrow> u32 \<Rightarrow> outer_boundary_grant" where
  "apply_context_overflow_cycle_handoff t c input_budget =
     \<lparr>gr_counters = c\<lparr>bc_cycle_handoff := sat_add (bc_cycle_handoff c) 1\<rparr>,
      gr_kernel_event = Some (ContextOverflowRecovered (tc_id t) (tc_step t)
        context_overflow_cycle_handoff_strategy (Some input_budget)),
      gr_status = None,
      gr_boundary_kind = Some ContextOverflowCycleHandoff,
      gr_context_recovery_attempts = Some context_recovery_budget_after_cycle_handoff,
      gr_turn_max_steps = None\<rparr>"

definition apply_context_overflow_budget_recompile ::
  "turn_context \<Rightarrow> outer_boundary_counters \<Rightarrow> u8 \<Rightarrow> u32 \<Rightarrow> outer_boundary_grant" where
  "apply_context_overflow_budget_recompile t c attempts input_budget =
     \<lparr>gr_counters = c,
      gr_kernel_event = Some (ContextOverflowRecovered (tc_id t) (tc_step t)
        context_overflow_budget_recompile_strategy (Some input_budget)),
      gr_status = None,
      gr_boundary_kind = None,
      gr_context_recovery_attempts = Some (sat_add attempts 1),
      gr_turn_max_steps = None\<rparr>"

definition apply_in_turn_cycle_advance :: "outer_boundary_counters \<Rightarrow> outer_boundary_grant" where
  "apply_in_turn_cycle_advance c =
     \<lparr>gr_counters = c\<lparr>bc_in_turn_advances := sat_add (bc_in_turn_advances c) 1\<rparr>,
      gr_kernel_event = None,
      gr_status = None,
      gr_boundary_kind = Some InTurnCycleAdvance,
      gr_context_recovery_attempts = None,
      gr_turn_max_steps = None\<rparr>"

definition outer_boundary_grant_log_count :: "outer_boundary_grant \<Rightarrow> u32" where
  "outer_boundary_grant_log_count g =
     (case gr_boundary_kind g of
        Some StepLimit \<Rightarrow> bc_step_limit (gr_counters g)
      | Some LoopGuard \<Rightarrow> bc_loop_guard (gr_counters g)
      | Some ContextOverflowCycleHandoff \<Rightarrow> bc_cycle_handoff (gr_counters g)
      | Some InTurnCycleAdvance \<Rightarrow> bc_in_turn_advances (gr_counters g)
      | _ \<Rightarrow> 0)"

section \<open>Effect plans of the outer loop\<close>

record pre_inner_step_effect_plan =
  baseline :: "effect list"

record outer_step_frame_effect_plan =
  scratchpad_step_reset :: bool
  kernel_turn_frame_sync :: bool
  cancel_check :: bool

definition plan_v3_outer_step_frame_effects :: outer_step_frame_effect_plan where
  "plan_v3_outer_step_frame_effects =
     \<lparr>scratchpad_step_reset = True, kernel_turn_frame_sync = True, cancel_check = True\<rparr>"

record outer_pre_inner_effect_plan =
  live_steer_inject_per_message :: bool
  system_prompt_refresh :: system_prompt_refresh_plan
  pre_inner_baseline :: "effect list"

record outer_post_inner_effect_plan =
  loop_guard_continuation :: "effect option"
  error_escalation_capacity_hold :: bool
  in_turn_cycle_advance :: "effect option"

definition plan_v3_pre_inner_step_baseline :: pre_inner_step_effect_plan where
  "plan_v3_pre_inner_step_baseline =
     \<lparr>baseline = [RunCompaction, RunLayeredContextCheckpoint]\<rparr>"

definition plan_v3_outer_pre_inner_step_effects :: outer_pre_inner_effect_plan where
  "plan_v3_outer_pre_inner_step_effects =
     \<lparr>live_steer_inject_per_message = True,
      system_prompt_refresh = plan_system_prompt_refresh,
      pre_inner_baseline = baseline plan_v3_pre_inner_step_baseline\<rparr>"

definition plan_live_steer_inject_effect :: "string \<Rightarrow> effect" where
  "plan_live_steer_inject_effect txt = InjectSteer txt"

definition plan_live_steer_inject_effects :: "string list \<Rightarrow> effect list" where
  "plan_live_steer_inject_effects texts = map plan_live_steer_inject_effect texts"

definition pre_inner_step_baseline_effect_label :: "nat \<Rightarrow> string option" where
  "pre_inner_step_baseline_effect_label slot =
     (if slot = 0 then Some ''RunCompaction''
      else if slot = 1 then Some ''RunLayeredContextCheckpoint''
      else None)"

fun plan_outer_boundary_replay_effect :: "outer_boundary_kind \<Rightarrow> effect option" where
  "plan_outer_boundary_replay_effect StepLimit = Some (InjectSteer [])"
| "plan_outer_boundary_replay_effect LoopGuard = Some (InjectSteer [])"
| "plan_outer_boundary_replay_effect ContextOverflowCycleHandoff = Some (InjectSteer [])"
| "plan_outer_boundary_replay_effect InTurnCycleAdvance = Some (InjectSteer [])"
| "plan_outer_boundary_replay_effect PreRequestCapacityHold = None"
| "plan_outer_boundary_replay_effect ErrorEscalationCapacityHold = None"

definition plan_v3_outer_post_inner_step_effects :: outer_post_inner_effect_plan where
  "plan_v3_outer_post_inner_step_effects =
     \<lparr>loop_guard_continuation = plan_outer_boundary_replay_effect LoopGuard,
      error_escalation_capacity_hold = True,
      in_turn_cycle_advance = plan_outer_boundary_replay_effect InTurnCycleAdvance\<rparr>"

definition effect_kind_matches :: "effect \<Rightarrow> effect \<Rightarrow> bool" where
  "effect_kind_matches planned interpreted \<longleftrightarrow>
     is_InjectSteer planned \<and> is_InjectSteer interpreted \<or>
     is_RunCompaction planned \<and> is_RunCompaction interpreted \<or>
     is_Sleep planned \<and> is_Sleep interpreted"

definition boundary_mismatch :: "string \<Rightarrow> effect option \<Rightarrow> effect option \<Rightarrow> diff" where
  "boundary_mismatch template planned interpreted =
     Fmt template
       [ArgEffects (case planned of None \<Rightarrow> [] | Some p \<Rightarrow> [p]),
        ArgEffects (case interpreted of None \<Rightarrow> [] | Some i \<Rightarrow> [i])]"

definition verify_outer_boundary_effect_alignment ::
  "outer_boundary_kind \<Rightarrow> effect option \<Rightarrow> diff list option" where
  "verify_outer_boundary_effect_alignment kind interpreted =
     (let planned = plan_outer_boundary_replay_effect kind;
          mismatch = Some [boundary_mismatch ''outer boundary planned={} interpreted={}''
            planned interpreted]
      in case (planned, interpreted) of
           (None, None) \<Rightarrow> None
         | (Some p, Some i) \<Rightarrow> if effect_kind_matches p i then None else mismatch
         | _ \<Rightarrow> mismatch)"

datatype capacity_checkpoint_effect_tail_t = TailNone | TailRunCompaction | TailSleep u64

definition capacity_checkpoint_effect_tail ::
  "bool \<Rightarrow> bool \<Rightarrow> capacity_checkpoint_effect_tail_t" where
  "capacity_checkpoint_effect_tail trim_or_handoff cooldown_blocked =
     (if cooldown_blocked then TailSleep capacity_cooldown_backoff_millis
      else if trim_or_handoff then TailRunCompaction
      else TailNone)"

definition capacity_trim_or_handoff_from_action :: "guardrail_action \<Rightarrow> bool" where
  "capacity_trim_or_handoff_from_action act \<longleftrightarrow>
     act = TargetedContextRefresh \<or> act = VerifyAndReplan"

definition plan_capacity_checkpoint_effect_tail ::
  "guardrail_action \<Rightarrow> bool \<Rightarrow> capacity_checkpoint_effect_tail_t" where
  "plan_capacity_checkpoint_effect_tail act blocked =
     capacity_checkpoint_effect_tail (capacity_trim_or_handoff_from_action act) blocked"

fun capacity_hold_boundary_for_checkpoint ::
  "capacity_checkpoint_kind \<Rightarrow> outer_boundary_kind option" where
  "capacity_hold_boundary_for_checkpoint PreRequest = Some PreRequestCapacityHold"
| "capacity_hold_boundary_for_checkpoint ErrorEscalation = Some ErrorEscalationCapacityHold"
| "capacity_hold_boundary_for_checkpoint PostTool = None"

definition plan_capacity_hold_boundary_effect ::
  "guardrail_action \<Rightarrow> bool \<Rightarrow> capacity_checkpoint_effect_tail_t" where
  "plan_capacity_hold_boundary_effect act blocked =
     plan_capacity_checkpoint_effect_tail act blocked"

fun capacity_checkpoint_effect_tail_label :: "capacity_checkpoint_effect_tail_t \<Rightarrow> string" where
  "capacity_checkpoint_effect_tail_label TailNone = ''None''"
| "capacity_checkpoint_effect_tail_label TailRunCompaction = ''RunCompaction''"
| "capacity_checkpoint_effect_tail_label (TailSleep _) = ''Sleep''"

definition verify_capacity_tail_alignment ::
  "capacity_checkpoint_effect_tail_t \<Rightarrow> capacity_checkpoint_effect_tail_t \<Rightarrow> diff list option" where
  "verify_capacity_tail_alignment planned interpreted =
     (if planned = interpreted then None
      else Some [Fmt ''capacity tail planned={} interpreted={}''
        [ArgStr (capacity_checkpoint_effect_tail_label planned),
         ArgStr (capacity_checkpoint_effect_tail_label interpreted)]])"

section \<open>Grant checks\<close>

fun grant_kernel_event_matches_boundary ::
  "outer_boundary_kind \<Rightarrow> kernel_event option \<Rightarrow> bool" where
  "grant_kernel_event_matches_boundary StepLimit ev =
     (case ev of Some e \<Rightarrow> is_StepLimitContinuation e | None \<Rightarrow> False)"
| "grant_kernel_event_matches_boundary LoopGuard ev =
     (case ev of Some e \<Rightarrow> is_LoopGuardContinuation e | None \<Rightarrow> False)"
| "grant_kernel_event_matches_boundary ContextOverflowCycleHandoff ev =
     (case ev of Some e \<Rightarrow> is_cycle_handoff_event e | None \<Rightarrow> False)"
| "grant_kernel_event_matches_boundary InTurnCycleAdvance ev = (ev = None)"
| "grant_kernel_event_matches_boundary PreRequestCapacityHold ev = (ev = None)"
| "grant_kernel_event_matches_boundary ErrorEscalationCapacityHold ev = (ev = None)"

definition verify_outer_boundary_grant_replay_coherence ::
  "outer_boundary_grant \<Rightarrow> diff list option" where
  "verify_outer_boundary_grant_replay_coherence g =
     (case gr_boundary_kind g of
        None \<Rightarrow> None
      | Some kind \<Rightarrow>
          (case plan_outer_boundary_replay_effect kind of
             None \<Rightarrow>
               if gr_kernel_event g \<noteq> None then
                 Some [Fmt ''capacity hold must not emit boundary kernel event'' []]
               else None
           | Some _ \<Rightarrow>
               if \<not> grant_kernel_event_matches_boundary kind (gr_kernel_event g) then
                 Some [Fmt ''boundary kernel_event mismatch'' []]
               else None))"

definition boundary_confirmation_effects :: "outer_boundary_kind \<Rightarrow> effect list" where
  "boundary_confirmation_effects kind =
     (case plan_outer_boundary_replay_effect kind of None \<Rightarrow> [] | Some e \<Rightarrow> [e])"

definition verify_boundary_grant :: "outer_boundary_grant \<Rightarrow> diff list option" where
  "verify_boundary_grant g =
     (case verify_outer_boundary_grant_replay_coherence g of
        Some summary \<Rightarrow> Some summary
      | None \<Rightarrow>
          (case gr_boundary_kind g of
             None \<Rightarrow> None
           | Some kind \<Rightarrow>
               let planned = plan_outer_boundary_replay_effect kind;
                   confirmation = boundary_confirmation_effects kind
               in case planned of
                    None \<Rightarrow>
                      if confirmation = [] then None
                      else Some [Fmt ''boundary has confirmation effects but no replay plan'' []]
                  | Some p \<Rightarrow>
                      (case confirmation of
                         [InjectSteer txt] \<Rightarrow>
                           verify_outer_boundary_effect_alignment kind (Some (InjectSteer txt))
                       | _ \<Rightarrow> Some [Fmt ''boundary confirmation effects mismatch''
                           [ArgEffects [p], ArgEffects confirmation]])))"

section \<open>The caps of a log\<close>

definition verify_outer_boundary_event_caps ::
  "kernel_event list \<Rightarrow> turn_loop_mode \<Rightarrow> diff list option" where
  "verify_outer_boundary_event_caps events m =
     (let step_limit = count_u32 is_StepLimitContinuation events;
          guard = count_u32 is_LoopGuardContinuation events;
          handoffs = count_u32 is_cycle_handoff_event events;
          advances = count_u32 is_CycleAdvanced events
      in if is_plan m then
           if step_limit > 0 \<or> guard > 0 \<or> handoffs > 0 \<or> advances > 0 then
             Some [Fmt ''plan mode turn emitted outer-boundary grants (step_limit={}, loop_guard={}, cycle_handoffs={}, in_turn_advances={})''
               [ArgU32 step_limit, ArgU32 guard, ArgU32 handoffs, ArgU32 advances]]
           else None
         else report
           (push_if (step_limit > MAX_STEP_LIMIT_CONTINUATIONS)
              (Fmt ''step_limit_continuations events={} cap={}''
                [ArgU32 step_limit, ArgU32 MAX_STEP_LIMIT_CONTINUATIONS]) @
            push_if (guard > MAX_LOOP_GUARD_CONTINUATIONS)
              (Fmt ''loop_guard_continuations events={} cap={}''
                [ArgU32 guard, ArgU32 MAX_LOOP_GUARD_CONTINUATIONS]) @
            push_if (handoffs > MAX_CONTEXT_CYCLE_HANDOFFS)
              (Fmt ''cycle_handoffs events={} cap={}''
                [ArgU32 handoffs, ArgU32 MAX_CONTEXT_CYCLE_HANDOFFS]) @
            push_if (advances > MAX_IN_TURN_CYCLE_ADVANCES)
              (Fmt ''in_turn_cycle_advances events={} cap={}''
                [ArgU32 advances, ArgU32 MAX_IN_TURN_CYCLE_ADVANCES])))"

lemma boundary_event_caps_iff:
  "verify_outer_boundary_event_caps es m = None \<longleftrightarrow>
     (if is_plan m
      then count_u32 is_StepLimitContinuation es = 0 \<and> count_u32 is_LoopGuardContinuation es = 0 \<and>
           count_u32 is_cycle_handoff_event es = 0 \<and> count_u32 is_CycleAdvanced es = 0
      else count_u32 is_StepLimitContinuation es \<le> 3 \<and> count_u32 is_LoopGuardContinuation es \<le> 2 \<and>
           count_u32 is_cycle_handoff_event es \<le> 2 \<and> count_u32 is_CycleAdvanced es \<le> 8)"
  by (auto simp: verify_outer_boundary_event_caps_def Let_def boundary_caps word_gt_0)

section \<open>Inner-step plans and their replay\<close>

record inner_step_effect_plan =
  pre_call_model :: "effect list"
  plan_call_model :: effect
  execute_batch_per_call :: bool
  notify_lsp_tail :: bool

record inner_step_live_effect_plan =
  live_baseline :: inner_step_effect_plan

definition plan_v3_inner_step_baseline ::
  "turn_kernel_projection \<Rightarrow> u32 \<Rightarrow> memory_plane_episodic_hints option \<Rightarrow> inner_step_effect_plan"
where
  "plan_v3_inner_step_baseline p budget hints =
     \<lparr>pre_call_model = plan_v3_pre_call_model_effects p hints,
      plan_call_model = CallModel budget,
      execute_batch_per_call = True,
      notify_lsp_tail = True\<rparr>"

definition plan_v3_inner_step_post_call_model :: "u32 \<Rightarrow> call_id list \<Rightarrow> effect list" where
  "plan_v3_inner_step_post_call_model budget ids = plan_v3_step_effects budget ids"

definition inner_step_baseline_effects :: "inner_step_effect_plan \<Rightarrow> effect list" where
  "inner_step_baseline_effects plan = pre_call_model plan @ [plan_call_model plan]"

definition plan_inner_step_live_effects ::
  "turn_kernel_projection \<Rightarrow> u32 \<Rightarrow> memory_plane_episodic_hints option \<Rightarrow>
   inner_step_live_effect_plan" where
  "plan_inner_step_live_effects p budget hints =
     \<lparr>live_baseline = plan_v3_inner_step_baseline p budget hints\<rparr>"

definition inner_step_execute_batch_effects :: "u32 \<Rightarrow> call_id list \<Rightarrow> effect list" where
  "inner_step_execute_batch_effects budget ids =
     drop 1 (plan_v3_inner_step_post_call_model budget ids)"

definition inner_step_notify_lsp_effects :: "kernel_event list \<Rightarrow> effect list" where
  "inner_step_notify_lsp_effects es = notify_lsp_effects_from_step_events es"

fun is_planned_of_step :: "u32 \<Rightarrow> kernel_event \<Rightarrow> bool" where
  "is_planned_of_step n (ToolCallPlanned _ s _ _ _ _) = (s = n)"
| "is_planned_of_step n _ = False"

definition executed_tool_count_for_step :: "kernel_event list \<Rightarrow> u32 \<Rightarrow> u32" where
  "executed_tool_count_for_step turn_events n = count_u32 (is_planned_of_step n) turn_events"

definition model_request_issued_for_step :: "kernel_event list \<Rightarrow> u32 \<Rightarrow> kernel_event option" where
  "model_request_issued_for_step turn_events n = find (is_request_of_step n) turn_events"

definition verify_inner_step_slice_replay_coherence ::
  "externals \<Rightarrow> kernel_event list \<Rightarrow> u32 \<Rightarrow> diff list option" where
  "verify_inner_step_slice_replay_coherence ext turn_events n =
     (case model_request_issued_for_step turn_events n of
        None \<Rightarrow> None
      | Some _ \<Rightarrow>
          verify_step_effect_parity ext turn_events n (executed_tool_count_for_step turn_events n))"

fun request_budget :: "kernel_event \<Rightarrow> u32 option" where
  "request_budget (ModelRequestIssued _ _ _ budget) = Some budget"
| "request_budget _ = None"

definition verify_inner_step_model_request_replay_coherence ::
  "externals \<Rightarrow> kernel_event list \<Rightarrow> u32 \<Rightarrow> diff list option" where
  "verify_inner_step_model_request_replay_coherence ext turn_events n =
     (case model_request_issued_for_step turn_events n of
        None \<Rightarrow> None
      | Some event \<Rightarrow>
          (case request_budget event of
             None \<Rightarrow> None
           | Some budget \<Rightarrow>
               let p = projection_before_step_model_request ext turn_events n;
                   planned = inner_step_baseline_effects (plan_v3_inner_step_baseline p budget None);
                   out = replay_step p event
               in if effects out \<noteq> planned then
                    Some [Fmt ''step {} ModelRequestIssued replay mismatch log_effects={} planned={}''
                      [ArgU32 n, ArgEffects (effects out), ArgEffects planned]]
                  else None))"

text \<open>
  Every grant the driver builds is coherent with replay: its kernel event is the one its
  boundary kind calls for (none for an in-turn advance, whose event the host emits), its
  confirmation effect is the planned steer, and no grant touches a counter of another boundary.
\<close>
theorem every_grant_coherent:
  "verify_boundary_grant (apply_step_limit_continuation t c inc) = None \<and>
   verify_boundary_grant (apply_loop_guard_continuation t c) = None \<and>
   verify_boundary_grant (apply_context_overflow_cycle_handoff t c budget) = None \<and>
   verify_boundary_grant (apply_context_overflow_budget_recompile t c attempts budget) = None \<and>
   verify_boundary_grant (apply_in_turn_cycle_advance c) = None"
  by (simp add: verify_boundary_grant_def verify_outer_boundary_grant_replay_coherence_def
      apply_step_limit_continuation_def apply_loop_guard_continuation_def
      apply_context_overflow_cycle_handoff_def apply_context_overflow_budget_recompile_def
      apply_in_turn_cycle_advance_def boundary_confirmation_effects_def Let_def
      verify_outer_boundary_effect_alignment_def effect_kind_matches_def
      context_overflow_cycle_handoff_strategy_def)

fun checkpoint_tail_effects :: "capacity_checkpoint_effect_tail_t \<Rightarrow> effect list" where
  "checkpoint_tail_effects TailNone = []"
| "checkpoint_tail_effects TailRunCompaction = [RunCompaction]"
| "checkpoint_tail_effects (TailSleep ms) = [Sleep ms]"

text \<open>
  The capacity plan of the live loop is the replay of its checkpoint: for a guardrail action
  logged with the controller's rule that a cooldown-blocked checkpoint is logged as
  \<open>Continue\<close>, the planned tail and the replayed effects coincide.
\<close>
theorem capacity_tail_replays:
  "replay_effects p (CapacityCheckpoint t s k used budget
      (if blocked then CapContinue else from_guardrail act reason) blocked) =
    checkpoint_tail_effects (plan_capacity_checkpoint_effect_tail act blocked)"
  by (cases act) (simp_all add: plan_capacity_checkpoint_effect_tail_def
      capacity_checkpoint_effect_tail_def capacity_trim_or_handoff_from_action_def)

lemma find_is_request:
  "find (is_request_of_step n) es = Some e \<Longrightarrow> \<exists>t fp budget. e = ModelRequestIssued t n fp budget"
  by (metis find_Some_iff is_request_of_step_iff)

lemma filter_id_iff: "filter P xs = xs \<longleftrightarrow> (\<forall>x \<in> set xs. P x)"
  by (simp add: filter_id_conv)

text \<open>
  The model-request check compares the replay with the unfiltered plan, so it passes exactly
  when the step was not requested or none of the queries the plan asks for was logged before the
  request.
\<close>
theorem model_request_check_iff:
  "verify_inner_step_model_request_replay_coherence ext es n = None \<longleftrightarrow>
     model_request_issued_for_step es n = None \<or>
     (\<forall>q \<in> set (plan_v3_pre_call_model_effects (projection_before_step_model_request ext es n) None).
        unlogged_query (projection_before_step_model_request ext es n) q)"
  by (auto simp: verify_inner_step_model_request_replay_coherence_def Let_def
      model_request_issued_for_step_def inner_step_baseline_effects_def
      plan_v3_inner_step_baseline_def plan_v3_pre_call_model_effects_def filter_id_iff
      split: option.split dest!: find_is_request)

text \<open>The runtime logs its queries before the request, so a step with a query never passes.\<close>

theorem model_request_check_iff_witness:
  "verify_inner_step_model_request_replay_coherence quiet_externals
     [ScratchpadSummaryInjected ''t'' 0,
      MemoryPlaneQueried ''t'' 1 ''working'' QUERY_SCRATCHPAD_SUMMARY ''memory.scratchpad_summary'',
      ModelRequestIssued ''t'' 1 \<lparr>static_prefix_sha256 = [], full_prefix_sha256 = []\<rparr> 9000] 1 \<noteq> None"
  unfolding model_request_check_iff
  by (simp add: model_request_issued_for_step_def projection_before_step_model_request_def
      from_events_def default_projection_def plan_v3_pre_call_model_effects_def
      query_memory_effects_before_model_call_def episodic_query_effects_before_model_call_def
      episodic_material_present_def QUERY_SCRATCHPAD_SUMMARY_def QUERY_USER_MEMORY_def Let_def)

end
