(* ===== verification/Outer_Loop.thy ===== *)
theory Outer_Loop
  imports Outer_Policy
begin

text \<open>
  The live turn loop: the loop state and its grants
  (\<open>crates/core/src/engine/turn_loop/live_turn_machine.rs\<close>), the loop itself
  (\<open>turn_loop/run.rs\<close>) and the per-turn grant record the runtime checks at turn end
  (\<open>crates/runtime-server/src/core/engine/kernel_outer_boundary.rs\<close>).

  The host and the model are outside the kernel. One iteration of the loop consults a record of
  host answers: what each host call returns, and the kernel events it emits. The loop is run
  over a list of such records, so a theorem about all lists is a theorem about all hosts.
\<close>

section \<open>Grant record of the runtime\<close>

record v3_outer_boundary_turn_grants =
  vg_step_limit :: u32
  vg_loop_guard :: u32
  vg_overflow_handoff :: u32
  vg_in_turn_cycle :: u32
  vg_pre_request_capacity_hold :: u32
  vg_error_escalation_capacity_hold :: u32

definition default_grants :: v3_outer_boundary_turn_grants where
  "default_grants =
     \<lparr>vg_step_limit = 0, vg_loop_guard = 0, vg_overflow_handoff = 0, vg_in_turn_cycle = 0,
      vg_pre_request_capacity_hold = 0, vg_error_escalation_capacity_hold = 0\<rparr>"

fun record_grant ::
  "v3_outer_boundary_turn_grants \<Rightarrow> outer_boundary_kind \<Rightarrow> v3_outer_boundary_turn_grants" where
  "record_grant g StepLimit = g\<lparr>vg_step_limit := sat_add (vg_step_limit g) 1\<rparr>"
| "record_grant g LoopGuard = g\<lparr>vg_loop_guard := sat_add (vg_loop_guard g) 1\<rparr>"
| "record_grant g ContextOverflowCycleHandoff =
     g\<lparr>vg_overflow_handoff := sat_add (vg_overflow_handoff g) 1\<rparr>"
| "record_grant g InTurnCycleAdvance = g\<lparr>vg_in_turn_cycle := sat_add (vg_in_turn_cycle g) 1\<rparr>"
| "record_grant g PreRequestCapacityHold =
     g\<lparr>vg_pre_request_capacity_hold := sat_add (vg_pre_request_capacity_hold g) 1\<rparr>"
| "record_grant g ErrorEscalationCapacityHold =
     g\<lparr>vg_error_escalation_capacity_hold := sat_add (vg_error_escalation_capacity_hold g) 1\<rparr>"

fun logged_grants :: "v3_outer_boundary_turn_grants \<Rightarrow> outer_boundary_kind \<Rightarrow> u32" where
  "logged_grants g StepLimit = vg_step_limit g"
| "logged_grants g LoopGuard = vg_loop_guard g"
| "logged_grants g ContextOverflowCycleHandoff = vg_overflow_handoff g"
| "logged_grants g InTurnCycleAdvance = vg_in_turn_cycle g"
| "logged_grants g PreRequestCapacityHold = vg_pre_request_capacity_hold g"
| "logged_grants g ErrorEscalationCapacityHold = vg_error_escalation_capacity_hold g"

fun is_grant_event :: "outer_boundary_kind \<Rightarrow> kernel_event \<Rightarrow> bool" where
  "is_grant_event StepLimit e = is_StepLimitContinuation e"
| "is_grant_event LoopGuard e = is_LoopGuardContinuation e"
| "is_grant_event ContextOverflowCycleHandoff e = is_cycle_handoff_event e"
| "is_grant_event InTurnCycleAdvance e = is_CycleAdvanced e"
| "is_grant_event PreRequestCapacityHold e = False"
| "is_grant_event ErrorEscalationCapacityHold e = False"

definition count_event_grants :: "kernel_event list \<Rightarrow> outer_boundary_kind \<Rightarrow> u32" where
  "count_event_grants events kind = count_u32 (is_grant_event kind) events"

text \<open>The summaries \<open>verify_turn_outer_boundary_grants\<close> warns about; none means no warning.\<close>

definition verify_turn_outer_boundary_grants ::
  "kernel_event list \<Rightarrow> v3_outer_boundary_turn_grants \<Rightarrow> diff list" where
  "verify_turn_outer_boundary_grants events g =
     concat (map (\<lambda>kind.
       push_if (logged_grants g kind \<noteq> count_event_grants events kind)
         (Fmt ''{kind} logged={} events={}''
           [ArgU32 (logged_grants g kind), ArgU32 (count_event_grants events kind)]))
       [StepLimit, LoopGuard, ContextOverflowCycleHandoff, InTurnCycleAdvance])"

section \<open>Loop state and snapshot\<close>

record live_outer_loop_state =
  ls_step_limit_continuations :: u32
  ls_loop_guard_continuations :: u32
  ls_cycle_handoff_attempts :: u32
  ls_in_turn_cycle_advances :: u32
  ls_context_recovery_attempts :: u8
  ls_consecutive_tool_error_steps :: u32
  ls_stream_retry_attempts :: u32
  ls_length_continuations :: u32
  ls_turn_error :: "string option"

definition default_loop_state :: live_outer_loop_state where
  "default_loop_state =
     \<lparr>ls_step_limit_continuations = 0, ls_loop_guard_continuations = 0,
      ls_cycle_handoff_attempts = 0, ls_in_turn_cycle_advances = 0,
      ls_context_recovery_attempts = 0, ls_consecutive_tool_error_steps = 0,
      ls_stream_retry_attempts = 0, ls_length_continuations = 0, ls_turn_error = None\<rparr>"

definition boundary_counters :: "live_outer_loop_state \<Rightarrow> outer_boundary_counters" where
  "boundary_counters s =
     \<lparr>bc_step_limit = ls_step_limit_continuations s,
      bc_loop_guard = ls_loop_guard_continuations s,
      bc_cycle_handoff = ls_cycle_handoff_attempts s,
      bc_in_turn_advances = ls_in_turn_cycle_advances s\<rparr>"

definition apply_grant ::
  "live_outer_loop_state \<Rightarrow> outer_boundary_grant \<Rightarrow> turn_context \<Rightarrow>
   live_outer_loop_state \<times> turn_context" where
  "apply_grant s g t =
     (let s1 = s\<lparr>ls_step_limit_continuations := bc_step_limit (gr_counters g),
            ls_loop_guard_continuations := bc_loop_guard (gr_counters g),
            ls_cycle_handoff_attempts := bc_cycle_handoff (gr_counters g),
            ls_in_turn_cycle_advances := bc_in_turn_advances (gr_counters g)\<rparr>;
          t1 = (case gr_turn_max_steps g of Some m \<Rightarrow> t\<lparr>tc_max_steps := m\<rparr> | None \<Rightarrow> t);
          s2 = (case gr_context_recovery_attempts g of
                  Some n \<Rightarrow> s1\<lparr>ls_context_recovery_attempts := n\<rparr> | None \<Rightarrow> s1)
      in (s2, t1))"

record live_turn_snapshot =
  lv_turn_id :: string
  lv_step_idx :: u32
  lv_max_steps :: u32
  lv_scratchpad_summary_injected :: bool
  lv_step_limit_continuations :: u32
  lv_loop_guard_continuations :: u32
  lv_cycle_handoff_attempts :: u32
  lv_in_turn_cycle_advances :: u32

definition live_snapshot ::
  "live_outer_loop_state \<Rightarrow> turn_context \<Rightarrow> bool \<Rightarrow> live_turn_snapshot" where
  "live_snapshot s t summary_injected =
     \<lparr>lv_turn_id = tc_id t, lv_step_idx = tc_step t, lv_max_steps = tc_max_steps t,
      lv_scratchpad_summary_injected = summary_injected,
      lv_step_limit_continuations = ls_step_limit_continuations s,
      lv_loop_guard_continuations = ls_loop_guard_continuations s,
      lv_cycle_handoff_attempts = ls_cycle_handoff_attempts s,
      lv_in_turn_cycle_advances = ls_in_turn_cycle_advances s\<rparr>"

section \<open>Host answers\<close>

record tool_phase_outcome =
  tp_step_error_count :: nat
  tp_step_error_categories :: "error_category list"
  tp_break_outer_loop :: bool
  tp_loop_guard_halted :: bool
  tp_continue_outer_loop :: bool

text \<open>
  The inner step (\<open>run_inner_step_via_machine\<close>) streams the model and runs its tools. It
  returns the flags of the streaming phase and the tool phase, emits events, and may update the
  recovery, retry, length and error fields of the loop state, the loop guard, and the step.
\<close>

record inner_step_result =
  in_events :: "kernel_event list"
  in_advanced_step :: bool
  in_return_early :: "(turn_outcome_status \<times> string option) option"
  in_break_outer_loop :: bool
  in_continue_outer_loop :: bool
  in_phase :: tool_phase_outcome
  in_context_recovery_attempts :: u8
  in_stream_retry_attempts :: u32
  in_length_continuations :: u32
  in_turn_error :: "string option"
  in_loop_guard :: loop_guard

record host_answers =
  ha_cancelled :: bool
  ha_pre_events :: "kernel_event list"
  ha_continue_at_step_limit :: bool
  ha_step_limit_events :: "kernel_event list"
  ha_baseline_events :: "kernel_event list"
  ha_pre_request_held :: bool
  ha_input_budget :: "nat option"
  ha_estimated_input :: nat
  ha_cycle_handoff :: bool
  ha_handoff_events :: "kernel_event list"
  ha_recover_overflow :: bool
  ha_recover_events :: "kernel_event list"
  ha_inner :: inner_step_result
  ha_continue_after_halt :: bool
  ha_halt_events :: "kernel_event list"
  ha_escalation_held :: bool
  ha_escalation_events :: "kernel_event list"
  ha_reminder_events :: "kernel_event list"
  ha_advance_cycle :: bool
  ha_advance_events :: "kernel_event list"

section \<open>One iteration\<close>

record outer_state =
  os_turn :: turn_context
  os_loop :: live_outer_loop_state
  os_guard :: loop_guard
  os_log :: "kernel_event list"
  os_grants :: v3_outer_boundary_turn_grants

definition emit :: "outer_state \<Rightarrow> kernel_event list \<Rightarrow> outer_state" where
  "emit s es = s\<lparr>os_log := os_log s @ es\<rparr>"

definition record_boundary :: "outer_state \<Rightarrow> outer_boundary_kind \<Rightarrow> outer_state" where
  "record_boundary s kind = s\<lparr>os_grants := record_grant (os_grants s) kind\<rparr>"

definition apply_outer_boundary_grant :: "outer_state \<Rightarrow> outer_boundary_grant \<Rightarrow> outer_state" where
  "apply_outer_boundary_grant s g =
     (let (l, t) = apply_grant (os_loop s) g (os_turn s);
          s1 = s\<lparr>os_loop := l, os_turn := t\<rparr>;
          s2 = emit s1 (case gr_kernel_event g of Some e \<Rightarrow> [e] | None \<Rightarrow> [])
      in case gr_boundary_kind g of Some kind \<Rightarrow> record_boundary s2 kind | None \<Rightarrow> s2)"

definition advance :: "outer_state \<Rightarrow> outer_state" where
  "advance s = s\<lparr>os_turn := fst (next_step (os_turn s))\<rparr>"

datatype outer_pre_inner_step_outcome = PreContinue | PreBreak | PreFailed | PreProceed
datatype outer_post_inner_step_outcome = PostContinue | PostBreak | PostAdvance

definition budget_u32 :: "nat \<Rightarrow> u32" where
  "budget_u32 n = of_nat (min n (2 ^ 32 - 1))"

definition pre_inner_overflow ::
  "turn_loop_mode \<Rightarrow> host_answers \<Rightarrow> outer_state \<Rightarrow> outer_state \<times> outer_pre_inner_step_outcome"
where
  "pre_inner_overflow m a s =
     (case ha_input_budget a of
        None \<Rightarrow> (s, PreProceed)
      | Some budget \<Rightarrow>
          let c = boundary_counters (os_loop s);
              attempts = ls_context_recovery_attempts (os_loop s);
              failed = (s\<lparr>os_loop := (os_loop s)\<lparr>ls_turn_error :=
                  Some (context_overflow_hard_fail_message (ha_estimated_input a) budget)\<rparr>\<rparr>,
                PreFailed)
          in case pre_inner_overflow_gate m c attempts (ha_estimated_input a) budget of
               GateWithinBudget \<Rightarrow> (s, PreProceed)
             | GateAwaitCycleHandoff \<Rightarrow>
                 let s1 = emit s (ha_handoff_events a) in
                 if ha_cycle_handoff a then
                   (apply_outer_boundary_grant s1
                      (apply_context_overflow_cycle_handoff (os_turn s1) c (budget_u32 budget)),
                    PreContinue)
                 else (emit (fst failed) (ha_handoff_events a), PreFailed)
             | GateHardFail \<Rightarrow> failed
             | GateAwaitBudgetRecompile \<Rightarrow>
                 let s1 = emit s (ha_recover_events a) in
                 if ha_recover_overflow a then
                   (apply_outer_boundary_grant s1
                      (apply_context_overflow_budget_recompile (os_turn s1) c attempts
                        (budget_u32 budget)),
                    PreContinue)
                 else (s1, PreProceed))"

definition pre_inner_after_limit ::
  "turn_loop_mode \<Rightarrow> host_answers \<Rightarrow> outer_state \<Rightarrow> outer_state \<times> outer_pre_inner_step_outcome"
where
  "pre_inner_after_limit m a s =
     (let s1 = emit s (ha_baseline_events a) in
      if ha_pre_request_held a then (record_boundary s1 PreRequestCapacityHold, PreContinue)
      else pre_inner_overflow m a s1)"

definition run_outer_pre_inner_step ::
  "turn_loop_mode \<Rightarrow> u32 \<Rightarrow> host_answers \<Rightarrow> outer_state \<Rightarrow>
   outer_state \<times> outer_pre_inner_step_outcome" where
  "run_outer_pre_inner_step m increment a s =
     (let s1 = emit s (ha_pre_events a) in
      if at_max_steps (os_turn s1) then
        let c = boundary_counters (os_loop s1) in
        case pre_inner_step_limit_gate m c True of
          GateNotAtCap \<Rightarrow> pre_inner_after_limit m a s1
        | GateAwaitHostContinue \<Rightarrow>
            let s2 = emit s1 (ha_step_limit_events a) in
            if ha_continue_at_step_limit a then
              (apply_outer_boundary_grant s2
                 (apply_step_limit_continuation (os_turn s2) c increment), PreContinue)
            else (s2, PreBreak)
        | GateTerminateAtCap \<Rightarrow> (s1, PreBreak)
      else pre_inner_after_limit m a s1)"

definition run_inner_step :: "host_answers \<Rightarrow> outer_state \<Rightarrow> outer_state" where
  "run_inner_step a s =
     (let r = ha_inner a;
          s1 = emit s (in_events r);
          s2 = s1\<lparr>os_loop := (os_loop s1)\<lparr>
                 ls_context_recovery_attempts := in_context_recovery_attempts r,
                 ls_stream_retry_attempts := in_stream_retry_attempts r,
                 ls_length_continuations := in_length_continuations r,
                 ls_turn_error := in_turn_error r\<rparr>,
               os_guard := in_loop_guard r\<rparr>
      in if in_advanced_step r then advance s2 else s2)"

definition count_error_step :: "tool_phase_outcome \<Rightarrow> outer_state \<Rightarrow> outer_state" where
  "count_error_step phase s =
     s\<lparr>os_loop := (os_loop s)\<lparr>ls_consecutive_tool_error_steps :=
       (if tp_step_error_count phase > 0
        then sat_add (ls_consecutive_tool_error_steps (os_loop s)) 1 else 0)\<rparr>\<rparr>"

definition post_inner_tail ::
  "turn_loop_mode \<Rightarrow> host_answers \<Rightarrow> outer_state \<Rightarrow> outer_state \<times> outer_post_inner_step_outcome"
where
  "post_inner_tail m a s =
     (let s1 = emit s (ha_reminder_events a);
          c = boundary_counters (os_loop s1)
      in case post_inner_cycle_advance_gate m c of
           GateSkip \<Rightarrow> (s1, PostAdvance)
         | GateAwaitHostAdvance \<Rightarrow>
             let s2 = emit s1 (ha_advance_events a) in
             if ha_advance_cycle a then
               (advance (apply_outer_boundary_grant s2 (apply_in_turn_cycle_advance c)),
                PostContinue)
             else (s2, PostAdvance))"

definition post_inner_escalation ::
  "turn_loop_mode \<Rightarrow> host_answers \<Rightarrow> outer_state \<Rightarrow> outer_state \<times> outer_post_inner_step_outcome"
where
  "post_inner_escalation m a s =
     (let phase = in_phase (ha_inner a) in
      case post_inner_error_escalation_gate (tp_step_error_count phase)
             (ls_consecutive_tool_error_steps (os_loop s)) (tp_step_error_categories phase) of
        GateSkipCheckpoint \<Rightarrow> post_inner_tail m a s
      | GateRunCheckpoint \<Rightarrow>
          let s1 = emit s (ha_escalation_events a) in
          if ha_escalation_held a
          then (advance (record_boundary s1 ErrorEscalationCapacityHold), PostContinue)
          else post_inner_tail m a s1)"

definition run_outer_post_inner_step ::
  "turn_loop_mode \<Rightarrow> host_answers \<Rightarrow> outer_state \<Rightarrow> outer_state \<times> outer_post_inner_step_outcome"
where
  "run_outer_post_inner_step m a s =
     (let phase = in_phase (ha_inner a) in
      if tp_break_outer_loop phase then
        let c = boundary_counters (os_loop s) in
        case post_inner_loop_guard_gate m (tp_loop_guard_halted phase) c of
          GateNotHalted \<Rightarrow> (s, PostBreak)
        | GateAwaitNudge \<Rightarrow>
            let s1 = emit s (ha_halt_events a) in
            if ha_continue_after_halt a then
              let s2 = apply_outer_boundary_grant s1 (apply_loop_guard_continuation (os_turn s1) c);
                  s3 = s2\<lparr>os_guard := reset_failures (os_guard s2)\<rparr>
              in (advance s3, PostContinue)
            else (s1, PostBreak)
        | GateTerminate \<Rightarrow> (s, PostBreak)
      else if tp_continue_outer_loop phase then
        (advance (count_error_step phase s), PostContinue)
      else post_inner_escalation m a (count_error_step phase s))"

section \<open>The loop\<close>

datatype loop_control =
    LoopContinue
  | LoopBreak
  | LoopReturn turn_outcome turn_outcome_status "string option"

definition or_unknown :: "string option \<Rightarrow> string" where
  "or_unknown err = (case err of Some e \<Rightarrow> e | None \<Rightarrow> ''unknown error'')"

fun early_outcome :: "turn_outcome_status \<Rightarrow> string option \<Rightarrow> turn_outcome" where
  "early_outcome StatusInterrupted err = Interrupted"
| "early_outcome StatusFailed err = Failed (or_unknown err)"
| "early_outcome StatusCompleted err = Completed"

definition loop_iteration ::
  "turn_loop_mode \<Rightarrow> u32 \<Rightarrow> host_answers \<Rightarrow> outer_state \<Rightarrow> outer_state \<times> loop_control" where
  "loop_iteration m increment a s =
     (if ha_cancelled a then (s, LoopReturn Interrupted StatusInterrupted None)
      else
        case run_outer_pre_inner_step m increment a s of
          (s1, PreContinue) \<Rightarrow> (s1, LoopContinue)
        | (s1, PreBreak) \<Rightarrow> (s1, LoopBreak)
        | (s1, PreFailed) \<Rightarrow>
            let err = ls_turn_error (os_loop s1)
            in (s1, LoopReturn (Failed (or_unknown err)) StatusFailed err)
        | (s1, PreProceed) \<Rightarrow>
            let s2 = run_inner_step a s1; r = ha_inner a in
            (case in_return_early r of
               Some (status, err) \<Rightarrow> (s2, LoopReturn (early_outcome status err) status err)
             | None \<Rightarrow>
                 if in_break_outer_loop r then (s2, LoopBreak)
                 else if in_continue_outer_loop r then (s2, LoopContinue)
                 else case run_outer_post_inner_step m a s2 of
                        (s3, PostContinue) \<Rightarrow> (s3, LoopContinue)
                      | (s3, PostBreak) \<Rightarrow> (s3, LoopBreak)
                      | (s3, PostAdvance) \<Rightarrow> (advance s3, LoopContinue)))"

text \<open>
  The \<open>loop\<close> over the answers of its iterations; \<open>None\<close> while it still runs when they are
  used up.
\<close>

fun turn_loop ::
  "turn_loop_mode \<Rightarrow> u32 \<Rightarrow> host_answers list \<Rightarrow> outer_state \<Rightarrow>
   (outer_state \<times> loop_control) option" where
  "turn_loop m increment [] s = None"
| "turn_loop m increment (a # as) s =
     (case loop_iteration m increment a s of
        (s', LoopContinue) \<Rightarrow> turn_loop m increment as s'
      | (s', ctl) \<Rightarrow> Some (s', ctl))"

record turn_result =
  tr_log :: "kernel_event list"
  tr_snapshot :: live_turn_snapshot
  tr_grants :: v3_outer_boundary_turn_grants
  tr_status :: turn_outcome_status
  tr_error :: "string option"

definition end_turn ::
  "bool \<Rightarrow> outer_state \<Rightarrow> turn_outcome \<Rightarrow> turn_outcome_status \<Rightarrow> string option \<Rightarrow> turn_result" where
  "end_turn summary_injected s out status err =
     \<lparr>tr_log = os_log s @ [TurnEnded (tc_id (os_turn s)) out (tc_step (os_turn s))],
      tr_snapshot = live_snapshot (os_loop s) (os_turn s) summary_injected,
      tr_grants = os_grants s, tr_status = status, tr_error = err\<rparr>"

text \<open>
  The turn: its start event, the missing client, the loop, and the three endings after a
  \<open>break\<close>. The host says whether a client exists, whether it is cancelled after the loop, and
  whether it has injected the scratchpad summary by then.
\<close>

record turn_host =
  th_input_text :: string
  th_has_client :: bool
  th_answers :: "host_answers list"
  th_cancelled_after_loop :: bool
  th_summary_injected :: bool

definition initial_state :: "turn_loop_mode \<Rightarrow> string \<Rightarrow> turn_context \<Rightarrow> outer_state" where
  "initial_state m input t =
     \<lparr>os_turn = t, os_loop = default_loop_state, os_guard = default_loop_guard,
      os_log = [TurnStarted (tc_id t) m input (tc_max_steps t)], os_grants = default_grants\<rparr>"

definition finish_loop ::
  "turn_host \<Rightarrow> outer_state \<Rightarrow> loop_control \<Rightarrow> turn_result" where
  "finish_loop h s ctl =
     (case ctl of
        LoopReturn out status err \<Rightarrow> end_turn (th_summary_injected h) s out status err
      | _ \<Rightarrow>
          if th_cancelled_after_loop h
          then end_turn (th_summary_injected h) s Interrupted StatusInterrupted None
          else case ls_turn_error (os_loop s) of
                 Some err \<Rightarrow>
                   end_turn (th_summary_injected h) s (Failed err) StatusFailed (Some err)
               | None \<Rightarrow> end_turn (th_summary_injected h) s Completed StatusCompleted None)"

definition handle_deepseek_turn ::
  "turn_loop_mode \<Rightarrow> turn_host \<Rightarrow> turn_context \<Rightarrow> turn_result option" where
  "handle_deepseek_turn m h t =
     (let s = initial_state m (th_input_text h) t in
      if \<not> th_has_client h then
        let err = ''DeepSeek client is not configured''
        in Some (end_turn (th_summary_injected h) s (Failed err) StatusFailed (Some err))
      else map_option (\<lambda>(s', ctl). finish_loop h s' ctl)
             (turn_loop m (max (tc_max_steps t) 1) (th_answers h) s))"

end
