(* ===== verification/Outer_Bounds.thy ===== *)
theory Outer_Bounds
  imports Outer_Loop
begin

text \<open>
  Invariants of the live turn loop. The contract of a boundary grant is a locale; each of the
  four grants of the driver interprets it. On top of it: the counters of the loop, the grant
  record and the log agree and stay under their caps, the step stays under a step budget that
  at most three windows extend, and a turn that does not end must keep being held or retried.
\<close>

section \<open>Caps and agreement of counters\<close>

definition grant_kinds :: "outer_boundary_kind list" where
  "grant_kinds = [StepLimit, LoopGuard, ContextOverflowCycleHandoff, InTurnCycleAdvance]"

fun grant_cap :: "turn_loop_mode \<Rightarrow> outer_boundary_kind \<Rightarrow> nat" where
  "grant_cap m StepLimit = (if is_plan m then 0 else 3)"
| "grant_cap m LoopGuard = (if is_plan m then 0 else 2)"
| "grant_cap m ContextOverflowCycleHandoff = (if is_plan m then 0 else 2)"
| "grant_cap m InTurnCycleAdvance = (if is_plan m then 0 else 8)"
| "grant_cap m _ = 0"

fun counter_of :: "outer_boundary_counters \<Rightarrow> outer_boundary_kind \<Rightarrow> u32" where
  "counter_of c StepLimit = bc_step_limit c"
| "counter_of c LoopGuard = bc_loop_guard c"
| "counter_of c ContextOverflowCycleHandoff = bc_cycle_handoff c"
| "counter_of c InTurnCycleAdvance = bc_in_turn_advances c"
| "counter_of c _ = 0"

abbreviation grants_in :: "outer_boundary_kind \<Rightarrow> kernel_event list \<Rightarrow> nat" where
  "grants_in kind es \<equiv> count_if (is_grant_event kind) es"

definition kind_ok :: "turn_loop_mode \<Rightarrow> outer_state \<Rightarrow> outer_boundary_kind \<Rightarrow> bool" where
  "kind_ok m s kind \<longleftrightarrow>
     grants_in kind (os_log s) \<le> grant_cap m kind \<and>
     counter_of (boundary_counters (os_loop s)) kind = of_nat (grants_in kind (os_log s)) \<and>
     logged_grants (os_grants s) kind = of_nat (grants_in kind (os_log s))"

lemma grant_cap_small: "grant_cap m kind \<le> 8"
  by (cases kind) simp_all

lemma unat_small: "n \<le> 8 \<Longrightarrow> unat (of_nat n :: u32) = n"
  by (simp add: unat_of_nat)

lemma kind_ok_unat:
  "kind_ok m s kind \<Longrightarrow>
   unat (counter_of (boundary_counters (os_loop s)) kind) = grants_in kind (os_log s)"
  using grant_cap_small [of m kind] by (simp add: kind_ok_def unat_small)

lemma sat_add_small: "n \<le> 8 \<Longrightarrow> sat_add (of_nat n :: u32) 1 = of_nat (Suc n)"
proof -
  assume n: "n \<le> 8"
  have "sat_add (of_nat n :: u32) 1 = of_nat n + 1"
    using unat_small [OF n] n by (intro sat_add_no_overflow) simp
  then show ?thesis by (simp add: add.commute)
qed

section \<open>The contract of a grant\<close>

definition grant_events :: "outer_boundary_grant \<Rightarrow> kernel_event list" where
  "grant_events g = (case gr_kernel_event g of Some e \<Rightarrow> [e] | None \<Rightarrow> [])"

locale boundary_grant =
  fixes kind :: outer_boundary_kind
    and grant :: "turn_context \<Rightarrow> outer_boundary_counters \<Rightarrow> outer_boundary_grant"
    and eligible :: "turn_loop_mode \<Rightarrow> outer_boundary_counters \<Rightarrow> bool"
  assumes eligible_below: "eligible m c \<Longrightarrow> unat (counter_of c kind) < grant_cap m kind"
    and bumps: "counter_of (gr_counters (grant t c)) k =
      (if k = kind then sat_add (counter_of c k) 1 else counter_of c k)"
    and granted_kind: "gr_boundary_kind (grant t c) = Some kind"
    and granted_events: "grants_in k (grant_events (grant t c)) =
      of_bool (k = kind \<and> kind \<noteq> InTurnCycleAdvance)"
    and granted_quiet: "e \<in> set (grant_events (grant t c)) \<Longrightarrow> \<not> is_TurnStarted e \<and> \<not> is_TurnEnded e"
begin

lemma grant_cap_pos: "eligible m c \<Longrightarrow> 0 < grant_cap m kind"
  using eligible_below by fastforce

end

interpretation step_limit_grant:
  boundary_grant StepLimit "\<lambda>t c. apply_step_limit_continuation t c inc"
    step_limit_boundary_eligible
  for inc :: u32
proof (unfold_locales, goal_cases)
  case (2 t c k)
  show ?case by (cases k) (simp_all add: apply_step_limit_continuation_def Let_def)
next
  case (4 k t c)
  show ?case by (cases k) (simp_all add: apply_step_limit_continuation_def Let_def grant_events_def)
qed (simp_all add: step_limit_boundary_eligible_def boundary_caps word_less_nat_alt
    apply_step_limit_continuation_def Let_def grant_events_def)

interpretation loop_guard_grant:
  boundary_grant LoopGuard apply_loop_guard_continuation "\<lambda>m. loop_guard_boundary_eligible m True"
proof (unfold_locales, goal_cases)
  case (2 t c k)
  show ?case by (cases k) (simp_all add: apply_loop_guard_continuation_def Let_def)
next
  case (4 k t c)
  show ?case by (cases k) (simp_all add: apply_loop_guard_continuation_def Let_def grant_events_def)
qed (simp_all add: loop_guard_boundary_eligible_def boundary_caps word_less_nat_alt
    apply_loop_guard_continuation_def Let_def grant_events_def)

interpretation handoff_grant:
  boundary_grant ContextOverflowCycleHandoff
    "\<lambda>t c. apply_context_overflow_cycle_handoff t c budget" cycle_handoff_boundary_eligible
  for budget :: u32
proof (unfold_locales, goal_cases)
  case (2 t c k)
  show ?case by (cases k) (simp_all add: apply_context_overflow_cycle_handoff_def)
next
  case (4 k t c)
  show ?case by (cases k) (simp_all add: apply_context_overflow_cycle_handoff_def grant_events_def
      context_overflow_cycle_handoff_strategy_def)
qed (simp_all add: cycle_handoff_boundary_eligible_def boundary_caps word_less_nat_alt
    apply_context_overflow_cycle_handoff_def grant_events_def)

interpretation cycle_advance_grant:
  boundary_grant InTurnCycleAdvance "\<lambda>t. apply_in_turn_cycle_advance"
    in_turn_cycle_advance_boundary_eligible
proof (unfold_locales, goal_cases)
  case (2 t c k)
  show ?case by (cases k) (simp_all add: apply_in_turn_cycle_advance_def)
next
  case (4 k t c)
  show ?case by (cases k) (simp_all add: apply_in_turn_cycle_advance_def grant_events_def)
qed (simp_all add: in_turn_cycle_advance_boundary_eligible_def boundary_caps word_less_nat_alt
    apply_in_turn_cycle_advance_def grant_events_def)

section \<open>Host contract\<close>

text \<open>
  What the loop relies on of the host: it emits no event that starts or ends a turn and none of
  the boundary events, which the driver emits itself, except the one \<open>CycleAdvanced\<close> of a
  cycle it did advance; the inner step advances the step only when it asks to continue.
\<close>

definition quiet_event :: "kernel_event \<Rightarrow> bool" where
  "quiet_event e \<longleftrightarrow>
     \<not> is_TurnStarted e \<and> \<not> is_TurnEnded e \<and> \<not> is_StepLimitContinuation e \<and>
     \<not> is_LoopGuardContinuation e \<and> \<not> is_cycle_handoff_event e \<and> \<not> is_CycleAdvanced e"

definition advance_event :: "kernel_event \<Rightarrow> bool" where
  "advance_event e \<longleftrightarrow> quiet_event e \<or> is_CycleAdvanced e"

definition inner_quiet :: "inner_step_result \<Rightarrow> bool" where
  "inner_quiet r \<longleftrightarrow>
     list_all quiet_event (in_events r) \<and>
     (\<not> in_advanced_step r \<or>
      in_return_early r = None \<and> \<not> in_break_outer_loop r \<and> in_continue_outer_loop r)"

definition host_quiet :: "host_answers \<Rightarrow> bool" where
  "host_quiet a \<longleftrightarrow>
     list_all quiet_event (ha_pre_events a) \<and> list_all quiet_event (ha_step_limit_events a) \<and>
     list_all quiet_event (ha_baseline_events a) \<and> list_all quiet_event (ha_handoff_events a) \<and>
     list_all quiet_event (ha_recover_events a) \<and> list_all quiet_event (ha_halt_events a) \<and>
     list_all quiet_event (ha_escalation_events a) \<and>
     list_all quiet_event (ha_reminder_events a) \<and> inner_quiet (ha_inner a) \<and>
     list_all advance_event (ha_advance_events a) \<and>
     count_if is_CycleAdvanced (ha_advance_events a) = of_bool (ha_advance_cycle a)"

lemma quiet_no_grant: "quiet_event e \<Longrightarrow> \<not> is_grant_event k e"
  by (cases k) (simp_all add: quiet_event_def)

lemma quiet_grants: "list_all quiet_event es \<Longrightarrow> grants_in k es = 0"
  by (simp add: count_if_eq_0_iff list_all_iff quiet_no_grant)

lemma cycle_advanced_grant: "is_CycleAdvanced e \<Longrightarrow> is_grant_event k e \<longleftrightarrow> k = InTurnCycleAdvance"
  by (cases e) (cases k; simp)+

lemma advance_grants:
  "list_all advance_event es \<Longrightarrow>
   grants_in k es = (if k = InTurnCycleAdvance then count_if is_CycleAdvanced es else 0)"
  by (induction es) (auto simp: advance_event_def quiet_no_grant cycle_advanced_grant
      quiet_event_def)

section \<open>The invariant\<close>

definition turn_inv ::
  "turn_loop_mode \<Rightarrow> u32 \<Rightarrow> u32 \<Rightarrow> kernel_event \<Rightarrow> string \<Rightarrow> outer_state \<Rightarrow> bool" where
  "turn_inv m m0 inc start tid s \<longleftrightarrow>
     (\<forall>kind \<in> set grant_kinds. kind_ok m s kind) \<and>
     (\<exists>rest. os_log s = start # rest \<and> (\<forall>e \<in> set rest. \<not> is_TurnStarted e \<and> \<not> is_TurnEnded e)) \<and>
     tc_id (os_turn s) = tid \<and>
     unat (tc_max_steps (os_turn s)) =
       min (unat m0 + grants_in StepLimit (os_log s) * unat inc) (2 ^ 32 - 1) \<and>
     tc_step (os_turn s) \<le> tc_max_steps (os_turn s)"

lemma kind_ok_emit: "list_all quiet_event es \<Longrightarrow> kind_ok m (emit s es) k = kind_ok m s k"
  by (simp add: kind_ok_def emit_def quiet_grants)

lemma turn_inv_emit:
  "list_all quiet_event es \<Longrightarrow> turn_inv m m0 inc start tid s \<Longrightarrow> turn_inv m m0 inc start tid (emit s es)"
  unfolding turn_inv_def
  by (auto simp: kind_ok_emit) (auto simp: emit_def quiet_grants list_all_iff quiet_event_def)

text \<open>Changes of the loop state and of the grant record that no grant is involved in.\<close>

lemma turn_inv_cong:
  assumes "turn_inv m m0 inc start tid s"
    and "os_turn s' = os_turn s" and "os_log s' = os_log s"
    and "boundary_counters (os_loop s') = boundary_counters (os_loop s)"
    and "\<And>k. k \<in> set grant_kinds \<Longrightarrow> logged_grants (os_grants s') k = logged_grants (os_grants s) k"
  shows "turn_inv m m0 inc start tid s'"
  using assms by (simp add: turn_inv_def kind_ok_def)

lemma turn_inv_hold:
  "turn_inv m m0 inc start tid s \<Longrightarrow> k \<notin> set grant_kinds \<Longrightarrow>
   turn_inv m m0 inc start tid (record_boundary s k)"
  by (erule turn_inv_cong) (cases k; auto simp: record_boundary_def grant_kinds_def)+

lemma turn_inv_advance:
  assumes "turn_inv m m0 inc start tid s" and "tc_step (os_turn s) < tc_max_steps (os_turn s)"
  shows "turn_inv m m0 inc start tid (advance s)"
proof -
  have "tc_step (os_turn s) + 1 \<le> tc_max_steps (os_turn s)"
    using assms(2) by (simp add: inc_le)
  with assms(1) show ?thesis
    by (auto simp: turn_inv_def kind_ok_def advance_def next_step_def Let_def)
qed

context boundary_grant begin

lemma grant_kind_ok:
  assumes ok: "\<And>k. k \<in> set grant_kinds \<Longrightarrow> kind_ok m s k"
    and el: "eligible m (boundary_counters (os_loop s))"
    and host: "\<And>k. grants_in k es = of_bool (k = kind \<and> kind = InTurnCycleAdvance)"
    and k: "k \<in> set grant_kinds"
  shows "kind_ok m (apply_outer_boundary_grant (emit s es)
    (grant t (boundary_counters (os_loop s)))) k"
proof -
  let ?c = "boundary_counters (os_loop s)"
  let ?s = "apply_outer_boundary_grant (emit s es) (grant t ?c)"
  have log: "os_log ?s = os_log s @ es @ grant_events (grant t ?c)"
    by (simp add: apply_outer_boundary_grant_def apply_grant_def emit_def record_boundary_def
        granted_kind grant_events_def Let_def)
  have n: "grants_in k (os_log ?s) = grants_in k (os_log s) + of_bool (k = kind)"
    by (auto simp: log host granted_events)
  have cnt: "counter_of (boundary_counters (os_loop ?s)) k =
      (if k = kind then sat_add (counter_of ?c k) 1 else counter_of ?c k)"
    using bumps [of t ?c k]
    by (cases k) (auto simp: apply_outer_boundary_grant_def apply_grant_def emit_def
        record_boundary_def granted_kind Let_def boundary_counters_def split: option.splits)
  have rec: "logged_grants (os_grants ?s) k =
      (if k = kind then sat_add (logged_grants (os_grants s) k) 1
       else logged_grants (os_grants s) k)"
    by (cases k; cases kind) (simp_all add: apply_outer_boundary_grant_def apply_grant_def
        emit_def record_boundary_def granted_kind Let_def)
  have "k = kind \<Longrightarrow> grants_in k (os_log s) < grant_cap m k"
    using eligible_below [OF el] kind_ok_unat [OF ok [OF k]] by simp
  with ok [OF k] show ?thesis
    using grant_cap_small [of m k]
    by (auto simp: kind_ok_def n cnt rec sat_add_small)
qed

lemma grant_log:
  "os_log (apply_outer_boundary_grant (emit s es) (grant t c)) =
     os_log s @ es @ grant_events (grant t c)"
  by (simp add: apply_outer_boundary_grant_def apply_grant_def emit_def record_boundary_def
      granted_kind grant_events_def Let_def)

lemma grant_log_shape:
  assumes "os_log s = start # rest" and "\<forall>e \<in> set (rest @ es). \<not> is_TurnStarted e \<and> \<not> is_TurnEnded e"
  shows "\<exists>rest'. os_log (apply_outer_boundary_grant (emit s es) (grant t c)) = start # rest' \<and>
    (\<forall>e \<in> set rest'. \<not> is_TurnStarted e \<and> \<not> is_TurnEnded e)"
  using assms granted_quiet by (auto simp: grant_log)

lemma grant_step_limits:
  assumes "\<And>k. grants_in k es = of_bool (k = kind \<and> kind = InTurnCycleAdvance)"
  shows "grants_in StepLimit (os_log (apply_outer_boundary_grant (emit s es) (grant t c))) =
    grants_in StepLimit (os_log s) + of_bool (kind = StepLimit)"
  using assms [of StepLimit] granted_events [of StepLimit t c] by (auto simp: grant_log)

end

lemma grant_turn:
  "os_turn (apply_outer_boundary_grant s g) =
     (case gr_turn_max_steps g of
        Some n \<Rightarrow> (os_turn s)\<lparr>tc_max_steps := n\<rparr> | None \<Rightarrow> os_turn s)"
  by (auto simp: apply_outer_boundary_grant_def apply_grant_def Let_def emit_def
      record_boundary_def split: option.split)

lemma os_turn_emit [simp]: "os_turn (emit s es) = os_turn s" "os_loop (emit s es) = os_loop s"
  "os_guard (emit s es) = os_guard s" "os_grants (emit s es) = os_grants s"
  by (simp_all add: emit_def)

context boundary_grant begin

text \<open>A grant that leaves the step budget alone keeps the invariant.\<close>

lemma grant_inv:
  assumes inv: "turn_inv m m0 inc start tid s"
    and el: "eligible m (boundary_counters (os_loop s))"
    and host: "list_all advance_event es"
      "count_if is_CycleAdvanced es = of_bool (kind = InTurnCycleAdvance)"
    and keeps: "kind \<noteq> StepLimit"
      "gr_turn_max_steps (grant t (boundary_counters (os_loop s))) = None"
  shows "turn_inv m m0 inc start tid
    (apply_outer_boundary_grant (emit s es) (grant t (boundary_counters (os_loop s))))"
proof -
  have grants: "grants_in k es = of_bool (k = kind \<and> kind = InTurnCycleAdvance)" for k
    using advance_grants [OF host(1), of k] host(2) by auto
  have shape: "\<forall>e \<in> set es. \<not> is_TurnStarted e \<and> \<not> is_TurnEnded e"
  proof
    fix e assume "e \<in> set es"
    then have "advance_event e" using host(1) by (simp add: list_all_iff)
    then show "\<not> is_TurnStarted e \<and> \<not> is_TurnEnded e"
      by (cases e) (simp_all add: advance_event_def quiet_event_def)
  qed
  obtain rest where rest: "os_log s = start # rest"
      "\<forall>e \<in> set rest. \<not> is_TurnStarted e \<and> \<not> is_TurnEnded e"
    using inv by (auto simp: turn_inv_def)
  have log: "\<exists>rest'. os_log (apply_outer_boundary_grant (emit s es)
      (grant t (boundary_counters (os_loop s)))) = start # rest' \<and>
    (\<forall>e \<in> set rest'. \<not> is_TurnStarted e \<and> \<not> is_TurnEnded e)"
    using rest shape by (intro grant_log_shape) auto
  have kinds: "\<forall>k \<in> set grant_kinds. kind_ok m (apply_outer_boundary_grant (emit s es)
      (grant t (boundary_counters (os_loop s)))) k"
    using inv by (intro ballI grant_kind_ok el grants) (auto simp: turn_inv_def)
  show ?thesis
    using inv kinds log grant_step_limits [OF grants] keeps
    by (simp add: turn_inv_def grant_turn)
qed

end

lemma step_limit_grant_inv:
  assumes inv: "turn_inv m m0 inc start tid s"
    and el: "step_limit_boundary_eligible m (boundary_counters (os_loop s))"
    and quiet: "list_all quiet_event es"
  shows "turn_inv m m0 inc start tid (apply_outer_boundary_grant (emit s es)
    (apply_step_limit_continuation (os_turn s) (boundary_counters (os_loop s)) inc))"
proof -
  let ?g = "apply_step_limit_continuation (os_turn s) (boundary_counters (os_loop s)) inc"
  let ?s = "apply_outer_boundary_grant (emit s es) ?g"
  have grants: "grants_in k es = of_bool (k = StepLimit \<and> StepLimit = InTurnCycleAdvance)" for k
    using quiet_grants [OF quiet] by simp
  obtain rest where rest: "os_log s = start # rest"
      "\<forall>e \<in> set rest. \<not> is_TurnStarted e \<and> \<not> is_TurnEnded e"
    using inv by (auto simp: turn_inv_def)
  have log: "\<exists>rest'. os_log ?s = start # rest' \<and>
      (\<forall>e \<in> set rest'. \<not> is_TurnStarted e \<and> \<not> is_TurnEnded e)"
    using rest quiet
    by (intro step_limit_grant.grant_log_shape) (auto simp: list_all_iff quiet_event_def)
  have kinds: "\<forall>k \<in> set grant_kinds. kind_ok m ?s k"
    using inv by (intro ballI step_limit_grant.grant_kind_ok el grants) (auto simp: turn_inv_def)
  have turn: "os_turn ?s = (os_turn s)\<lparr>tc_max_steps := sat_add (tc_max_steps (os_turn s)) inc\<rparr>"
    by (simp add: grant_turn apply_step_limit_continuation_def step_limit_budget_after_grant_def
        Let_def)
  have "grants_in StepLimit (os_log ?s) = Suc (grants_in StepLimit (os_log s))"
    using step_limit_grant.grant_step_limits [OF grants] by simp
  moreover have "tc_step (os_turn s) \<le> sat_add (tc_max_steps (os_turn s)) inc"
    using inv sat_add_ge [of "tc_max_steps (os_turn s)" inc] order_trans
    by (auto simp: turn_inv_def)
  moreover have "unat (sat_add (tc_max_steps (os_turn s)) inc) =
      min (unat m0 + Suc (grants_in StepLimit (os_log s)) * unat inc) (2 ^ 32 - 1)"
    using inv by (simp add: turn_inv_def unat_sat_add min_def)
  ultimately show ?thesis
    using inv kinds log by (simp add: turn_inv_def turn)
qed

lemma recompile_inv:
  assumes "turn_inv m m0 inc start tid s"
  shows "turn_inv m m0 inc start tid (apply_outer_boundary_grant s
    (apply_context_overflow_budget_recompile (os_turn s) (boundary_counters (os_loop s))
      attempts budget))"
proof -
  let ?e = "ContextOverflowRecovered (tc_id (os_turn s)) (tc_step (os_turn s)) BudgetRecompile
    (Some budget)"
  have "turn_inv m m0 inc start tid (emit s [?e])"
    using assms by (intro turn_inv_emit) (simp_all add: quiet_event_def)
  then show ?thesis
    by (rule turn_inv_cong)
       (simp_all add: apply_outer_boundary_grant_def apply_grant_def emit_def Let_def
         apply_context_overflow_budget_recompile_def boundary_counters_def
         context_overflow_budget_recompile_strategy_def)
qed

section \<open>Every iteration keeps the invariant\<close>

lemma gate_eligible:
  "pre_inner_step_limit_gate m c b = GateAwaitHostContinue \<Longrightarrow> step_limit_boundary_eligible m c"
  "pre_inner_step_limit_gate m c True \<noteq> GateNotAtCap"
  "pre_inner_overflow_gate m c n x y = GateAwaitCycleHandoff \<Longrightarrow> cycle_handoff_boundary_eligible m c"
  "post_inner_loop_guard_gate m h c = GateAwaitNudge \<Longrightarrow> loop_guard_boundary_eligible m True c"
  "post_inner_cycle_advance_gate m c = GateAwaitHostAdvance \<Longrightarrow>
     in_turn_cycle_advance_boundary_eligible m c"
  by (auto simp: pre_inner_step_limit_gate_def step_limit_decision_def pre_inner_overflow_gate_def
      context_overflow_preflight_decision_def post_inner_loop_guard_gate_def
      loop_guard_halt_decision_def post_inner_cycle_advance_gate_def
      in_turn_cycle_advance_decision_def loop_guard_boundary_eligible_def
      split: if_splits)

definition has_room :: "outer_state \<Rightarrow> bool" where
  "has_room s \<longleftrightarrow> tc_step (os_turn s) < tc_max_steps (os_turn s)"

lemma has_room_emit [simp]: "has_room (emit s es) = has_room s"
  by (simp add: has_room_def)

lemma quiet_advance: "list_all quiet_event es \<Longrightarrow> list_all advance_event es \<and> count_if is_CycleAdvanced es = 0"
  by (auto simp: list_all_iff advance_event_def count_if_eq_0_iff quiet_event_def)

lemma overflow_inv:
  assumes inv: "turn_inv m m0 inc start tid s" and room: "has_room s" and quiet: "host_quiet a"
    and run: "pre_inner_overflow m a s = (s', out)"
  shows "turn_inv m m0 inc start tid s' \<and> (out = PreProceed \<longrightarrow> has_room s')"
proof (cases "ha_input_budget a")
  case None
  with assms show ?thesis by (simp add: pre_inner_overflow_def)
next
  case (Some budget)
  let ?c = "boundary_counters (os_loop s)"
  have fail: "turn_inv m m0 inc start tid (emit (s\<lparr>os_loop := (os_loop s)\<lparr>ls_turn_error := err\<rparr>\<rparr>) es)"
    if "list_all quiet_event es" for err es
    by (rule turn_inv_emit [OF that], rule turn_inv_cong [OF inv])
       (simp_all add: boundary_counters_def)
  have none: "emit t [] = t" for t by (simp add: emit_def)
  show ?thesis
  proof (cases "pre_inner_overflow_gate m ?c (ls_context_recovery_attempts (os_loop s))
      (ha_estimated_input a) budget")
    case GateWithinBudget
    with inv room run Some show ?thesis by (simp add: pre_inner_overflow_def Let_def)
  next
    case GateHardFail
    with fail [of "[]"] run Some show ?thesis by (auto simp: pre_inner_overflow_def Let_def none)
  next
    case GateAwaitCycleHandoff
    have "turn_inv m m0 inc start tid (apply_outer_boundary_grant (emit s (ha_handoff_events a))
        (apply_context_overflow_cycle_handoff t ?c b))" for t b
      using quiet quiet_advance gate_eligible(3) [OF GateAwaitCycleHandoff]
      by (intro handoff_grant.grant_inv [OF inv])
         (auto simp: host_quiet_def apply_context_overflow_cycle_handoff_def)
    with GateAwaitCycleHandoff run Some quiet fail [of "ha_handoff_events a"]
    show ?thesis by (auto simp: pre_inner_overflow_def Let_def host_quiet_def split: if_splits)
  next
    case GateAwaitBudgetRecompile
    have "turn_inv m m0 inc start tid (emit s (ha_recover_events a))"
      using inv quiet by (simp add: turn_inv_emit host_quiet_def)
    with GateAwaitBudgetRecompile run Some room recompile_inv [OF this]
    show ?thesis by (auto simp: pre_inner_overflow_def Let_def split: if_splits)
  qed
qed

lemma after_limit_inv:
  assumes "turn_inv m m0 inc start tid s" and "has_room s" and "host_quiet a"
    and run: "pre_inner_after_limit m a s = (s', out)"
  shows "turn_inv m m0 inc start tid s' \<and> (out = PreProceed \<longrightarrow> has_room s')"
proof -
  have inv: "turn_inv m m0 inc start tid (emit s (ha_baseline_events a))"
    using assms by (simp add: turn_inv_emit host_quiet_def)
  show ?thesis
  proof (cases "ha_pre_request_held a")
    case True
    with run inv show ?thesis
      by (auto simp: pre_inner_after_limit_def Let_def grant_kinds_def intro: turn_inv_hold)
  next
    case False
    with run overflow_inv [OF inv] assms show ?thesis
      by (auto simp: pre_inner_after_limit_def Let_def)
  qed
qed

lemma pre_inner_inv:
  assumes inv: "turn_inv m m0 inc start tid s" and quiet: "host_quiet a"
    and run: "run_outer_pre_inner_step m inc a s = (s', out)"
  shows "turn_inv m m0 inc start tid s' \<and> (out = PreProceed \<longrightarrow> has_room s')"
proof -
  let ?s = "emit s (ha_pre_events a)"
  have i: "turn_inv m m0 inc start tid ?s"
    using inv quiet by (simp add: turn_inv_emit host_quiet_def)
  show ?thesis
  proof (cases "at_max_steps (os_turn ?s)")
    case False
    then have "has_room ?s" by (simp add: at_max_steps_def has_room_def not_le)
    with False run after_limit_inv [OF i _ quiet] show ?thesis
      by (simp add: run_outer_pre_inner_step_def Let_def)
  next
    case True
    let ?c = "boundary_counters (os_loop ?s)"
    have q: "list_all quiet_event (ha_step_limit_events a)" using quiet by (simp add: host_quiet_def)
    show ?thesis
    proof (cases "pre_inner_step_limit_gate m ?c True")
      case GateNotAtCap
      then show ?thesis using gate_eligible(2) by blast
    next
      case GateAwaitHostContinue
      with True run step_limit_grant_inv [OF i gate_eligible(1) [OF GateAwaitHostContinue] q]
        turn_inv_emit [OF q i]
      show ?thesis
        by (auto simp: run_outer_pre_inner_step_def Let_def split: if_splits)
    next
      case GateTerminateAtCap
      with True run i show ?thesis by (auto simp: run_outer_pre_inner_step_def Let_def)
    qed
  qed
qed

lemma inner_inv:
  assumes inv: "turn_inv m m0 inc start tid s" and room: "has_room s" and quiet: "host_quiet a"
  shows "turn_inv m m0 inc start tid (run_inner_step a s) \<and>
    (\<not> in_advanced_step (ha_inner a) \<longrightarrow> has_room (run_inner_step a s))"
proof -
  let ?r = "ha_inner a"
  let ?s1 = "emit s (in_events ?r)"
  let ?s2 = "?s1\<lparr>os_loop := (os_loop ?s1)\<lparr>
      ls_context_recovery_attempts := in_context_recovery_attempts ?r,
      ls_stream_retry_attempts := in_stream_retry_attempts ?r,
      ls_length_continuations := in_length_continuations ?r,
      ls_turn_error := in_turn_error ?r\<rparr>, os_guard := in_loop_guard ?r\<rparr>"
  have "turn_inv m m0 inc start tid ?s1"
    using inv quiet by (simp add: turn_inv_emit host_quiet_def inner_quiet_def)
  then have "turn_inv m m0 inc start tid ?s2"
    by (rule turn_inv_cong) (simp_all add: boundary_counters_def)
  moreover have "has_room ?s2" using room by (simp add: has_room_def)
  ultimately show ?thesis
    by (auto simp: run_inner_step_def Let_def has_room_def intro: turn_inv_advance)
qed

lemma count_error_inv:
  "turn_inv m m0 inc start tid s \<Longrightarrow> turn_inv m m0 inc start tid (count_error_step phase s)"
  by (erule turn_inv_cong) (simp_all add: count_error_step_def boundary_counters_def)

lemma tail_inv:
  assumes inv: "turn_inv m m0 inc start tid s" and room: "has_room s" and quiet: "host_quiet a"
    and run: "post_inner_tail m a s = (s', out)"
  shows "turn_inv m m0 inc start tid s' \<and> (out = PostAdvance \<longrightarrow> has_room s')"
proof -
  let ?s1 = "emit s (ha_reminder_events a)"
  let ?c = "boundary_counters (os_loop ?s1)"
  have i: "turn_inv m m0 inc start tid ?s1"
    using inv quiet by (simp add: turn_inv_emit host_quiet_def)
  show ?thesis
  proof (cases "post_inner_cycle_advance_gate m ?c")
    case GateSkip
    with i room run show ?thesis by (auto simp: post_inner_tail_def Let_def)
  next
    case GateAwaitHostAdvance
    show ?thesis
    proof (cases "ha_advance_cycle a")
      case True
      let ?s2 = "apply_outer_boundary_grant (emit ?s1 (ha_advance_events a))
        (apply_in_turn_cycle_advance ?c)"
      have "turn_inv m m0 inc start tid ?s2"
        using quiet True gate_eligible(5) [OF GateAwaitHostAdvance]
        by (intro cycle_advance_grant.grant_inv [OF i])
           (auto simp: host_quiet_def apply_in_turn_cycle_advance_def)
      moreover have "has_room ?s2"
        using room by (simp add: has_room_def grant_turn apply_in_turn_cycle_advance_def)
      ultimately show ?thesis
        using True GateAwaitHostAdvance run turn_inv_advance
        by (auto simp: post_inner_tail_def Let_def has_room_def)
    next
      case False
      then have "list_all quiet_event (ha_advance_events a)"
        using quiet by (auto simp: host_quiet_def list_all_iff advance_event_def count_if_eq_0_iff)
      with i room False GateAwaitHostAdvance run turn_inv_emit show ?thesis
        by (auto simp: post_inner_tail_def Let_def)
    qed
  qed
qed

lemma escalation_inv:
  assumes inv: "turn_inv m m0 inc start tid s" and room: "has_room s" and quiet: "host_quiet a"
    and run: "post_inner_escalation m a s = (s', out)"
  shows "turn_inv m m0 inc start tid s' \<and> (out = PostAdvance \<longrightarrow> has_room s')"
proof (cases "post_inner_error_escalation_gate (tp_step_error_count (in_phase (ha_inner a)))
    (ls_consecutive_tool_error_steps (os_loop s)) (tp_step_error_categories (in_phase (ha_inner a)))")
  case GateSkipCheckpoint
  with run tail_inv [OF inv room quiet] show ?thesis
    by (simp add: post_inner_escalation_def Let_def)
next
  case GateRunCheckpoint
  let ?s1 = "emit s (ha_escalation_events a)"
  have i: "turn_inv m m0 inc start tid ?s1"
    using inv quiet by (simp add: turn_inv_emit host_quiet_def)
  show ?thesis
  proof (cases "ha_escalation_held a")
    case True
    have "turn_inv m m0 inc start tid (record_boundary ?s1 ErrorEscalationCapacityHold)"
      by (rule turn_inv_hold [OF i]) (simp add: grant_kinds_def)
    moreover have "has_room (record_boundary ?s1 ErrorEscalationCapacityHold)"
      using room by (simp add: has_room_def record_boundary_def)
    ultimately show ?thesis
      using True GateRunCheckpoint run turn_inv_advance
      by (auto simp: post_inner_escalation_def Let_def has_room_def)
  next
    case False
    with run tail_inv [OF i _ quiet] room GateRunCheckpoint show ?thesis
      by (simp add: post_inner_escalation_def Let_def)
  qed
qed

lemma count_error_room [simp]: "has_room (count_error_step phase s) = has_room s"
  by (simp add: has_room_def count_error_step_def)

lemma post_inner_inv:
  assumes inv: "turn_inv m m0 inc start tid s" and room: "has_room s" and quiet: "host_quiet a"
    and run: "run_outer_post_inner_step m a s = (s', out)"
  shows "turn_inv m m0 inc start tid s' \<and> (out = PostAdvance \<longrightarrow> has_room s')"
proof -
  let ?phase = "in_phase (ha_inner a)"
  let ?c = "boundary_counters (os_loop s)"
  consider "\<not> tp_break_outer_loop ?phase" "\<not> tp_continue_outer_loop ?phase"
    | "\<not> tp_break_outer_loop ?phase" "tp_continue_outer_loop ?phase"
    | "tp_break_outer_loop ?phase" "\<not> ha_continue_after_halt a"
    | "tp_break_outer_loop ?phase" "ha_continue_after_halt a"
    by blast
  then show ?thesis
  proof cases
    case 1
    with run escalation_inv [OF count_error_inv [OF inv] _ quiet] room show ?thesis
      by (simp add: run_outer_post_inner_step_def Let_def)
  next
    case 2
    with run room turn_inv_advance [OF count_error_inv [OF inv, of ?phase]] show ?thesis
      by (auto simp: run_outer_post_inner_step_def Let_def has_room_def count_error_step_def)
  next
    case 3
    have "list_all quiet_event (ha_halt_events a)" using quiet by (simp add: host_quiet_def)
    with 3 run inv turn_inv_emit show ?thesis
      by (auto simp: run_outer_post_inner_step_def Let_def split: post_inner_loop_guard_gate_t.splits)
  next
    case 4
    show ?thesis
    proof (cases "post_inner_loop_guard_gate m (tp_loop_guard_halted ?phase) ?c")
      case GateAwaitNudge
      let ?s2 = "apply_outer_boundary_grant (emit s (ha_halt_events a))
        (apply_loop_guard_continuation (os_turn s) ?c)"
      let ?s3 = "?s2\<lparr>os_guard := reset_failures (os_guard ?s2)\<rparr>"
      have "turn_inv m m0 inc start tid ?s2"
        using quiet quiet_advance gate_eligible(4) [OF GateAwaitNudge]
        by (intro loop_guard_grant.grant_inv [OF inv])
           (auto simp: host_quiet_def apply_loop_guard_continuation_def Let_def)
      then have "turn_inv m m0 inc start tid ?s3" by (rule turn_inv_cong) simp_all
      moreover have "has_room ?s3"
        using room by (simp add: has_room_def grant_turn apply_loop_guard_continuation_def Let_def)
      ultimately show ?thesis
        using 4 GateAwaitNudge run turn_inv_advance [of m m0 inc start tid ?s3]
        by (auto simp: run_outer_post_inner_step_def Let_def has_room_def)
    qed (use 4 run inv in \<open>auto simp: run_outer_post_inner_step_def Let_def\<close>)
  qed
qed

lemma iteration_inv:
  assumes inv: "turn_inv m m0 inc start tid s" and quiet: "host_quiet a"
    and run: "loop_iteration m inc a s = (s', ctl)"
  shows "turn_inv m m0 inc start tid s'"
proof (cases "ha_cancelled a")
  case True
  with run inv show ?thesis by (simp add: loop_iteration_def)
next
  case False
  obtain s1 pre where pre: "run_outer_pre_inner_step m inc a s = (s1, pre)" by fastforce
  note i1 = pre_inner_inv [OF inv quiet pre]
  show ?thesis
  proof (cases "pre = PreProceed")
    case other: False
    with False run pre i1 show ?thesis by (cases pre) (auto simp: loop_iteration_def Let_def)
  next
    case True
    let ?s2 = "run_inner_step a s1"
    note i2 = inner_inv [OF conjunct1 [OF i1] mp [OF conjunct2 [OF i1] True] quiet]
    obtain s3 post where post: "run_outer_post_inner_step m a ?s2 = (s3, post)" by fastforce
    show ?thesis
    proof (cases "in_advanced_step (ha_inner a)")
      case adv: True
      with quiet have "in_return_early (ha_inner a) = None" "\<not> in_break_outer_loop (ha_inner a)"
        "in_continue_outer_loop (ha_inner a)" by (auto simp: host_quiet_def inner_quiet_def)
      with False True run pre i2 show ?thesis by (auto simp: loop_iteration_def Let_def)
    next
      case stay: False
      have i3: "turn_inv m m0 inc start tid s3 \<and> (post = PostAdvance \<longrightarrow> has_room s3)"
        using i2 stay post_inner_inv [OF _ _ quiet post] by blast
      then have "post = PostAdvance \<Longrightarrow> turn_inv m m0 inc start tid (advance s3)"
        using turn_inv_advance by (auto simp: has_room_def)
      with False True run pre i2 i3 post show ?thesis
        by (cases post) (auto simp: loop_iteration_def Let_def split: option.splits if_splits)
    qed
  qed
qed

lemma turn_loop_inv:
  "turn_loop m inc as s = Some (s', ctl) \<Longrightarrow> turn_inv m m0 inc start tid s \<Longrightarrow>
   list_all host_quiet as \<Longrightarrow> turn_inv m m0 inc start tid s' \<and> ctl \<noteq> LoopContinue"
proof (induction m inc as s rule: turn_loop.induct)
  case (2 m inc a as s)
  obtain s1 c where it: "loop_iteration m inc a s = (s1, c)" by fastforce
  have "turn_inv m m0 inc start tid s1" using iteration_inv [OF 2(3) _ it] 2(4) by simp
  with 2 it show ?case by (cases c) auto
qed simp


lemma u32_cap: "min (unat (w :: u32)) 4294967295 = unat w"
proof -
  have "unat w < 2 ^ LENGTH(32)" by (rule unsigned_less)
  then show ?thesis by simp
qed

lemma initial_inv:
  "tc_step t \<le> tc_max_steps t \<Longrightarrow>
   turn_inv m (tc_max_steps t) inc (TurnStarted (tc_id t) m input (tc_max_steps t)) (tc_id t)
     (initial_state m input t)"
  by (auto simp: turn_inv_def initial_state_def kind_ok_def grant_kinds_def boundary_counters_def
      default_loop_state_def default_grants_def u32_cap)

lemma turn_result_inv:
  assumes run: "handle_deepseek_turn m h t = Some r" and quiet: "list_all host_quiet (th_answers h)"
    and room: "tc_step t \<le> tc_max_steps t"
  shows "\<exists>s out. turn_inv m (tc_max_steps t) (max (tc_max_steps t) 1)
        (TurnStarted (tc_id t) m (th_input_text h) (tc_max_steps t)) (tc_id t) s \<and>
     tr_log r = os_log s @ [TurnEnded (tc_id t) out (tc_step (os_turn s))] \<and>
     tr_snapshot r = live_snapshot (os_loop s) (os_turn s) (th_summary_injected h) \<and>
     tr_grants r = os_grants s"
proof (cases "th_has_client h")
  case False
  with run initial_inv [OF room, of m "max (tc_max_steps t) 1" "th_input_text h"] show ?thesis
    by (auto simp: handle_deepseek_turn_def Let_def end_turn_def initial_state_def)
next
  case True
  with run obtain s ctl where loop: "turn_loop m (max (tc_max_steps t) 1) (th_answers h)
      (initial_state m (th_input_text h) t) = Some (s, ctl)" and r: "r = finish_loop h s ctl"
    by (auto simp: handle_deepseek_turn_def Let_def)
  note inv = turn_loop_inv [OF loop initial_inv [OF room] quiet, THEN conjunct1]
  then have tid: "tc_id (os_turn s) = tc_id t" by (simp add: turn_inv_def)
  have "\<exists>out status err. r = end_turn (th_summary_injected h) s out status err"
    unfolding r finish_loop_def by (cases ctl; cases "ls_turn_error (os_loop s)"; simp) blast+
  with inv tid show ?thesis by (fastforce simp: end_turn_def)
qed

section \<open>Progress\<close>

definition grants_total :: "kernel_event list \<Rightarrow> nat" where
  "grants_total es = (\<Sum>k\<leftarrow>grant_kinds. grants_in k es)"

lemma grants_total_append [simp]: "grants_total (es @ fs) = grants_total es + grants_total fs"
  by (simp add: grants_total_def grant_kinds_def)

definition work :: "outer_state \<Rightarrow> nat" where
  "work s = unat (tc_step (os_turn s)) + grants_total (os_log s)"

text \<open>
  The iterations that may leave both the step and the grants alone: a capacity hold before the
  request, a budget recompile, and an inner step that asks to go round again at the same step.
\<close>

definition may_stall :: "host_answers \<Rightarrow> bool" where
  "may_stall a \<longleftrightarrow> ha_pre_request_held a \<or> ha_recover_overflow a \<or>
     in_continue_outer_loop (ha_inner a) \<and> \<not> in_advanced_step (ha_inner a)"

lemma work_emit: "work s \<le> work (emit s es)"
  by (simp add: work_def emit_def)

lemma work_record [simp]: "work (record_boundary s k) = work s"
  by (simp add: work_def record_boundary_def)

lemma work_cong: "os_turn s' = os_turn s \<Longrightarrow> os_log s' = os_log s \<Longrightarrow> work s' = work s"
  by (simp add: work_def)

lemma work_advance: "has_room s \<Longrightarrow> work (advance s) = Suc (work s)"
proof -
  assume "has_room s"
  then have "tc_step (os_turn s) < tc_max_steps (os_turn s)" by (simp add: has_room_def)
  then have "unat (tc_step (os_turn s)) + unat (1 :: u32) < 2 ^ LENGTH(32)"
    using u32_cap [of "tc_max_steps (os_turn s)"] by (simp add: word_less_nat_alt)
  then have "unat (tc_step (os_turn s) + 1) = Suc (unat (tc_step (os_turn s)))"
    by (subst (asm) unat_add_lem) simp
  then show ?thesis by (simp add: work_def advance_def next_step_def Let_def)
qed

lemma work_apply: "work s \<le> work (apply_outer_boundary_grant s g)"
proof -
  have "\<exists>es. os_log (apply_outer_boundary_grant s g) = os_log s @ es"
    by (cases "gr_boundary_kind g")
       (simp_all add: apply_outer_boundary_grant_def apply_grant_def Let_def emit_def
         record_boundary_def)
  then show ?thesis by (auto simp: work_def grant_turn split: option.split)
qed

context boundary_grant begin

lemma work_grant:
  assumes "kind \<noteq> InTurnCycleAdvance" and "kind \<in> set grant_kinds"
  shows "work s < work (apply_outer_boundary_grant (emit s es) (grant t c))"
proof -
  have "tc_step (os_turn (apply_outer_boundary_grant (emit s es) (grant t c))) =
      tc_step (os_turn s)"
    by (simp add: grant_turn split: option.split)
  moreover have "0 < grants_total (grant_events (grant t c))"
    using assms by (cases kind) (simp_all add: grants_total_def grant_kinds_def granted_events)
  ultimately show ?thesis by (simp add: work_def grant_log)
qed

end

lemma overflow_work:
  assumes "pre_inner_overflow m a s = (s', out)"
  shows "work s \<le> work s' \<and> (out = PreContinue \<longrightarrow> work s < work s' \<or> may_stall a)"
proof -
  have handoff: "work s < work (apply_outer_boundary_grant (emit s es)
      (apply_context_overflow_cycle_handoff t c b))" for es t c b
    by (rule handoff_grant.work_grant) (simp_all add: grant_kinds_def)
  have recompile: "work s \<le> work (apply_outer_boundary_grant (emit s es)
      (apply_context_overflow_budget_recompile t c n b))" for es t c n b
    by (simp add: work_def apply_outer_boundary_grant_def apply_grant_def emit_def Let_def
        apply_context_overflow_budget_recompile_def)
  have failed: "work s \<le> work (emit (s\<lparr>os_loop := l\<rparr>) es)" "work (s\<lparr>os_loop := l\<rparr>) = work s"
    for l es by (simp_all add: work_def emit_def)
  show ?thesis
    using assms handoff recompile failed work_emit [of s "ha_recover_events a"]
      less_imp_le [OF handoff]
    by (auto simp: pre_inner_overflow_def Let_def may_stall_def
        split: option.splits pre_inner_overflow_gate_t.splits if_splits)
qed

lemma pre_inner_work:
  assumes "run_outer_pre_inner_step m inc a s = (s', out)"
  shows "work s \<le> work s' \<and> (out = PreContinue \<longrightarrow> work s < work s' \<or> may_stall a)"
proof -
  have grant: "work s1 < work (apply_outer_boundary_grant (emit s1 es)
      (apply_step_limit_continuation t c inc))" for s1 es t c
    by (rule step_limit_grant.work_grant) (simp_all add: grant_kinds_def)
  have after: "work s1 \<le> work s2 \<and> (out = PreContinue \<longrightarrow> work s1 < work s2 \<or> may_stall a)"
    if "pre_inner_after_limit m a s1 = (s2, out)" for s1 s2
    using that overflow_work [of m a "emit s1 (ha_baseline_events a)" s2 out]
      work_emit [of s1 "ha_baseline_events a"]
    by (auto simp: pre_inner_after_limit_def Let_def may_stall_def split: if_splits)
  let ?s1 = "emit s (ha_pre_events a)"
  have "work ?s1 \<le> work s' \<and> (out = PreContinue \<longrightarrow> work ?s1 < work s' \<or> may_stall a)"
  proof (cases "at_max_steps (os_turn ?s1)")
    case False
    with assms after [of ?s1 s'] show ?thesis by (simp add: run_outer_pre_inner_step_def Let_def)
  next
    case True
    show ?thesis
    proof (cases "pre_inner_step_limit_gate m (boundary_counters (os_loop ?s1)) True")
      case GateNotAtCap
      with True assms after [of ?s1 s'] show ?thesis
        by (simp add: run_outer_pre_inner_step_def Let_def)
    next
      case GateTerminateAtCap
      with True assms show ?thesis by (auto simp: run_outer_pre_inner_step_def Let_def)
    next
      case GateAwaitHostContinue
      then have "s' = apply_outer_boundary_grant (emit ?s1 (ha_step_limit_events a))
            (apply_step_limit_continuation (os_turn ?s1) (boundary_counters (os_loop ?s1)) inc) \<or>
          s' = emit ?s1 (ha_step_limit_events a) \<and> out = PreBreak"
        using True assms by (auto simp: run_outer_pre_inner_step_def Let_def split: if_splits)
      then show ?thesis
        using grant [of ?s1] less_imp_le work_emit [of ?s1] by blast
    qed
  qed
  with work_emit [of s "ha_pre_events a"] show ?thesis by auto
qed

lemma inner_work:
  assumes "has_room s"
  shows "work s + of_bool (in_advanced_step (ha_inner a)) \<le> work (run_inner_step a s)"
proof -
  let ?s1 = "emit s (in_events (ha_inner a))"
  have "work s \<le> work s2 \<and> work (advance s2) = Suc (work s2)"
    if turn: "os_turn s2 = os_turn ?s1" and log: "os_log s2 = os_log ?s1" for s2
  proof -
    have "has_room s2" using assms turn by (simp add: has_room_def)
    then show ?thesis
      using work_advance work_emit [of s "in_events (ha_inner a)"] work_cong [OF turn log] by simp
  qed
  then show ?thesis by (simp add: run_inner_step_def Let_def)
qed

lemma tail_work:
  assumes "has_room s" and "post_inner_tail m a s = (s', out)"
  shows "work s \<le> work s' \<and> (out = PostContinue \<longrightarrow> work s < work s')"
proof -
  let ?s1 = "emit s (ha_reminder_events a)"
  let ?s2 = "apply_outer_boundary_grant (emit ?s1 (ha_advance_events a))
    (apply_in_turn_cycle_advance (boundary_counters (os_loop ?s1)))"
  have le: "work s \<le> work ?s1" "work s \<le> work (emit ?s1 (ha_advance_events a))"
    by (rule work_emit, rule order_trans [OF work_emit work_emit])
  have room: "has_room ?s2"
    using assms(1) by (simp add: has_room_def grant_turn apply_in_turn_cycle_advance_def)
  have "work s \<le> work ?s2" by (rule order_trans [OF le(2) work_apply])
  then have adv: "work s < work (advance ?s2)" using work_advance [OF room] by simp
  have "(s', out) \<in> {(?s1, PostAdvance), (emit ?s1 (ha_advance_events a), PostAdvance),
      (advance ?s2, PostContinue)}"
    using assms(2) unfolding post_inner_tail_def Let_def
    by (simp split: post_inner_cycle_advance_gate_t.splits if_splits)
  with le adv show ?thesis by auto
qed

lemma post_inner_work:
  assumes room: "has_room s" and run: "run_outer_post_inner_step m a s = (s', out)"
  shows "work s \<le> work s' \<and> (out = PostContinue \<longrightarrow> work s < work s')"
proof -
  let ?s1 = "count_error_step (in_phase (ha_inner a)) s"
  let ?s2 = "emit ?s1 (ha_escalation_events a)"
  have w1: "work ?s1 = work s" by (simp add: work_def count_error_step_def)
  have w2: "work s \<le> work ?s2" using work_emit [of ?s1] w1 by simp
  have hold: "work (advance (record_boundary t k)) = Suc (work t)" if "has_room t" for t k
    using work_advance [of "record_boundary t k"] that
    by (simp add: has_room_def record_boundary_def) (simp add: work_def)
  have esc: "work s \<le> work s' \<and> (out = PostContinue \<longrightarrow> work s < work s')"
    if "post_inner_escalation m a ?s1 = (s', out)"
  proof -
    have "post_inner_tail m a ?s1 = (s', out) \<or> post_inner_tail m a ?s2 = (s', out) \<or>
        s' = advance (record_boundary ?s2 ErrorEscalationCapacityHold)"
      using that unfolding post_inner_escalation_def Let_def
      by (simp split: post_inner_error_escalation_gate_t.splits if_splits)
    then show ?thesis
      using tail_work [of ?s1 m a s' out] tail_work [of ?s2 m a s' out] room w1 w2 hold [of ?s2]
      by fastforce
  qed
  let ?g = "apply_outer_boundary_grant (emit s (ha_halt_events a))
    (apply_loop_guard_continuation (os_turn s) (boundary_counters (os_loop s)))"
  have g: "work s < work ?g" by (rule loop_guard_grant.work_grant) (simp_all add: grant_kinds_def)
  have "has_room ?g"
    using room by (simp add: has_room_def grant_turn apply_loop_guard_continuation_def Let_def)
  then have "work (advance (?g\<lparr>os_guard := x\<rparr>)) = Suc (work ?g)" for x
    using work_advance [of "?g\<lparr>os_guard := x\<rparr>"] by (simp add: has_room_def work_def)
  moreover have "work (advance ?s1) = Suc (work s)" using room work_advance w1 by simp
  moreover have "post_inner_escalation m a ?s1 = (s', out) \<or> s' = advance ?s1 \<or>
      (s', out) \<in> {(s, PostBreak), (emit s (ha_halt_events a), PostBreak)} \<or>
      s' = advance (?g\<lparr>os_guard := reset_failures (os_guard ?g)\<rparr>)"
    using run unfolding run_outer_post_inner_step_def Let_def
    by (simp split: post_inner_loop_guard_gate_t.splits if_splits)
  ultimately show ?thesis
    using g esc work_emit [of s "ha_halt_events a"] by auto
qed

lemma iteration_work:
  assumes inv: "turn_inv m m0 inc start tid s" and quiet: "host_quiet a"
    and run: "loop_iteration m inc a s = (s', LoopContinue)"
  shows "Suc (work s) \<le> work s' + of_bool (may_stall a)"
proof -
  have "\<not> ha_cancelled a" using run by (auto simp: loop_iteration_def)
  obtain s1 pre where pre: "run_outer_pre_inner_step m inc a s = (s1, pre)" by fastforce
  note i1 = pre_inner_inv [OF inv quiet pre] and w1 = pre_inner_work [OF pre]
  show ?thesis
  proof (cases "pre = PreProceed")
    case other: False
    with \<open>\<not> ha_cancelled a\<close> run pre w1 show ?thesis
      by (cases pre) (auto simp: loop_iteration_def Let_def)
  next
    case True
    let ?s2 = "run_inner_step a s1"
    have room: "has_room s1" using i1 True by simp
    note w2 = inner_work [OF room, of a]
    note i2 = inner_inv [OF conjunct1 [OF i1] room quiet]
    obtain s3 post where post: "run_outer_post_inner_step m a ?s2 = (s3, post)" by fastforce
    have cont: "in_return_early (ha_inner a) = None" "\<not> in_break_outer_loop (ha_inner a)"
      "in_continue_outer_loop (ha_inner a) \<and> s' = ?s2 \<or>
       \<not> in_continue_outer_loop (ha_inner a) \<and>
         (post = PostContinue \<and> s' = s3 \<or> post = PostAdvance \<and> s' = advance s3)"
      using run True pre post \<open>\<not> ha_cancelled a\<close>
      by (auto simp: loop_iteration_def Let_def
          split: option.splits if_splits outer_post_inner_step_outcome.splits)
    show ?thesis
    proof (cases "in_continue_outer_loop (ha_inner a)")
      case c: True
      with cont w1 w2 show ?thesis by (cases "in_advanced_step (ha_inner a)") (auto simp: may_stall_def)
    next
      case c: False
      then have stay: "\<not> in_advanced_step (ha_inner a)" using quiet by (auto simp: host_quiet_def inner_quiet_def)
      note room2 = mp [OF conjunct2 [OF i2] stay]
      note w3 = post_inner_work [OF room2 post]
      have "post = PostAdvance \<Longrightarrow> work (advance s3) = Suc (work s3)"
        using post_inner_inv [OF conjunct1 [OF i2] room2 quiet post] work_advance by blast
      with c cont w1 w2 w3 show ?thesis by auto
    qed
  qed
qed

lemma running_work:
  "turn_loop m inc as s = None \<Longrightarrow> turn_inv m m0 inc start tid s \<Longrightarrow> list_all host_quiet as \<Longrightarrow>
   \<exists>s'. turn_inv m m0 inc start tid s' \<and>
     length as + work s \<le> work s' + count_if may_stall as"
proof (induction m inc as s rule: turn_loop.induct)
  case (2 m inc a as s)
  obtain s1 c where it: "loop_iteration m inc a s = (s1, c)" by fastforce
  with 2(2) have c: "c = LoopContinue" by (cases c) auto
  have "turn_inv m m0 inc start tid s1" using iteration_inv [OF 2(3) _ it] 2(4) by simp
  with 2 it c obtain s' where s': "turn_inv m m0 inc start tid s'"
      "length as + work s1 \<le> work s' + count_if may_stall as" by auto
  with iteration_work [OF 2(3) _ it [unfolded c]] 2(4) show ?case
    by (intro exI [of _ s']) auto
qed auto

lemma work_bound:
  assumes inv: "turn_inv m m0 inc start tid s"
  shows "work s \<le> unat m0 + 3 * unat inc + 15"
proof -
  let ?n = "grants_in StepLimit (os_log s)"
  have caps: "k \<in> set grant_kinds \<Longrightarrow> grants_in k (os_log s) \<le> grant_cap m k" for k
    using inv by (simp add: turn_inv_def kind_ok_def)
  have "grants_total (os_log s) \<le> 15"
    using caps [of StepLimit] caps [of LoopGuard] caps [of ContextOverflowCycleHandoff]
      caps [of InTurnCycleAdvance]
    by (simp add: grants_total_def grant_kinds_def split: if_splits)
  moreover have "?n \<le> 3"
    using caps [of StepLimit] by (simp add: grant_kinds_def split: if_splits)
  then have "?n * unat inc \<le> 3 * unat inc" by (rule mult_le_mono1)
  then have "unat (tc_max_steps (os_turn s)) \<le> unat m0 + 3 * unat inc"
    using inv unfolding turn_inv_def by linarith
  moreover have "unat (tc_step (os_turn s)) \<le> unat (tc_max_steps (os_turn s))"
    using inv unfolding turn_inv_def word_le_nat_alt by blast
  ultimately show ?thesis by (simp add: work_def)
qed

end
