(* ===== verification/Turn_Results.thy ===== *)
theory Turn_Results
  imports Outer_Bounds
begin

text \<open>
  What the live turn loop guarantees of every finished turn, over all answers of a host that
  emits no boundary events of its own: caps, agreement of the grant record, the step budget,
  and that a turn can only keep running by holds and retries. A sample host is evaluated.
\<close>

section \<open>What a finished turn leaves\<close>

text \<open>A turn result in terms of the log alone.\<close>

lemma turn_result_counts:
  assumes "handle_deepseek_turn m h t = Some r" and "list_all host_quiet (th_answers h)"
    and "tc_step t \<le> tc_max_steps t"
  shows "k \<in> set grant_kinds \<Longrightarrow> grants_in k (tr_log r) \<le> grant_cap m k"
    and "k \<in> set grant_kinds \<Longrightarrow>
      logged_grants (tr_grants r) k = of_nat (grants_in k (tr_log r))"
    and "lv_step_limit_continuations (tr_snapshot r) = of_nat (grants_in StepLimit (tr_log r))"
    and "lv_loop_guard_continuations (tr_snapshot r) = of_nat (grants_in LoopGuard (tr_log r))"
    and "lv_cycle_handoff_attempts (tr_snapshot r) =
      of_nat (grants_in ContextOverflowCycleHandoff (tr_log r))"
    and "lv_in_turn_cycle_advances (tr_snapshot r) =
      of_nat (grants_in InTurnCycleAdvance (tr_log r))"
    and "\<exists>rest out n. tr_log r = TurnStarted (tc_id t) m (th_input_text h) (tc_max_steps t) #
      rest @ [TurnEnded (tc_id t) out n] \<and> (\<forall>e \<in> set rest. \<not> is_TurnStarted e \<and> \<not> is_TurnEnded e)"
    and "lv_turn_id (tr_snapshot r) = tc_id t"
    and "lv_step_idx (tr_snapshot r) \<le> lv_max_steps (tr_snapshot r)"
    and "unat (lv_max_steps (tr_snapshot r)) = min (unat (tc_max_steps t) +
      grants_in StepLimit (tr_log r) * unat (max (tc_max_steps t) 1)) (2 ^ 32 - 1)"
    and "lv_scratchpad_summary_injected (tr_snapshot r) = th_summary_injected h"
proof -
  obtain s out where s: "turn_inv m (tc_max_steps t) (max (tc_max_steps t) 1)
        (TurnStarted (tc_id t) m (th_input_text h) (tc_max_steps t)) (tc_id t) s"
      and log: "tr_log r = os_log s @ [TurnEnded (tc_id t) out (tc_step (os_turn s))]"
      and snap: "tr_snapshot r = live_snapshot (os_loop s) (os_turn s) (th_summary_injected h)"
      and rec: "tr_grants r = os_grants s"
    using turn_result_inv [OF assms] by blast
  have grants: "grants_in k (tr_log r) = grants_in k (os_log s)" for k
    by (cases k) (simp_all add: log)
  have ok: "kind_ok m s k" if "k \<in> set grant_kinds" for k
    using s that by (simp add: turn_inv_def)
  then show "k \<in> set grant_kinds \<Longrightarrow> grants_in k (tr_log r) \<le> grant_cap m k"
    and "k \<in> set grant_kinds \<Longrightarrow>
      logged_grants (tr_grants r) k = of_nat (grants_in k (tr_log r))"
    by (simp_all add: kind_ok_def grants rec)
  show "lv_step_limit_continuations (tr_snapshot r) = of_nat (grants_in StepLimit (tr_log r))"
    and "lv_loop_guard_continuations (tr_snapshot r) = of_nat (grants_in LoopGuard (tr_log r))"
    and "lv_cycle_handoff_attempts (tr_snapshot r) =
      of_nat (grants_in ContextOverflowCycleHandoff (tr_log r))"
    and "lv_in_turn_cycle_advances (tr_snapshot r) =
      of_nat (grants_in InTurnCycleAdvance (tr_log r))"
    using ok [of StepLimit] ok [of LoopGuard] ok [of ContextOverflowCycleHandoff]
      ok [of InTurnCycleAdvance]
    by (simp_all only: grants snap)
       (simp_all add: kind_ok_def grant_kinds_def live_snapshot_def boundary_counters_def)
  show "\<exists>rest out n. tr_log r = TurnStarted (tc_id t) m (th_input_text h) (tc_max_steps t) #
      rest @ [TurnEnded (tc_id t) out n] \<and> (\<forall>e \<in> set rest. \<not> is_TurnStarted e \<and> \<not> is_TurnEnded e)"
    using s log by (auto simp: turn_inv_def)
  show "lv_turn_id (tr_snapshot r) = tc_id t"
    and "lv_step_idx (tr_snapshot r) \<le> lv_max_steps (tr_snapshot r)"
    and "lv_scratchpad_summary_injected (tr_snapshot r) = th_summary_injected h"
    using s by (simp_all add: snap live_snapshot_def turn_inv_def)
  show "unat (lv_max_steps (tr_snapshot r)) = min (unat (tc_max_steps t) +
      grants_in StepLimit (tr_log r) * unat (max (tc_max_steps t) 1)) (2 ^ 32 - 1)"
    unfolding grants using s by (simp only: snap live_snapshot_def turn_inv_def) simp
qed

lemma count_u32_small: "count_if P es \<le> n \<Longrightarrow> n \<le> 8 \<Longrightarrow> count_u32 P es \<le> of_nat n"
  by (simp add: count_u32_def word_le_nat_alt unat_small)

lemma grant_event_predicates:
  "is_grant_event StepLimit = is_StepLimitContinuation"
  "is_grant_event LoopGuard = is_LoopGuardContinuation"
  "is_grant_event ContextOverflowCycleHandoff = is_cycle_handoff_event"
  "is_grant_event InTurnCycleAdvance = is_CycleAdvanced"
  by (rule ext, simp)+

lemma caps_hold:
  assumes "handle_deepseek_turn m h t = Some r" and "list_all host_quiet (th_answers h)"
    and "tc_step t \<le> tc_max_steps t"
  shows "verify_outer_boundary_event_caps (tr_log r) m = None"
proof -
  note caps = turn_result_counts(1) [OF assms]
  show ?thesis
    using caps [of StepLimit] caps [of LoopGuard] caps [of ContextOverflowCycleHandoff]
      caps [of InTurnCycleAdvance]
      count_u32_small [of is_StepLimitContinuation "tr_log r" 3]
      count_u32_small [of is_LoopGuardContinuation "tr_log r" 2]
      count_u32_small [of is_cycle_handoff_event "tr_log r" 2]
      count_u32_small [of is_CycleAdvanced "tr_log r" 8]
    unfolding boundary_event_caps_iff
    by (cases "is_plan m") (simp_all add: grant_kinds_def grant_event_predicates count_u32_def)
qed

section \<open>A sample host\<close>

definition sample_request :: "u32 \<Rightarrow> kernel_event" where
  "sample_request n = ModelRequestIssued ''t1'' n
     \<lparr>static_prefix_sha256 = ''s'', full_prefix_sha256 = ''f''\<rparr> 0"

definition sample_inner :: inner_step_result where
  "sample_inner =
     \<lparr>in_events = [sample_request 0], in_advanced_step = False,
      in_return_early = None, in_break_outer_loop = False, in_continue_outer_loop = False,
      in_phase = \<lparr>tp_step_error_count = 0, tp_step_error_categories = [],
        tp_break_outer_loop = False, tp_loop_guard_halted = False,
        tp_continue_outer_loop = False\<rparr>,
      in_context_recovery_attempts = 0, in_stream_retry_attempts = 0,
      in_length_continuations = 0, in_turn_error = None, in_loop_guard = default_loop_guard\<rparr>"

definition sample_answers :: host_answers where
  "sample_answers =
     \<lparr>ha_cancelled = False, ha_pre_events = [], ha_continue_at_step_limit = True,
      ha_step_limit_events = [], ha_baseline_events = [], ha_pre_request_held = False,
      ha_input_budget = None, ha_estimated_input = 0, ha_cycle_handoff = False,
      ha_handoff_events = [], ha_recover_overflow = False, ha_recover_events = [],
      ha_inner = sample_inner, ha_continue_after_halt = False, ha_halt_events = [],
      ha_escalation_held = False, ha_escalation_events = [], ha_reminder_events = [],
      ha_advance_cycle = False, ha_advance_events = []\<rparr>"

definition last_answers :: host_answers where
  "last_answers = sample_answers\<lparr>ha_inner := sample_inner\<lparr>
     in_events := [sample_request 1], in_break_outer_loop := True\<rparr>\<rparr>"

definition sample_host :: turn_host where
  "sample_host =
     \<lparr>th_input_text = ''go'', th_has_client = True,
      th_answers = [sample_answers, sample_answers,
        last_answers],
      th_cancelled_after_loop = False, th_summary_injected = False\<rparr>"

lemma sample_quiet [simp]:
  "host_quiet sample_answers"
  "host_quiet (last_answers)"
  "list_all host_quiet (th_answers sample_host)" "\<not> may_stall sample_answers"
  by (simp_all add: host_quiet_def inner_quiet_def sample_answers_def sample_inner_def
      last_answers_def sample_request_def quiet_event_def sample_host_def may_stall_def)

definition sample_result :: turn_result where
  "sample_result = the (handle_deepseek_turn Agent sample_host (with_id 1 ''t1''))"

lemmas sample_defs =
  sample_host_def sample_answers_def last_answers_def sample_inner_def
  handle_deepseek_turn_def initial_state_def loop_iteration_def run_outer_pre_inner_step_def
  pre_inner_after_limit_def pre_inner_overflow_def run_inner_step_def count_error_step_def
  run_outer_post_inner_step_def post_inner_escalation_def post_inner_tail_def finish_loop_def
  end_turn_def advance_def next_step_def emit_def record_boundary_def
  apply_outer_boundary_grant_def apply_grant_def apply_step_limit_continuation_def
  step_limit_budget_after_grant_def with_id_def at_max_steps_def boundary_counters_def
  default_loop_state_def pre_inner_step_limit_gate_def step_limit_decision_def
  step_limit_boundary_eligible_def post_inner_loop_guard_gate_def
  loop_guard_halt_decision_def post_inner_error_escalation_gate_def
  should_run_capacity_error_escalation_def post_inner_cycle_advance_gate_def
  in_turn_cycle_advance_decision_def in_turn_cycle_advance_boundary_eligible_def is_plan_def
  boundary_caps Let_def sat_add_def word_le_nat_alt

lemma sample_run:
  "handle_deepseek_turn Agent sample_host (with_id 1 ''t1'') = Some sample_result"
  "tr_log sample_result =
     [TurnStarted ''t1'' Agent ''go'' 1, sample_request 0, StepLimitContinuation ''t1'' 1 True,
      sample_request 1, TurnEnded ''t1'' Completed 1]"
  by (simp_all add: sample_result_def sample_defs)

lemma sample_start: "tc_step (with_id 1 ''t1'') \<le> tc_max_steps (with_id 1 ''t1'')"
  by (simp add: with_id_def)

section \<open>Properties\<close>

text \<open>C1. A finished turn passes the runtime's cap audit: whatever the host answers, as long as
  it emits no boundary events of its own, the log of the turn holds at most three step-limit
  continuations, two loop-guard continuations, two cycle hand-offs and eight in-turn cycle
  advances, and none of them in plan mode.\<close>

theorem finished_turn_within_caps:
  assumes "handle_deepseek_turn m h t = Some r" and "list_all host_quiet (th_answers h)"
    and "tc_step t \<le> tc_max_steps t"
  shows "verify_outer_boundary_event_caps (tr_log r) m = None"
  by (rule caps_hold [OF assms])

theorem finished_turn_within_caps_witness:
  "verify_outer_boundary_event_caps (tr_log sample_result) Agent = None"
  using finished_turn_within_caps [OF sample_run(1) sample_quiet(3) sample_start] .



text \<open>C2. The step budget: a turn ends with its step inside its budget, and the budget is the
  initial one plus one window (the initial budget, at least one) for each step-limit
  continuation in the log, saturated at the largest \<open>u32\<close>; there are at most three, and none
  in plan mode.\<close>

theorem step_budget_bound:
  assumes "handle_deepseek_turn m h t = Some r" and "list_all host_quiet (th_answers h)"
    and "tc_step t \<le> tc_max_steps t"
  shows "lv_step_idx (tr_snapshot r) \<le> lv_max_steps (tr_snapshot r) \<and>
    unat (lv_max_steps (tr_snapshot r)) = min (unat (tc_max_steps t) +
      grants_in StepLimit (tr_log r) * unat (max (tc_max_steps t) 1)) (2 ^ 32 - 1) \<and>
    grants_in StepLimit (tr_log r) \<le> (if is_plan m then 0 else 3)"
  using turn_result_counts(1,9,10) [OF assms] turn_result_counts(1) [OF assms, of StepLimit]
  by (simp add: grant_kinds_def)

theorem step_budget_bound_witness:
  "lv_step_idx (tr_snapshot sample_result) \<le> lv_max_steps (tr_snapshot sample_result) \<and>
   unat (lv_max_steps (tr_snapshot sample_result)) = 2"
  using step_budget_bound [OF sample_run(1) sample_quiet(3) sample_start]
  by (simp add: sample_run(2) with_id_def sample_request_def max_def)

text \<open>C3. Liveness: the turn cannot run for ever on progress alone. Every iteration advances the
  step, consumes one of the bounded grants, or is one of the three kinds of iteration that go
  round again (a capacity hold before the request, a budget recompile, a retry of the inner
  step). So a turn whose host answers more iterations than four step windows and the fifteen
  grants allow, besides those retries, has returned a result.\<close>

theorem turn_ends_without_endless_retries:
  assumes "list_all host_quiet (th_answers h)" and "tc_step t \<le> tc_max_steps t"
    and "unat (tc_max_steps t) + 3 * unat (max (tc_max_steps t) 1) + 15 +
      count_if may_stall (th_answers h) < length (th_answers h)"
  shows "\<exists>r. handle_deepseek_turn m h t = Some r"
proof (rule ccontr)
  assume "\<not> ?thesis"
  then have none: "turn_loop m (max (tc_max_steps t) 1) (th_answers h)
      (initial_state m (th_input_text h) t) = None"
    by (auto simp: handle_deepseek_turn_def Let_def split: if_splits)
  from running_work [OF none initial_inv [OF assms(2)] assms(1)] work_bound assms(3)
  show False by fastforce
qed

definition busy_host :: turn_host where
  "busy_host = sample_host\<lparr>th_answers := replicate 20 sample_answers\<rparr>"

theorem turn_ends_without_endless_retries_witness:
  "\<exists>r. handle_deepseek_turn Yolo busy_host (with_id 1 ''t1'') = Some r"
proof (rule turn_ends_without_endless_retries)
  show "list_all host_quiet (th_answers busy_host)"
    by (simp add: busy_host_def list_all_iff)
  show "tc_step (with_id 1 ''t1'') \<le> tc_max_steps (with_id 1 ''t1'')" by (rule sample_start)
  have "count_if may_stall (replicate 20 sample_answers) = 0"
    by (simp add: count_if_eq_0_iff)
  then show "unat (tc_max_steps (with_id 1 ''t1'')) +
      3 * unat (max (tc_max_steps (with_id 1 ''t1'')) 1) + 15 +
      count_if may_stall (th_answers busy_host) < length (th_answers busy_host)"
    by (simp add: busy_host_def with_id_def)
qed

end
