(* ===== verification/Replay_Coherence.thy ===== *)
theory Replay_Coherence
  imports Turn_Results
begin

text \<open>
  The unified replay gate of a turn log (\<open>crates/core/src/engine/turn_machine.rs\<close>:
  \<open>compare_projection_to_live\<close>, the effect, guard and memory chains,
  \<open>verify_turn_replay_coherence\<close>, \<open>build_thread_replay_report\<close>): which of its checks can
  fail at all, and what the live comparison says about the turns the outer loop produces.
\<close>

section \<open>Projection against the live snapshot\<close>

definition compare_projection_to_live ::
  "live_turn_snapshot \<Rightarrow> turn_kernel_projection \<Rightarrow> diff list option" where
  "compare_projection_to_live live p =
     report
       (push_if (lv_turn_id live \<noteq> pj_turn_id p)
          (Fmt ''turn_id live={} proj={}'' [ArgStr (lv_turn_id live), ArgStr (pj_turn_id p)]) @
        push_if (lv_step_idx live \<noteq> pj_step_idx p)
          (Fmt ''step_idx live={} proj={}'' [ArgU32 (lv_step_idx live), ArgU32 (pj_step_idx p)]) @
        push_if (lv_max_steps live \<noteq> pj_max_steps p)
          (Fmt ''max_steps live={} proj={}''
            [ArgU32 (lv_max_steps live), ArgU32 (pj_max_steps p)]) @
        push_if (lv_scratchpad_summary_injected live \<noteq> pj_scratchpad_summary_injected p)
          (Fmt ''scratchpad_summary_injected live={} proj={}''
            [ArgBool (lv_scratchpad_summary_injected live),
             ArgBool (pj_scratchpad_summary_injected p)]) @
        push_if (lv_step_limit_continuations live \<noteq> pj_step_limit_continuations p)
          (Fmt ''step_limit_continuations live={} proj={}''
            [ArgU32 (lv_step_limit_continuations live), ArgU32 (pj_step_limit_continuations p)]) @
        push_if (lv_loop_guard_continuations live \<noteq> pj_loop_guard_continuations p)
          (Fmt ''loop_guard_continuations live={} proj={}''
            [ArgU32 (lv_loop_guard_continuations live), ArgU32 (pj_loop_guard_continuations p)]) @
        push_if (lv_cycle_handoff_attempts live \<noteq> pj_cycle_handoff_attempts p)
          (Fmt ''cycle_handoff_attempts live={} proj={}''
            [ArgU32 (lv_cycle_handoff_attempts live), ArgU32 (pj_cycle_handoff_attempts p)]) @
        push_if (lv_in_turn_cycle_advances live \<noteq> pj_in_turn_cycle_advances p)
          (Fmt ''in_turn_cycle_advances live={} proj={}''
            [ArgU32 (lv_in_turn_cycle_advances live), ArgU32 (pj_in_turn_cycle_advances p)]))"

section \<open>The effect chain\<close>

record effect_chain =
  ch_call_model :: u32
  ch_execute_batch :: u32
  ch_model_requests :: u32
  ch_tool_planned :: u32
  ch_halt :: "turn_outcome option"

definition effect_chain_start :: effect_chain where
  "effect_chain_start =
     \<lparr>ch_call_model = 0, ch_execute_batch = 0, ch_model_requests = 0, ch_tool_planned = 0,
      ch_halt = None\<rparr>"

definition chain_effects :: "effect_chain \<Rightarrow> effect list \<Rightarrow> effect_chain" where
  "chain_effects c effs =
     foldl (\<lambda>c eff.
         if is_CallModel eff then c\<lparr>ch_call_model := ch_call_model c + 1\<rparr>
         else if is_ExecuteBatch eff then c\<lparr>ch_execute_batch := ch_execute_batch c + 1\<rparr>
         else c) c effs"

definition effect_chain_step ::
  "turn_kernel_projection \<times> effect_chain \<Rightarrow> kernel_event \<Rightarrow>
   turn_kernel_projection \<times> effect_chain" where
  "effect_chain_step pc e =
     (let (p, c) = pc;
          c1 = (if is_ModelRequestIssued e
                then c\<lparr>ch_model_requests := ch_model_requests c + 1\<rparr>
                else if is_ToolCallPlanned e
                then c\<lparr>ch_tool_planned := ch_tool_planned c + 1\<rparr>
                else c);
          out = replay_step p e;
          c2 = chain_effects c1 (effects out)
      in (apply_event p e,
          case halt out of Some h \<Rightarrow> c2\<lparr>ch_halt := Some h\<rparr> | None \<Rightarrow> c2))"

definition verify_effect_replay_chain :: "kernel_event list \<Rightarrow> diff list option" where
  "verify_effect_replay_chain events =
     (let (_, c) = foldl effect_chain_step (default_projection, effect_chain_start) events
      in report
        (push_if (ch_call_model c \<noteq> ch_model_requests c)
           (Fmt ''CallModel effects ({}) != ModelRequestIssued events ({})''
             [ArgU32 (ch_call_model c), ArgU32 (ch_model_requests c)]) @
         push_if (ch_execute_batch c \<noteq> ch_tool_planned c)
           (Fmt ''ExecuteBatch effects ({}) != ToolCallPlanned events ({})''
             [ArgU32 (ch_execute_batch c), ArgU32 (ch_tool_planned c)]) @
         (if \<not> list_ex is_TurnEnded events then [Fmt ''missing TurnEnded event'' []]
          else push_if (ch_halt c = None)
            (Fmt ''ReplayTurnMachine did not halt on TurnEnded'' []))))"

section \<open>The guard and memory chains\<close>

definition verify_guard_projection_chain ::
  "externals \<Rightarrow> kernel_event list \<Rightarrow> diff list option" where
  "verify_guard_projection_chain ext events =
     (let p = from_events ext events;
          step_limit = count_u32 is_StepLimitContinuation events;
          guard = count_u32 is_LoopGuardContinuation events;
          triggered = count_loop_guard_triggered events;
          handoffs = count_u32 is_cycle_handoff_event events;
          advances = count_u32 is_CycleAdvanced events;
          checkpoints = count_capacity_checkpoints events;
          last_capacity = last_capacity_checkpoint_action events
      in report
        (push_if (pj_step_limit_continuations p \<noteq> step_limit)
           (Fmt ''step_limit_continuations proj={} events={}''
             [ArgU32 (pj_step_limit_continuations p), ArgU32 step_limit]) @
         push_if (pj_loop_guard_continuations p \<noteq> guard)
           (Fmt ''loop_guard_continuations proj={} events={}''
             [ArgU32 (pj_loop_guard_continuations p), ArgU32 guard]) @
         push_if (pj_loop_guard_triggered_count p \<noteq> triggered)
           (Fmt ''loop_guard_triggered_count proj={} events={}''
             [ArgU32 (pj_loop_guard_triggered_count p), ArgU32 triggered]) @
         push_if (pj_cycle_handoff_attempts p \<noteq> handoffs)
           (Fmt ''cycle_handoff_attempts proj={} events={}''
             [ArgU32 (pj_cycle_handoff_attempts p), ArgU32 handoffs]) @
         push_if (pj_in_turn_cycle_advances p \<noteq> advances)
           (Fmt ''in_turn_cycle_advances proj={} events={}''
             [ArgU32 (pj_in_turn_cycle_advances p), ArgU32 advances]) @
         push_if (pj_capacity_checkpoint_count p \<noteq> checkpoints)
           (Fmt ''capacity_checkpoint_count proj={} events={}''
             [ArgU32 (pj_capacity_checkpoint_count p), ArgU32 checkpoints]) @
         push_if (checkpoints > 0 \<and> pj_last_capacity_action p = None)
           (Fmt ''capacity checkpoints present but projection last_capacity_action is None'' []) @
         (case (pj_last_capacity_action p, last_capacity) of
            (Some proj_last, Some log_last) \<Rightarrow>
              push_if (proj_last \<noteq> log_last)
                (Fmt ''last_capacity_action proj={} log={}''
                  [ArgAction proj_last, ArgAction log_last])
          | _ \<Rightarrow> [])))"

definition verify_memory_projection_chain ::
  "externals \<Rightarrow> kernel_event list \<Rightarrow> diff list option" where
  "verify_memory_projection_chain ext events =
     (let p = from_events ext events;
          summary_injected = count_u32 is_ScratchpadSummaryInjected events;
          reminder_injected = count_u32 is_ScratchpadReminderInjected events;
          compaction_artifacts = count_u32 is_CompactionArtifactCreated events;
          cycle_briefings = count_u32 is_CycleBriefingInjected events;
          topic_memory_injections = count_u32 is_TopicMemoryInjected events
      in report
        (push_if (pj_scratchpad_summary_injected p \<noteq> (summary_injected > 0))
           (Fmt ''scratchpad_summary_injected proj={} events={}''
             [ArgBool (pj_scratchpad_summary_injected p), ArgU32 summary_injected]) @
         push_if (pj_scratchpad_reminder_count p \<noteq> reminder_injected)
           (Fmt ''scratchpad_reminder_count proj={} events={}''
             [ArgU32 (pj_scratchpad_reminder_count p), ArgU32 reminder_injected]) @
         push_if (pj_compaction_artifact_count p \<noteq> compaction_artifacts)
           (Fmt ''compaction_artifact_count proj={} events={}''
             [ArgU32 (pj_compaction_artifact_count p), ArgU32 compaction_artifacts]) @
         push_if (pj_cycle_briefing_count p \<noteq> cycle_briefings)
           (Fmt ''cycle_briefing_count proj={} events={}''
             [ArgU32 (pj_cycle_briefing_count p), ArgU32 cycle_briefings]) @
         push_if (pj_topic_memory_injection_count p \<noteq> topic_memory_injections)
           (Fmt ''topic_memory_injection_count proj={} events={}''
             [ArgU32 (pj_topic_memory_injection_count p), ArgU32 topic_memory_injections]) @
         push_some (\<lambda>s. Fmt ''memory_plane_layers: {}'' [ArgReport s])
           (verify_memory_plane_layer_coherence ext events) @
         push_some (\<lambda>s. Fmt ''archival_fields: {}'' [ArgReport s])
           (verify_archival_artifact_field_coherence ext events) @
         push_some (\<lambda>s. Fmt ''working_layer_tools: {}'' [ArgReport s])
           (verify_working_layer_tool_coherence ext events) @
         push_some (\<lambda>s. Fmt ''memory_plane_queries: {}'' [ArgReport s])
           (verify_memory_plane_query_projection_coherence ext events)))"

text \<open>\<open>memory_plane_wrapup_policy.rs\<close>\<close>

definition verify_memory_plane_batch4_coherence ::
  "externals \<Rightarrow> kernel_event list \<Rightarrow> diff list option" where
  "verify_memory_plane_batch4_coherence ext events =
     report
       (append_report (verify_memory_projection_chain ext events) @
        push_some (\<lambda>s. Fmt ''query_replay: {}'' [ArgReport s])
          (verify_memory_plane_query_replay_coherence ext events) @
        push_some (\<lambda>s. Fmt ''compiler_source: {}'' [ArgReport s])
          (verify_memory_plane_compiler_source_coherence events) @
        push_some (\<lambda>s. Fmt ''compiler_projection: {}'' [ArgReport s])
          (verify_compiler_queried_sources_coherence events))"

section \<open>The unified gate\<close>

record turn_replay_report =
  rp_event_count :: nat
  rp_projection :: turn_kernel_projection
  rp_outcome :: "turn_outcome option"

definition replay_turn_projection :: "externals \<Rightarrow> kernel_event list \<Rightarrow> turn_replay_report" where
  "replay_turn_projection ext events =
     (let p = from_events ext events
      in \<lparr>rp_event_count = length events, rp_projection = p, rp_outcome = pj_outcome p\<rparr>)"

definition verify_turn_replay_coherence ::
  "externals \<Rightarrow> kernel_event list \<Rightarrow> live_turn_snapshot option \<Rightarrow> diff list option" where
  "verify_turn_replay_coherence ext events live =
     report
       ((case live of
           None \<Rightarrow> []
         | Some l \<Rightarrow> push_some (\<lambda>s. Fmt ''live_projection: {}'' [ArgReport s])
             (compare_projection_to_live l (from_events ext events))) @
        push_some (\<lambda>s. Fmt ''effect: {}'' [ArgReport s]) (verify_effect_replay_chain events) @
        push_some (\<lambda>s. Fmt ''guard: {}'' [ArgReport s])
          (verify_guard_projection_chain ext events) @
        (case pj_mode (from_events ext events) of
           None \<Rightarrow> []
         | Some m \<Rightarrow> push_some (\<lambda>s. Fmt ''outer_boundary_caps: {}'' [ArgReport s])
             (verify_outer_boundary_event_caps events m)) @
        push_some (\<lambda>s. Fmt ''loop_guard_replay: {}'' [ArgReport s])
          (verify_loop_guard_replay_coherence ext events) @
        push_some (\<lambda>s. Fmt ''capacity_fields: {}'' [ArgReport s])
          (verify_capacity_checkpoint_field_coherence events) @
        push_some (\<lambda>s. Fmt ''capacity_replay: {}'' [ArgReport s])
          (verify_capacity_effect_replay_coherence ext events) @
        push_some (\<lambda>s. Fmt ''memory: {}'' [ArgReport s])
          (verify_memory_projection_chain ext events) @
        push_some (\<lambda>s. Fmt ''memory_plane_query_replay: {}'' [ArgReport s])
          (verify_memory_plane_query_replay_coherence ext events) @
        push_some (\<lambda>s. Fmt ''layered_context_seam_replay: {}'' [ArgReport s])
          (verify_layered_context_seam_replay_coherence ext events) @
        push_some (\<lambda>s. Fmt ''system_prompt_refresh_replay: {}'' [ArgReport s])
          (verify_system_prompt_refresh_replay_coherence ext events) @
        push_if (\<not> list_ex is_TurnEnded events) (Fmt ''missing TurnEnded event'' []))"

record thread_turn_replay_summary =
  su_turn_id :: string
  su_event_count :: nat
  su_coherence_ok :: bool
  su_coherence_error :: "diff list option"
  su_outcome :: "turn_outcome option"

record thread_replay_report =
  rr_thread_id :: string
  rr_turn_count :: nat
  rr_turns_with_events :: nat
  rr_turns_coherent :: nat
  rr_all_coherent :: bool
  rr_turns :: "thread_turn_replay_summary list"

definition thread_turn_summary ::
  "externals \<Rightarrow> turn_log \<Rightarrow> thread_turn_replay_summary" where
  "thread_turn_summary ext turn =
     (let (tid, events) = turn;
          r = replay_turn_projection ext events;
          err = verify_turn_replay_coherence ext events None
      in \<lparr>su_turn_id = tid, su_event_count = rp_event_count r, su_coherence_ok = (err = None),
          su_coherence_error = err, su_outcome = rp_outcome r\<rparr>)"

text \<open>The loop of \<open>build_thread_replay_report\<close>, with its two counters and its list.\<close>

fun thread_report_loop ::
  "externals \<Rightarrow> nat \<times> nat \<times> thread_turn_replay_summary list \<Rightarrow> turn_log list \<Rightarrow>
   nat \<times> nat \<times> thread_turn_replay_summary list" where
  "thread_report_loop ext acc [] = acc"
| "thread_report_loop ext (with_events, coherent, turns) ((tid, events) # rest) =
     (if events = [] then thread_report_loop ext (with_events, coherent, turns) rest
      else
        let s = thread_turn_summary ext (tid, events)
        in thread_report_loop ext
             (with_events + 1, if su_coherence_ok s then coherent + 1 else coherent, turns @ [s])
             rest)"

definition build_thread_replay_report ::
  "externals \<Rightarrow> string \<Rightarrow> turn_log list \<Rightarrow> thread_replay_report" where
  "build_thread_replay_report ext thread_id turn_events =
     (let (with_events, coherent, turns) = thread_report_loop ext (0, 0, []) turn_events
      in \<lparr>rr_thread_id = thread_id, rr_turn_count = length turn_events,
          rr_turns_with_events = with_events, rr_turns_coherent = coherent,
          rr_all_coherent = (with_events > 0 \<and> coherent = with_events), rr_turns = turns\<rparr>)"

section \<open>The chains that cannot fail\<close>

lemma chain_effects_counts:
  "ch_call_model (chain_effects c effs) = ch_call_model c + count_u32 is_CallModel effs"
  "ch_execute_batch (chain_effects c effs) = ch_execute_batch c + count_u32 is_ExecuteBatch effs"
  "ch_model_requests (chain_effects c effs) = ch_model_requests c"
  "ch_tool_planned (chain_effects c effs) = ch_tool_planned c"
  "ch_halt (chain_effects c effs) = ch_halt c"
proof (induction effs arbitrary: c)
  case (Cons e effs)
  { case 1 then show ?case using Cons by (cases e) (simp_all add: chain_effects_def add.assoc)
  next case 2 then show ?case using Cons by (cases e) (simp_all add: chain_effects_def add.assoc)
  next case 3 then show ?case using Cons by (cases e) (simp_all add: chain_effects_def)
  next case 4 then show ?case using Cons by (cases e) (simp_all add: chain_effects_def)
  next case 5 then show ?case using Cons by (cases e) (simp_all add: chain_effects_def) }
qed (simp_all add: chain_effects_def)

lemma effect_counts_of_event:
  "count_u32 is_CallModel (replay_effects p e) = of_bool (is_ModelRequestIssued e)"
  "count_u32 is_ExecuteBatch (replay_effects p e) = of_bool (is_ToolCallPlanned e)"
  by (simp_all add: count_u32_def call_models.exact batches.exact)

lemma chain_step:
  fixes p :: turn_kernel_projection and c :: effect_chain and e :: kernel_event
  defines "c' \<equiv> snd (effect_chain_step (p, c) e)"
  shows "fst (effect_chain_step (p, c) e) = apply_event p e"
    and "ch_call_model c' = ch_call_model c + of_bool (is_ModelRequestIssued e)"
    and "ch_execute_batch c' = ch_execute_batch c + of_bool (is_ToolCallPlanned e)"
    and "ch_model_requests c' = ch_model_requests c + of_bool (is_ModelRequestIssued e)"
    and "ch_tool_planned c' = ch_tool_planned c + of_bool (is_ToolCallPlanned e)"
    and "ch_halt c' = None \<longleftrightarrow> ch_halt c = None \<and> \<not> is_TurnEnded e"
proof -
  have excl: "is_ModelRequestIssued e \<Longrightarrow> \<not> is_ToolCallPlanned e" by (cases e) simp_all
  note simps = effect_chain_step_def Let_def chain_effects_counts effect_counts_of_event
  show "fst (effect_chain_step (p, c) e) = apply_event p e" by (simp add: simps)
  show "ch_call_model c' = ch_call_model c + of_bool (is_ModelRequestIssued e)"
    and "ch_execute_batch c' = ch_execute_batch c + of_bool (is_ToolCallPlanned e)"
    and "ch_model_requests c' = ch_model_requests c + of_bool (is_ModelRequestIssued e)"
    and "ch_tool_planned c' = ch_tool_planned c + of_bool (is_ToolCallPlanned e)"
    using excl by (simp_all add: c'_def simps split: option.split) blast
  show "ch_halt c' = None \<longleftrightarrow> ch_halt c = None \<and> \<not> is_TurnEnded e"
    using halt_replay_step [of p e]
    by (cases "halt (replay_step p e)") (simp_all add: c'_def simps)
qed

lemma chain_fold:
  fixes p :: turn_kernel_projection and c :: effect_chain and es :: "kernel_event list"
  defines "c' \<equiv> snd (foldl effect_chain_step (p, c) es)"
  shows "ch_call_model c' = ch_call_model c + count_u32 is_ModelRequestIssued es"
    and "ch_execute_batch c' = ch_execute_batch c + count_u32 is_ToolCallPlanned es"
    and "ch_model_requests c' = ch_model_requests c + count_u32 is_ModelRequestIssued es"
    and "ch_tool_planned c' = ch_tool_planned c + count_u32 is_ToolCallPlanned es"
    and "ch_halt c' = None \<longleftrightarrow> ch_halt c = None \<and> \<not> list_ex is_TurnEnded es"
proof -
  have "ch_call_model (snd (foldl effect_chain_step (p, c) es)) =
        ch_call_model c + count_u32 is_ModelRequestIssued es \<and>
      ch_execute_batch (snd (foldl effect_chain_step (p, c) es)) =
        ch_execute_batch c + count_u32 is_ToolCallPlanned es \<and>
      ch_model_requests (snd (foldl effect_chain_step (p, c) es)) =
        ch_model_requests c + count_u32 is_ModelRequestIssued es \<and>
      ch_tool_planned (snd (foldl effect_chain_step (p, c) es)) =
        ch_tool_planned c + count_u32 is_ToolCallPlanned es \<and>
      (ch_halt (snd (foldl effect_chain_step (p, c) es)) = None \<longleftrightarrow>
        ch_halt c = None \<and> \<not> list_ex is_TurnEnded es)" for p c
  proof (induction es arbitrary: p c)
    case (Cons e es)
    obtain p1 c1 where step: "effect_chain_step (p, c) e = (p1, c1)" by fastforce
    note s = chain_step [of p c e, unfolded step, simplified]
    show ?case
      unfolding foldl_Cons step using Cons [of p1 c1] s by (simp add: add.assoc)
  qed simp
  from this [of p c] show "ch_call_model c' = ch_call_model c + count_u32 is_ModelRequestIssued es"
    and "ch_execute_batch c' = ch_execute_batch c + count_u32 is_ToolCallPlanned es"
    and "ch_model_requests c' = ch_model_requests c + count_u32 is_ModelRequestIssued es"
    and "ch_tool_planned c' = ch_tool_planned c + count_u32 is_ToolCallPlanned es"
    and "ch_halt c' = None \<longleftrightarrow> ch_halt c = None \<and> \<not> list_ex is_TurnEnded es"
    unfolding c'_def by blast+
qed

lemma effect_chain_holds_iff: "verify_effect_replay_chain es = None \<longleftrightarrow> list_ex is_TurnEnded es"
  by (simp add: verify_effect_replay_chain_def case_prod_unfold Let_def chain_fold
      effect_chain_start_def)

lemma last_capacity_fold:
  "foldl capacity_upd v es =
     (case last_capacity_checkpoint_action es of None \<Rightarrow> v | Some a \<Rightarrow> Some a)"
proof (induction es arbitrary: v)
  case (Cons e es)
  then show ?case
    by (cases e) (simp_all add: last_capacity_checkpoint_action_def find_map_append
        split: option.split)
qed (simp add: last_capacity_checkpoint_action_def)

lemma last_capacity_projected:
  "pj_last_capacity_action (from_events ext es) = last_capacity_checkpoint_action es"
  by (simp add: capacity_view.view_from_events last_capacity_fold default_projection_def
      split: option.split)

lemma no_last_capacity:
  "last_capacity_checkpoint_action es = None \<Longrightarrow> count_u32 is_CapacityCheckpoint es = 0"
proof (induction es)
  case (Cons e es)
  then show ?case
    by (cases e) (auto simp: last_capacity_checkpoint_action_def find_map_append
        split: option.splits)
qed simp

lemma guard_chain_holds: "verify_guard_projection_chain ext es = None"
  using no_last_capacity [of es]
  by (auto simp: verify_guard_projection_chain_def Let_def step_limits.get_from_events
      guard_continuations.get_from_events guard_triggers.get_from_events
      count_loop_guard_triggered_def cycle_handoffs.get_from_events
      cycle_advances.get_from_events capacity_checkpoints.get_from_events
      count_capacity_checkpoints_def last_capacity_projected split: option.split)

lemma memory_chain_iff:
  assumes "length es < 2 ^ 32"
  shows "verify_memory_projection_chain ext es = None \<longleftrightarrow> (\<forall>e \<in> set es. archival_event_valid e)"
proof -
  have "0 < count_u32 is_ScratchpadSummaryInjected es \<longleftrightarrow>
      (\<exists>e \<in> set es. is_ScratchpadSummaryInjected e)"
    using unat_count_u32 [OF assms, of is_ScratchpadSummaryInjected]
      count_if_eq_0_iff [of is_ScratchpadSummaryInjected es]
    by (auto simp: word_less_nat_alt)
  then show ?thesis
    by (simp add: verify_memory_projection_chain_def Let_def summary_injected_iff
        reminders.get_from_events artifacts.get_from_events briefings.get_from_events
        topic_injections.get_from_events layer_coherence_holds [OF assms] archival_fields_iff
        working_layer_holds query_projection_holds)
qed

lemma turn_coherence_iff:
  assumes "length es < 2 ^ 32"
  shows "verify_turn_replay_coherence ext es None = None \<longleftrightarrow>
    (\<exists>e \<in> set es. is_TurnEnded e) \<and> (\<forall>e \<in> set es. archival_event_valid e) \<and>
    (\<forall>m. pj_mode (from_events ext es) = Some m \<longrightarrow> verify_outer_boundary_event_caps es m = None) \<and>
    verify_loop_guard_replay_coherence ext es = None \<and>
    verify_capacity_checkpoint_field_coherence es = None \<and>
    verify_memory_plane_query_replay_coherence ext es = None \<and>
    verify_system_prompt_refresh_replay_coherence ext es = None"
  by (cases "pj_mode (from_events ext es)")
     (auto simp: verify_turn_replay_coherence_def effect_chain_holds_iff guard_chain_holds
        capacity_effects_coherent memory_chain_iff [OF assms] seam_checks_hold list_ex_iff)

text \<open>What the projection reads off the log of one turn.\<close>

lemma started_fold_quiet:
  "\<forall>e \<in> set es. \<not> is_TurnStarted e \<Longrightarrow> foldl started_upd v es = v"
proof (induction es arbitrary: v)
  case (Cons e es)
  then show ?case by (cases e) auto
qed simp

lemma projected_start:
  assumes "es = TurnStarted tid m input mx # rest" and "\<forall>e \<in> set rest. \<not> is_TurnStarted e"
  shows "pj_turn_id (from_events ext es) = tid" and "pj_mode (from_events ext es) = Some m"
    and "pj_max_steps (from_events ext es) = mx"
  using started_view.view_from_events [of ext es] started_fold_quiet [OF assms(2)]
  by (simp_all add: assms(1))

lemma projected_counters:
  "pj_step_limit_continuations (from_events ext es) = of_nat (grants_in StepLimit es)"
  "pj_loop_guard_continuations (from_events ext es) = of_nat (grants_in LoopGuard es)"
  "pj_cycle_handoff_attempts (from_events ext es) = of_nat (grants_in ContextOverflowCycleHandoff es)"
  "pj_in_turn_cycle_advances (from_events ext es) = of_nat (grants_in InTurnCycleAdvance es)"
  by (simp_all add: step_limits.get_from_events guard_continuations.get_from_events
      cycle_handoffs.get_from_events cycle_advances.get_from_events count_u32_def
      grant_event_predicates)

lemma budget_unchanged_iff:
  assumes "unat (live :: u32) = min (unat (m0 :: u32) + n * unat (max m0 1)) (2 ^ 32 - 1)"
  shows "live = m0 \<longleftrightarrow> n = 0 \<or> unat m0 = 2 ^ 32 - 1"
proof -
  have "unat (max m0 1) > 0" by (simp add: unat_gt_0 max_def) (use word_gt_0 in fastforce)
  moreover have "unat m0 \<le> 2 ^ 32 - 1" using u32_cap [of m0] by simp
  ultimately have "min (unat m0 + n * unat (max m0 1)) (2 ^ 32 - 1) = unat m0 \<longleftrightarrow>
      n = 0 \<or> unat m0 = 2 ^ 32 - 1"
    by (cases n) auto
  then show ?thesis using assms by (simp add: word_unat_eq_iff)
qed

section \<open>Properties\<close>

text \<open>What the replay gate of a log decides. Of its eleven checks, the effect chain beyond
  the presence of \<open>TurnEnded\<close>, the guard chain, the capacity replay, the layered seams and the
  counters of the memory chain cannot fail on any log; the log passes exactly when the turn
  ended, its compaction events are valid, the grants keep the caps of its mode, and the
  loop-guard, capacity-field, query and prompt-refresh checks pass.\<close>

theorem turn_replay_coherence_iff:
  assumes "length es < 2 ^ 32"
  shows "verify_turn_replay_coherence ext es None = None \<longleftrightarrow>
    (\<exists>e \<in> set es. is_TurnEnded e) \<and> (\<forall>e \<in> set es. archival_event_valid e) \<and>
    (\<forall>m. pj_mode (from_events ext es) = Some m \<longrightarrow> verify_outer_boundary_event_caps es m = None) \<and>
    verify_loop_guard_replay_coherence ext es = None \<and>
    verify_capacity_checkpoint_field_coherence es = None \<and>
    verify_memory_plane_query_replay_coherence ext es = None \<and>
    verify_system_prompt_refresh_replay_coherence ext es = None"
  by (rule turn_coherence_iff [OF assms])

text \<open>A plan-mode turn that logs a step-limit continuation does not pass.\<close>

theorem turn_replay_coherence_iff_witness:
  "verify_turn_replay_coherence quiet_externals
     [TurnStarted ''t'' Plan ''go'' 1, StepLimitContinuation ''t'' 1 True,
      TurnEnded ''t'' Completed 1] None \<noteq> None"
proof -
  let ?es = "[TurnStarted ''t'' Plan ''go'' 1, StepLimitContinuation ''t'' 1 True,
      TurnEnded ''t'' Completed 1]"
  have "pj_mode (from_events quiet_externals ?es) = Some Plan" by (rule projected_start(2) [OF refl]) simp
  moreover have "verify_outer_boundary_event_caps ?es Plan \<noteq> None"
    by (simp add: boundary_event_caps_iff is_plan_def)
  ultimately show ?thesis using turn_replay_coherence_iff [of ?es quiet_externals] by auto
qed



text \<open>The log of every finished turn: its projection knows the turn, its mode and its
  outcome, and it passes the replay gate exactly when its compaction events, loop-guard
  triggers, capacity fields, queries and prompt refreshes do: the end of the turn and the caps
  of the grants are guaranteed by the loop.\<close>

theorem finished_turn_coherent_iff:
  assumes "handle_deepseek_turn m h t = Some r" and "list_all host_quiet (th_answers h)"
    and "tc_step t \<le> tc_max_steps t" and "length (tr_log r) < 2 ^ 32"
  shows "pj_turn_id (from_events ext (tr_log r)) = tc_id t \<and>
    pj_mode (from_events ext (tr_log r)) = Some m \<and>
    pj_outcome (from_events ext (tr_log r)) \<noteq> None \<and>
    (verify_turn_replay_coherence ext (tr_log r) None = None \<longleftrightarrow>
      (\<forall>e \<in> set (tr_log r). archival_event_valid e) \<and>
      verify_loop_guard_replay_coherence ext (tr_log r) = None \<and>
      verify_capacity_checkpoint_field_coherence (tr_log r) = None \<and>
      verify_memory_plane_query_replay_coherence ext (tr_log r) = None \<and>
      verify_system_prompt_refresh_replay_coherence ext (tr_log r) = None)"
proof -
  obtain rest out n where log: "tr_log r = TurnStarted (tc_id t) m (th_input_text h)
      (tc_max_steps t) # rest @ [TurnEnded (tc_id t) out n]"
      "\<forall>e \<in> set rest. \<not> is_TurnStarted e \<and> \<not> is_TurnEnded e"
    using turn_result_counts(7) [OF assms(1-3)] by blast
  have quiet: "\<forall>e \<in> set (rest @ [TurnEnded (tc_id t) out n]). \<not> is_TurnStarted e"
    using log(2) by auto
  have "\<exists>e \<in> set (tr_log r). is_TurnEnded e" using log(1) by auto
  then show ?thesis
    using projected_start [OF log(1) quiet, of ext] caps_hold [OF assms(1-3)]
    by (auto simp: outcome_None_iff turn_coherence_iff [OF assms(4)])
qed

theorem finished_turn_coherent_iff_witness:
  "verify_turn_replay_coherence quiet_externals (tr_log sample_result) None = None"
  using finished_turn_coherent_iff [OF sample_run(1) sample_quiet(3) sample_start, of quiet_externals]
  by (simp add: sample_run(2) sample_request_def verify_loop_guard_replay_coherence_def
      count_loop_guard_triggered_def verify_capacity_checkpoint_field_coherence_def
      verify_memory_plane_query_replay_coherence_def count_memory_plane_queried_events_def
      verify_system_prompt_refresh_replay_coherence_def count_refresh_query_cycles_def)

lemma count_if_all: "count_if P xs = length xs \<longleftrightarrow> (\<forall>x \<in> set xs. P x)"
proof (induction xs)
  case (Cons x xs)
  then show ?case using count_if_le_length [of P xs] by (cases "P x") auto
qed simp

lemma thread_report_loop_eq:
  "thread_report_loop ext (n, k, out) turns =
     (let ss = map (thread_turn_summary ext) (filter (\<lambda>(_, es). es \<noteq> []) turns)
      in (n + length ss, k + count_if su_coherence_ok ss, out @ ss))"
proof (induction turns arbitrary: n k out)
  case (Cons turn turns)
  then show ?case by (cases turn) (simp add: Let_def)
qed simp

text \<open>The thread report lists one summary for each turn with events, in order, counts them
  and the coherent ones, and calls the thread coherent exactly when some turn has events and
  every such turn passes the gate.\<close>

theorem thread_report_exact:
  "rr_turns (build_thread_replay_report ext tid turns) =
     map (thread_turn_summary ext) (filter (\<lambda>(_, es). es \<noteq> []) turns) \<and>
   rr_turns_with_events (build_thread_replay_report ext tid turns) =
     count_if (\<lambda>(_, es). es \<noteq> []) turns \<and>
   (rr_all_coherent (build_thread_replay_report ext tid turns) \<longleftrightarrow>
     (\<exists>(_, es) \<in> set turns. es \<noteq> []) \<and>
     (\<forall>(_, es) \<in> set turns. es = [] \<or> verify_turn_replay_coherence ext es None = None))"
proof -
  let ?ts = "filter (\<lambda>(_, es). es \<noteq> []) turns"
  have ok: "su_coherence_ok (thread_turn_summary ext t) \<longleftrightarrow>
      verify_turn_replay_coherence ext (snd t) None = None" for t
    by (simp add: thread_turn_summary_def Let_def case_prod_beta)
  have all: "count_if su_coherence_ok (map (thread_turn_summary ext) ?ts) = length ?ts \<longleftrightarrow>
      (\<forall>(_, es) \<in> set turns. es = [] \<or> verify_turn_replay_coherence ext es None = None)"
  proof -
    have "count_if su_coherence_ok (map (thread_turn_summary ext) ?ts) = length ?ts \<longleftrightarrow>
        (\<forall>s \<in> set (map (thread_turn_summary ext) ?ts). su_coherence_ok s)"
      using count_if_all [of su_coherence_ok "map (thread_turn_summary ext) ?ts"]
      by (simp only: length_map)
    also have "\<dots> \<longleftrightarrow> (\<forall>t \<in> set ?ts. verify_turn_replay_coherence ext (snd t) None = None)"
      by (simp only: set_map ball_simps ok)
    also have "\<dots> \<longleftrightarrow>
        (\<forall>(_, es) \<in> set turns. es = [] \<or> verify_turn_replay_coherence ext es None = None)"
      by fastforce
    finally show ?thesis .
  qed
  have some: "0 < length ?ts \<longleftrightarrow> (\<exists>(_, es) \<in> set turns. es \<noteq> [])"
    by (auto simp: filter_empty_conv)
  have "count_if (\<lambda>(_, es). es \<noteq> []) turns = length ?ts" by (simp add: count_if_def)
  with all some show ?thesis
    by (simp add: build_thread_replay_report_def thread_report_loop_eq Let_def)
qed

text \<open>A thread with one unfinished turn.\<close>

theorem thread_report_exact_witness:
  "rr_turns_with_events (build_thread_replay_report quiet_externals ''th'' [(''t0'', []), (''t1'', [SteerInjected ''t1'' 1 ''x''])])
     = 1 \<and>
   \<not> rr_all_coherent (build_thread_replay_report quiet_externals ''th''
     [(''t0'', []), (''t1'', [SteerInjected ''t1'' 1 ''x''])])"
  using thread_report_exact [of quiet_externals "''th''" "[(''t0'', []), (''t1'', [SteerInjected ''t1'' 1 ''x''])]"]
  by (simp add: turn_coherence_iff del: not_None_eq)

end
