(* ===== verification/Transcript_Rebuild.thy ===== *)
theory Transcript_Rebuild
  imports Anchor_Checks
begin

text \<open>
  Rebuilding a session transcript from the event log
  (\<open>crates/core/src/engine/turn_loop/message_body_rebuild_policy.rs\<close>) and the message types
  of \<open>crates/core/src/chat.rs\<close>: the preview transcript with its index, the full session rows,
  and the decision to replace a session by the rebuilt rows, which the runtime's log repair
  (\<open>crates/runtime-server/src/core/engine/kernel_log_session_repair.rs\<close>) takes on resume.
\<close>

section \<open>Messages\<close>

record cache_control =
  cache_type :: string

record tool_caller =
  caller_type :: string
  caller_tool_id :: "string option"

datatype content_block =
    is_Text: Text string "cache_control option"
  | is_Thinking: Thinking string
  | is_ToolUse: ToolUse string string json "tool_caller option"
  | is_ToolResult: ToolResult string string "bool option" "json list option"
  | is_ServerToolUse: ServerToolUse string string json
  | is_ToolSearchToolResult: ToolSearchToolResult string json
  | is_CodeExecutionToolResult: CodeExecutionToolResult string json

record message =
  role :: string
  content :: "content_block list"

text \<open>
  \<open>==\<close> on \<open>serde_json::Value\<close>: objects are equal when each key has an equal value on both
  sides, whatever the order of the entries (the runtime builds with \<open>preserve_order\<close>).
\<close>

function (sequential) json_eq :: "json \<Rightarrow> json \<Rightarrow> bool" where
  "json_eq JNull JNull = True"
| "json_eq (JBool a) (JBool b) = (a = b)"
| "json_eq (JNumber a) (JNumber b) = (a = b)"
| "json_eq (JString a) (JString b) = (a = b)"
| "json_eq (JArray xs) (JArray ys) =
     (length xs = length ys \<and> list_all (\<lambda>(x, y). json_eq x y) (zip xs ys))"
| "json_eq (JObject es) (JObject fs) =
     (length es = length fs \<and>
      list_all (\<lambda>(k, v). case map_of fs k of Some w \<Rightarrow> json_eq v w | None \<Rightarrow> False) es)"
| "json_eq _ _ = False"
  by pat_completeness auto
termination
  by (relation "measure (size \<circ> fst)")
     (auto simp: less_Suc_eq_le dest!: set_zip_leftD intro!: size_list_estimation')

fun json_distinct :: "json \<Rightarrow> bool" where
  "json_distinct (JArray xs) = list_all json_distinct xs"
| "json_distinct (JObject es) =
     (distinct (map fst es) \<and> list_all (\<lambda>(k, v). json_distinct v) es)"
| "json_distinct _ = True"

fun json_option_list_eq :: "json list option \<Rightarrow> json list option \<Rightarrow> bool" where
  "json_option_list_eq None None = True"
| "json_option_list_eq (Some xs) (Some ys) = json_eq (JArray xs) (JArray ys)"
| "json_option_list_eq _ _ = False"

fun block_eq :: "content_block \<Rightarrow> content_block \<Rightarrow> bool" where
  "block_eq (Text t c) (Text t' c') = (t = t' \<and> c = c')"
| "block_eq (Thinking t) (Thinking t') = (t = t')"
| "block_eq (ToolUse i n v c) (ToolUse i' n' v' c') =
     (i = i' \<and> n = n' \<and> json_eq v v' \<and> c = c')"
| "block_eq (ToolResult i t e b) (ToolResult i' t' e' b') =
     (i = i' \<and> t = t' \<and> e = e' \<and> json_option_list_eq b b')"
| "block_eq (ServerToolUse i n v) (ServerToolUse i' n' v') = (i = i' \<and> n = n' \<and> json_eq v v')"
| "block_eq (ToolSearchToolResult i v) (ToolSearchToolResult i' v') = (i = i' \<and> json_eq v v')"
| "block_eq (CodeExecutionToolResult i v) (CodeExecutionToolResult i' v') =
     (i = i' \<and> json_eq v v')"
| "block_eq _ _ = False"

definition message_eq :: "message \<Rightarrow> message \<Rightarrow> bool" where
  "message_eq m m' \<longleftrightarrow>
     role m = role m' \<and> length (content m) = length (content m') \<and>
     list_all (\<lambda>(b, b'). block_eq b b') (zip (content m) (content m'))"

definition messages_eq :: "message list \<Rightarrow> message list \<Rightarrow> bool" where
  "messages_eq ms ms' \<longleftrightarrow>
     length ms = length ms' \<and> list_all (\<lambda>(m, m'). message_eq m m') (zip ms ms')"

section \<open>The preview transcript\<close>

datatype rebuilt_message_role = RoleUser | RoleAssistant | RoleToolResult

record rebuilt_transcript_entry =
  entry_role :: rebuilt_message_role
  entry_text :: string
  entry_source :: string

definition entry :: "rebuilt_message_role \<Rightarrow> string \<Rightarrow> string \<Rightarrow> rebuilt_transcript_entry" where
  "entry r t s = \<lparr>entry_role = r, entry_text = t, entry_source = s\<rparr>"

text \<open>
  The row an event contributes; \<open>emitted\<close> is the flag \<open>turn_input_emitted\<close> of the loop.
\<close>

fun transcript_row :: "bool \<Rightarrow> kernel_event \<Rightarrow> rebuilt_transcript_entry list" where
  "transcript_row emitted (TurnStarted _ _ txt _) =
     (if txt \<noteq> [] \<and> \<not> emitted then [entry RoleUser txt ''turn_input''] else [])"
| "transcript_row emitted (LayeredContextSeamInjected _ _ _ _ txt) =
     (if txt \<noteq> [] then [entry RoleAssistant txt ''layered_context_seam''] else [])"
| "transcript_row emitted (SteerInjected _ _ txt) =
     (if txt \<noteq> [] then [entry RoleUser txt ''steer''] else [])"
| "transcript_row emitted (ModelMessage _ _ _ _ preview _) =
     (if preview \<noteq> [] then [entry RoleAssistant preview ''model_message''] else [])"
| "transcript_row emitted (ToolCallFinished _ _ _ outcome _ _ preview _) =
     (if preview \<noteq> [] then [entry RoleToolResult preview ''tool_result'']
      else case outcome of
             ToolError msg \<Rightarrow> if msg \<noteq> [] then [entry RoleToolResult msg ''tool_error''] else []
           | _ \<Rightarrow> [])"
| "transcript_row emitted _ = []"

fun emits_turn_input :: "kernel_event \<Rightarrow> bool" where
  "emits_turn_input (TurnStarted _ _ txt _) = (txt \<noteq> [])"
| "emits_turn_input _ = False"

fun transcript_loop :: "bool \<Rightarrow> kernel_event list \<Rightarrow> rebuilt_transcript_entry list" where
  "transcript_loop emitted [] = []"
| "transcript_loop emitted (e # es) =
     transcript_row emitted e @ transcript_loop (emitted \<or> emits_turn_input e) es"

definition rebuild_transcript_from_events ::
  "kernel_event list \<Rightarrow> rebuilt_transcript_entry list" where
  "rebuild_transcript_from_events events = transcript_loop False events"

record transcript_preview_index =
  preview_row_count :: u32
  user_preview_count :: u32
  assistant_preview_count :: u32
  tool_result_preview_count :: u32
  preview_body_event_count :: u32

fun has_preview_body :: "kernel_event \<Rightarrow> bool" where
  "has_preview_body (ModelMessage _ _ _ _ preview _) = (preview \<noteq> [])"
| "has_preview_body (ToolCallFinished _ _ _ _ _ _ preview _) = (preview \<noteq> [])"
| "has_preview_body (LayeredContextSeamInjected _ _ _ _ txt) = (txt \<noteq> [])"
| "has_preview_body _ = False"

definition count_preview_body_events :: "kernel_event list \<Rightarrow> u32" where
  "count_preview_body_events events = count_u32 has_preview_body events"

definition count_row ::
  "transcript_preview_index \<Rightarrow> rebuilt_transcript_entry \<Rightarrow> transcript_preview_index" where
  "count_row i row =
     (case entry_role row of
        RoleUser \<Rightarrow> i\<lparr>user_preview_count := user_preview_count i + 1\<rparr>
      | RoleAssistant \<Rightarrow> i\<lparr>assistant_preview_count := assistant_preview_count i + 1\<rparr>
      | RoleToolResult \<Rightarrow> i\<lparr>tool_result_preview_count := tool_result_preview_count i + 1\<rparr>)"

definition index_from_events :: "kernel_event list \<Rightarrow> transcript_preview_index" where
  "index_from_events events =
     (let rows = rebuild_transcript_from_events events;
          index = foldl count_row
            \<lparr>preview_row_count = of_nat (length rows), user_preview_count = 0,
             assistant_preview_count = 0, tool_result_preview_count = 0,
             preview_body_event_count = 0\<rparr> rows
      in index\<lparr>preview_body_event_count := count_preview_body_events events\<rparr>)"

definition flatten_thread_events :: "turn_log list \<Rightarrow> kernel_event list" where
  "flatten_thread_events turns = concat (map snd turns)"

definition replay_thread_transcript_preview_index ::
  "turn_log list \<Rightarrow> transcript_preview_index" where
  "replay_thread_transcript_preview_index turns = index_from_events (flatten_thread_events turns)"

definition verify_session_transcript_preview_count ::
  "nat \<Rightarrow> transcript_preview_index \<Rightarrow> diff list option" where
  "verify_session_transcript_preview_count session_count index =
     (if preview_body_event_count index = 0 then None
      else if of_nat session_count \<noteq> preview_row_count index then
        Some [Fmt ''transcript preview row mismatch: session={} rebuilt={}''
          [ArgUsize session_count, ArgU32 (preview_row_count index)]]
      else None)"

fun find_text :: "content_block list \<Rightarrow> string option" where
  "find_text [] = None"
| "find_text (Text t _ # bs) = Some t"
| "find_text (_ # bs) = find_text bs"

fun find_tool_result :: "content_block list \<Rightarrow> string option" where
  "find_tool_result [] = None"
| "find_tool_result (ToolResult _ t _ _ # bs) = Some t"
| "find_tool_result (_ # bs) = find_tool_result bs"

definition session_message_preview :: "message \<Rightarrow> (rebuilt_message_role \<times> string) option" where
  "session_message_preview m =
     (if role m = ''assistant'' then map_option (Pair RoleAssistant) (find_text (content m))
      else if role m = ''user'' then
        (case find_tool_result (content m) of
           Some t \<Rightarrow> Some (RoleToolResult, t)
         | None \<Rightarrow> map_option (Pair RoleUser) (find_text (content m)))
      else None)"

definition preview_message_from_entry :: "rebuilt_transcript_entry \<Rightarrow> message" where
  "preview_message_from_entry e =
     (case entry_role e of
        RoleUser \<Rightarrow> \<lparr>role = ''user'', content = [Text (entry_text e) None]\<rparr>
      | RoleAssistant \<Rightarrow> \<lparr>role = ''assistant'', content = [Text (entry_text e) None]\<rparr>
      | RoleToolResult \<Rightarrow>
          \<lparr>role = ''user'',
           content = [ToolResult ''kernel-log-preview'' (entry_text e)
             (Some (entry_source e = ''tool_error'')) None]\<rparr>)"

text \<open>The zipped comparison loop of the preview bodies; the first mismatch returns.\<close>

fun compare_preview_rows ::
  "nat \<Rightarrow> rebuilt_transcript_entry list \<Rightarrow> message list \<Rightarrow> diff list option" where
  "compare_preview_rows i (e # es) (m # ms) =
     (case session_message_preview m of
        None \<Rightarrow> Some [Fmt ''session[{}] has no preview body'' [ArgUsize i]]
      | Some (r, t) \<Rightarrow>
          if r \<noteq> entry_role e then
            Some [Fmt ''transcript preview body[{}] role mismatch'' [ArgUsize i]]
          else if t \<noteq> entry_text e then
            Some [Fmt ''transcript preview body[{}] text mismatch: session={} rebuilt={}''
              [ArgUsize i, ArgStr t, ArgStr (entry_text e)]]
          else compare_preview_rows (Suc i) es ms)"
| "compare_preview_rows i _ _ = None"

definition verify_session_transcript_preview_bodies ::
  "message list \<Rightarrow> turn_log list \<Rightarrow> diff list option" where
  "verify_session_transcript_preview_bodies messages turns =
     (let combined = flatten_thread_events turns in
      if preview_body_event_count (index_from_events combined) = 0 then None
      else
        let rebuilt = rebuild_transcript_from_events combined in
        if length messages \<noteq> length rebuilt then
          Some [Fmt ''transcript preview body length mismatch: session={} rebuilt={}''
            [ArgUsize (length messages), ArgUsize (length rebuilt)]]
        else compare_preview_rows 0 rebuilt messages)"

section \<open>The full session rows\<close>

record planned_tool_call =
  planned_call_id :: string
  planned_tool_name :: string
  planned_input_json :: string

fun has_rebuild_substrate :: "kernel_event \<Rightarrow> bool" where
  "has_rebuild_substrate (ModelMessage _ _ _ blocks preview txt) =
     (txt \<noteq> [] \<or> preview \<noteq> [] \<or> blocks > 0)"
| "has_rebuild_substrate (ToolCallPlanned _ _ _ _ _ _) = True"
| "has_rebuild_substrate (ToolCallFinished _ _ _ _ _ _ preview body) =
     (body \<noteq> [] \<or> preview \<noteq> [])"
| "has_rebuild_substrate (TurnStarted _ _ txt _) = (txt \<noteq> [])"
| "has_rebuild_substrate (SteerInjected _ _ txt) = (txt \<noteq> [])"
| "has_rebuild_substrate (LayeredContextSeamInjected _ _ _ _ txt) = (txt \<noteq> [])"
| "has_rebuild_substrate _ = False"

definition has_session_message_rebuild_substrate :: "kernel_event list \<Rightarrow> bool" where
  "has_session_message_rebuild_substrate events = list_ex has_rebuild_substrate events"

fun planned_at_step :: "u32 \<Rightarrow> kernel_event \<Rightarrow> planned_tool_call option" where
  "planned_at_step n (ToolCallPlanned _ s cid name input _) =
     (if s = n then Some \<lparr>planned_call_id = cid, planned_tool_name = name,
        planned_input_json = input\<rparr> else None)"
| "planned_at_step n _ = None"

text \<open>The index by step: the calls planned under a step number, in log order.\<close>

definition index_tool_plans_by_step ::
  "kernel_event list \<Rightarrow> u32 \<Rightarrow> planned_tool_call list" where
  "index_tool_plans_by_step events n = List.map_filter (planned_at_step n) events"

definition assistant_text_for_model_message :: "string \<Rightarrow> string \<Rightarrow> string" where
  "assistant_text_for_model_message preview txt = (if txt \<noteq> [] then txt else preview)"

definition tool_use_of_plan :: "externals \<Rightarrow> planned_tool_call \<Rightarrow> content_block" where
  "tool_use_of_plan ext plan =
     ToolUse (planned_call_id plan) (planned_tool_name plan)
       (case json_from_str ext (planned_input_json plan) of Some v \<Rightarrow> v | None \<Rightarrow> JObject [])
       None"

definition rebuild_assistant_message ::
  "externals \<Rightarrow> u32 \<Rightarrow> string \<Rightarrow> string \<Rightarrow> planned_tool_call list \<Rightarrow> message" where
  "rebuild_assistant_message ext block_count preview txt planned =
     (let text = assistant_text_for_model_message preview txt;
          tool_slots = unat (sat_sub block_count (of_bool (text \<noteq> [])))
      in \<lparr>role = ''assistant'',
          content = push_if (text \<noteq> []) (Text text None) @
            map (tool_use_of_plan ext) (take tool_slots planned)\<rparr>)"

fun tool_result_content :: "string \<Rightarrow> string \<Rightarrow> tool_outcome \<Rightarrow> string \<times> bool option" where
  "tool_result_content body preview outcome =
     (if body \<noteq> [] then
        (body, case outcome of ToolError _ \<Rightarrow> Some True | _ \<Rightarrow> None)
      else
        let fallback = (if preview \<noteq> [] then (preview, None) else ([], None))
        in case outcome of
             ToolError msg \<Rightarrow> if msg \<noteq> [] then (''Error: '' @ msg, Some True) else fallback
           | _ \<Rightarrow> fallback)"

definition rebuild_tool_result_message ::
  "call_id \<Rightarrow> string \<Rightarrow> string \<Rightarrow> tool_outcome \<Rightarrow> message" where
  "rebuild_tool_result_message cid body preview outcome =
     (let (txt, is_err) = tool_result_content body preview outcome
      in \<lparr>role = ''user'', content = [ToolResult cid txt is_err None]\<rparr>)"

fun session_row ::
  "externals \<Rightarrow> (u32 \<Rightarrow> planned_tool_call list) \<Rightarrow> bool \<Rightarrow> kernel_event \<Rightarrow> message list" where
  "session_row ext plans emitted (TurnStarted _ _ txt _) =
     (if txt \<noteq> [] \<and> \<not> emitted then [\<lparr>role = ''user'', content = [Text txt None]\<rparr>] else [])"
| "session_row ext plans emitted (LayeredContextSeamInjected _ _ _ _ txt) =
     (if txt \<noteq> [] then [\<lparr>role = ''assistant'', content = [Text txt None]\<rparr>] else [])"
| "session_row ext plans emitted (SteerInjected _ _ txt) =
     (if txt \<noteq> [] then [\<lparr>role = ''user'', content = [Text txt None]\<rparr>] else [])"
| "session_row ext plans emitted (ModelMessage _ s _ blocks preview txt) =
     [rebuild_assistant_message ext blocks preview txt (plans s)]"
| "session_row ext plans emitted (ToolCallFinished _ cid _ outcome _ _ preview body) =
     [rebuild_tool_result_message cid body preview outcome]"
| "session_row ext plans emitted _ = []"

fun session_loop ::
  "externals \<Rightarrow> (u32 \<Rightarrow> planned_tool_call list) \<Rightarrow> bool \<Rightarrow> kernel_event list \<Rightarrow> message list" where
  "session_loop ext plans emitted [] = []"
| "session_loop ext plans emitted (e # es) =
     session_row ext plans emitted e @
     session_loop ext plans (emitted \<or> emits_turn_input e) es"

definition rebuild_session_messages_from_events ::
  "externals \<Rightarrow> kernel_event list \<Rightarrow> message list" where
  "rebuild_session_messages_from_events ext events =
     session_loop ext (index_tool_plans_by_step events) False events"

definition rebuild_session_messages_from_thread_events ::
  "externals \<Rightarrow> turn_log list \<Rightarrow> message list" where
  "rebuild_session_messages_from_thread_events ext turns =
     rebuild_session_messages_from_events ext (flatten_thread_events turns)"

definition rebuild_preview_messages_from_events ::
  "externals \<Rightarrow> kernel_event list \<Rightarrow> message list" where
  "rebuild_preview_messages_from_events ext events =
     (if has_session_message_rebuild_substrate events
      then rebuild_session_messages_from_events ext events
      else map preview_message_from_entry (rebuild_transcript_from_events events))"

definition rebuild_preview_messages_from_thread_events ::
  "externals \<Rightarrow> turn_log list \<Rightarrow> message list" where
  "rebuild_preview_messages_from_thread_events ext turns =
     rebuild_preview_messages_from_events ext (flatten_thread_events turns)"

section \<open>Parity and repair\<close>

text \<open>
  \<open>to_json\<close> is \<open>serde_json::to_string\<close> on a message list; its error makes the check return
  \<open>None\<close> through \<open>?\<close>.
\<close>

definition verify_session_messages_byte_parity ::
  "(message list \<Rightarrow> string option) \<Rightarrow> message list \<Rightarrow> message list \<Rightarrow> diff list option" where
  "verify_session_messages_byte_parity to_json rebuilt expected =
     (if \<not> messages_eq rebuilt expected then
        Some [Fmt ''session message struct mismatch: rebuilt={} expected={}''
          [ArgUsize (length rebuilt), ArgUsize (length expected)]]
      else case to_json rebuilt of
             None \<Rightarrow> None
           | Some r \<Rightarrow>
               (case to_json expected of
                  None \<Rightarrow> None
                | Some e \<Rightarrow>
                    if r \<noteq> e then
                      Some [Fmt ''session JSON byte mismatch: rebuilt_bytes={} expected_bytes={}''
                        [ArgUsize (length r), ArgUsize (length e)]]
                    else None))"

definition verify_session_messages_structural_parity ::
  "(message list \<Rightarrow> string option) \<Rightarrow> externals \<Rightarrow> message list \<Rightarrow> kernel_event list \<Rightarrow>
   diff list option" where
  "verify_session_messages_structural_parity to_json ext session events =
     (if \<not> has_session_message_rebuild_substrate events then None
      else verify_session_messages_byte_parity to_json
             (rebuild_session_messages_from_events ext events) session)"

definition should_repair_session_from_kernel_log ::
  "(message list \<Rightarrow> string option) \<Rightarrow> externals \<Rightarrow> message list \<Rightarrow> turn_log list \<Rightarrow> bool" where
  "should_repair_session_from_kernel_log to_json ext messages turns =
     (let combined = flatten_thread_events turns in
      if \<not> has_session_message_rebuild_substrate combined then
        if preview_body_event_count (replay_thread_transcript_preview_index turns) = 0 then False
        else verify_session_transcript_preview_bodies messages turns \<noteq> None
      else verify_session_messages_structural_parity to_json ext messages combined \<noteq> None)"

fun compare_expected_rows ::
  "nat \<Rightarrow> rebuilt_transcript_entry list \<Rightarrow> (rebuilt_message_role \<times> string) list \<Rightarrow>
   diff list option" where
  "compare_expected_rows i (e # es) ((r, t) # ps) =
     (if entry_role e \<noteq> r then Some [Fmt ''transcript[{}] role mismatch'' [ArgUsize i]]
      else if entry_text e \<noteq> t then
        Some [Fmt ''transcript[{}] text mismatch: rebuilt={} expected={}''
          [ArgUsize i, ArgStr (entry_text e), ArgStr t]]
      else compare_expected_rows (Suc i) es ps)"
| "compare_expected_rows i _ _ = None"

definition verify_log_transcript_rebuild ::
  "kernel_event list \<Rightarrow> (rebuilt_message_role \<times> string) list \<Rightarrow> diff list option" where
  "verify_log_transcript_rebuild events expected =
     (let rebuilt = rebuild_transcript_from_events events in
      if length rebuilt \<noteq> length expected then
        Some [Fmt ''transcript length mismatch: rebuilt={} expected={}''
          [ArgUsize (length rebuilt), ArgUsize (length expected)]]
      else compare_expected_rows 0 rebuilt expected)"


section \<open>Equality of rebuilt rows\<close>

lemma json_eq_refl: "json_distinct v \<Longrightarrow> json_eq v v"
proof (induction v)
  case (JArray xs)
  then show ?case by (auto simp: list_all_iff zip_same_conv_map)
next
  case (JObject es)
  then show ?case by (fastforce simp: list_all_iff)
qed simp_all

definition parses_distinct :: "externals \<Rightarrow> bool" where
  "parses_distinct ext \<longleftrightarrow> (\<forall>s v. json_from_str ext s = Some v \<longrightarrow> json_distinct v)"

lemma tool_use_eq: "parses_distinct ext \<Longrightarrow> block_eq (tool_use_of_plan ext p) (tool_use_of_plan ext p)"
  by (auto simp: tool_use_of_plan_def parses_distinct_def intro: json_eq_refl split: option.split)

lemma message_eq_refl: "(\<And>b. b \<in> set (content m) \<Longrightarrow> block_eq b b) \<Longrightarrow> message_eq m m"
  by (auto simp: message_eq_def list_all_iff zip_same_conv_map)

lemma messages_eq_refl: "(\<And>m. m \<in> set ms \<Longrightarrow> message_eq m m) \<Longrightarrow> messages_eq ms ms"
  by (auto simp: messages_eq_def list_all_iff zip_same_conv_map)

lemma session_row_eq:
  assumes "parses_distinct ext" and "m \<in> set (session_row ext plans emitted e)"
  shows "message_eq m m"
proof (rule message_eq_refl)
  fix b assume "b \<in> set (content m)"
  then show "block_eq b b"
    using assms
    by (cases e) (auto simp: rebuild_assistant_message_def rebuild_tool_result_message_def Let_def
        push_if_def split: if_splits prod.splits dest!: in_set_takeD intro: tool_use_eq)
qed

lemma session_loop_eq:
  "parses_distinct ext \<Longrightarrow> m \<in> set (session_loop ext plans emitted es) \<Longrightarrow> message_eq m m"
  by (induction es arbitrary: emitted) (auto intro: session_row_eq)

lemma rebuilt_session_eq:
  "parses_distinct ext \<Longrightarrow>
   messages_eq (rebuild_session_messages_from_events ext es)
     (rebuild_session_messages_from_events ext es)"
  by (rule messages_eq_refl)
     (auto simp: rebuild_session_messages_from_events_def intro: session_loop_eq)

section \<open>Repair\<close>

lemma preview_body_is_substrate: "has_preview_body e \<Longrightarrow> has_rebuild_substrate e"
  by (cases e) simp_all

lemma no_substrate_no_preview:
  "\<not> has_session_message_rebuild_substrate es \<Longrightarrow> preview_body_event_count (index_from_events es) = 0"
proof -
  assume "\<not> has_session_message_rebuild_substrate es"
  then have "count_if has_preview_body es = 0"
    by (auto simp: has_session_message_rebuild_substrate_def list_ex_iff count_if_eq_0_iff
        dest: preview_body_is_substrate)
  then show ?thesis
    by (simp add: index_from_events_def Let_def count_preview_body_events_def count_u32_def)
qed

text \<open>
  The log repair replaces a session exactly when the thread's log carries rebuild substrate
  and the rebuilt rows differ from the session, in structure or in their JSON text.
\<close>
theorem should_repair_iff:
  "should_repair_session_from_kernel_log to_json ext messages turns \<longleftrightarrow>
     has_session_message_rebuild_substrate (flatten_thread_events turns) \<and>
     verify_session_messages_byte_parity to_json
       (rebuild_session_messages_from_thread_events ext turns) messages \<noteq> None"
  by (auto simp: should_repair_session_from_kernel_log_def Let_def
      replay_thread_transcript_preview_index_def no_substrate_no_preview
      verify_session_messages_structural_parity_def
      rebuild_session_messages_from_thread_events_def)


definition object_parser :: externals where
  "object_parser =
     \<lparr>json_from_str = (\<lambda>s. if s = ''{}'' then Some (JObject [(''path'', JString ''a.rs'')]) else None),
      path_find_iter = (\<lambda>s. []), json_string_literal = (\<lambda>s. s), default_hash = (\<lambda>s. 0)\<rparr>"


section \<open>What the rebuild keeps and what it drops\<close>

fun contributes_row :: "kernel_event \<Rightarrow> bool" where
  "contributes_row (LayeredContextSeamInjected _ _ _ _ txt) = (txt \<noteq> [])"
| "contributes_row (SteerInjected _ _ txt) = (txt \<noteq> [])"
| "contributes_row (ModelMessage _ _ _ _ _ _) = True"
| "contributes_row (ToolCallFinished _ _ _ _ _ _ _ _) = True"
| "contributes_row _ = False"

lemma length_session_loop:
  "length (session_loop ext plans emitted es) =
     of_bool (\<not> emitted \<and> list_ex emits_turn_input es) + count_if contributes_row es"
proof (induction es arbitrary: emitted)
  case (Cons e es)
  then show ?case by (cases e) simp_all
qed simp

text \<open>
  Size of the rebuilt session: one row per model message, tool result, non-empty steer and
  non-empty seam, and one row for the input of the first turn that has an input, however many
  turns the log covers.
\<close>
theorem rebuilt_session_row_count:
  "length (rebuild_session_messages_from_events ext es) =
     of_bool (list_ex emits_turn_input es) + count_if contributes_row es"
  by (simp add: rebuild_session_messages_from_events_def length_session_loop)

lemma session_loop_emitted:
  "session_loop ext plans True (filter (\<lambda>e. \<not> is_TurnStarted e) es) = session_loop ext plans True es"
proof (induction es)
  case (Cons e es)
  then show ?case by (cases e) simp_all
qed simp

lemma session_loop_append:
  "session_loop ext plans emitted (es @ es') =
     session_loop ext plans emitted es @
     session_loop ext plans (emitted \<or> list_ex emits_turn_input es) es'"
  by (induction es arbitrary: emitted) (simp_all add: disj_assoc)

lemma plans_ignore_starts:
  "index_tool_plans_by_step (es @ filter (\<lambda>e. \<not> is_TurnStarted e) es') =
     index_tool_plans_by_step (es @ es')"
proof
  fix n
  have "List.map_filter (planned_at_step n) (filter (\<lambda>e. \<not> is_TurnStarted e) es') =
      List.map_filter (planned_at_step n) es'"
  proof (induction es')
    case (Cons e es)
    then show ?case by (cases e) (simp_all add: List.map_filter_simps)
  qed simp
  then show "index_tool_plans_by_step (es @ filter (\<lambda>e. \<not> is_TurnStarted e) es') n =
      index_tool_plans_by_step (es @ es') n"
    by (simp add: index_tool_plans_by_step_def List.map_filter_def)
qed

text \<open>
  After a turn with an input, the input of every later turn is lost: the rebuilt session of
  a thread is the one its log would give with the later \<open>TurnStarted\<close> events removed.
\<close>
theorem rebuild_drops_later_turn_inputs:
  assumes "list_ex emits_turn_input (flatten_thread_events earlier)"
  shows "rebuild_session_messages_from_thread_events ext (earlier @ later) =
    rebuild_session_messages_from_events ext
      (flatten_thread_events earlier @
       filter (\<lambda>e. \<not> is_TurnStarted e) (flatten_thread_events later))"
  using assms
  by (simp add: rebuild_session_messages_from_thread_events_def
      rebuild_session_messages_from_events_def flatten_thread_events_def session_loop_append
      session_loop_emitted plans_ignore_starts)

theorem rebuild_drops_later_turn_inputs_witness:
  "rebuild_session_messages_from_thread_events quiet_externals
     [(''t1'', [TurnStarted ''t1'' Agent ''fix it'' 8, TurnEnded ''t1'' Completed 1]),
      (''t2'', [TurnStarted ''t2'' Agent ''now the tests'' 8, TurnEnded ''t2'' Completed 1])] =
   [\<lparr>role = ''user'', content = [Text ''fix it'' None]\<rparr>]"
  using rebuild_drops_later_turn_inputs
    [of "[(''t1'', [TurnStarted ''t1'' Agent ''fix it'' 8, TurnEnded ''t1'' Completed 1])]" quiet_externals
        "[(''t2'', [TurnStarted ''t2'' Agent ''now the tests'' 8, TurnEnded ''t2'' Completed 1])]"]
  by (simp add: flatten_thread_events_def rebuild_session_messages_from_events_def)

text \<open>
  Steps of different turns share one plan index: a model message of a later turn is rebuilt
  with the calls an earlier turn planned under the same step number, here call \<open>c1\<close> of the
  first turn in the message that planned \<open>c2\<close>.
\<close>
theorem rebuild_confuses_steps_of_turns:
  "rebuild_session_messages_from_thread_events object_parser
     [(''t1'', [ToolCallPlanned ''t1'' 1 ''c1'' ''read_file'' ''{}'' d, ModelMessage ''t1'' 1 u 1 [] []]),
      (''t2'', [ToolCallPlanned ''t2'' 1 ''c2'' ''write_file'' ''{}'' d, ModelMessage ''t2'' 1 u 1 [] []])] =
   replicate 2 \<lparr>role = ''assistant'',
     content = [ToolUse ''c1'' ''read_file'' (JObject [(''path'', JString ''a.rs'')]) None]\<rparr>"
  by (simp add: rebuild_session_messages_from_thread_events_def flatten_thread_events_def
      rebuild_session_messages_from_events_def index_tool_plans_by_step_def List.map_filter_def
      rebuild_assistant_message_def assistant_text_for_model_message_def tool_use_of_plan_def
      object_parser_def sat_sub_def numeral_2_eq_2)

section \<open>The preview transcript round trip\<close>

lemma preview_round_trip:
  "session_message_preview (preview_message_from_entry e) = Some (entry_role e, entry_text e)"
  by (cases "entry_role e") (simp_all add: preview_message_from_entry_def session_message_preview_def)

lemma compare_preview_rows_iff:
  "length ms = length es \<Longrightarrow>
   compare_preview_rows i es ms = None \<longleftrightarrow>
     map session_message_preview ms = map (\<lambda>e. Some (entry_role e, entry_text e)) es"
  by (induction i es ms rule: compare_preview_rows.induct) (auto split: option.split)

text \<open>
  The preview check accepts a session exactly when no event carries a preview body (counted
  as \<open>u32\<close>) or every session row previews, in order, to the role and text of the rebuilt
  transcript; rows built from the transcript itself are accepted.
\<close>
theorem preview_bodies_accepted_iff:
  "verify_session_transcript_preview_bodies ms turns = None \<longleftrightarrow>
     count_u32 has_preview_body (flatten_thread_events turns) = 0 \<or>
     map session_message_preview ms =
       map (\<lambda>e. Some (entry_role e, entry_text e))
         (rebuild_transcript_from_events (flatten_thread_events turns))"
  by (auto simp: verify_session_transcript_preview_bodies_def Let_def index_from_events_def
      count_preview_body_events_def compare_preview_rows_iff dest: map_eq_imp_length_eq)

lemma preview_messages_accepted:
  "verify_session_transcript_preview_bodies
     (map preview_message_from_entry (rebuild_transcript_from_events (flatten_thread_events turns)))
     turns = None"
  by (simp add: verify_session_transcript_preview_bodies_def Let_def compare_preview_rows_iff
      preview_round_trip)

end
