(* ===== verification/Thread_Replay.thy ===== *)
theory Thread_Replay
  imports Replay_Coherence Transcript_Rebuild
begin

text \<open>
  Thread-level replay and resume (\<open>crates/core/src/engine/turn_machine.rs\<close>): the message-plane
  counters and timeline of a thread, the checks of a stored session against them,
  \<open>replay_thread_projection\<close>, the coverage report, the resume hints, and the resume parity
  gate (\<open>turn_loop/kernel_resume_parity_policy.rs\<close>).
\<close>

section \<open>Message statistics\<close>

record thread_message_replay_stats =
  ms_turns_with_events :: nat
  ms_model_request :: u32
  ms_model_message :: u32
  ms_tool_call_planned :: u32
  ms_steer_injection :: u32
  ms_compaction_artifact :: u32
  ms_scratchpad_summary :: u32
  ms_scratchpad_reminder :: u32
  ms_cycle_briefing :: u32
  ms_step_limit_continuation :: u32
  ms_loop_guard_continuation :: u32
  ms_layered_context_seam :: u32

definition default_stats :: thread_message_replay_stats where
  "default_stats =
     \<lparr>ms_turns_with_events = 0, ms_model_request = 0, ms_model_message = 0,
      ms_tool_call_planned = 0, ms_steer_injection = 0, ms_compaction_artifact = 0,
      ms_scratchpad_summary = 0, ms_scratchpad_reminder = 0, ms_cycle_briefing = 0,
      ms_step_limit_continuation = 0, ms_loop_guard_continuation = 0,
      ms_layered_context_seam = 0\<rparr>"

fun count_stat ::
  "thread_message_replay_stats \<Rightarrow> kernel_event \<Rightarrow> thread_message_replay_stats" where
  "count_stat s (ModelRequestIssued _ _ _ _) = s\<lparr>ms_model_request := ms_model_request s + 1\<rparr>"
| "count_stat s (ModelMessage _ _ _ _ _ _) = s\<lparr>ms_model_message := ms_model_message s + 1\<rparr>"
| "count_stat s (ToolCallPlanned _ _ _ _ _ _) =
     s\<lparr>ms_tool_call_planned := ms_tool_call_planned s + 1\<rparr>"
| "count_stat s (SteerInjected _ _ _) = s\<lparr>ms_steer_injection := ms_steer_injection s + 1\<rparr>"
| "count_stat s (CompactionArtifactCreated _ _ _ _) =
     s\<lparr>ms_compaction_artifact := ms_compaction_artifact s + 1\<rparr>"
| "count_stat s (ScratchpadSummaryInjected _ _) =
     s\<lparr>ms_scratchpad_summary := ms_scratchpad_summary s + 1\<rparr>"
| "count_stat s (ScratchpadReminderInjected _ _ _) =
     s\<lparr>ms_scratchpad_reminder := ms_scratchpad_reminder s + 1\<rparr>"
| "count_stat s (CycleBriefingInjected _ _ _) =
     s\<lparr>ms_cycle_briefing := ms_cycle_briefing s + 1\<rparr>"
| "count_stat s (StepLimitContinuation _ _ _) =
     s\<lparr>ms_step_limit_continuation := ms_step_limit_continuation s + 1\<rparr>"
| "count_stat s (LoopGuardContinuation _ _) =
     s\<lparr>ms_loop_guard_continuation := ms_loop_guard_continuation s + 1\<rparr>"
| "count_stat s (LayeredContextSeamInjected _ _ _ _ _) =
     s\<lparr>ms_layered_context_seam := ms_layered_context_seam s + 1\<rparr>"
| "count_stat s _ = s"

definition count_turn_stats ::
  "thread_message_replay_stats \<Rightarrow> turn_log \<Rightarrow> thread_message_replay_stats" where
  "count_turn_stats s turn =
     (if snd turn = [] then s
      else foldl count_stat (s\<lparr>ms_turns_with_events := ms_turns_with_events s + 1\<rparr>) (snd turn))"

definition replay_thread_message_stats :: "turn_log list \<Rightarrow> thread_message_replay_stats" where
  "replay_thread_message_stats turns = foldl count_turn_stats default_stats turns"

record thread_message_timeline_entry =
  te_turn_id :: string
  te_step_idx :: u32
  te_block_count :: u32

fun timeline_entry :: "kernel_event \<Rightarrow> thread_message_timeline_entry option" where
  "timeline_entry (ModelMessage t s _ blocks _ _) =
     Some \<lparr>te_turn_id = t, te_step_idx = s, te_block_count = blocks\<rparr>"
| "timeline_entry _ = None"

definition replay_thread_message_timeline ::
  "turn_log list \<Rightarrow> thread_message_timeline_entry list" where
  "replay_thread_message_timeline turns =
     concat (map (\<lambda>(_, events). List.map_filter timeline_entry events) turns)"

record thread_message_plane_index =
  mp_model_request :: u32
  mp_model_message :: u32
  mp_tool_call_planned :: u32
  mp_steer_injection :: u32
  mp_estimated_min :: u32

definition replay_thread_message_plane_index ::
  "thread_message_replay_stats \<Rightarrow> thread_message_plane_index" where
  "replay_thread_message_plane_index s =
     \<lparr>mp_model_request = ms_model_request s, mp_model_message = ms_model_message s,
      mp_tool_call_planned = ms_tool_call_planned s, mp_steer_injection = ms_steer_injection s,
      mp_estimated_min =
        sat_add (sat_add (ms_model_message s) (ms_tool_call_planned s))
          (ms_layered_context_seam s)\<rparr>"

section \<open>Role counts\<close>

record session_message_role_index =
  ri_user :: u32
  ri_assistant :: u32
  ri_tool_result :: u32
  ri_text_user :: u32
  ri_total :: u32

record kernel_memory_plane_user_estimate =
  me_steer :: u32
  me_summary :: u32
  me_reminder :: u32
  me_continuation :: u32
  me_injected :: u32

record kernel_message_role_estimate =
  re_assistant :: u32
  re_tool_result :: u32
  re_steer :: u32

definition message_has_text_block :: "message \<Rightarrow> bool" where
  "message_has_text_block msg = list_ex is_Text (content msg)"

definition message_has_tool_result :: "message \<Rightarrow> bool" where
  "message_has_tool_result msg = list_ex is_ToolResult (content msg)"

definition count_role :: "session_message_role_index \<Rightarrow> message \<Rightarrow> session_message_role_index" where
  "count_role i msg =
     (if role msg = ''user'' then
        let i1 = i\<lparr>ri_user := ri_user i + 1\<rparr> in
        if message_has_tool_result msg then i1\<lparr>ri_tool_result := ri_tool_result i1 + 1\<rparr>
        else if message_has_text_block msg then i1\<lparr>ri_text_user := ri_text_user i1 + 1\<rparr>
        else i1
      else if role msg = ''assistant'' then i\<lparr>ri_assistant := ri_assistant i + 1\<rparr>
      else i)"

definition build_session_message_role_index :: "message list \<Rightarrow> session_message_role_index" where
  "build_session_message_role_index messages =
     (foldl count_role
        \<lparr>ri_user = 0, ri_assistant = 0, ri_tool_result = 0, ri_text_user = 0, ri_total = 0\<rparr>
        messages)\<lparr>ri_total := of_nat (length messages)\<rparr>"

definition replay_kernel_message_role_estimate ::
  "thread_message_replay_stats \<Rightarrow> kernel_message_role_estimate" where
  "replay_kernel_message_role_estimate s =
     \<lparr>re_assistant = sat_add (ms_model_message s) (ms_layered_context_seam s),
      re_tool_result = ms_tool_call_planned s, re_steer = ms_steer_injection s\<rparr>"

definition replay_kernel_memory_plane_user_estimate ::
  "thread_message_replay_stats \<Rightarrow> kernel_memory_plane_user_estimate" where
  "replay_kernel_memory_plane_user_estimate s =
     (let continuations =
        sat_add (ms_step_limit_continuation s) (ms_loop_guard_continuation s)
      in \<lparr>me_steer = ms_steer_injection s, me_summary = ms_scratchpad_summary s,
          me_reminder = ms_scratchpad_reminder s, me_continuation = continuations,
          me_injected =
            sat_add (sat_add (sat_add (ms_steer_injection s) (ms_scratchpad_summary s))
              (ms_scratchpad_reminder s)) continuations\<rparr>)"

definition verify_session_memory_plane_user_depth ::
  "session_message_role_index \<Rightarrow> kernel_memory_plane_user_estimate \<Rightarrow> diff list option" where
  "verify_session_memory_plane_user_depth session kern =
     (if me_injected kern = 0 then None
      else if ri_text_user session \<ge> me_injected kern then None
      else Some [Fmt ''session text user messages ({}) below kernel memory-plane injections ({})''
             [ArgU32 (ri_text_user session), ArgU32 (me_injected kern)]])"

definition verify_session_role_index ::
  "session_message_role_index \<Rightarrow> kernel_message_role_estimate \<Rightarrow> diff list option" where
  "verify_session_role_index session kern =
     report
       (push_if (ri_assistant session < re_assistant kern)
          (Fmt ''session assistant messages ({}) below kernel model_message events ({})''
            [ArgU32 (ri_assistant session), ArgU32 (re_assistant kern)]) @
        push_if (ri_tool_result session < re_tool_result kern)
          (Fmt ''session tool_result messages ({}) below kernel tool_call_planned events ({})''
            [ArgU32 (ri_tool_result session), ArgU32 (re_tool_result kern)]))"

section \<open>Depth and coverage checks\<close>

definition verify_session_compaction_depth ::
  "nat \<Rightarrow> thread_compaction_replay_index \<Rightarrow> thread_message_plane_index \<Rightarrow> diff list option" where
  "verify_session_compaction_depth session_count compaction plane =
     (if artifact_count compaction = 0 then None
      else
        let restored = of_nat session_count + messages_removed_estimate compaction;
            min_needed = mp_estimated_min plane
        in if restored < min_needed then
             Some [Fmt ''session ({}) + compaction removed ({}) = {} below kernel plane estimate ({})''
               [ArgUsize session_count, ArgU32 (messages_removed_estimate compaction),
                ArgU32 restored, ArgU32 min_needed]]
           else None)"

definition verify_session_message_plane_depth ::
  "nat \<Rightarrow> thread_message_plane_index \<Rightarrow> diff list option" where
  "verify_session_message_plane_depth session_count plane =
     (let min_messages = unat (mp_estimated_min plane) in
      if session_count < min_messages then
        Some [Fmt ''session messages ({}) below kernel plane estimate ({})''
          [ArgUsize session_count, ArgUsize min_messages]]
      else None)"

record session_message_coverage =
  sc_session_message_count :: nat
  sc_kernel_model_message_count :: u32
  sc_coverage_ok :: bool
  sc_summary :: "diff list option"

definition build_session_message_coverage ::
  "nat \<Rightarrow> thread_message_replay_stats \<Rightarrow> session_message_coverage option" where
  "build_session_message_coverage session_count s =
     (if ms_model_message s = 0 then None
      else
        let expected_min = unat (ms_model_message s);
            ok = (session_count \<ge> expected_min)
        in Some \<lparr>sc_session_message_count = session_count,
             sc_kernel_model_message_count = ms_model_message s, sc_coverage_ok = ok,
             sc_summary =
               (if ok then None
                else Some [Fmt ''session messages ({}) below kernel model_message events ({})''
                  [ArgUsize session_count, ArgUsize expected_min]])\<rparr>)"

definition verify_session_message_coverage ::
  "nat \<Rightarrow> thread_message_replay_stats \<Rightarrow> diff list option" where
  "verify_session_message_coverage session_count s =
     (case build_session_message_coverage session_count s of
        None \<Rightarrow> None | Some c \<Rightarrow> sc_summary c)"

fun empty_block_entry :: "thread_message_timeline_entry list \<Rightarrow> diff list option" where
  "empty_block_entry [] = None"
| "empty_block_entry (x # rest) =
     (if te_block_count x = 0 then
        Some [Fmt ''turn {} step {} has block_count 0''
          [ArgStr (te_turn_id x), ArgU32 (te_step_idx x)]]
      else empty_block_entry rest)"

definition verify_message_timeline_coherence ::
  "thread_message_replay_stats \<Rightarrow> thread_message_timeline_entry list \<Rightarrow> diff list option" where
  "verify_message_timeline_coherence s timeline =
     (if of_nat (length timeline) \<noteq> ms_model_message s then
        Some [Fmt ''timeline entries ({}) != model_message_count ({})''
          [ArgUsize (length timeline), ArgU32 (ms_model_message s)]]
      else empty_block_entry timeline)"

definition verify_message_timeline_vs_session ::
  "nat \<Rightarrow> thread_message_timeline_entry list \<Rightarrow> diff list option" where
  "verify_message_timeline_vs_session session_count timeline =
     (if timeline = [] then None
      else if session_count < length timeline then
        Some [Fmt ''session messages ({}) below timeline anchors ({})''
          [ArgUsize session_count, ArgUsize (length timeline)]]
      else None)"

definition verify_timeline_vs_request_count ::
  "thread_message_replay_stats \<Rightarrow> thread_message_timeline_entry list \<Rightarrow> diff list option" where
  "verify_timeline_vs_request_count s timeline =
     (let anchors = of_nat (length timeline) in
      if anchors > ms_model_request s then
        Some [Fmt ''timeline anchors ({}) exceed model_request_count ({})''
          [ArgU32 anchors, ArgU32 (ms_model_request s)]]
      else None)"

section \<open>The thread projection\<close>

record thread_replay_projection =
  tj_report :: thread_replay_report
  tj_latest_turn_id :: "string option"
  tj_latest_projection :: turn_kernel_projection
  tj_message_stats :: thread_message_replay_stats
  tj_message_timeline :: "thread_message_timeline_entry list"
  tj_message_plane_index :: thread_message_plane_index
  tj_transcript_preview_index :: transcript_preview_index
  tj_compaction_timeline :: "thread_compaction_replay_entry list"
  tj_compaction_index :: thread_compaction_replay_index
  tj_continuation_anchor_summary :: "diff list option"
  tj_request_approval_anchor_summary :: "diff list option"
  tj_notify_lsp_anchor_summary :: "diff list option"
  tj_memory_plane_replay_anchor_summary :: "diff list option"
  tj_compaction_replay_anchor_summary :: "diff list option"
  tj_effect_counts :: replay_effect_count

text \<open>
  The struct keeps a flag beside each of the five anchor summaries; \<open>replay_thread_projection\<close>,
  the only constructor, sets it to "the summary is none", so it is a function of the record.
\<close>

definition continuation_anchor_ok :: "thread_replay_projection \<Rightarrow> bool" where
  "continuation_anchor_ok p \<longleftrightarrow> tj_continuation_anchor_summary p = None"
definition request_approval_anchor_ok :: "thread_replay_projection \<Rightarrow> bool" where
  "request_approval_anchor_ok p \<longleftrightarrow> tj_request_approval_anchor_summary p = None"
definition notify_lsp_anchor_ok :: "thread_replay_projection \<Rightarrow> bool" where
  "notify_lsp_anchor_ok p \<longleftrightarrow> tj_notify_lsp_anchor_summary p = None"
definition memory_plane_replay_anchor_ok :: "thread_replay_projection \<Rightarrow> bool" where
  "memory_plane_replay_anchor_ok p \<longleftrightarrow> tj_memory_plane_replay_anchor_summary p = None"
definition compaction_replay_anchor_ok :: "thread_replay_projection \<Rightarrow> bool" where
  "compaction_replay_anchor_ok p \<longleftrightarrow> tj_compaction_replay_anchor_summary p = None"

definition latest_turn ::
  "externals \<Rightarrow> turn_log list \<Rightarrow> string option \<times> turn_kernel_projection" where
  "latest_turn ext turns =
     (case List.find (\<lambda>(_, events). events \<noteq> []) (rev turns) of
        Some (tid, events) \<Rightarrow> (Some tid, from_events ext events)
      | None \<Rightarrow> (None, default_projection))"

definition replay_thread_projection ::
  "externals \<Rightarrow> string \<Rightarrow> turn_log list \<Rightarrow> thread_replay_projection" where
  "replay_thread_projection ext thread_id turns =
     (let stats = replay_thread_message_stats turns;
          compactions = replay_thread_compaction_timeline turns;
          (latest_id, latest) = latest_turn ext turns
      in \<lparr>tj_report = build_thread_replay_report ext thread_id turns,
          tj_latest_turn_id = latest_id, tj_latest_projection = latest,
          tj_message_stats = stats,
          tj_message_timeline = replay_thread_message_timeline turns,
          tj_message_plane_index = replay_thread_message_plane_index stats,
          tj_transcript_preview_index = replay_thread_transcript_preview_index turns,
          tj_compaction_timeline = compactions,
          tj_compaction_index = replay_thread_compaction_index compactions,
          tj_continuation_anchor_summary = verify_thread_continuation_anchors ext turns,
          tj_request_approval_anchor_summary = verify_thread_request_approval_anchors ext turns,
          tj_notify_lsp_anchor_summary = verify_thread_notify_lsp_anchors ext turns,
          tj_memory_plane_replay_anchor_summary = verify_thread_memory_plane_replay_anchors turns,
          tj_compaction_replay_anchor_summary = verify_thread_compaction_replay_anchors turns,
          tj_effect_counts = replay_thread_effect_counts ext turns\<rparr>)"

section \<open>The coverage report\<close>

record session_message_timeline_coverage =
  cv_session_message_count :: nat
  cv_kernel_model_message_count :: u32
  cv_timeline_anchor_count :: nat
  cv_model_request_count :: u32
  cv_estimated_min_session_messages :: u32
  cv_coherence_ok :: bool
  cv_coverage_ok :: bool
  cv_timeline_vs_session_ok :: bool
  cv_timeline_vs_requests_ok :: bool
  cv_plane_depth_ok :: bool
  cv_role_index_ok :: bool
  cv_memory_plane_user_ok :: bool
  cv_session_assistant_count :: "u32 option"
  cv_session_tool_result_count :: "u32 option"
  cv_session_text_user_count :: "u32 option"
  cv_kernel_min_assistant_messages :: u32
  cv_kernel_min_tool_result_messages :: u32
  cv_kernel_min_memory_injected_user_messages :: u32
  cv_compaction_depth_ok :: bool
  cv_compaction_messages_removed_estimate :: u32
  cv_compaction_restored_session_estimate :: u32
  cv_compaction_peak_session_depth_hint :: u32
  cv_compaction_artifact_ok :: bool
  cv_session_compaction_artifact_count :: "u32 option"
  cv_continuation_anchor_ok :: bool
  cv_request_approval_anchor_ok :: bool
  cv_notify_lsp_anchor_ok :: bool
  cv_memory_plane_replay_anchor_ok :: bool
  cv_compaction_replay_anchor_ok :: bool
  cv_overall_ok :: bool
  cv_kernel_transcript_preview_row_count :: u32
  cv_transcript_preview_ok :: bool
  cv_transcript_preview_body_ok :: bool
  cv_summary :: "diff list option"

definition has_coverage_subject :: "thread_replay_projection \<Rightarrow> bool" where
  "has_coverage_subject p \<longleftrightarrow>
     (let s = tj_message_stats p in
      (ms_model_message s > 0 \<or> tj_message_timeline p \<noteq> []) \<or>
      (ms_steer_injection s > 0 \<or> ms_scratchpad_summary s > 0 \<or> ms_scratchpad_reminder s > 0 \<or>
       ms_step_limit_continuation s > 0 \<or> ms_loop_guard_continuation s > 0) \<or>
      artifact_count (tj_compaction_index p) > 0)"

definition option_check :: "('a \<Rightarrow> diff list option) \<Rightarrow> 'a option \<Rightarrow> diff list option" where
  "option_check check x = (case x of None \<Rightarrow> None | Some y \<Rightarrow> check y)"

definition preview_body_check ::
  "message list option \<Rightarrow> turn_log list option \<Rightarrow> diff list option" where
  "preview_body_check messages turns =
     (case (messages, turns) of
        (Some ms, Some ts) \<Rightarrow> verify_session_transcript_preview_bodies ms ts
      | _ \<Rightarrow> None)"

definition build_session_message_timeline_coverage ::
  "nat \<Rightarrow> thread_replay_projection \<Rightarrow> session_message_role_index option \<Rightarrow>
   session_compaction_artifact_entry list option \<Rightarrow> message list option \<Rightarrow>
   turn_log list option \<Rightarrow> session_message_timeline_coverage option" where
  "build_session_message_timeline_coverage n p roles session_compaction messages turns =
     (if \<not> has_coverage_subject p then None
      else
        let stats = tj_message_stats p; timeline = tj_message_timeline p;
            plane = tj_message_plane_index p; compaction = tj_compaction_index p;
            role_estimate = replay_kernel_message_role_estimate stats;
            memory_estimate = replay_kernel_memory_plane_user_estimate stats;
            coherence = verify_message_timeline_coherence stats timeline;
            coverage = build_session_message_coverage n stats;
            coverage_ok = (case coverage of Some c \<Rightarrow> sc_coverage_ok c | None \<Rightarrow> True);
            vs_session = verify_message_timeline_vs_session n timeline;
            vs_requests = verify_timeline_vs_request_count stats timeline;
            depth = verify_session_message_plane_depth n plane;
            role_check = option_check (\<lambda>i. verify_session_role_index i role_estimate) roles;
            user_check =
              option_check (\<lambda>i. verify_session_memory_plane_user_depth i memory_estimate) roles;
            compaction_depth = verify_session_compaction_depth n compaction plane;
            artifacts = option_check
              (verify_compaction_artifacts_vs_kernel_timeline (tj_compaction_timeline p))
              session_compaction;
            preview = verify_session_transcript_preview_count n (tj_transcript_preview_index p);
            bodies = preview_body_check messages turns;
            overall = (coherence = None \<and> coverage_ok \<and> vs_session = None \<and>
              vs_requests = None \<and> depth = None \<and> role_check = None \<and> user_check = None \<and>
              compaction_depth = None \<and> artifacts = None \<and> continuation_anchor_ok p \<and>
              request_approval_anchor_ok p \<and> notify_lsp_anchor_ok p \<and>
              memory_plane_replay_anchor_ok p \<and> compaction_replay_anchor_ok p \<and>
              preview = None \<and> bodies = None);
            summaries =
              append_report coherence @
              append_report (case coverage of Some c \<Rightarrow> sc_summary c | None \<Rightarrow> None) @
              append_report vs_session @ append_report vs_requests @ append_report depth @
              append_report compaction_depth @ append_report role_check @
              append_report user_check @ append_report artifacts @
              append_report (tj_continuation_anchor_summary p) @
              append_report (tj_request_approval_anchor_summary p) @
              append_report (tj_notify_lsp_anchor_summary p) @
              append_report (tj_memory_plane_replay_anchor_summary p) @
              append_report (tj_compaction_replay_anchor_summary p) @
              append_report preview @ append_report bodies
        in Some
          \<lparr>cv_session_message_count = n,
           cv_kernel_model_message_count = ms_model_message stats,
           cv_timeline_anchor_count = length timeline,
           cv_model_request_count = ms_model_request stats,
           cv_estimated_min_session_messages = mp_estimated_min plane,
           cv_coherence_ok = (coherence = None), cv_coverage_ok = coverage_ok,
           cv_timeline_vs_session_ok = (vs_session = None),
           cv_timeline_vs_requests_ok = (vs_requests = None),
           cv_plane_depth_ok = (depth = None), cv_role_index_ok = (role_check = None),
           cv_memory_plane_user_ok = (user_check = None),
           cv_session_assistant_count = map_option ri_assistant roles,
           cv_session_tool_result_count = map_option ri_tool_result roles,
           cv_session_text_user_count = map_option ri_text_user roles,
           cv_kernel_min_assistant_messages = re_assistant role_estimate,
           cv_kernel_min_tool_result_messages = re_tool_result role_estimate,
           cv_kernel_min_memory_injected_user_messages = me_injected memory_estimate,
           cv_compaction_depth_ok = (compaction_depth = None),
           cv_compaction_messages_removed_estimate = messages_removed_estimate compaction,
           cv_compaction_restored_session_estimate =
             of_nat n + messages_removed_estimate compaction,
           cv_compaction_peak_session_depth_hint = peak_session_depth_hint compaction,
           cv_compaction_artifact_ok = (artifacts = None),
           cv_session_compaction_artifact_count =
             map_option (\<lambda>s. of_nat (length s)) session_compaction,
           cv_continuation_anchor_ok = continuation_anchor_ok p,
           cv_request_approval_anchor_ok = request_approval_anchor_ok p,
           cv_notify_lsp_anchor_ok = notify_lsp_anchor_ok p,
           cv_memory_plane_replay_anchor_ok = memory_plane_replay_anchor_ok p,
           cv_compaction_replay_anchor_ok = compaction_replay_anchor_ok p,
           cv_overall_ok = overall,
           cv_kernel_transcript_preview_row_count =
             preview_row_count (tj_transcript_preview_index p),
           cv_transcript_preview_ok = (preview = None),
           cv_transcript_preview_body_ok = (bodies = None),
           cv_summary = report summaries\<rparr>)"

section \<open>Resume\<close>

record kernel_resume_hints =
  kh_latest_turn_id :: "string option"
  kh_step_idx :: u32
  kh_max_steps :: u32
  kh_scratchpad_summary_injected :: bool
  kh_active_tool_count :: u32
  kh_kernel_model_message_count :: u32
  kh_kernel_model_request_count :: u32
  kh_kernel_estimated_min_session_messages :: u32
  kh_thread_turn_ids_with_events :: "string list"
  kh_expected_anchor_effect_count :: u32
  kh_kernel_transcript_preview_row_count :: u32
  kh_kernel_transcript_preview_body_count :: u32
  kh_runtime_thread_id :: "string option"
  kh_step_limit_continuations :: u32
  kh_loop_guard_continuations :: u32
  kh_cycle_handoff_attempts :: u32
  kh_in_turn_cycle_advances :: u32

definition kernel_resume_hints_from_projection ::
  "turn_kernel_projection \<Rightarrow> kernel_resume_hints" where
  "kernel_resume_hints_from_projection p =
     \<lparr>kh_latest_turn_id = (if pj_turn_id p = [] then None else Some (pj_turn_id p)),
      kh_step_idx = pj_step_idx p, kh_max_steps = pj_max_steps p,
      kh_scratchpad_summary_injected = pj_scratchpad_summary_injected p,
      kh_active_tool_count = of_nat (card (pj_active_tool_names p)),
      kh_kernel_model_message_count = 0, kh_kernel_model_request_count = 0,
      kh_kernel_estimated_min_session_messages = 0, kh_thread_turn_ids_with_events = [],
      kh_expected_anchor_effect_count = 0, kh_kernel_transcript_preview_row_count = 0,
      kh_kernel_transcript_preview_body_count = 0, kh_runtime_thread_id = None,
      kh_step_limit_continuations = pj_step_limit_continuations p,
      kh_loop_guard_continuations = pj_loop_guard_continuations p,
      kh_cycle_handoff_attempts = pj_cycle_handoff_attempts p,
      kh_in_turn_cycle_advances = pj_in_turn_cycle_advances p\<rparr>"

definition kernel_resume_hints_from_thread_projection ::
  "thread_replay_projection \<Rightarrow> kernel_resume_hints" where
  "kernel_resume_hints_from_thread_projection p =
     (kernel_resume_hints_from_projection (tj_latest_projection p))\<lparr>
       kh_kernel_model_message_count := ms_model_message (tj_message_stats p),
       kh_kernel_model_request_count := ms_model_request (tj_message_stats p),
       kh_kernel_estimated_min_session_messages :=
         mp_estimated_min (tj_message_plane_index p),
       kh_thread_turn_ids_with_events :=
         map su_turn_id (filter (\<lambda>t. su_event_count t > 0) (rr_turns (tj_report p))),
       kh_expected_anchor_effect_count := anchor_effect_total (tj_effect_counts p),
       kh_kernel_transcript_preview_row_count :=
         preview_row_count (tj_transcript_preview_index p),
       kh_kernel_transcript_preview_body_count :=
         preview_body_event_count (tj_transcript_preview_index p)\<rparr>"

text \<open>\<open>kernel_resume_parity_policy.rs\<close>\<close>

record resume_log_session_parity_expectation =
  rx_session_message_count :: nat
  rx_role_index :: "session_message_role_index option"

record resume_projection_counter_expectation =
  cx_step_limit :: u32
  cx_loop_guard :: u32
  cx_cycle_handoff :: u32
  cx_in_turn_advances :: u32

definition verify_thread_resume_projection_counter_parity ::
  "externals \<Rightarrow> string \<Rightarrow> turn_log list \<Rightarrow> resume_projection_counter_expectation \<Rightarrow>
   diff list option" where
  "verify_thread_resume_projection_counter_parity ext thread_id turns expect =
     (let projection = replay_thread_projection ext thread_id turns;
          p = tj_latest_projection projection;
          hints = kernel_resume_hints_from_thread_projection projection;
          diff = (\<lambda>template got want. push_if (got \<noteq> want)
            (Fmt template [ArgU32 got, ArgU32 want]))
      in report
        (diff ''step_limit_continuations hints={} expect={}''
           (kh_step_limit_continuations hints) (cx_step_limit expect) @
         diff ''loop_guard_continuations hints={} expect={}''
           (kh_loop_guard_continuations hints) (cx_loop_guard expect) @
         diff ''cycle_handoff_attempts hints={} expect={}''
           (kh_cycle_handoff_attempts hints) (cx_cycle_handoff expect) @
         diff ''in_turn_cycle_advances hints={} expect={}''
           (kh_in_turn_cycle_advances hints) (cx_in_turn_advances expect) @
         diff ''step_limit_continuations proj={} expect={}''
           (pj_step_limit_continuations p) (cx_step_limit expect) @
         diff ''loop_guard_continuations proj={} expect={}''
           (pj_loop_guard_continuations p) (cx_loop_guard expect) @
         diff ''cycle_handoff_attempts proj={} expect={}''
           (pj_cycle_handoff_attempts p) (cx_cycle_handoff expect) @
         diff ''in_turn_cycle_advances proj={} expect={}''
           (pj_in_turn_cycle_advances p) (cx_in_turn_advances expect)))"

definition verify_turn_log_live_projection_parity ::
  "externals \<Rightarrow> kernel_event list \<Rightarrow> live_turn_snapshot \<Rightarrow> diff list option" where
  "verify_turn_log_live_projection_parity ext events live =
     compare_projection_to_live live (from_events ext events)"

definition verify_thread_resume_log_session_parity ::
  "externals \<Rightarrow> string \<Rightarrow> turn_log list \<Rightarrow> resume_log_session_parity_expectation \<Rightarrow>
   message list option \<Rightarrow> diff list option" where
  "verify_thread_resume_log_session_parity ext thread_id turns expect messages =
     (let p = replay_thread_projection ext thread_id turns in
      if \<not> rr_all_coherent (tj_report p) then
        Some [Fmt ''thread replay incoherent: {}/{} turns coherent''
          [ArgUsize (rr_turns_coherent (tj_report p)),
           ArgUsize (rr_turns_with_events (tj_report p))]]
      else
        let hints = kernel_resume_hints_from_thread_projection p in
        case verify_resume_anchor_effect_alignment (kh_expected_anchor_effect_count hints)
               (ucast (anchor_effect_total (tj_effect_counts p))) of
          Some s \<Rightarrow> Some s
        | None \<Rightarrow>
            (case build_session_message_timeline_coverage (rx_session_message_count expect) p
                    (rx_role_index expect) None messages (Some turns) of
               None \<Rightarrow> None
             | Some c \<Rightarrow>
                 if \<not> cv_overall_ok c then
                   (case cv_summary c of
                      Some s \<Rightarrow> Some s
                    | None \<Rightarrow> Some [Fmt ''resume log/session parity: message timeline coverage failed'' []])
                 else None))"

section \<open>Counters of a thread\<close>

lemma fold_count_stat:
  "ms_model_request (foldl count_stat s es) = ms_model_request s + count_u32 is_ModelRequestIssued es"
  "ms_model_message (foldl count_stat s es) = ms_model_message s + count_u32 is_ModelMessage es"
  "ms_tool_call_planned (foldl count_stat s es) =
     ms_tool_call_planned s + count_u32 is_ToolCallPlanned es"
  "ms_steer_injection (foldl count_stat s es) = ms_steer_injection s + count_u32 is_SteerInjected es"
  "ms_layered_context_seam (foldl count_stat s es) =
     ms_layered_context_seam s + count_u32 is_LayeredContextSeamInjected es"
proof (induction es arbitrary: s)
  case (Cons e es)
  { case 1 then show ?case by (cases e) (simp_all add: Cons add.assoc)
  next case 2 then show ?case by (cases e) (simp_all add: Cons add.assoc)
  next case 3 then show ?case by (cases e) (simp_all add: Cons add.assoc)
  next case 4 then show ?case by (cases e) (simp_all add: Cons add.assoc)
  next case 5 then show ?case by (cases e) (simp_all add: Cons add.assoc) }
qed simp_all

lemma count_turn_stats_fields:
  "ms_model_request (count_turn_stats s t) =
     ms_model_request s + count_u32 is_ModelRequestIssued (snd t)"
  "ms_model_message (count_turn_stats s t) = ms_model_message s + count_u32 is_ModelMessage (snd t)"
  "ms_tool_call_planned (count_turn_stats s t) =
     ms_tool_call_planned s + count_u32 is_ToolCallPlanned (snd t)"
  "ms_layered_context_seam (count_turn_stats s t) =
     ms_layered_context_seam s + count_u32 is_LayeredContextSeamInjected (snd t)"
  by (simp_all add: count_turn_stats_def fold_count_stat)

lemma flatten_thread_events_simps [simp]:
  "flatten_thread_events [] = []"
  "flatten_thread_events (t # turns) = snd t @ flatten_thread_events turns"
  by (simp_all add: flatten_thread_events_def)

lemma fold_turn_stats:
  "ms_model_request (foldl count_turn_stats s turns) =
     ms_model_request s + count_u32 is_ModelRequestIssued (flatten_thread_events turns)"
  "ms_model_message (foldl count_turn_stats s turns) =
     ms_model_message s + count_u32 is_ModelMessage (flatten_thread_events turns)"
  "ms_tool_call_planned (foldl count_turn_stats s turns) =
     ms_tool_call_planned s + count_u32 is_ToolCallPlanned (flatten_thread_events turns)"
  "ms_layered_context_seam (foldl count_turn_stats s turns) =
     ms_layered_context_seam s + count_u32 is_LayeredContextSeamInjected (flatten_thread_events turns)"
proof (induction turns arbitrary: s)
  case (Cons t turns)
  { case 1 then show ?case by (simp add: Cons count_turn_stats_fields add.assoc)
  next case 2 then show ?case by (simp add: Cons count_turn_stats_fields add.assoc)
  next case 3 then show ?case by (simp add: Cons count_turn_stats_fields add.assoc)
  next case 4 then show ?case by (simp add: Cons count_turn_stats_fields add.assoc) }
qed simp_all

lemma thread_stats:
  "ms_model_request (replay_thread_message_stats turns) =
     count_u32 is_ModelRequestIssued (flatten_thread_events turns)"
  "ms_model_message (replay_thread_message_stats turns) =
     count_u32 is_ModelMessage (flatten_thread_events turns)"
  "ms_tool_call_planned (replay_thread_message_stats turns) =
     count_u32 is_ToolCallPlanned (flatten_thread_events turns)"
  "ms_layered_context_seam (replay_thread_message_stats turns) =
     count_u32 is_LayeredContextSeamInjected (flatten_thread_events turns)"
  by (simp_all add: replay_thread_message_stats_def fold_turn_stats default_stats_def)

lemma timeline_flat:
  "replay_thread_message_timeline turns =
     List.map_filter timeline_entry (flatten_thread_events turns)"
  by (induction turns)
     (auto simp: replay_thread_message_timeline_def List.map_filter_def)

lemma timeline_entry_iff: "(\<exists>y. timeline_entry e = Some y) \<longleftrightarrow> is_ModelMessage e"
  by (cases e) simp_all

lemma message_timeline_length:
  "length (replay_thread_message_timeline turns) =
     count_if is_ModelMessage (flatten_thread_events turns)"
  by (simp add: timeline_flat List.map_filter_def count_if_def timeline_entry_iff)

fun empty_message :: "kernel_event \<Rightarrow> bool" where
  "empty_message (ModelMessage _ _ _ blocks _ _) = (blocks = 0)"
| "empty_message _ = False"

lemma empty_block_entry_iff:
  "empty_block_entry (List.map_filter timeline_entry es) = None \<longleftrightarrow>
     (\<forall>e \<in> set es. \<not> empty_message e)"
proof (induction es)
  case (Cons e es)
  then show ?case by (cases e) (simp_all add: List.map_filter_def)
qed (simp add: List.map_filter_def)

lemma timeline_coherent_iff:
  "verify_message_timeline_coherence (replay_thread_message_stats turns)
     (replay_thread_message_timeline turns) = None \<longleftrightarrow>
   (\<forall>e \<in> set (flatten_thread_events turns). \<not> empty_message e)"
  by (simp add: verify_message_timeline_coherence_def message_timeline_length thread_stats count_u32_def
      empty_block_entry_iff flip: timeline_flat) (simp add: timeline_flat empty_block_entry_iff)

lemma coverage_summary_iff:
  "build_session_message_coverage n s = Some c \<Longrightarrow> sc_coverage_ok c \<longleftrightarrow> sc_summary c = None"
  by (auto simp: build_session_message_coverage_def Let_def split: if_splits)

definition coverage_check_ok :: "nat \<Rightarrow> thread_message_replay_stats \<Rightarrow> bool" where
  "coverage_check_ok n s \<longleftrightarrow> ms_model_message s = 0 \<or> unat (ms_model_message s) \<le> n"

lemma coverage_check_iff:
  "(case build_session_message_coverage n s of Some c \<Rightarrow> sc_coverage_ok c | None \<Rightarrow> True) \<longleftrightarrow>
     coverage_check_ok n s"
  "append_report (case build_session_message_coverage n s of Some c \<Rightarrow> sc_summary c | None \<Rightarrow> None)
     = [] \<longleftrightarrow> coverage_check_ok n s"
  by (auto simp: build_session_message_coverage_def coverage_check_ok_def Let_def)

section \<open>The latest turn\<close>

lemma latest_turn_snoc:
  "es \<noteq> [] \<Longrightarrow> latest_turn ext (turns @ [(tid, es)]) = (Some tid, from_events ext es)"
  by (simp add: latest_turn_def)

lemma projection_fields:
  fixes ext :: externals and tid :: string and turns :: "turn_log list"
  defines "p \<equiv> replay_thread_projection ext tid turns"
  shows "tj_report p = build_thread_replay_report ext tid turns"
    and "tj_latest_turn_id p = fst (latest_turn ext turns)"
    and "tj_latest_projection p = snd (latest_turn ext turns)"
    and "tj_message_stats p = replay_thread_message_stats turns"
    and "tj_message_timeline p = replay_thread_message_timeline turns"
    and "tj_message_plane_index p =
      replay_thread_message_plane_index (replay_thread_message_stats turns)"
    and "tj_transcript_preview_index p = replay_thread_transcript_preview_index turns"
    and "tj_compaction_timeline p = replay_thread_compaction_timeline turns"
    and "tj_compaction_index p =
      replay_thread_compaction_index (replay_thread_compaction_timeline turns)"
    and "tj_effect_counts p = replay_thread_effect_counts ext turns"
    and "continuation_anchor_ok p" and "request_approval_anchor_ok p"
    and "notify_lsp_anchor_ok p" and "memory_plane_replay_anchor_ok p"
    and "compaction_replay_anchor_ok p"
  using thread_anchor_checks_pass [of ext turns]
  by (simp_all add: p_def replay_thread_projection_def Let_def case_prod_beta
      continuation_anchor_ok_def request_approval_anchor_ok_def notify_lsp_anchor_ok_def
      memory_plane_replay_anchor_ok_def compaction_replay_anchor_ok_def)

definition resumed_hints ::
  "externals \<Rightarrow> string \<Rightarrow> turn_log list \<Rightarrow> kernel_resume_hints" where
  "resumed_hints ext tid turns =
     kernel_resume_hints_from_thread_projection (replay_thread_projection ext tid turns)"

lemma resumed_counters:
  "kh_step_limit_continuations (resumed_hints ext tid turns) =
     pj_step_limit_continuations (snd (latest_turn ext turns))"
  "kh_loop_guard_continuations (resumed_hints ext tid turns) =
     pj_loop_guard_continuations (snd (latest_turn ext turns))"
  "kh_cycle_handoff_attempts (resumed_hints ext tid turns) =
     pj_cycle_handoff_attempts (snd (latest_turn ext turns))"
  "kh_in_turn_cycle_advances (resumed_hints ext tid turns) =
     pj_in_turn_cycle_advances (snd (latest_turn ext turns))"
  "kh_max_steps (resumed_hints ext tid turns) = pj_max_steps (snd (latest_turn ext turns))"
  by (simp_all add: resumed_hints_def kernel_resume_hints_from_thread_projection_def
      kernel_resume_hints_from_projection_def projection_fields)

section \<open>What the coverage report accepts\<close>

lemma report_proper [simp]: "report ds \<noteq> Some []"
  by (simp add: report_def)

lemma append_report_Nil: "r \<noteq> Some [] \<Longrightarrow> append_report r = [] \<longleftrightarrow> r = None"
  by (cases r) simp_all

lemma option_check_proper: "(\<And>x. check x \<noteq> Some []) \<Longrightarrow> option_check check r \<noteq> Some []"
  by (cases r) (simp_all add: option_check_def)

lemma empty_block_entry_proper: "empty_block_entry timeline \<noteq> Some []"
  by (induction timeline) simp_all

lemma compare_preview_rows_proper: "compare_preview_rows i es ms \<noteq> Some []"
  by (induction i es ms rule: compare_preview_rows.induct) (auto split: option.split)

lemma checks_proper:
  "verify_message_timeline_coherence s timeline \<noteq> Some []"
  "verify_message_timeline_vs_session n timeline \<noteq> Some []"
  "verify_timeline_vs_request_count s timeline \<noteq> Some []"
  "verify_session_message_plane_depth n plane \<noteq> Some []"
  "verify_session_compaction_depth n compaction plane \<noteq> Some []"
  "verify_session_role_index i roles \<noteq> Some []"
  "verify_session_memory_plane_user_depth i users \<noteq> Some []"
  "verify_compaction_artifacts_vs_kernel_timeline kern session \<noteq> Some []"
  "verify_session_transcript_preview_count n index \<noteq> Some []"
  "preview_body_check messages logs \<noteq> Some []"
  using empty_block_entry_proper compare_preview_rows_proper
  by (auto simp: verify_message_timeline_coherence_def verify_message_timeline_vs_session_def
      verify_timeline_vs_request_count_def verify_session_message_plane_depth_def
      verify_session_compaction_depth_def verify_session_role_index_def
      verify_session_memory_plane_user_depth_def verify_compaction_artifacts_vs_kernel_timeline_def
      verify_session_transcript_preview_count_def preview_body_check_def
      verify_session_transcript_preview_bodies_def Let_def split: option.splits)

definition estimated_rows :: "turn_log list \<Rightarrow> u32" where
  "estimated_rows turns =
     (let es = flatten_thread_events turns
      in sat_add (sat_add (count_u32 is_ModelMessage es) (count_u32 is_ToolCallPlanned es))
           (count_u32 is_LayeredContextSeamInjected es))"

definition coverage_conditions ::
  "nat \<Rightarrow> turn_log list \<Rightarrow> session_message_role_index option \<Rightarrow>
   session_compaction_artifact_entry list option \<Rightarrow> message list option \<Rightarrow>
   turn_log list option \<Rightarrow> bool" where
  "coverage_conditions n turns roles artifacts messages logs \<longleftrightarrow>
     (let es = flatten_thread_events turns; s = replay_thread_message_stats turns;
          compactions = replay_thread_compaction_timeline turns
      in (\<forall>e \<in> set es. \<not> empty_message e) \<and>
         count_u32 is_ModelMessage es \<le> count_u32 is_ModelRequestIssued es \<and>
         count_if is_ModelMessage es \<le> n \<and> unat (estimated_rows turns) \<le> n \<and>
         option_check (\<lambda>i. verify_session_role_index i
           (replay_kernel_message_role_estimate s)) roles = None \<and>
         option_check (\<lambda>i. verify_session_memory_plane_user_depth i
           (replay_kernel_memory_plane_user_estimate s)) roles = None \<and>
         verify_session_compaction_depth n (replay_thread_compaction_index compactions)
           (replay_thread_message_plane_index s) = None \<and>
         option_check (verify_compaction_artifacts_vs_kernel_timeline compactions) artifacts
           = None \<and>
         verify_session_transcript_preview_count n
           (replay_thread_transcript_preview_index turns) = None \<and>
         preview_body_check messages logs = None)"

lemma coverage_parts:
  "verify_message_timeline_vs_session n (replay_thread_message_timeline turns) = None \<longleftrightarrow>
     count_if is_ModelMessage (flatten_thread_events turns) \<le> n"
  "verify_timeline_vs_request_count (replay_thread_message_stats turns)
     (replay_thread_message_timeline turns) = None \<longleftrightarrow>
     count_u32 is_ModelMessage (flatten_thread_events turns)
       \<le> count_u32 is_ModelRequestIssued (flatten_thread_events turns)"
  "verify_session_message_plane_depth n (replay_thread_message_plane_index
     (replay_thread_message_stats turns)) = None \<longleftrightarrow> unat (estimated_rows turns) \<le> n"
  "count_if is_ModelMessage (flatten_thread_events turns) \<le> n \<Longrightarrow>
     coverage_check_ok n (replay_thread_message_stats turns)"
  using message_timeline_length [of turns]
  by (auto simp: verify_message_timeline_vs_session_def verify_timeline_vs_request_count_def
      verify_session_message_plane_depth_def replay_thread_message_plane_index_def Let_def
      thread_stats estimated_rows_def coverage_check_ok_def count_u32_def not_less
      intro: order_trans [OF count_u32_le [unfolded count_u32_def]])

lemma coverage_overall:
  assumes "build_session_message_timeline_coverage n (replay_thread_projection ext tid turns)
      roles artifacts messages logs = Some c"
  shows "cv_overall_ok c \<longleftrightarrow> coverage_conditions n turns roles artifacts messages logs"
  using assms
  unfolding build_session_message_timeline_coverage_def coverage_conditions_def Let_def
  by (auto simp: projection_fields timeline_coherent_iff coverage_check_iff coverage_parts(1-3)
      intro: coverage_parts(4) split: if_splits)

lemma coverage_summary:
  assumes "build_session_message_timeline_coverage n (replay_thread_projection ext tid turns)
      roles artifacts messages logs = Some c"
  shows "cv_overall_ok c \<longleftrightarrow> cv_summary c = None"
  using assms projection_fields(11-15) [of ext tid turns]
  unfolding build_session_message_timeline_coverage_def Let_def
  by (auto simp: coverage_check_iff append_report_Nil checks_proper option_check_proper
      continuation_anchor_ok_def request_approval_anchor_ok_def notify_lsp_anchor_ok_def
      memory_plane_replay_anchor_ok_def compaction_replay_anchor_ok_def split: if_splits)

section \<open>Properties\<close>

text \<open>The coverage report of a thread: its sixteen checks come down to nine. When there is
  something to check, the report is in order exactly when no logged message is empty, messages
  do not outnumber requests, the session has at least the rows the log implies, its roles can
  host them, the compaction and preview checks pass; and the overall flag is set exactly when
  the report carries no summary.\<close>

theorem coverage_report_iff:
  assumes "build_session_message_timeline_coverage n (replay_thread_projection ext tid turns)
      roles artifacts messages logs = Some c"
  shows "(cv_overall_ok c \<longleftrightarrow> cv_summary c = None) \<and>
    (cv_overall_ok c \<longleftrightarrow> coverage_conditions n turns roles artifacts messages logs)"
  using coverage_overall [OF assms] coverage_summary [OF assms] by simp

definition sample_thread :: "turn_log list" where
  "sample_thread = [(''t1'', [sample_request 0, ModelMessage ''t1'' 0 default_usage 1 [] []])]"

theorem coverage_report_iff_witness:
  "\<exists>c. build_session_message_timeline_coverage 1
     (replay_thread_projection quiet_externals ''thread'' sample_thread) None None None None = Some c \<and>
     cv_overall_ok c \<and> cv_summary c = None"
proof -
  have "has_coverage_subject (replay_thread_projection quiet_externals ''thread'' sample_thread)"
    by (simp add: has_coverage_subject_def projection_fields Let_def thread_stats sample_thread_def
        sample_request_def)
  then obtain c where c: "build_session_message_timeline_coverage 1
      (replay_thread_projection quiet_externals ''thread'' sample_thread) None None None None = Some c"
    by (simp add: build_session_message_timeline_coverage_def Let_def)
  have "coverage_conditions 1 sample_thread None None None None"
    by (simp add: coverage_conditions_def Let_def sample_thread_def sample_request_def
        estimated_rows_def option_check_def preview_body_check_def sat_add_def
        verify_session_compaction_depth_def replay_thread_compaction_index_def
        replay_thread_compaction_timeline_def List.map_filter_def
        verify_session_transcript_preview_count_def replay_thread_transcript_preview_index_def
        index_from_events_def count_preview_body_events_def)
  with coverage_report_iff [OF c] c show ?thesis by blast
qed

definition latest_log :: "turn_log list \<Rightarrow> kernel_event list" where
  "latest_log turns = (case List.find (\<lambda>(_, es). es \<noteq> []) (rev turns) of
     Some (_, es) \<Rightarrow> es | None \<Rightarrow> [])"

lemma latest_projection: "snd (latest_turn ext turns) = from_events ext (latest_log turns)"
  by (auto simp: latest_turn_def latest_log_def from_events_def split: option.split)

text \<open>The counter half of the resume gate passes exactly when the expected counters are the
  numbers of continuation, hand-off and advance events in the last turn of the thread that has
  events (all zero when none has).\<close>

theorem resume_counters_iff:
  "verify_thread_resume_projection_counter_parity ext tid turns expect = None \<longleftrightarrow>
     (let es = latest_log turns in
        cx_step_limit expect = count_u32 is_StepLimitContinuation es \<and>
        cx_loop_guard expect = count_u32 is_LoopGuardContinuation es \<and>
        cx_cycle_handoff expect = count_u32 is_cycle_handoff_event es \<and>
        cx_in_turn_advances expect = count_u32 is_CycleAdvanced es)"
  using resumed_counters [of ext tid turns, unfolded resumed_hints_def latest_projection]
  by (auto simp: verify_thread_resume_projection_counter_parity_def Let_def projection_fields
      latest_projection step_limits.get_from_events guard_continuations.get_from_events
      cycle_handoffs.get_from_events cycle_advances.get_from_events)

text \<open>The resume gate of a thread: it passes exactly when some turn has events, every such
  turn passes the replay gate, and the coverage report, when there is one, is in order. The
  alignment of the anchor counts, which compares the thread's count with itself, never fails.\<close>

theorem resume_parity_iff:
  "verify_thread_resume_log_session_parity ext tid turns expect messages = None \<longleftrightarrow>
     rr_all_coherent (build_thread_replay_report ext tid turns) \<and>
     (\<forall>c. build_session_message_timeline_coverage (rx_session_message_count expect)
        (replay_thread_projection ext tid turns) (rx_role_index expect) None messages
        (Some turns) = Some c \<longrightarrow> cv_overall_ok c)"
  by (auto simp: verify_thread_resume_log_session_parity_def Let_def projection_fields
      verify_resume_anchor_effect_alignment_def kernel_resume_hints_from_thread_projection_def
      split: option.splits)

text \<open>A finished turn without messages passes the gate: there is nothing to compare.\<close>

theorem resume_parity_iff_witness:
  "verify_thread_resume_log_session_parity quiet_externals ''th''
     [(''t1'', [TurnStarted ''t1'' Agent ''go'' 3, TurnEnded ''t1'' Completed 0])] 
     \<lparr>rx_session_message_count = 1, rx_role_index = None\<rparr> None
     = None"
proof -
  let ?es = "[TurnStarted ''t1'' Agent ''go'' 3, TurnEnded ''t1'' Completed 0]"
  have "pj_mode (from_events quiet_externals ?es) = Some Agent" by (rule projected_start(2) [OF refl]) simp
  then have "verify_turn_replay_coherence quiet_externals ?es None = None"
    by (simp add: turn_coherence_iff boundary_event_caps_iff is_plan_def
        verify_loop_guard_replay_coherence_def count_loop_guard_triggered_def
        verify_capacity_checkpoint_field_coherence_def
        verify_memory_plane_query_replay_coherence_def count_memory_plane_queried_events_def
        verify_system_prompt_refresh_replay_coherence_def count_refresh_query_cycles_def)
  then have "rr_all_coherent (build_thread_replay_report quiet_externals ''th'' [(''t1'', ?es)])"
    by (simp add: build_thread_replay_report_def thread_turn_summary_def Let_def)
  moreover have "\<not> has_coverage_subject (replay_thread_projection quiet_externals ''th'' [(''t1'', ?es)])"
    by (simp add: has_coverage_subject_def projection_fields Let_def replay_thread_message_stats_def
        count_turn_stats_def default_stats_def timeline_flat List.map_filter_def
        replay_thread_compaction_index_def replay_thread_compaction_timeline_def)
  ultimately show ?thesis
    unfolding resume_parity_iff by (simp add: build_session_message_timeline_coverage_def)
qed

end
