(* ===== verification/Text_Ops.thy ===== *)
theory Text_Ops
  imports Kernel_Prelude "HOL-Library.Sublist"
begin

text \<open>
  The operations of \<open>str\<close> that the policies of the tool layer use, on byte strings: splitting at
  white space and at a character, joining, replacing, searching, and lower-casing. The laws at
  the end say what the words of a text are; the command policies rest on them.
\<close>

section \<open>Splitting, joining, replacing\<close>

text \<open>\<open>str::split_whitespace\<close>: the maximal runs without a white space character.\<close>

definition leading_white :: "string \<Rightarrow> string option" where
  "leading_white s = List.find (starts_with s) white_space_seqs"

definition flush_word :: "string \<Rightarrow> string list" where
  "flush_word w = (if w = [] then [] else [w])"

function words_from :: "string \<Rightarrow> string \<Rightarrow> string list" where
  "words_from acc [] = flush_word acc"
| "words_from acc (c # cs) =
     (case leading_white (c # cs) of
        Some w \<Rightarrow> flush_word acc @ words_from [] (drop (length w - 1) cs)
      | None \<Rightarrow> words_from (acc @ [c]) cs)"
  by pat_completeness auto
termination by (relation "measure (\<lambda>(_, s). length s)") auto

definition split_whitespace :: "string \<Rightarrow> string list" where
  "split_whitespace s = words_from [] s"

text \<open>\<open>str::split\<close> at a character, \<open>str::lines\<close> without the final empty line, \<open>slice::join\<close>.\<close>

fun split_char :: "char \<Rightarrow> string \<Rightarrow> string list" where
  "split_char d [] = [[]]"
| "split_char d (c # cs) =
     (if c = d then [] # split_char d cs
      else (c # hd (split_char d cs)) # tl (split_char d cs))"

fun join :: "string \<Rightarrow> string list \<Rightarrow> string" where
  "join sep [] = []"
| "join sep [w] = w"
| "join sep (w # v # ws) = w @ sep @ join sep (v # ws)"

text \<open>\<open>str::replace\<close> of a non-empty pattern, left to right without overlaps.\<close>

function replace_all :: "string \<Rightarrow> string \<Rightarrow> string \<Rightarrow> string" where
  "replace_all old new [] = []"
| "replace_all old new (c # cs) =
     (if starts_with (c # cs) old
      then new @ replace_all old new (drop (length old - 1) cs)
      else c # replace_all old new cs)"
  by pat_completeness auto
termination by (relation "measure (\<lambda>(_, _, s). length s)") auto

text \<open>\<open>str::find\<close>: the offset of the first occurrence.\<close>

fun find_str :: "string \<Rightarrow> string \<Rightarrow> nat option" where
  "find_str [] p = (if p = [] then Some 0 else None)"
| "find_str (c # cs) p =
     (if starts_with (c # cs) p then Some 0 else map_option Suc (find_str cs p))"

definition ends_with :: "string \<Rightarrow> string \<Rightarrow> bool" where
  "ends_with s p \<longleftrightarrow> starts_with (rev s) (rev p)"

definition strip_prefix :: "string \<Rightarrow> string \<Rightarrow> string option" where
  "strip_prefix s p = (if starts_with s p then Some (drop (length p) s) else None)"

section \<open>Letter case\<close>

text \<open>
  \<open>str::to_lowercase\<close> is \<open>to_ascii_lowercase\<close> on ASCII texts; on others it applies the Unicode
  tables, which are the parameter \<open>tables\<close>.
\<close>

definition is_ascii :: "string \<Rightarrow> bool" where
  "is_ascii s \<longleftrightarrow> list_all (\<lambda>c. (of_char c :: nat) < 128) s"

definition to_lowercase :: "(string \<Rightarrow> string) \<Rightarrow> string \<Rightarrow> string" where
  "to_lowercase tables s = (if is_ascii s then to_ascii_lowercase s else tables s)"

definition eq_ignore_ascii_case :: "string \<Rightarrow> string \<Rightarrow> bool" where
  "eq_ignore_ascii_case s t \<longleftrightarrow> to_ascii_lowercase s = to_ascii_lowercase t"

definition ascii_upper :: "char \<Rightarrow> bool" where
  "ascii_upper c \<longleftrightarrow> 65 \<le> (of_char c :: nat) \<and> (of_char c :: nat) \<le> 90"

text \<open>What the policies rely on: no lower-case text contains an upper-case ASCII letter.\<close>

definition lowers_ascii :: "(string \<Rightarrow> string) \<Rightarrow> bool" where
  "lowers_ascii tables \<longleftrightarrow> (\<forall>s. \<forall>c \<in> set (tables s). \<not> ascii_upper c)"

lemma ascii_lower_not_upper: "\<not> ascii_upper (ascii_lower_char c)"
  by (auto simp: ascii_upper_def ascii_lower_char_def Let_def of_char_of)

lemma to_lowercase_not_upper:
  "lowers_ascii tables \<Longrightarrow> c \<in> set (to_lowercase tables s) \<Longrightarrow> \<not> ascii_upper c"
  by (auto simp: to_lowercase_def lowers_ascii_def to_ascii_lowercase_def ascii_lower_not_upper
      split: if_splits)

lemma ascii_lower_idem [simp]: "ascii_lower_char (ascii_lower_char c) = ascii_lower_char c"
  using ascii_lower_not_upper [of c]
  by (subst ascii_lower_char_def) (auto simp: ascii_upper_def Let_def)

lemma to_ascii_lowercase_idem [simp]:
  "to_ascii_lowercase (to_ascii_lowercase s) = to_ascii_lowercase s"
  by (simp add: to_ascii_lowercase_def)

lemma to_ascii_lowercase_Nil [simp]: "to_ascii_lowercase s = [] \<longleftrightarrow> s = []"
  by (simp add: to_ascii_lowercase_def)

section \<open>Laws of splitting and joining\<close>

lemma split_char_nonempty [simp]: "split_char d s \<noteq> []"
  by (cases s) auto

lemma split_char_append_sep:
  "split_char d (a @ d # b) = split_char d a @ split_char d b"
  by (induction a) auto

lemma no_sep_in_split: "w \<in> set (split_char d s) \<Longrightarrow> d \<notin> set w"
proof (induction s arbitrary: w)
  case (Cons c s)
  have "hd (split_char d s) \<in> set (split_char d s)" by simp
  with Cons show ?case
    by (auto dest: list.set_sel(2) [OF split_char_nonempty] split: if_splits)
qed simp

lemma join_Cons: "join sep (w # ws) = (if ws = [] then w else w @ sep @ join sep ws)"
  by (cases ws) auto

lemma join_split: "join [d] (split_char d s) = s"
proof (induction s)
  case (Cons c s)
  obtain x xs where x: "split_char d s = x # xs"
    by (cases "split_char d s") auto
  with Cons show ?case by (auto simp: join_Cons)
qed simp

lemma split_join:
  assumes "ws \<noteq> []" and "\<forall>w \<in> set ws. d \<notin> set w"
  shows "split_char d (join [d] ws) = ws"
  using assms
proof (induction ws)
  case (Cons w ws)
  have single: "split_char d w = [w]" if "d \<notin> set w" for w
    using that by (induction w) auto
  show ?case
    using Cons split_char_append_sep [of d w "join [d] ws"]
    by (cases "ws = []") (auto simp: join_Cons single)
qed simp

lemma join_inject:
  assumes "join [d] ws = join [d] vs" and "ws \<noteq> []" and "vs \<noteq> []"
    and "\<forall>w \<in> set ws. d \<notin> set w" and "\<forall>w \<in> set vs. d \<notin> set w"
  shows "ws = vs"
  by (metis assms split_join)

lemma join_prefix:
  assumes "starts_with (join [d] ws) (join [d] vs @ [d])" and "ws \<noteq> []" and "vs \<noteq> []"
    and "\<forall>w \<in> set ws. d \<notin> set w" and "\<forall>w \<in> set vs. d \<notin> set w"
  shows "prefix vs ws"
proof -
  obtain t where t: "join [d] ws = join [d] vs @ d # t"
    using assms(1) by (auto simp: starts_with_iff)
  have "ws = split_char d (join [d] vs @ d # t)"
    using split_join [OF assms(2,4)] t by simp
  also have "\<dots> = vs @ split_char d t"
    by (simp add: split_char_append_sep split_join [OF assms(3,5)])
  finally show ?thesis by simp
qed

text \<open>The words of a text are non-empty and hold no space.\<close>

lemma space_is_white: "[CHR '' ''] \<in> set white_space_seqs"
proof -
  have "CHR '' '' = char_of (32 :: nat)" by (simp add: char_of_def bit_0)
  moreover have "[char_of (32 :: nat)] \<in> set white_space_seqs"
    by (simp only: white_space_seqs_def set_append set_map list.set) blast
  ultimately show ?thesis by metis
qed

lemma leading_white_space: "leading_white (CHR '' '' # cs) \<noteq> None"
proof -
  have "starts_with (CHR '' '' # cs) [CHR '' '']" by (simp add: starts_with_def)
  with space_is_white show ?thesis by (auto simp only: leading_white_def find_None_iff)
qed

lemma words_from_proper:
  assumes "CHR '' '' \<notin> set acc" and "w \<in> set (words_from acc s)"
  shows "w \<noteq> [] \<and> CHR '' '' \<notin> set w"
  using assms
proof (induction acc s rule: words_from.induct)
  case (1 acc)
  then show ?case by (auto simp: flush_word_def split: if_splits)
next
  case (2 acc c cs)
  show ?case
  proof (cases "leading_white (c # cs)")
    case None
    then have "c \<noteq> CHR '' ''" using leading_white_space by metis
    with 2 None show ?thesis by auto
  next
    case (Some v)
    with 2 show ?thesis by (auto simp: flush_word_def split: if_splits)
  qed
qed

lemma split_whitespace_words:
  "w \<in> set (split_whitespace s) \<Longrightarrow> w \<noteq> [] \<and> CHR '' '' \<notin> set w"
  unfolding split_whitespace_def by (rule words_from_proper [of "[]"]) auto

lemma space_not_lowered: "ascii_lower_char c = CHR '' '' \<longleftrightarrow> c = CHR '' ''"
proof
  assume a: "ascii_lower_char c = CHR '' ''"
  show "c = CHR '' ''"
  proof (rule ccontr)
    assume "c \<noteq> CHR '' ''"
    with a have u: "ascii_upper c" and e: "char_of ((of_char c :: nat) + 32) = CHR '' ''"
      by (auto simp: ascii_lower_char_def ascii_upper_def Let_def split: if_splits)
    from e have "of_char (char_of ((of_char c :: nat) + 32) :: char) = (32 :: nat)" by simp
    with u show False by (simp add: ascii_upper_def of_char_of)
  qed
qed (simp add: ascii_lower_char_def)

lemma space_in_lowercase [simp]:
  "CHR '' '' \<in> set (to_ascii_lowercase s) \<longleftrightarrow> CHR '' '' \<in> set s"
proof -
  have "CHR '' '' \<in> ascii_lower_char ` set s \<longleftrightarrow> (\<exists>c \<in> set s. ascii_lower_char c = CHR '' '')"
    by (auto simp: image_iff) (metis)+
  also have "\<dots> \<longleftrightarrow> CHR '' '' \<in> set s" by (simp only: space_not_lowered) blast
  finally show ?thesis by (simp add: to_ascii_lowercase_def)
qed

text \<open>Splitting an ASCII text, one character at a time; for evaluation.\<close>

lemma leading_white_ascii:
  assumes "(of_char c :: nat) < 128"
  shows "leading_white (c # cs) =
    (if of_char c \<in> {9 :: nat, 10, 11, 12, 13, 32} then Some [c] else None)"
proof -
  have bytes: "c = char_of n \<longleftrightarrow> of_char c = n" "char_of n = c \<longleftrightarrow> of_char c = n"
    if "n < 256" for n :: nat
    using that by (metis char_of_char mod_less of_char_of)+
  show ?thesis
    using assms by (auto simp: leading_white_def white_space_seqs_def starts_with_def bytes)
qed

lemmas text_eval = trim_eval bit_0 to_lowercase_def is_ascii_def to_ascii_lowercase_def
  ascii_lower_char_def Let_def

lemmas words_eval = split_whitespace_def leading_white_ascii flush_word_def

section \<open>Words survive joining\<close>

text \<open>A text without white space, and the shape of the white space sequences.\<close>

definition white_free :: "string \<Rightarrow> bool" where
  "white_free w \<longleftrightarrow> (\<forall>v \<in> set white_space_seqs. \<not> str_contains w v)"

lemma white_seqs:
  assumes "v \<in> set white_space_seqs"
  shows "v \<noteq> []" and "CHR '' '' \<in> set v \<Longrightarrow> v = [CHR '' '']"
    and "c \<in> set v \<Longrightarrow> \<not> (97 \<le> (of_char c :: nat) \<and> (of_char c :: nat) \<le> 122)"
proof -
  have "list_all (\<lambda>v. v \<noteq> [] \<and> (CHR '' '' \<in> set v \<longrightarrow> v = [CHR '' '']) \<and>
      list_all (\<lambda>c. \<not> (97 \<le> (of_char c :: nat) \<and> (of_char c :: nat) \<le> 122)) v) white_space_seqs"
    by (simp add: white_space_seqs_def char_of_def bit_0)
  with assms show "v \<noteq> []" "CHR '' '' \<in> set v \<Longrightarrow> v = [CHR '' '']"
    "c \<in> set v \<Longrightarrow> \<not> (97 \<le> (of_char c :: nat) \<and> (of_char c :: nat) \<le> 122)"
    by (auto simp: list_all_iff)
qed

lemma leading_white_None:
  "leading_white s = None \<longleftrightarrow> (\<forall>v \<in> set white_space_seqs. \<not> starts_with s v)"
  by (simp add: leading_white_def find_None_iff) blast

lemma white_free_leading:
  assumes "white_free (a @ x)" and "x \<noteq> []" and "rest = [] \<or> (\<exists>t. rest = CHR '' '' # t)"
  shows "leading_white (x @ rest) = None"
  unfolding leading_white_None
proof (intro ballI notI)
  fix v assume v: "v \<in> set white_space_seqs" and "starts_with (x @ rest) v"
  then obtain t where "x @ rest = v @ t" by (auto simp: starts_with_iff)
  then obtain us where "x = v @ us \<or> v = x @ us \<and> rest = us @ t"
    by (auto simp: append_eq_append_conv2)
  then consider "x = v @ us" | "v = x @ us" "rest = us @ t" "us \<noteq> []"
    by (cases "us = []") auto
  then show False
  proof cases
    case 1
    then have "str_contains (a @ x) v" by (auto simp: str_contains_iff)
    with assms(1) v show False by (simp add: white_free_def)
  next
    case 2
    with assms(3) have "CHR '' '' \<in> set us" by (cases us) auto
    with 2 white_seqs(2) [OF v] assms(2) show False by (cases x) auto
  qed
qed

lemma words_from_run:
  assumes "white_free (a @ w)" and "rest = [] \<or> (\<exists>t. rest = CHR '' '' # t)"
  shows "words_from acc (w @ rest) = words_from (acc @ w) rest"
  using assms
proof (induction w arbitrary: a acc)
  case (Cons c w)
  have "leading_white (c # w @ rest) = None"
    using white_free_leading [of a "c # w"] Cons.prems by simp
  moreover have "white_free ((a @ [c]) @ w)" using Cons.prems by simp
  from Cons.IH [OF this Cons.prems(2)] have "words_from (acc @ [c]) (w @ rest) = words_from (acc @ c # w) rest"
    by simp
  ultimately show ?case by simp
qed simp

lemma split_join_words:
  assumes "\<forall>w \<in> set ws. white_free w \<and> w \<noteq> []"
  shows "split_whitespace (join '' '' ws) = ws"
  using assms
proof (induction ws)
  case Nil
  then show ?case by (simp add: split_whitespace_def flush_word_def)
next
  case (Cons w ws)
  have space: "leading_white (CHR '' '' # t) = Some [CHR '' '']" for t
    by (simp add: leading_white_ascii)
  show ?case
  proof (cases "ws = []")
    case True
    with Cons.prems words_from_run [of "[]" w "[]" "[]"] show ?thesis
      by (simp add: split_whitespace_def flush_word_def)
  next
    case False
    with Cons words_from_run [of "[]" w "CHR '' '' # join '' '' ws" "[]"] show ?thesis
      by (simp add: split_whitespace_def flush_word_def join_Cons space)
  qed
qed

lemma white_in_acc:
  assumes "\<And>x y. acc = x @ y \<Longrightarrow> y \<noteq> [] \<Longrightarrow> leading_white (y @ s) = None" and "w \<in> set (words_from acc s)"
  shows "white_free w"
  using assms
proof (induction acc s rule: words_from.induct)
  case (1 acc)
  have "white_free acc"
    unfolding white_free_def
  proof (intro ballI notI)
    fix v assume v: "v \<in> set white_space_seqs" and "str_contains acc v"
    then obtain x y where "acc = x @ v @ y" by (auto simp: str_contains_iff)
    with 1(1) [of x "v @ y"] v white_seqs(1) [OF v] show False
      by (auto simp: leading_white_None starts_with_iff)
  qed
  with 1(2) show ?case by (auto simp: flush_word_def split: if_splits)
next
  case (2 acc c cs)
  show ?case
  proof (cases "leading_white (c # cs)")
    case None
    have "leading_white (y @ cs) = None" if xy: "acc @ [c] = x @ y" "y \<noteq> []" for x y
    proof -
      obtain y' where y: "y = y' @ [c]" "acc = x @ y'"
        using xy by (cases y rule: rev_cases) auto
      with None 2(3) [of x y'] show ?thesis by (cases "y' = []") auto
    qed
    from 2(1) [OF None this] 2(4) None show ?thesis by simp
  next
    case (Some v)
    have "white_free acc"
      unfolding white_free_def
    proof (intro ballI notI)
      fix v assume v: "v \<in> set white_space_seqs" and "str_contains acc v"
      then obtain x y where "acc = x @ v @ y" by (auto simp: str_contains_iff)
      with 2(3) [of x "v @ y"] v white_seqs(1) [OF v] show False
        by (auto simp: leading_white_None starts_with_iff)
    qed
    with Some 2(2) [OF Some] 2(4) show ?thesis by (auto simp: flush_word_def split: if_splits)
  qed
qed

lemma words_white_free: "w \<in> set (split_whitespace s) \<Longrightarrow> white_free w"
  unfolding split_whitespace_def by (rule white_in_acc [of "[]" s]) auto

lemma trim_join_words:
  assumes "\<forall>w \<in> set ws. white_free w \<and> w \<noteq> []"
  shows "trim (join '' '' ws) = join '' '' ws"
proof (rule trim_fixed)
  let ?s = "join '' '' ws"
  have head: "ws = [] \<or> (\<exists>w rest. ?s = w @ rest \<and> white_free w \<and> w \<noteq> [] \<and>
      (rest = [] \<or> (\<exists>t. rest = CHR '' '' # t)))"
    using assms by (cases ws) (auto simp: join_Cons)
  then have "ws = [] \<or> leading_white ?s = None"
    using white_free_leading [of "[]"] by fastforce
  then show "list_all (\<lambda>v. \<not> starts_with ?s v) white_space_seqs"
    using white_seqs(1) by (auto simp: leading_white_None list_all_iff starts_with_def) blast
  have tail: "ws = [] \<or> (\<exists>w rest. ?s = rest @ w \<and> white_free w \<and> w \<noteq> [] \<and>
      (rest = [] \<or> (\<exists>t. rest = t @ [CHR '' ''])))"
    using assms
  proof (induction ws)
    case (Cons w ws)
    show ?case
    proof (cases "ws = []")
      case True
      with Cons.prems show ?thesis by auto
    next
      case False
      with Cons obtain v rest where v: "join '' '' ws = rest @ v" "white_free v" "v \<noteq> []"
          "rest = [] \<or> (\<exists>t. rest = t @ [CHR '' ''])"
        by auto
      with False have "join '' '' (w # ws) = (w @ '' '' @ rest) @ v" by (simp add: join_Cons)
      moreover have "\<exists>t. w @ '' '' @ rest = t @ [CHR '' '']" using v(4) by auto
      ultimately show ?thesis using v(2,3) by blast
    qed
  qed simp
  show "list_all (\<lambda>v. \<not> starts_with (rev ?s) (rev v)) white_space_seqs"
    unfolding list_all_iff
  proof (intro ballI notI)
    fix v assume v: "v \<in> set white_space_seqs" and "starts_with (rev ?s) (rev v)"
    then obtain t where t: "?s = t @ v"
      by (metis rev_append rev_rev_ident starts_with_iff)
    have "ws \<noteq> []" using t white_seqs(1) [OF v] by auto
    then obtain w rest where w: "?s = rest @ w" "white_free w" "w \<noteq> []"
        "rest = [] \<or> (\<exists>t. rest = t @ [CHR '' ''])"
      using tail by blast
    from t w(1) obtain us where "w = us @ v \<or> v = us @ w \<and> rest = t @ us"
      by (auto simp: append_eq_append_conv2)
    then consider "w = us @ v" | "v = us @ w" "rest = t @ us" "us \<noteq> []"
      by (cases "us = []") auto
    then show False
    proof cases
      case 1
      then have "str_contains w v" by (metis append_Nil2 str_contains_iff)
      with w(2) v show False by (simp add: white_free_def)
    next
      case 2
      with w(4) have "CHR '' '' \<in> set us" by (cases us rule: rev_cases) auto
      with 2 white_seqs(2) [OF v] w(3) show False by (cases us) auto
    qed
  qed
qed

lemma white_free_lowercase:
  assumes "white_free w"
  shows "white_free (to_ascii_lowercase w)"
  unfolding white_free_def
proof (intro ballI notI)
  fix v assume v: "v \<in> set white_space_seqs" and "str_contains (to_ascii_lowercase w) v"
  then obtain a b where eq: "map ascii_lower_char w = a @ v @ b"
    by (auto simp: str_contains_iff to_ascii_lowercase_def)
  define x where "x = take (length v) (drop (length a) w)"
  have x: "map ascii_lower_char x = v"
    unfolding x_def take_map [symmetric] drop_map [symmetric] eq by simp
  have w: "w = take (length a) w @ x @ drop (length v) (drop (length a) w)"
    by (metis append_take_drop_id x_def)
  have "ascii_lower_char c = c" if "c \<in> set x" for c
  proof (rule ccontr)
    assume "ascii_lower_char c \<noteq> c"
    then have "97 \<le> (of_char (ascii_lower_char c) :: nat) \<and> (of_char (ascii_lower_char c) :: nat) \<le> 122"
      by (auto simp: ascii_lower_char_def Let_def of_char_of split: if_splits)
    moreover have "ascii_lower_char c \<in> set v" using that x by auto
    ultimately show False using white_seqs(3) [OF v] by blast
  qed
  then have "x = v" using x by (metis map_idI)
  with w have "str_contains w v" unfolding str_contains_iff by metis
  with v assms show False by (simp add: white_free_def)
qed

lemma lowercase_join [simp]:
  "to_ascii_lowercase (join '' '' ws) = join '' '' (map to_ascii_lowercase ws)"
proof (induction ws)
  case (Cons w ws)
  have "to_ascii_lowercase (a @ CHR '' '' # b) = to_ascii_lowercase a @ CHR '' '' # to_ascii_lowercase b"
    for a b by (simp add: to_ascii_lowercase_def space_not_lowered)
  with Cons show ?case by (simp add: join_Cons)
qed (simp add: to_ascii_lowercase_def)

end
