(* ===== verification/Command_Tables.thy ===== *)
theory Command_Tables
  imports Text_Ops
begin

text \<open>
  The tables of \<open>crates/runtime-server/src/command_safety.rs\<close>, entry by entry: the arity
  dictionary of command prefixes, the safe, workspace-safe and network commands, the dangerous
  and the privileged patterns, the heads of routine command chains and the flags that name a
  path.
\<close>

definition COMMAND_ARITY :: "(string \<times> nat) list" where
  "COMMAND_ARITY =
     [(''git add'', 2), (''git am'', 2), (''git apply'', 2), (''git bisect'', 2),
      (''git blame'', 2), (''git branch'', 2), (''git cat-file'', 2),
      (''git checkout'', 2), (''git cherry-pick'', 2), (''git clean'', 2),
      (''git clone'', 2), (''git commit'', 2), (''git config'', 2), (''git describe'', 2),
      (''git diff'', 2), (''git fetch'', 2), (''git format-patch'', 2), (''git grep'', 2),
      (''git init'', 2), (''git log'', 2), (''git ls-files'', 2), (''git merge'', 2),
      (''git mv'', 2), (''git notes'', 2), (''git pull'', 2), (''git push'', 2),
      (''git rebase'', 2), (''git reflog'', 2), (''git remote'', 2), (''git reset'', 2),
      (''git restore'', 2), (''git revert'', 2), (''git rm'', 2), (''git show'', 2),
      (''git stash'', 2), (''git status'', 2), (''git submodule'', 2), (''git switch'', 2),
      (''git tag'', 2), (''git worktree'', 2), (''npm audit'', 2), (''npm build'', 2),
      (''npm cache'', 2), (''npm ci'', 2), (''npm dedupe'', 2), (''npm fund'', 2),
      (''npm help'', 2), (''npm info'', 2), (''npm init'', 2), (''npm install'', 2),
      (''npm link'', 2), (''npm list'', 2), (''npm ls'', 2), (''npm outdated'', 2),
      (''npm pack'', 2), (''npm prune'', 2), (''npm publish'', 2), (''npm rebuild'', 2),
      (''npm run'', 3), (''npm start'', 2), (''npm stop'', 2), (''npm test'', 2),
      (''npm uninstall'', 2), (''npm update'', 2), (''npm version'', 2), (''npm view'', 2),
      (''yarn add'', 2), (''yarn audit'', 2), (''yarn build'', 2), (''yarn install'', 2),
      (''yarn run'', 3), (''yarn start'', 2), (''yarn test'', 2), (''yarn upgrade'', 2),
      (''yarn workspace'', 3), (''pnpm add'', 2), (''pnpm build'', 2),
      (''pnpm install'', 2), (''pnpm run'', 3), (''pnpm start'', 2), (''pnpm test'', 2),
      (''pnpm update'', 2), (''cargo add'', 2), (''cargo bench'', 2), (''cargo build'', 2),
      (''cargo check'', 2), (''cargo clean'', 2), (''cargo clippy'', 2),
      (''cargo doc'', 2), (''cargo fix'', 2), (''cargo fmt'', 2), (''cargo generate'', 2),
      (''cargo install'', 2), (''cargo metadata'', 2), (''cargo package'', 2),
      (''cargo publish'', 2), (''cargo remove'', 2), (''cargo run'', 2),
      (''cargo search'', 2), (''cargo test'', 2), (''cargo tree'', 2),
      (''cargo uninstall'', 2), (''cargo update'', 2), (''cargo yank'', 2),
      (''docker build'', 2), (''docker compose'', 3), (''docker container'', 3),
      (''docker cp'', 2), (''docker exec'', 2), (''docker image'', 3),
      (''docker images'', 2), (''docker inspect'', 2), (''docker kill'', 2),
      (''docker logs'', 2), (''docker network'', 3), (''docker ps'', 2),
      (''docker pull'', 2), (''docker push'', 2), (''docker rm'', 2), (''docker rmi'', 2),
      (''docker run'', 2), (''docker start'', 2), (''docker stop'', 2),
      (''docker system'', 3), (''docker tag'', 2), (''docker volume'', 3),
      (''kubectl apply'', 2), (''kubectl create'', 3), (''kubectl delete'', 3),
      (''kubectl describe'', 3), (''kubectl exec'', 2), (''kubectl explain'', 2),
      (''kubectl get'', 3), (''kubectl label'', 2), (''kubectl logs'', 2),
      (''kubectl patch'', 2), (''kubectl port-forward'', 2), (''kubectl rollout'', 3),
      (''kubectl scale'', 2), (''kubectl set'', 2), (''kubectl top'', 3),
      (''go build'', 2), (''go clean'', 2), (''go env'', 2), (''go fmt'', 2),
      (''go generate'', 2), (''go get'', 2), (''go install'', 2), (''go list'', 2),
      (''go mod'', 3), (''go run'', 2), (''go test'', 2), (''go vet'', 2),
      (''go work'', 3), (''pip install'', 2), (''pip uninstall'', 2), (''pip list'', 2),
      (''pip show'', 2), (''pip freeze'', 2), (''pip3 install'', 2),
      (''pip3 uninstall'', 2), (''pip3 list'', 2), (''pip3 show'', 2), (''python -m'', 3),
      (''python3 -m'', 3), (''make'', 1), (''gh pr'', 3), (''gh issue'', 3),
      (''gh repo'', 3), (''gh release'', 3), (''gh workflow'', 3), (''gh run'', 3),
      (''gh secret'', 3), (''rustup default'', 2), (''rustup install'', 2),
      (''rustup show'', 2), (''rustup target'', 3), (''rustup toolchain'', 3),
      (''rustup update'', 2), (''deno run'', 2), (''deno test'', 2), (''deno fmt'', 2),
      (''deno lint'', 2), (''bun add'', 2), (''bun build'', 2), (''bun install'', 2),
      (''bun run'', 3), (''bun test'', 2), (''npx'', 2)]"

definition SAFE_COMMANDS :: "string list" where
  "SAFE_COMMANDS =
     [''ls'', ''dir'', ''pwd'', ''cd'', ''cat'', ''head'', ''tail'', ''less'', ''more'',
      ''grep'', ''rg'', ''ag'', ''find'', ''fd'', ''which'', ''whereis'', ''type'',
      ''echo'', ''printf'', ''date'', ''cal'', ''uptime'', ''whoami'', ''id'',
      ''hostname'', ''uname'', ''env'', ''printenv'', ''set'', ''ps'', ''top'', ''htop'',
      ''df'', ''du'', ''free'', ''vmstat'', ''wc'', ''sort'', ''uniq'', ''cut'', ''tr'',
      ''awk'', ''sed'', ''diff'', ''file'', ''stat'', ''md5'', ''sha1sum'', ''sha256sum'',
      ''git status'', ''git log'', ''git diff'', ''git show'', ''git branch'',
      ''git remote'', ''git tag'', ''git stash list'', ''npm list'', ''npm ls'',
      ''npm outdated'', ''npm view'', ''cargo check'', ''cargo test'', ''cargo build'',
      ''cargo doc'', ''python --version'', ''node --version'', ''rustc --version'',
      ''man'', ''help'', ''info'']"

definition WORKSPACE_SAFE_COMMANDS :: "string list" where
  "WORKSPACE_SAFE_COMMANDS =
     [''mkdir'', ''touch'', ''cp'', ''mv'', ''git add'', ''git commit'', ''git checkout'',
      ''git switch'', ''git restore'', ''git merge'', ''git rebase'', ''git cherry-pick'',
      ''git reset --soft'', ''npm install'', ''npm ci'', ''npm update'', ''cargo build'',
      ''cargo run'', ''cargo test'', ''cargo fmt'', ''pip install'', ''pip uninstall'',
      ''make'', ''cmake'', ''ninja'']"

text \<open>The UTF-8 bytes of U+2014.\<close>

definition em_dash :: string where
  "em_dash = [CHR 0xE2, CHR 0x80, CHR 0x94]"

definition DANGEROUS_PATTERNS :: "(string \<times> string) list" where
  "DANGEROUS_PATTERNS =
     [(''rm -rf /'',
        ''Attempts to recursively delete root filesystem''),
      (''rm -rf /*'',
        ''Attempts to recursively delete all root directories''),
      (''rm -rf ~'',
        ''Attempts to recursively delete home directory''),
      (''rm -rf $HOME'',
        ''Attempts to recursively delete home directory''),
      ('':(){ :|:& };:'',
        ''Fork bomb '' @ em_dash @ '' will crash the system'')]"

definition PRIVILEGED_PATTERNS :: "string list" where
  "PRIVILEGED_PATTERNS =
     [''sudo'', ''su '', ''doas'', ''pkexec'', ''gksudo'', ''kdesudo'']"

definition NETWORK_COMMANDS :: "string list" where
  "NETWORK_COMMANDS =
     [''curl'', ''wget'', ''fetch'', ''nc'', ''netcat'', ''ncat'', ''ssh'', ''scp'',
      ''sftp'', ''rsync'', ''ftp'', ''ping'', ''traceroute'', ''nslookup'', ''dig'',
      ''host'', ''nmap'', ''masscan'', ''tcpdump'', ''wireshark'']"

definition KNOWN_SAFE_CHAIN_PREFIXES :: "string list" where
  "KNOWN_SAFE_CHAIN_PREFIXES =
     [''cargo'', ''rustc'', ''rustup'', ''git'', ''gh'', ''hub'', ''npm'', ''yarn'',
      ''pnpm'', ''node'', ''npx'', ''zig'', ''go'', ''deno'', ''bun'', ''make'', ''cmake'',
      ''ninja'', ''meson'', ''python'', ''python3'', ''pip'', ''pip3'', ''uv'', ''poetry'',
      ''ls'', ''pwd'', ''cd'', ''echo'', ''cat'', ''head'', ''tail'', ''grep'', ''rg'',
      ''find'', ''fd'', ''wc'', ''sort'', ''uniq'', ''which'', ''env'', ''true'', ''false'']"

definition EXECPOLICY_PATH_FLAGS :: "string list" where
  "EXECPOLICY_PATH_FLAGS =
     [''--manifest-path'', ''--config'']"

end
