(* ===== verification/Command_Safety.thy ===== *)
theory Command_Safety
  imports Command_Tables
begin

text \<open>
  \<open>crates/runtime-server/src/command_safety.rs\<close>: the canonical prefix of a shell command, the
  matching of allow rules, the safety level of a command (which decides whether it is blocked,
  asked about, or scheduled as a read), force pushes, and the lexical test that a path stays in
  the workspace. The Unicode lower-case tables are the argument \<open>u\<close>.
\<close>

section \<open>Canonical prefixes\<close>

definition positional_words :: "string list \<Rightarrow> string list" where
  "positional_words tokens =
     map to_ascii_lowercase (filter (\<lambda>t. \<not> starts_with t ''-'') tokens)"

definition arity_of :: "string \<Rightarrow> nat option" where
  "arity_of candidate = find_map (\<lambda>(key, n). if key = candidate then Some n else None) COMMAND_ARITY"

fun classify_depth :: "string list \<Rightarrow> nat \<Rightarrow> string" where
  "classify_depth positional 0 = hd positional"
| "classify_depth positional (Suc d) =
     (case arity_of (join '' '' (take (Suc d) positional)) of
        Some n \<Rightarrow> join '' '' (take (min n (length positional)) positional)
      | None \<Rightarrow> classify_depth positional d)"

definition classify_command :: "string list \<Rightarrow> string" where
  "classify_command tokens =
     (if tokens = [] then []
      else
        let positional = positional_words tokens in
        if positional = [] then []
        else classify_depth positional (min (length positional) 3))"

definition chained :: "string \<Rightarrow> bool" where
  "chained command \<longleftrightarrow>
     str_contains command ''&&'' \<or> str_contains command ''||'' \<or> str_contains command '';''"

definition normalize_words :: "string \<Rightarrow> string" where
  "normalize_words s = join '' '' (split_whitespace (to_ascii_lowercase (trim s)))"

definition prefix_allow_matches :: "string \<Rightarrow> string \<Rightarrow> bool" where
  "prefix_allow_matches pat command =
     (if chained command then False
      else
        let pattern_norm = normalize_words pat;
            tokens = split_whitespace command
        in
        if tokens = [] then pattern_norm = []
        else if classify_command tokens = pattern_norm then True
        else
          let command_norm = normalize_words command in
          command_norm = pattern_norm \<or> starts_with command_norm (pattern_norm @ '' ''))"

section \<open>Safety levels\<close>

datatype safety_level = Safe | WorkspaceSafe | RequiresApproval | Dangerous

record safety_analysis =
  sa_level :: safety_level
  sa_command :: string
  sa_reasons :: "string list"
  sa_suggestions :: "string list"

definition safe :: "string \<Rightarrow> safety_analysis" where
  "safe command =
     \<lparr>sa_level = Safe, sa_command = command, sa_reasons = [''Command is read-only''],
      sa_suggestions = []\<rparr>"

definition workspace_safe :: "string \<Rightarrow> string \<Rightarrow> safety_analysis" where
  "workspace_safe command reason =
     \<lparr>sa_level = WorkspaceSafe, sa_command = command, sa_reasons = [reason], sa_suggestions = []\<rparr>"

definition requires_approval :: "string \<Rightarrow> string list \<Rightarrow> safety_analysis" where
  "requires_approval command reasons =
     \<lparr>sa_level = RequiresApproval, sa_command = command, sa_reasons = reasons,
      sa_suggestions = []\<rparr>"

definition dangerous :: "string \<Rightarrow> string list \<Rightarrow> string list \<Rightarrow> safety_analysis" where
  "dangerous command reasons suggestions =
     \<lparr>sa_level = Dangerous, sa_command = command, sa_reasons = reasons,
      sa_suggestions = suggestions\<rparr>"

definition is_safe_command :: "(string \<Rightarrow> string) \<Rightarrow> string \<Rightarrow> bool" where
  "is_safe_command u command = list_ex (starts_with (to_lowercase u command)) SAFE_COMMANDS"

definition is_workspace_safe_command :: "(string \<Rightarrow> string) \<Rightarrow> string \<Rightarrow> bool" where
  "is_workspace_safe_command u command =
     list_ex (starts_with (to_lowercase u command)) WORKSPACE_SAFE_COMMANDS"

definition segment_known_safe :: "string \<Rightarrow> bool" where
  "segment_known_safe seg =
     (let head = (case List.find (\<lambda>tok. CHR ''='' \<notin> set tok \<and> tok \<noteq> ''env'') (split_whitespace seg) of
                    Some tok \<Rightarrow> tok | None \<Rightarrow> [])
      in list_ex (eq_ignore_ascii_case head) KNOWN_SAFE_CHAIN_PREFIXES)"

definition all_segments_known_safe :: "string \<Rightarrow> bool" where
  "all_segments_known_safe command =
     (let normalized = replace_all '';'' [CHR 0x0A]
            (replace_all ''||'' [CHR 0x0A] (replace_all ''&&'' [CHR 0x0A] command));
          segments = filter (\<lambda>s. s \<noteq> []) (map trim (split_char (CHR 0x0A) normalized))
      in segments \<noteq> [] \<and> list_all segment_known_safe segments)"

definition is_git_force_push :: "(string \<Rightarrow> string) \<Rightarrow> string \<Rightarrow> bool" where
  "is_git_force_push u command =
     (let lower = to_lowercase u command in
      if \<not> str_contains lower ''git push'' then False
      else if str_contains lower ''--force-with-lease'' \<or> str_contains lower ''--force'' then True
      else list_ex (\<lambda>tok. tok = ''-f'' \<or> (starts_with tok ''+'' \<and> CHR '':'' \<in> set tok))
             (split_whitespace command))"

definition git_push_approval_banner :: "(string \<Rightarrow> string) \<Rightarrow> string \<Rightarrow> string option" where
  "git_push_approval_banner u command =
     (if is_git_force_push u command then
        Some ([CHR 0xE2, CHR 0x9A, CHR 0xA0, CHR 0xEF, CHR 0xB8, CHR 0x8F] @ '' FORCE PUSH '' @
          em_dash @ '' can overwrite remote history and discard others'' @ [CHR 0x27] @
          '' commits.'' @ [CHR 0x0A] @ ''Prefer `git push --force-with-lease` if you must rewrite; '' @
          ''deny unless intentional.'')
      else if str_contains (to_lowercase u command) ''git push'' then
        Some ''Push will update the remote repository.''
      else None)"

text \<open>The checks of \<open>analyze_command\<close> after the multi-line, chaining and substitution tests.\<close>

definition dangerous_reason :: "(string \<Rightarrow> string) \<Rightarrow> string \<Rightarrow> string option" where
  "dangerous_reason u command =
     find_map (\<lambda>(p, reason). if str_contains (to_lowercase u command) (to_lowercase u p)
                             then Some reason else None) DANGEROUS_PATTERNS"

definition privileged_pattern :: "(string \<Rightarrow> string) \<Rightarrow> string \<Rightarrow> string option" where
  "privileged_pattern u command =
     List.find (\<lambda>p. starts_with (trim command) p \<or>
                    str_contains (to_lowercase u command) ('' '' @ p @ '' '')) PRIVILEGED_PATTERNS"

definition pipes_download_to_shell :: "(string \<Rightarrow> string) \<Rightarrow> string \<Rightarrow> bool" where
  "pipes_download_to_shell u command =
     (let lower = to_lowercase u command in
      (str_contains lower ''curl'' \<or> str_contains lower ''wget'') \<and>
      (str_contains lower ''| sh'' \<or> str_contains lower ''| bash'' \<or> str_contains lower ''| zsh''))"

definition first_word :: "string \<Rightarrow> string" where
  "first_word s = (case split_whitespace s of [] \<Rightarrow> [] | w # ws \<Rightarrow> w)"

definition analyze_rm :: "(string \<Rightarrow> string) \<Rightarrow> string \<Rightarrow> safety_analysis" where
  "analyze_rm u command =
     (let lower = to_lowercase u command; reasons = [''Recursive or forced deletion''] in
      if str_contains lower ''..'' \<or> str_contains lower ''~/'' \<or> str_contains lower ''$HOME'' then
        dangerous command (reasons @ [''May delete files outside workspace''])
          [''Use relative paths within the workspace'']
      else requires_approval command reasons)"

definition analyze_push :: "(string \<Rightarrow> string) \<Rightarrow> string \<Rightarrow> safety_analysis" where
  "analyze_push u command =
     (if is_git_force_push u command then
        requires_approval command
          [''FORCE PUSH: can overwrite remote history and discard others'' @ [CHR 0x27] @ '' commits'',
           ''Prefer `git push --force-with-lease` if you must rewrite; review the branch first'']
      else requires_approval command [''Push will modify the remote repository''])"

definition analyze_single :: "(string \<Rightarrow> string) \<Rightarrow> string \<Rightarrow> safety_analysis" where
  "analyze_single u command =
     (let lower = to_lowercase u command; trimmed = trim command; first = first_word trimmed in
      if is_safe_command u trimmed then safe command
      else if is_workspace_safe_command u trimmed then
        workspace_safe command ''Command modifies files within workspace''
      else if first \<in> set NETWORK_COMMANDS then
        requires_approval command [''Command may make network requests'']
      else if first = ''rm'' \<and> (str_contains lower ''-r'' \<or> str_contains lower ''-f'') then
        analyze_rm u command
      else if str_contains lower ''git push'' then analyze_push u command
      else requires_approval command [''Unknown command - review before execution''])"

definition analyze_command :: "(string \<Rightarrow> string) \<Rightarrow> string \<Rightarrow> safety_analysis" where
  "analyze_command u command =
     (if CHR 0x0A \<in> set command \<or> CHR 0x0D \<in> set command then
        dangerous command [''Command contains multiple lines''] [''Run one command at a time'']
      else if CHR 0x00 \<in> set command then
        dangerous command [''Command contains a null byte'']
          [''Strip embedded null bytes before retrying'']
      else if chained command then
        (if all_segments_known_safe command then
           requires_approval command [''Command chains known-safe segments (cargo/git/etc.)'']
         else requires_approval command [''Command chaining detected''])
      else if str_contains command ''`'' \<or> str_contains command ''$('' then
        requires_approval command [''Command substitution detected'']
      else
        case dangerous_reason u command of
          Some reason \<Rightarrow>
            dangerous command [reason] [''Review the command carefully before execution'']
        | None \<Rightarrow>
            (case privileged_pattern u command of
               Some p \<Rightarrow> requires_approval command
                 [''Command uses privileged execution ('' @ trim p @ '')'']
             | None \<Rightarrow>
                 if pipes_download_to_shell u command then
                   dangerous command [''Piping remote content directly to shell is dangerous'']
                     [''Download the script first and review it before execution'']
                 else analyze_single u command))"

section \<open>Paths\<close>

definition normalize_safety_path :: "(string \<Rightarrow> string) \<Rightarrow> string \<Rightarrow> string" where
  "normalize_safety_path u path =
     to_lowercase u (map (\<lambda>c. if c = CHR 0x5C then CHR ''/'' else c) (trim path))"

definition is_absolute_safety_path :: "string \<Rightarrow> bool" where
  "is_absolute_safety_path path \<longleftrightarrow>
     starts_with path ''/'' \<or>
     (3 \<le> length path \<and> path ! 1 = CHR '':'' \<and> path ! 2 = CHR ''/'')"

text \<open>One component of the lexical resolution, with the stack of names so far.\<close>

definition push_component :: "string list \<Rightarrow> string \<Rightarrow> string list" where
  "push_component stack component =
     (if component = [] \<or> component = ''.'' then stack
      else if component = ''..'' then butlast stack
      else stack @ [component])"

definition lexical_components :: "string \<Rightarrow> string list" where
  "lexical_components path = foldl push_component [] (split_char (CHR ''/'') path)"

definition components_start_with :: "string list \<Rightarrow> string list \<Rightarrow> bool" where
  "components_start_with path pre \<longleftrightarrow>
     length pre \<le> length path \<and> list_all (\<lambda>(a, b). a = b) (zip path pre)"

fun depth_escapes :: "int \<Rightarrow> string list \<Rightarrow> bool" where
  "depth_escapes depth [] = False"
| "depth_escapes depth (c # cs) =
     (let d = (if c = [] \<or> c = ''.'' then depth else if c = ''..'' then depth - 1 else depth + 1)
      in d < 0 \<or> depth_escapes d cs)"

definition path_escapes_workspace ::
  "(string \<Rightarrow> string) \<Rightarrow> string \<Rightarrow> string \<Rightarrow> bool" where
  "path_escapes_workspace u path workspace =
     (let p = normalize_safety_path u path; w = normalize_safety_path u workspace in
      if starts_with p ''~/'' \<or> starts_with p ''$home'' then True
      else if is_absolute_safety_path p then
        \<not> components_start_with (lexical_components p) (lexical_components w)
      else depth_escapes 0 (split_char (CHR ''/'') p))"

fun flag_value_in :: "string \<Rightarrow> string list \<Rightarrow> string option" where
  "flag_value_in flag [] = None"
| "flag_value_in flag (tok # toks) =
     (if tok = flag then (case toks of [] \<Rightarrow> None | v # _ \<Rightarrow> Some v)
      else
        case strip_prefix tok (flag @ ''='') of
          Some v \<Rightarrow> if v \<noteq> [] then Some v else flag_value_in flag toks
        | None \<Rightarrow> flag_value_in flag toks)"

definition extract_command_flag_value :: "string \<Rightarrow> string \<Rightarrow> string option" where
  "extract_command_flag_value command flag = flag_value_in flag (split_whitespace command)"

definition execpolicy_allow_target_paths_escape ::
  "(string \<Rightarrow> string) \<Rightarrow> string \<Rightarrow> string \<Rightarrow> string option" where
  "execpolicy_allow_target_paths_escape u command workspace =
     find_map (\<lambda>flag.
       case extract_command_flag_value command flag of
         None \<Rightarrow> None
       | Some path \<Rightarrow>
           if path_escapes_workspace u path workspace then
             Some (''execpolicy allow matched but '' @ flag @
               '' targets path outside workspace: '' @ path)
           else None) EXECPOLICY_PATH_FLAGS"

section \<open>Primary commands and categories\<close>

definition extract_primary_command :: "string \<Rightarrow> string option" where
  "extract_primary_command command =
     (let trimmed = trim command in
      if starts_with trimmed ''env '' \<or> starts_with trimmed ''ENV='' then
        List.find (\<lambda>s. CHR ''='' \<notin> set s \<and> s \<noteq> ''env'') (split_whitespace trimmed)
      else (case split_whitespace trimmed of [] \<Rightarrow> None | w # ws \<Rightarrow> Some w))"

datatype command_category =
    FileSystem | Network | Process | Package | Git | Build | System | Shell | OtherCategory

definition category_table :: "(command_category \<times> string list) list" where
  "category_table =
     [(FileSystem,
         [''ls'', ''dir'', ''cat'', ''head'', ''tail'', ''less'', ''more'', ''cp'', ''mv'',
          ''rm'', ''mkdir'', ''rmdir'', ''touch'', ''chmod'', ''chown'', ''ln'', ''find'',
          ''fd'', ''locate'', ''stat'', ''file'']),
      (Network,
         [''curl'', ''wget'', ''fetch'', ''nc'', ''netcat'', ''ssh'', ''scp'', ''sftp'',
          ''rsync'', ''ftp'', ''ping'', ''traceroute'', ''nslookup'', ''dig'', ''host'',
          ''nmap'']),
      (Process,
         [''ps'', ''top'', ''htop'', ''kill'', ''killall'', ''pkill'', ''pgrep'', ''nice'',
          ''renice'', ''nohup'', ''timeout'']),
      (Package,
         [''npm'', ''yarn'', ''pnpm'', ''pip'', ''pip3'', ''brew'', ''apt'', ''apt-get'',
          ''yum'', ''dnf'', ''pacman'']),
      (Git,
         [''git'', ''gh'', ''hub'']),
      (Build,
         [''make'', ''cmake'', ''ninja'', ''meson'', ''cargo'', ''go'', ''gcc'', ''g++'',
          ''clang'', ''rustc'', ''javac'', ''tsc'']),
      (System,
         [''sudo'', ''su'', ''systemctl'', ''service'', ''shutdown'', ''reboot'',
          ''mount'', ''umount'', ''fdisk'', ''parted'']),
      (Shell,
         [''bash'', ''sh'', ''zsh'', ''fish'', ''csh'', ''tcsh'', ''dash'', ''source'',
          ''.'', ''exec'', ''eval''])]"

definition categorize_command :: "(string \<Rightarrow> string) \<Rightarrow> string \<Rightarrow> command_category" where
  "categorize_command u command =
     (case extract_primary_command command of
        None \<Rightarrow> OtherCategory
      | Some cmd \<Rightarrow>
          (case List.find (\<lambda>(_, names). to_lowercase u cmd \<in> set names) category_table of
             Some (cat, _) \<Rightarrow> cat
           | None \<Rightarrow> OtherCategory))"

section \<open>Containment of paths\<close>

lemma components_start_with_prefix: "components_start_with path pre \<longleftrightarrow> prefix pre path"
proof (induction pre arbitrary: path)
  case (Cons c pre)
  show ?case
    using Cons by (cases path) (auto simp: components_start_with_def)
qed (simp add: components_start_with_def)

lemma fold_keeps_base:
  assumes "\<not> depth_escapes (int (length stack)) cs"
  shows "\<exists>stack'. foldl push_component (base @ stack) cs = base @ stack'"
  using assms
proof (induction cs arbitrary: stack)
  case (Cons c cs)
  consider "c = [] \<or> c = ''.''" | "c = ''..''" | "c \<noteq> []" "c \<noteq> ''.''" "c \<noteq> ''..''" by blast
  then show ?case
  proof cases
    case 2
    with Cons.prems have "stack \<noteq> []" by auto
    with 2 Cons.prems have "\<not> depth_escapes (int (length (butlast stack))) cs"
      by (simp add: Let_def of_nat_diff Suc_le_eq)
    with Cons.IH [of "butlast stack"] 2 \<open>stack \<noteq> []\<close> show ?thesis
      by (simp add: push_component_def butlast_append)
  next
    case 3
    with Cons.prems have "\<not> depth_escapes (int (length (stack @ [c]))) cs"
      by (simp add: Let_def add.commute)
    with Cons.IH [of "stack @ [c]"] 3 show ?thesis by (simp add: push_component_def)
  qed (use Cons in \<open>auto simp: push_component_def Let_def\<close>)
qed simp

lemma lexical_join:
  "lexical_components (w @ CHR ''/'' # p) =
     foldl push_component (lexical_components w) (split_char (CHR ''/'') p)"
  by (simp add: lexical_components_def split_char_append_sep)

text \<open>
  C15. Workspace containment. A path that is not reported as escaping stays inside: its lexical
  resolution, against the workspace when it is relative, begins with the components of the
  workspace, whatever mixture of names, dots and parents it holds.
\<close>

theorem unreported_path_stays_inside:
  assumes "\<not> path_escapes_workspace u path workspace"
  shows "let p = normalize_safety_path u path; w = normalize_safety_path u workspace in
    prefix (lexical_components w)
      (lexical_components (if is_absolute_safety_path p then p else w @ CHR ''/'' # p))"
proof -
  let ?p = "normalize_safety_path u path" and ?w = "normalize_safety_path u workspace"
  show ?thesis
  proof (cases "is_absolute_safety_path ?p")
    case True
    with assms show ?thesis
      by (auto simp: path_escapes_workspace_def Let_def components_start_with_prefix split: if_splits)
  next
    case False
    with assms have "\<not> depth_escapes (int (length [])) (split_char (CHR ''/'') ?p)"
      by (auto simp: path_escapes_workspace_def Let_def split: if_splits)
    from fold_keeps_base [OF this, of "lexical_components ?w"] False show ?thesis
      by (auto simp: lexical_join Let_def)
  qed
qed

text \<open>A relative path through a parent, under \<open>C:\repo\<close> written with backslashes.\<close>

theorem unreported_path_stays_inside_witness:
  "prefix [''c:'', ''repo''] (lexical_components (''c:/repo'' @ CHR ''/'' # ''src/../lib.rs''))"
proof -
  have low: "normalize_safety_path id ''src/../lib.rs'' = ''src/../lib.rs''"
    "normalize_safety_path id (''C:'' @ [CHR 0x5C] @ ''repo'') = ''c:/repo''"
    by (simp_all add: normalize_safety_path_def text_eval)
  have "\<not> path_escapes_workspace id ''src/../lib.rs'' (''C:'' @ [CHR 0x5C] @ ''repo'')"
    by (simp only: path_escapes_workspace_def low)
       (simp add: starts_with_def is_absolute_safety_path_def Let_def)
  note inside = unreported_path_stays_inside [OF this, unfolded low Let_def]
  have "\<not> is_absolute_safety_path ''src/../lib.rs''"
    by (simp add: is_absolute_safety_path_def starts_with_def)
  moreover have "lexical_components ''c:/repo'' = [''c:'', ''repo'']"
    by (simp add: lexical_components_def push_component_def)
  ultimately show ?thesis using inside by (simp only: if_False simp_thms)
qed

section \<open>Commands by prefix\<close>

lemma positional_no_space:
  assumes "\<forall>t \<in> set tokens. t \<noteq> [] \<and> CHR '' '' \<notin> set t" and "w \<in> set (positional_words tokens)"
  shows "w \<noteq> [] \<and> CHR '' '' \<notin> set w"
  using assms by (auto simp: positional_words_def)

lemma arities: "arity_of k = Some n \<Longrightarrow> n \<in> {1, 2, 3}"
proof -
  have "list_all (\<lambda>(_, n). n \<in> {1, 2, 3}) COMMAND_ARITY" by (simp add: COMMAND_ARITY_def)
  moreover have "find_map (\<lambda>(key, n). if key = k then Some n else None) xs = Some n \<Longrightarrow>
      list_all (\<lambda>(_, n). n \<in> {1, 2, 3}) xs \<Longrightarrow> n \<in> {1, 2, 3}" for xs :: "(string \<times> nat) list"
    by (induction xs) (auto split: if_splits)
  ultimately show "arity_of k = Some n \<Longrightarrow> n \<in> {1, 2, 3}" by (simp add: arity_of_def)
qed

lemma classify_depth_take:
  assumes "positional \<noteq> []"
  shows "\<exists>k. 1 \<le> k \<and> k \<le> 3 \<and> classify_depth positional d = join '' '' (take k positional)"
proof (induction d)
  case 0
  have "classify_depth positional 0 = join '' '' (take 1 positional)"
    using assms by (cases positional) auto
  then show ?case by (intro exI [of _ 1]) simp
next
  case (Suc d)
  show ?case
  proof (cases "arity_of (join '' '' (take (Suc d) positional))")
    case (Some n)
    have "take (min n (length positional)) positional = take n positional" by (simp add: min_def)
    with Some arities [OF Some] show ?thesis by (intro exI [of _ n]) auto
  qed (use Suc in simp)
qed

lemma classify_take:
  assumes "positional_words tokens \<noteq> []"
  shows "\<exists>k. 1 \<le> k \<and> k \<le> 3 \<and>
    classify_command tokens = join '' '' (take k (positional_words tokens))"
  using assms classify_depth_take [OF assms] by (auto simp: classify_command_def Let_def positional_words_def)

text \<open>
  What an allow rule covers. A rule never matches a command with \<open>&&\<close>, \<open>||\<close> or \<open>;\<close>, and it
  only matches commands that begin with its words: with all the words of the command, or with
  its words other than flags.
\<close>

theorem allow_rule_covers_prefix:
  assumes "prefix_allow_matches rule command" and "split_whitespace command \<noteq> []"
    and "split_whitespace (to_ascii_lowercase (trim rule)) \<noteq> []"
  shows "\<not> chained command \<and>
    (let rule_words = split_whitespace (to_ascii_lowercase (trim rule)) in
     prefix rule_words (positional_words (split_whitespace command)) \<or>
     prefix rule_words (split_whitespace (to_ascii_lowercase (trim command))))"
proof -
  let ?r = "split_whitespace (to_ascii_lowercase (trim rule))"
  let ?p = "positional_words (split_whitespace command)"
  let ?c = "split_whitespace (to_ascii_lowercase (trim command))"
  have words: "\<forall>w \<in> set ?r. CHR '' '' \<notin> set w" "\<forall>w \<in> set ?c. CHR '' '' \<notin> set w"
    "\<forall>w \<in> set ?p. CHR '' '' \<notin> set w" "\<forall>w \<in> set ?r. w \<noteq> []"
    using split_whitespace_words positional_no_space by blast+
  have nonempty: "join '' '' ?r \<noteq> []"
    using assms(3) words(4) by (cases ?r) (auto simp: join_Cons)
  consider "classify_command (split_whitespace command) = join '' '' ?r"
    | "join '' '' ?c = join '' '' ?r" | "starts_with (join '' '' ?c) (join '' '' ?r @ '' '')"
    using assms(1,2) by (auto simp: prefix_allow_matches_def normalize_words_def Let_def split: if_splits)
  then have "prefix ?r ?p \<or> prefix ?r ?c"
  proof cases
    case 1
    have "?p \<noteq> []"
    proof
      assume "?p = []"
      with 1 nonempty show False by (simp add: classify_command_def Let_def split: if_splits)
    qed
    from classify_take [OF this] obtain k where k: "1 \<le> k" "join '' '' ?r = join '' '' (take k ?p)"
      using 1 by auto
    have "?r = take k ?p"
      using join_inject [OF k(2) assms(3)] words k(1) \<open>?p \<noteq> []\<close>
      by (auto dest: in_set_takeD)
    then show ?thesis by (metis take_is_prefix)
  next
    case 2
    moreover have "?c \<noteq> []" using 2 nonempty by auto
    ultimately have "?c = ?r" using join_inject assms(3) words by blast
    then show ?thesis by simp
  next
    case 3
    moreover have "?c \<noteq> []" using 3 by (auto simp: starts_with_def)
    ultimately show ?thesis using join_prefix assms(3) words by blast
  qed
  moreover have "\<not> chained command"
    using assms(1) by (auto simp: prefix_allow_matches_def split: if_splits)
  ultimately show ?thesis by (simp add: Let_def)
qed

text \<open>The rule \<open>git status\<close> with flags between its words.\<close>

theorem allow_rule_covers_prefix_witness:
  "prefix [''git'', ''status''] (positional_words [''git'', ''-p'', ''status'', ''-s''])"
proof -
  have words: "split_whitespace ''git -p status -s'' = [''git'', ''-p'', ''status'', ''-s'']"
    "split_whitespace (to_ascii_lowercase (trim ''git status'')) = [''git'', ''status'']"
    "split_whitespace (to_ascii_lowercase (trim ''git -p status -s'')) =
       [''git'', ''-p'', ''status'', ''-s'']"
    by (simp_all add: words_eval text_eval)
  have "positional_words [''git'', ''-p'', ''status'', ''-s''] = [''git'', ''status'']"
    by (simp add: positional_words_def starts_with_def text_eval)
  moreover have "arity_of ''git status'' = Some 2"
    by (simp add: arity_of_def COMMAND_ARITY_def)
  ultimately have "classify_command [''git'', ''-p'', ''status'', ''-s''] = ''git status''"
    by (simp add: classify_command_def Let_def numeral_2_eq_2)
  then have "prefix_allow_matches ''git status'' ''git -p status -s''"
    by (simp add: prefix_allow_matches_def normalize_words_def words Let_def chained_def
        starts_with_def)
  from allow_rule_covers_prefix [OF this] show ?thesis by (simp add: words prefix_def)
qed

text \<open>
  A command is covered by its own canonical prefix: a rule made of the prefix that
  \<open>classify_command\<close> computes allows every unchained command it was computed from.
\<close>

theorem own_prefix_allows:
  assumes "\<not> chained command" and "positional_words (split_whitespace command) \<noteq> []"
  shows "prefix_allow_matches (classify_command (split_whitespace command)) command"
proof -
  let ?p = "positional_words (split_whitespace command)"
  obtain k where k: "classify_command (split_whitespace command) = join '' '' (take k ?p)"
    using classify_take [OF assms(2)] by blast
  have words: "\<forall>w \<in> set (take k ?p). white_free w \<and> w \<noteq> []"
  proof
    fix w assume "w \<in> set (take k ?p)"
    then have "w \<in> set ?p" by (rule in_set_takeD)
    then obtain t where "t \<in> set (split_whitespace command)" "w = to_ascii_lowercase t"
      by (auto simp: positional_words_def)
    then show "white_free w \<and> w \<noteq> []"
      using words_white_free white_free_lowercase split_whitespace_words by simp
  qed
  have low: "map to_ascii_lowercase (take k ?p) = take k ?p"
    by (simp add: positional_words_def take_map comp_def)
  have "normalize_words (join '' '' (take k ?p)) = join '' '' (take k ?p)"
    by (simp add: normalize_words_def trim_join_words [OF words] low split_join_words [OF words])
  moreover have "split_whitespace command \<noteq> []"
    using assms(2) by (auto simp: positional_words_def)
  ultimately show ?thesis using assms(1) by (simp add: prefix_allow_matches_def k Let_def)
qed

theorem own_prefix_allows_witness:
  "prefix_allow_matches (classify_command (split_whitespace ''npm run dev -s'')) ''npm run dev -s''"
proof (rule own_prefix_allows)
  show "\<not> chained ''npm run dev -s''" by (simp add: chained_def starts_with_def)
  have "split_whitespace ''npm run dev -s'' = [''npm'', ''run'', ''dev'', ''-s'']"
    by (simp add: words_eval)
  then show "positional_words (split_whitespace ''npm run dev -s'') \<noteq> []"
    by (simp add: positional_words_def starts_with_def)
qed

text \<open>
  A flag is never part of a prefix, so the dictionary entries for \<open>python -m\<close> are never found: a
  module run through \<open>python\<close> has the prefix of every other \<open>python\<close> command.
\<close>

lemma flags_never_classified:
  "classify_command (filter (\<lambda>t. \<not> starts_with t ''-'') tokens) = classify_command tokens"
  by (simp add: classify_command_def positional_words_def Let_def)

lemma python_module_prefix: "classify_command [''python'', ''-m'', ''pytest''] = ''python''"
  by (simp add: classify_command_def positional_words_def starts_with_def text_eval
      arity_of_def COMMAND_ARITY_def numeral_2_eq_2)

section \<open>Which commands are safe, and which are blocked\<close>

definition single_line :: "string \<Rightarrow> bool" where
  "single_line c \<longleftrightarrow> CHR 0x0A \<notin> set c \<and> CHR 0x0D \<notin> set c \<and> CHR 0x00 \<notin> set c"

definition plain :: "string \<Rightarrow> bool" where
  "plain c \<longleftrightarrow> single_line c \<and> \<not> chained c \<and> \<not> str_contains c ''`'' \<and> \<not> str_contains c ''$(''"

lemma levels [simp]:
  "sa_level (safe c) = Safe" "sa_level (workspace_safe c r) = WorkspaceSafe"
  "sa_level (requires_approval c rs) = RequiresApproval" "sa_level (dangerous c rs ss) = Dangerous"
  by (simp_all add: safe_def workspace_safe_def requires_approval_def dangerous_def)

lemma push_level [simp]: "sa_level (analyze_push u c) = RequiresApproval"
  by (simp add: analyze_push_def)

lemma not_plain:
  "\<not> plain c \<Longrightarrow>
   sa_level (analyze_command u c) = (if single_line c then RequiresApproval else Dangerous)"
  by (auto simp: plain_def single_line_def analyze_command_def)

lemma plain_level:
  "plain c \<Longrightarrow>
   sa_level (analyze_command u c) =
     (if dangerous_reason u c \<noteq> None then Dangerous
      else if privileged_pattern u c \<noteq> None then RequiresApproval
      else if pipes_download_to_shell u c then Dangerous
      else sa_level (analyze_single u c))"
  by (auto simp: plain_def single_line_def analyze_command_def split: option.split)

lemma single_level_safe:
  "sa_level (analyze_single u c) = Safe \<longleftrightarrow> is_safe_command u (trim c)"
  by (simp add: analyze_single_def analyze_rm_def Let_def)

lemma safe_iff:
  "sa_level (analyze_command u c) = Safe \<longleftrightarrow>
     plain c \<and> dangerous_reason u c = None \<and> privileged_pattern u c = None \<and>
     \<not> pipes_download_to_shell u c \<and> is_safe_command u (trim c)"
  by (cases "plain c") (auto simp: not_plain plain_level single_level_safe)

text \<open>A listing piped into a deletion counts as read-only.\<close>

lemma piped_deletion_safe: "sa_level (analyze_command u ''ls | xargs rm -r src'') = Safe"
proof -
  let ?c = "''ls | xargs rm -r src''"
  have "plain ?c" by (simp add: plain_def single_line_def chained_def starts_with_def)
  moreover have low: "to_lowercase u ?c = ?c" "trim ?c = ?c" by (simp_all add: text_eval)
  moreover have "dangerous_reason u ?c = None"
    by (simp add: dangerous_reason_def low DANGEROUS_PATTERNS_def text_eval)
  moreover have "privileged_pattern u ?c = None"
    by (simp add: privileged_pattern_def low PRIVILEGED_PATTERNS_def starts_with_def)
  moreover have "\<not> pipes_download_to_shell u ?c"
    by (simp add: pipes_download_to_shell_def low starts_with_def Let_def)
  moreover have "is_safe_command u ?c"
    by (simp add: is_safe_command_def low SAFE_COMMANDS_def starts_with_def)
  ultimately show ?thesis by (simp add: safe_iff)
qed

text \<open>
  When a command counts as read-only. The level is \<open>Safe\<close> exactly when the command is one line
  without chaining or substitution, holds no dangerous, privileged or download-to-shell pattern,
  and begins with the letters of a safe command; nothing is asked of what follows these letters,
  so a pipe into a deletion is \<open>Safe\<close> (and the scheduler then runs it as a read).
\<close>

theorem safe_level_iff:
  "(sa_level (analyze_command u c) = Safe \<longleftrightarrow>
     plain c \<and> dangerous_reason u c = None \<and> privileged_pattern u c = None \<and>
     \<not> pipes_download_to_shell u c \<and> is_safe_command u (trim c)) \<and>
   sa_level (analyze_command u ''ls | xargs rm -r src'') = Safe"
  using safe_iff piped_deletion_safe by blast

text \<open>The test for \<open>$HOME\<close> looks for upper-case letters in a lower-case text.\<close>

lemma home_never_found:
  assumes "lowers_ascii u"
  shows "\<not> str_contains (to_lowercase u c) ''$HOME''"
proof
  assume "str_contains (to_lowercase u c) ''$HOME''"
  then have "CHR ''H'' \<in> set (to_lowercase u c)" by (auto simp: str_contains_iff)
  from to_lowercase_not_upper [OF assms this] show False by (simp add: ascii_upper_def)
qed

text \<open>
  When a command is blocked. It spans several lines or holds a NUL; or, when it has neither
  chaining nor substitution, it holds one of the five dangerous patterns, or (when it uses no
  privileged program) it pipes a download into a shell or is an \<open>rm\<close> with \<open>-r\<close> or \<open>-f\<close> that
  mentions \<open>..\<close> or \<open>~/\<close>. The third marker of the code, \<open>$HOME\<close>, blocks nothing: it is looked up
  in the lower-case text.
\<close>

theorem blocked_iff:
  assumes "lowers_ascii u"
  shows "sa_level (analyze_command u c) = Dangerous \<longleftrightarrow>
    \<not> single_line c \<or>
    plain c \<and>
    (dangerous_reason u c \<noteq> None \<or>
     privileged_pattern u c = None \<and>
     (pipes_download_to_shell u c \<or>
      \<not> is_safe_command u (trim c) \<and> \<not> is_workspace_safe_command u (trim c) \<and>
      first_word (trim c) = ''rm'' \<and>
      (str_contains (to_lowercase u c) ''-r'' \<or> str_contains (to_lowercase u c) ''-f'') \<and>
      (str_contains (to_lowercase u c) ''..'' \<or> str_contains (to_lowercase u c) ''~/'')))"
proof -
  have "''rm'' \<notin> set NETWORK_COMMANDS" by (simp add: NETWORK_COMMANDS_def)
  then have single: "sa_level (analyze_single u c) = Dangerous \<longleftrightarrow>
      \<not> is_safe_command u (trim c) \<and> \<not> is_workspace_safe_command u (trim c) \<and>
      first_word (trim c) = ''rm'' \<and>
      (str_contains (to_lowercase u c) ''-r'' \<or> str_contains (to_lowercase u c) ''-f'') \<and>
      (str_contains (to_lowercase u c) ''..'' \<or> str_contains (to_lowercase u c) ''~/'')"
    using home_never_found [OF assms] by (auto simp: analyze_single_def analyze_rm_def Let_def)
  show ?thesis
    by (cases "plain c") (auto simp: not_plain plain_level single plain_def)
qed

text \<open>Deleting the home directory by its variable, without \<open>-f\<close>, is not blocked.\<close>

theorem blocked_iff_witness:
  "sa_level (analyze_command to_ascii_lowercase ''rm -r $HOME'') \<noteq> Dangerous"
proof -
  have "lowers_ascii to_ascii_lowercase"
    by (auto simp: lowers_ascii_def to_ascii_lowercase_def ascii_lower_not_upper)
  moreover have "to_lowercase to_ascii_lowercase ''rm -r $HOME'' = ''rm -r $home''"
    by (simp add: text_eval)
  moreover have "dangerous_reason to_ascii_lowercase ''rm -r $HOME'' = None"
    by (simp add: dangerous_reason_def DANGEROUS_PATTERNS_def text_eval)
  moreover have "single_line ''rm -r $HOME''" by (simp add: single_line_def)
  moreover have "\<not> pipes_download_to_shell to_ascii_lowercase ''rm -r $HOME''"
    by (simp add: pipes_download_to_shell_def text_eval starts_with_def)
  ultimately show ?thesis by (simp add: blocked_iff starts_with_def)
qed

end
