(* ===== verification/Approval_Cache.thy ===== *)
theory Approval_Cache
  imports Command_Safety Kernel_Projection
begin

text \<open>
  \<open>crates/runtime-server/src/tools/approval_cache.rs\<close>: the session cache of approvals. A call is
  looked up by a fingerprint of its tool and input; \<open>approval_cache_hit\<close> (\<open>approval.rs\<close>) skips the
  prompt when the cache answers \<open>Approved\<close>. The URL parser and the hash of a list of paths are
  the arguments of the fingerprint.
\<close>

section \<open>The cache\<close>

datatype approval_cache_status = CacheApproved | CacheDenied | CacheUnknown

type_synonym approval_key = string

text \<open>\<open>ApprovalCacheEntry\<close> without its creation time, which nothing reads.\<close>

type_synonym approval_cache = "approval_key \<rightharpoonup> bool"

definition cache_check :: "approval_cache \<Rightarrow> approval_key \<Rightarrow> approval_cache_status" where
  "cache_check cache key =
     (case cache key of
        None \<Rightarrow> CacheUnknown
      | Some approved_for_session \<Rightarrow>
          if approved_for_session then CacheApproved else CacheUnknown)"

definition cache_insert :: "approval_cache \<Rightarrow> approval_key \<Rightarrow> bool \<Rightarrow> approval_cache" where
  "cache_insert cache key approved_for_session = cache(key \<mapsto> approved_for_session)"

definition cache_clear :: "approval_cache \<Rightarrow> approval_cache" where
  "cache_clear cache = Map.empty"

section \<open>Fingerprints\<close>

text \<open>\<open>Value::get\<close>, \<open>Value::as_str\<close>, \<open>Value::as_array\<close>, and \<open>str::lines\<close>.\<close>

fun json_get :: "json \<Rightarrow> string \<Rightarrow> json option" where
  "json_get (JObject kvs) key = map_of kvs key"
| "json_get v key = None"

fun as_str :: "json \<Rightarrow> string option" where
  "as_str (JString s) = Some s"
| "as_str v = None"

fun as_array :: "json \<Rightarrow> json list option" where
  "as_array (JArray vs) = Some vs"
| "as_array v = None"

definition str_field :: "json \<Rightarrow> string \<Rightarrow> string option" where
  "str_field v key = Option.bind (json_get v key) as_str"

definition strip_cr :: "string \<Rightarrow> string" where
  "strip_cr l = (if l \<noteq> [] \<and> last l = CHR 0x0D then butlast l else l)"

definition text_lines :: "string \<Rightarrow> string list" where
  "text_lines s =
     (let ls = split_char (CHR 0x0A) s
      in map strip_cr (butlast ls) @ (if last ls = [] then [] else [last ls]))"

record url_tools =
  url_host :: "string \<Rightarrow> string option option"
  hash_paths :: "string list \<Rightarrow> string"

definition command_prefix :: "json \<Rightarrow> string" where
  "command_prefix input =
     (let cmd = (case str_field input ''command'' of Some s \<Rightarrow> s | None \<Rightarrow> []);
          tokens = split_whitespace cmd
      in if tokens = [] then ''<empty>'' else classify_command tokens)"

definition patch_paths :: "json \<Rightarrow> string list" where
  "patch_paths input =
     (case Option.bind (json_get input ''changes'') as_array of
        Some changes \<Rightarrow> List.map_filter (\<lambda>c. str_field c ''path'') changes
      | None \<Rightarrow>
          (case str_field input ''patch'' of
             Some patch \<Rightarrow>
               List.map_filter (\<lambda>l. map_option trim (strip_prefix l ''+++ b/'')) (text_lines patch)
           | None \<Rightarrow> []))"

definition hash_patch_paths :: "url_tools \<Rightarrow> json \<Rightarrow> string" where
  "hash_patch_paths tools input =
     (let paths = remdups_adj (sort (patch_paths input)) in
      if paths = [] then ''no_files'' else hash_paths tools paths)"

definition parse_host :: "url_tools \<Rightarrow> json \<Rightarrow> string" where
  "parse_host tools input =
     (let url = (case str_field input ''url'' of Some s \<Rightarrow> s | None \<Rightarrow> []) in
      case url_host tools url of
        Some (Some h) \<Rightarrow> h
      | _ \<Rightarrow> url)"

definition SHELL_TOOLS :: "string list" where
  "SHELL_TOOLS =
     [''exec_shell'', ''exec_shell_wait'', ''exec_shell_interact'', ''exec_wait'', ''exec_interact'']"

definition build_approval_key :: "url_tools \<Rightarrow> string \<Rightarrow> json \<Rightarrow> approval_key" where
  "build_approval_key tools tool input =
     (if tool = ''apply_patch'' then ''patch:'' @ hash_patch_paths tools input
      else if tool \<in> set SHELL_TOOLS then ''shell:'' @ command_prefix input
      else if tool \<in> {''fetch_url'', ''web.fetch'', ''web_fetch''} then ''net:'' @ parse_host tools input
      else if tool = ''browser_navigate'' then
        let host = to_ascii_lowercase (parse_host tools input) in
        if host = [] then ''browser_nav:unknown'' else ''browser_nav:'' @ host
      else if tool \<in> {''write_file'', ''edit_file''} then
        let path = (case Option.bind
                      (case json_get input ''path'' of
                         Some v \<Rightarrow> Some v | None \<Rightarrow> json_get input ''file_path'') as_str of
                      Some s \<Rightarrow> s | None \<Rightarrow> [])
        in if path = [] then ''tool:'' @ tool else ''file:'' @ path
      else ''tool:'' @ tool)"

definition approval_cache_hit :: "url_tools \<Rightarrow> approval_cache \<Rightarrow> string \<Rightarrow> json \<Rightarrow> bool" where
  "approval_cache_hit tools cache tool input \<longleftrightarrow>
     cache_check cache (build_approval_key tools tool input) = CacheApproved"

section \<open>What a session approval covers\<close>

definition shell_input :: "string \<Rightarrow> json" where
  "shell_input command = JObject [(''command'', JString command)]"

lemma shell_key:
  "build_approval_key tools ''exec_shell'' (shell_input command) =
     ''shell:'' @ (if split_whitespace command = [] then ''<empty>''
                   else classify_command (split_whitespace command))"
  by (simp add: build_approval_key_def SHELL_TOOLS_def command_prefix_def shell_input_def
      str_field_def Let_def)

lemma cache_hit_insert:
  "approval_cache_hit tools (cache_insert cache key True) tool input \<longleftrightarrow>
     build_approval_key tools tool input = key \<or> approval_cache_hit tools cache tool input"
  by (simp add: approval_cache_hit_def cache_check_def cache_insert_def)



end
