(* ===== verification/Tool_Scheduler.thy ===== *)
theory Tool_Scheduler
  imports Approval_Cache "HOL-Library.Multiset"
begin

text \<open>
  The resource scheduler of tool batches: \<open>crates/tools/src/dag_scheduler.rs\<close>,
  \<open>schedule_bridge.rs\<close> and the group loop of \<open>execute_tool_plans\<close>
  (\<open>crates/runtime-server/src/core/engine/turn_loop/tool_plans_exec.rs\<close>). A batch of planned calls
  is cut into waves by the conflicts between their resources; a wave is cut into one parallel
  batch of reads and a serial rest.

  A \<open>HashSet\<close> of resources is a set. The sets of indices of the wave loop are lists: their order
  stands for the iteration order of the hash set, on which only the fallback for a wave without
  ready plans depends; the fallback is shown to be dead code. An index out of range, a panic in
  the code, is \<open>None\<close>.
\<close>

section \<open>Resources and dependencies\<close>

datatype schedule_resource = WorkspaceScan | ResPath string | WorkspaceWrite

record dag_plan_view =
  dv_index :: nat
  dv_parallel_eligible :: bool
  dv_reads :: "schedule_resource set"
  dv_writes :: "schedule_resource set"

fun conflicts_with :: "schedule_resource \<Rightarrow> schedule_resource \<Rightarrow> bool" where
  "conflicts_with (ResPath a) (ResPath b) = (a = b)"
| "conflicts_with WorkspaceWrite WorkspaceWrite = True"
| "conflicts_with WorkspaceWrite (ResPath p) = True"
| "conflicts_with (ResPath p) WorkspaceWrite = True"
| "conflicts_with r s = False"

definition resource_conflict :: "schedule_resource set \<Rightarrow> schedule_resource set \<Rightarrow> bool" where
  "resource_conflict left right \<longleftrightarrow> (\<exists>l \<in> left. \<exists>r \<in> right. conflicts_with l r)"

definition coarse_workspace_write_before_scan ::
  "schedule_resource set \<Rightarrow> schedule_resource set \<Rightarrow> bool" where
  "coarse_workspace_write_before_scan writes reads \<longleftrightarrow> WorkspaceScan \<in> reads \<and> WorkspaceWrite \<in> writes"

definition depends_on :: "dag_plan_view \<Rightarrow> dag_plan_view \<Rightarrow> bool" where
  "depends_on self prior \<longleftrightarrow>
     resource_conflict (dv_writes prior) (dv_reads self) \<or>
     resource_conflict (dv_writes prior) (dv_writes self) \<or>
     resource_conflict (dv_reads prior) (dv_writes self) \<or>
     coarse_workspace_write_before_scan (dv_writes prior) (dv_reads self)"

section \<open>Execution waves\<close>

definition dependencies :: "dag_plan_view list \<Rightarrow> nat list list" where
  "dependencies plans =
     map (\<lambda>j. map dv_index (filter (depends_on (plans ! j)) (take j plans))) [0..<length plans]"

definition next_wave :: "nat list list \<Rightarrow> nat list \<Rightarrow> nat list \<Rightarrow> nat list" where
  "next_wave deps remaining satisfied =
     (let ready = filter (\<lambda>i. list_all (\<lambda>d. d \<in> set satisfied) (deps ! i)) remaining in
      sort (if ready = [] then take 1 remaining else ready))"

function waves_loop :: "nat list list \<Rightarrow> nat list \<Rightarrow> nat list \<Rightarrow> nat list list option" where
  "waves_loop deps remaining satisfied =
     (if remaining = [] then Some []
      else if list_ex (\<lambda>i. length deps \<le> i) remaining then None
      else
        let wave = next_wave deps remaining satisfied in
        map_option ((#) wave)
          (waves_loop deps (filter (\<lambda>i. i \<notin> set wave) remaining) (satisfied @ wave)))"
  by pat_completeness auto
termination
proof (relation "measure (\<lambda>(_, remaining, _). length remaining)", goal_cases)
  case (2 deps remaining satisfied wave)
  then obtain i rest where r: "remaining = i # rest" by (cases remaining) auto
  have "\<exists>i \<in> set remaining. i \<in> set wave"
  proof (cases "filter (\<lambda>i. list_all (\<lambda>d. d \<in> set satisfied) (deps ! i)) remaining = []")
    case True
    with 2 r have "i \<in> set wave" by (simp add: next_wave_def)
    then show ?thesis by (simp add: r)
  next
    case False
    with 2(3) have "set wave = set (filter (\<lambda>i. list_all (\<lambda>d. d \<in> set satisfied) (deps ! i)) remaining)"
      by (simp add: next_wave_def Let_def)
    with False show ?thesis by (auto simp: filter_empty_conv)
  qed
  then have "length (filter (\<lambda>i. i \<notin> set wave) remaining) < length remaining"
    by (auto intro: length_filter_less)
  then show ?case by simp
qed simp

declare waves_loop.simps [simp del]

definition build_execution_waves :: "dag_plan_view list \<Rightarrow> nat list list option" where
  "build_execution_waves plans =
     (case plans of
        [] \<Rightarrow> Some []
      | [p] \<Rightarrow> Some [[dv_index p]]
      | _ \<Rightarrow> waves_loop (dependencies plans) (remdups (map dv_index plans)) [])"

definition wave_parallel_eligible :: "dag_plan_view list \<Rightarrow> nat list \<Rightarrow> bool" where
  "wave_parallel_eligible plans wave \<longleftrightarrow>
     wave \<noteq> [] \<and>
     list_all (\<lambda>i. case List.find (\<lambda>p. dv_index p = i) plans of
                     Some p \<Rightarrow> dv_parallel_eligible p | None \<Rightarrow> False) wave"

record scheduler_shadow_stats =
  sh_comparisons :: u64
  sh_diffs :: u64

definition record_scheduler_shadow_diff ::
  "nat list list \<Rightarrow> nat list list \<Rightarrow> scheduler_shadow_stats \<Rightarrow> scheduler_shadow_stats" where
  "record_scheduler_shadow_diff legacy dag st =
     (let st' = st\<lparr>sh_comparisons := sh_comparisons st + 1\<rparr> in
      if legacy \<noteq> dag then st'\<lparr>sh_diffs := sh_diffs st' + 1\<rparr> else st')"

section \<open>Plans of the turn loop\<close>

text \<open>\<open>ToolExecutionPlan\<close> (\<open>turn_loop/exec.rs\<close>): the fields the scheduler reads.\<close>

record tool_execution_plan =
  xp_index :: nat
  xp_id :: string
  xp_name :: string
  xp_input :: json
  xp_interactive :: bool
  xp_approval_required :: bool
  xp_supports_parallel :: bool
  xp_read_only :: bool

definition normalize_schedule_path :: "string \<Rightarrow> string" where
  "normalize_schedule_path raw =
     to_ascii_lowercase (map (\<lambda>c. if c = CHR 0x5C then CHR ''/'' else c) (trim raw))"

definition path_field :: "json \<Rightarrow> string option" where
  "path_field input =
     find_map (\<lambda>key.
       case str_field input key of
         Some s \<Rightarrow> if trim s \<noteq> [] then Some (normalize_schedule_path (trim s)) else None
       | None \<Rightarrow> None)
       [''path'', ''file_path'', ''target_path'', ''file'', ''filename'']"

definition workspace_scan_tool :: "string \<Rightarrow> bool" where
  "workspace_scan_tool name \<longleftrightarrow>
     name \<in> {''grep'', ''glob'', ''glob_files'', ''list_dir'', ''file_search'', ''search_files'',
             ''find_files'', ''git_status'', ''git_diff'', ''git_log''}"

definition shell_tool :: "string \<Rightarrow> bool" where
  "shell_tool name \<longleftrightarrow> name \<in> {''exec_shell'', ''exec_shell_wait'', ''exec_shell_interact''}"

definition shell_schedule_read_only :: "(string \<Rightarrow> string) \<Rightarrow> string \<Rightarrow> json \<Rightarrow> bool \<Rightarrow> bool" where
  "shell_schedule_read_only u tool input sandbox_enforced =
     (if \<not> shell_tool tool \<or> \<not> sandbox_enforced then False
      else
        case str_field input ''command'' of
          None \<Rightarrow> False
        | Some command \<Rightarrow> sa_level (analyze_command u command) = Safe)"

definition extract_schedule_resources ::
  "string \<Rightarrow> json \<Rightarrow> bool \<Rightarrow> schedule_resource set \<times> schedule_resource set" where
  "extract_schedule_resources tool input ro =
     (case path_field input of
        Some path \<Rightarrow> if ro then ({ResPath path}, {}) else ({}, {ResPath path})
      | None \<Rightarrow>
          if workspace_scan_tool tool \<or> ro \<and> starts_with tool ''grep'' then ({WorkspaceScan}, {})
          else if ro then ({WorkspaceScan}, {})
          else ({}, {WorkspaceWrite}))"

definition dag_plan_view_of :: "(string \<Rightarrow> string) \<Rightarrow> bool \<Rightarrow> tool_execution_plan \<Rightarrow> dag_plan_view" where
  "dag_plan_view_of u sandbox_enforced plan =
     (let shell_read = shell_schedule_read_only u (xp_name plan) (xp_input plan) sandbox_enforced;
          effective_read_only = xp_read_only plan \<or> shell_read;
          (reads, writes) = extract_schedule_resources (xp_name plan) (xp_input plan) effective_read_only
      in \<lparr>dv_index = xp_index plan,
          dv_parallel_eligible = effective_read_only \<and> (xp_supports_parallel plan \<or> shell_read) \<and>
            \<not> xp_approval_required plan \<and> \<not> xp_interactive plan,
          dv_reads = reads, dv_writes = writes\<rparr>)"

section \<open>Groups and batches\<close>

text \<open>\<open>should_parallelize_tool_batch\<close> (\<open>crates/core/src/engine/dispatch.rs\<close>), on the plan's flags.\<close>

definition should_parallelize_tool_batch :: "tool_execution_plan list \<Rightarrow> bool" where
  "should_parallelize_tool_batch plans \<longleftrightarrow>
     plans \<noteq> [] \<and>
     list_all (\<lambda>p. xp_read_only p \<and> xp_supports_parallel p \<and> \<not> xp_approval_required p \<and>
                   \<not> xp_interactive p) plans"

definition legacy_execution_groups :: "tool_execution_plan list \<Rightarrow> nat list list" where
  "legacy_execution_groups plans =
     (if plans = [] then []
      else if should_parallelize_tool_batch plans then [[0..<length plans]]
      else map (\<lambda>i. [i]) [0..<length plans])"

definition dag_execution_groups ::
  "(string \<Rightarrow> string) \<Rightarrow> bool \<Rightarrow> tool_execution_plan list \<Rightarrow> nat list list option" where
  "dag_execution_groups u enforced plans =
     (case plans of
        [] \<Rightarrow> Some []
      | [p] \<Rightarrow> Some [[xp_index p]]
      | _ \<Rightarrow> build_execution_waves (map (dag_plan_view_of u enforced) plans))"

datatype tools_scheduler_mode = SchedLegacy | SchedShadow | SchedDag

definition parse_scheduler_mode :: "string option \<Rightarrow> tools_scheduler_mode" where
  "parse_scheduler_mode value =
     (case map_option (\<lambda>v. to_ascii_lowercase (trim v)) value of
        Some v \<Rightarrow>
          if v = ''legacy'' then SchedLegacy
          else if v = ''shadow'' then SchedShadow
          else SchedDag
      | None \<Rightarrow> SchedDag)"

fun uses_dag_groups :: "tools_scheduler_mode \<Rightarrow> bool" where
  "uses_dag_groups SchedDag = True"
| "uses_dag_groups m = False"

fun resolve_execution_groups ::
  "(string \<Rightarrow> string) \<Rightarrow> bool \<Rightarrow> tools_scheduler_mode \<Rightarrow> tool_execution_plan list \<Rightarrow>
   scheduler_shadow_stats \<Rightarrow> (nat list list \<times> scheduler_shadow_stats) option" where
  "resolve_execution_groups u enforced SchedLegacy plans st = Some (legacy_execution_groups plans, st)"
| "resolve_execution_groups u enforced SchedDag plans st =
     map_option (\<lambda>groups. (groups, st)) (dag_execution_groups u enforced plans)"
| "resolve_execution_groups u enforced SchedShadow plans st =
     map_option (\<lambda>dag. (legacy_execution_groups plans,
         record_scheduler_shadow_diff (legacy_execution_groups plans) dag st))
       (dag_execution_groups u enforced plans)"

definition wave_parallel_allowed ::
  "(string \<Rightarrow> string) \<Rightarrow> bool \<Rightarrow> tool_execution_plan list \<Rightarrow> nat list \<Rightarrow> bool" where
  "wave_parallel_allowed u enforced plans grp =
     (if length grp \<le> 1 then False
      else
        let views = List.map_filter (\<lambda>i. if i < length plans
              then Some (dag_plan_view_of u enforced (plans ! i)) else None) grp
        in wave_parallel_eligible views grp)"

definition split_wave_execution_subgroups ::
  "(string \<Rightarrow> string) \<Rightarrow> bool \<Rightarrow> tool_execution_plan list \<Rightarrow> nat list \<Rightarrow> nat list list option" where
  "split_wave_execution_subgroups u enforced plans wave =
     (if length wave \<le> 1 then Some [wave]
      else if list_ex (\<lambda>i. length plans \<le> i) wave then None
      else
        let sorted_wave = sort wave;
            eligible = (\<lambda>i. dv_parallel_eligible (dag_plan_view_of u enforced (plans ! i)));
            parallel = filter eligible sorted_wave
        in
        if 1 < length parallel then
          Some (parallel # map (\<lambda>i. [i]) (filter (\<lambda>i. \<not> eligible i) sorted_wave))
        else Some (map (\<lambda>i. [i]) sorted_wave))"

text \<open>The batches of \<open>execute_tool_plans\<close>, in the order in which they run.\<close>

definition execution_batches ::
  "(string \<Rightarrow> string) \<Rightarrow> bool \<Rightarrow> tools_scheduler_mode \<Rightarrow> tool_execution_plan list \<Rightarrow>
   scheduler_shadow_stats \<Rightarrow> nat list list option" where
  "execution_batches u enforced mode plans st =
     (case resolve_execution_groups u enforced mode plans st of
        None \<Rightarrow> None
      | Some (groups, _) \<Rightarrow>
          if uses_dag_groups mode then
            map_option concat
              (those (map (split_wave_execution_subgroups u enforced plans) groups))
          else Some groups)"

section \<open>The wave loop\<close>

text \<open>Batches that run one after the other: \<open>i\<close> runs in an earlier batch than \<open>j\<close>.\<close>

definition runs_before :: "nat list list \<Rightarrow> nat \<Rightarrow> nat \<Rightarrow> bool" where
  "runs_before batches i j \<longleftrightarrow>
     (\<exists>b < length batches. \<exists>a < b. i \<in> set (batches ! a) \<and> j \<in> set (batches ! b))"

lemma runs_before_Cons:
  "runs_before (w # ws) i j \<longleftrightarrow> i \<in> set w \<and> (\<exists>v \<in> set ws. j \<in> set v) \<or> runs_before ws i j"
  (is "?l \<longleftrightarrow> ?r")
proof
  assume ?l
  then obtain a b where ab: "b < length (w # ws)" "a < b" "i \<in> set ((w # ws) ! a)"
      "j \<in> set ((w # ws) ! b)"
    by (auto simp: runs_before_def)
  then obtain b' where b: "b = Suc b'" by (cases b) auto
  show ?r
  proof (cases a)
    case 0
    with ab b show ?thesis by auto
  next
    case (Suc a')
    with ab b have "runs_before ws i j" by (auto simp: runs_before_def)
    then show ?thesis ..
  qed
next
  assume ?r
  then show ?l
  proof
    assume "i \<in> set w \<and> (\<exists>v \<in> set ws. j \<in> set v)"
    then obtain b where "i \<in> set w" "b < length ws" "j \<in> set (ws ! b)"
      by (metis in_set_conv_nth)
    then have "Suc b < length (w # ws) \<and> 0 < Suc b \<and> i \<in> set ((w # ws) ! 0) \<and>
        j \<in> set ((w # ws) ! Suc b)" by simp
    then show ?l unfolding runs_before_def by blast
  next
    assume "runs_before ws i j"
    then obtain a b where "b < length ws" "a < b" "i \<in> set (ws ! a)" "j \<in> set (ws ! b)"
      by (auto simp: runs_before_def)
    then have "Suc b < length (w # ws) \<and> Suc a < Suc b \<and> i \<in> set ((w # ws) ! Suc a) \<and>
        j \<in> set ((w # ws) ! Suc b)" by simp
    then show ?l unfolding runs_before_def by blast
  qed
qed

lemma runs_before_append:
  "runs_before (us @ vs) i j \<longleftrightarrow>
     runs_before us i j \<or> runs_before vs i j \<or> (\<exists>u \<in> set us. i \<in> set u) \<and> (\<exists>v \<in> set vs. j \<in> set v)"
proof (induction us)
  case Nil
  then show ?case by (simp add: runs_before_def)
next
  case (Cons u us)
  then show ?case by (auto simp: runs_before_Cons)
qed

text \<open>
  The state of the loop: the indices below \<open>n\<close> are remaining or satisfied, and every dependency
  points to a smaller index. Then some remaining index is always ready: the smallest.
\<close>

definition waves_inv :: "nat list list \<Rightarrow> nat list \<Rightarrow> nat list \<Rightarrow> bool" where
  "waves_inv deps remaining satisfied \<longleftrightarrow>
     distinct remaining \<and> set remaining \<inter> set satisfied = {} \<and>
     set remaining \<union> set satisfied = {..<length deps} \<and>
     (\<forall>i < length deps. \<forall>d \<in> set (deps ! i). d < i)"

definition ready_indices :: "nat list list \<Rightarrow> nat list \<Rightarrow> nat list \<Rightarrow> nat list" where
  "ready_indices deps remaining satisfied =
     filter (\<lambda>i. \<forall>d \<in> set (deps ! i). d \<in> set satisfied) remaining"

lemma some_ready:
  assumes "waves_inv deps remaining satisfied" and "remaining \<noteq> []"
  shows "ready_indices deps remaining satisfied \<noteq> []"
proof -
  define i where "i = Min (set remaining)"
  have i: "i \<in> set remaining" "\<And>k. k \<in> set remaining \<Longrightarrow> i \<le> k"
    using assms(2) by (auto simp: i_def)
  have "d \<in> set satisfied" if "d \<in> set (deps ! i)" for d
  proof -
    have "i < length deps" using assms(1) i(1) by (auto simp: waves_inv_def)
    with that assms(1) have "d < i" by (auto simp: waves_inv_def)
    with \<open>i < length deps\<close> have "d \<in> set remaining \<union> set satisfied"
      using assms(1) by (simp add: waves_inv_def)
    with i(2) [of d] \<open>d < i\<close> show ?thesis by auto
  qed
  with i(1) show ?thesis by (auto simp: ready_indices_def filter_empty_conv)
qed

lemma next_wave_ready:
  assumes "waves_inv deps remaining satisfied" and "remaining \<noteq> []"
  shows "next_wave deps remaining satisfied = sort (ready_indices deps remaining satisfied)"
  using some_ready [OF assms] by (simp add: next_wave_def ready_indices_def list_all_iff Let_def)

lemma waves_loop_correct:
  assumes "waves_inv deps remaining satisfied"
  shows "\<exists>ws. waves_loop deps remaining satisfied = Some ws \<and>
    mset (concat ws) = mset remaining \<and> (\<forall>w \<in> set ws. w \<noteq> [] \<and> sorted w) \<and>
    (\<forall>i \<in> set remaining. \<forall>d \<in> set (deps ! i). d \<in> set satisfied \<or> runs_before ws d i)"
  using assms
proof (induction deps remaining satisfied rule: waves_loop.induct)
  case (1 deps remaining satisfied)
  show ?case
  proof (cases "remaining = []")
    case True
    then show ?thesis by (simp add: waves_loop.simps)
  next
    case False
    let ?wave = "sort (ready_indices deps remaining satisfied)"
    let ?rest = "filter (\<lambda>i. i \<notin> set ?wave) remaining"
    have wave: "next_wave deps remaining satisfied = ?wave"
      by (rule next_wave_ready [OF 1(2) False])
    have inside: "\<not> list_ex (\<lambda>i. length deps \<le> i) remaining"
      using 1(2) by (auto simp: waves_inv_def list_ex_iff not_le)
    have sub: "set ?wave \<subseteq> set remaining" by (auto simp: ready_indices_def)
    have "waves_inv deps ?rest (satisfied @ ?wave)"
      using 1(2) sub by (auto simp: waves_inv_def)
    from 1(1) [OF False inside wave [symmetric] this] obtain ws where ws:
        "waves_loop deps ?rest (satisfied @ ?wave) = Some ws" "mset (concat ws) = mset ?rest"
        "\<forall>w \<in> set ws. w \<noteq> [] \<and> sorted w"
        "\<forall>i \<in> set ?rest. \<forall>d \<in> set (deps ! i). d \<in> set (satisfied @ ?wave) \<or> runs_before ws d i"
      by blast
    have "waves_loop deps remaining satisfied = Some (?wave # ws)"
      using False inside ws(1) by (simp add: waves_loop.simps [of deps remaining] wave Let_def)
    moreover have "mset (concat (?wave # ws)) = mset remaining"
    proof -
      have "filter (\<lambda>i. i \<in> set ?wave) remaining = ready_indices deps remaining satisfied"
        by (auto simp: ready_indices_def intro!: filter_cong)
      then have "mset ?wave = mset (filter (\<lambda>i. i \<in> set ?wave) remaining)" by simp
      then show ?thesis using ws(2) by (simp add: multiset_partition [symmetric])
    qed
    moreover have "\<forall>w \<in> set (?wave # ws). w \<noteq> [] \<and> sorted w"
    proof -
      have "?wave \<noteq> []" using some_ready [OF 1(2) False] by (metis length_0_conv length_sort)
      then show ?thesis using ws(3) by (simp del: sort_key_simps)
    qed
    moreover have "d \<in> set satisfied \<or> runs_before (?wave # ws) d i"
      if i: "i \<in> set remaining" and d: "d \<in> set (deps ! i)" for i d
    proof (cases "i \<in> set ?wave")
      case True
      then show ?thesis using d by (auto simp: ready_indices_def)
    next
      case out: False
      then have "i \<in> set ?rest" using i by simp
      with ws(2) have "\<exists>v \<in> set ws. i \<in> set v"
        by (metis set_mset_mset UN_iff set_concat)
      moreover have "d \<in> set (satisfied @ ?wave) \<or> runs_before ws d i"
        using ws(4) \<open>i \<in> set ?rest\<close> d by blast
      ultimately show ?thesis by (auto simp: runs_before_Cons)
    qed
    ultimately show ?thesis by blast
  qed
qed

text \<open>The index of a plan is its position in the batch, as the turn loop numbers them.\<close>

definition indexed :: "dag_plan_view list \<Rightarrow> bool" where
  "indexed plans \<longleftrightarrow> map dv_index plans = [0..<length plans]"

lemma indexed_nth: "indexed plans \<Longrightarrow> i < length plans \<Longrightarrow> dv_index (plans ! i) = i"
  by (metis indexed_def length_map nth_map add_0 nth_upt)

lemma dependencies_iff:
  assumes "indexed plans" and "j < length plans"
  shows "i \<in> set (dependencies plans ! j) \<longleftrightarrow> i < j \<and> depends_on (plans ! j) (plans ! i)"
proof -
  have "i \<in> set (dependencies plans ! j) \<longleftrightarrow>
      (\<exists>k < j. i = dv_index (plans ! k) \<and> depends_on (plans ! j) (plans ! k))"
    using assms(2) by (auto simp: dependencies_def in_set_conv_nth image_iff Bex_def)
  then show ?thesis using assms indexed_nth [OF assms(1)] by (metis order.strict_trans)
qed

lemma waves_correct:
  assumes "indexed plans"
  shows "\<exists>ws. build_execution_waves plans = Some ws \<and> mset (concat ws) = mset [0..<length plans] \<and>
    (\<forall>w \<in> set ws. w \<noteq> [] \<and> sorted w) \<and>
    (\<forall>j < length plans. \<forall>i < j. depends_on (plans ! j) (plans ! i) \<longrightarrow> runs_before ws i j)"
proof -
  consider "plans = []" | p where "plans = [p]" | p q rest where "plans = p # q # rest"
    by (metis list.exhaust)
  then show ?thesis
  proof cases
    case 3
    have inv: "waves_inv (dependencies plans) [0..<length plans] []"
      using dependencies_iff [OF assms] by (auto simp: waves_inv_def dependencies_def)
    have "build_execution_waves plans = waves_loop (dependencies plans) [0..<length plans] []"
      using assms 3 by (simp add: build_execution_waves_def indexed_def distinct_remdups_id
          del: upt_Suc)
    with waves_loop_correct [OF inv] dependencies_iff [OF assms] show ?thesis by fastforce
  qed (use assms in \<open>auto simp: build_execution_waves_def indexed_def\<close>)
qed

section \<open>The batches of the resource scheduler\<close>

definition numbered :: "tool_execution_plan list \<Rightarrow> bool" where
  "numbered plans \<longleftrightarrow> map xp_index plans = [0..<length plans]"

lemma index_of_view [simp]: "dv_index (dag_plan_view_of u e p) = xp_index p"
  by (simp add: dag_plan_view_of_def Let_def case_prod_beta)

lemma read_only_resources: "snd (extract_schedule_resources tool input True) = {}"
  by (simp add: extract_schedule_resources_def split: option.split)

lemma eligible_view:
  assumes "dv_parallel_eligible (dag_plan_view_of u e p)"
  shows "dv_writes (dag_plan_view_of u e p) = {} \<and> \<not> xp_approval_required p \<and> \<not> xp_interactive p"
proof -
  from assms have "xp_read_only p \<or> shell_schedule_read_only u (xp_name p) (xp_input p) e"
    and "\<not> xp_approval_required p \<and> \<not> xp_interactive p"
    by (auto simp: dag_plan_view_of_def Let_def case_prod_beta)
  then show ?thesis
    by (simp add: dag_plan_view_of_def Let_def case_prod_beta read_only_resources)
qed

lemma concat_singletons: "concat (map (\<lambda>i. [i]) xs) = xs"
  by (induction xs) auto

lemma mset_filter_split: "mset (filter P xs) + mset (filter (\<lambda>x. \<not> P x) xs) = mset xs"
  by (simp add: multiset_partition [symmetric])

lemma split_wave_correct:
  assumes "w \<noteq> []" and "\<forall>i \<in> set w. i < length plans"
  shows "\<exists>bs. split_wave_execution_subgroups u e plans w = Some bs \<and> mset (concat bs) = mset w \<and>
    (\<forall>b \<in> set bs. 1 < length b \<longrightarrow>
       (\<forall>i \<in> set b. dv_parallel_eligible (dag_plan_view_of u e (plans ! i))))"
proof (cases "length w \<le> 1")
  case True
  then show ?thesis by (simp add: split_wave_execution_subgroups_def)
next
  case False
  let ?el = "\<lambda>i. dv_parallel_eligible (dag_plan_view_of u e (plans ! i))"
  have inside: "\<not> list_ex (\<lambda>i. length plans \<le> i) w"
    using assms(2) by (auto simp: list_ex_iff not_le)
  let ?par = "filter ?el (sort w)" and ?ser = "filter (\<lambda>i. \<not> ?el i) (sort w)"
  show ?thesis
  proof (cases "1 < length ?par")
    case True
    then have "split_wave_execution_subgroups u e plans w = Some (?par # map (\<lambda>i. [i]) ?ser)"
      using False inside by (simp add: split_wave_execution_subgroups_def Let_def)
    moreover have "mset (concat (?par # map (\<lambda>i. [i]) ?ser)) = mset w"
      using mset_filter_split [of ?el "sort w"] by (simp add: concat_singletons)
    moreover have "\<forall>b \<in> set (?par # map (\<lambda>i. [i]) ?ser). 1 < length b \<longrightarrow> (\<forall>i \<in> set b. ?el i)"
      by auto
    ultimately show ?thesis by blast
  next
    case no: False
    then have "split_wave_execution_subgroups u e plans w = Some (map (\<lambda>i. [i]) (sort w))"
      using False inside by (simp add: split_wave_execution_subgroups_def Let_def)
    then show ?thesis by (auto simp: concat_singletons)
  qed
qed

lemma split_waves_correct:
  assumes "\<forall>w \<in> set ws. w \<noteq> [] \<and> (\<forall>i \<in> set w. i < length plans)"
  shows "\<exists>bs. map_option concat (those (map (split_wave_execution_subgroups u e plans) ws)) = Some bs \<and>
    mset (concat bs) = mset (concat ws) \<and>
    (\<forall>b \<in> set bs. 1 < length b \<longrightarrow>
       (\<forall>i \<in> set b. dv_parallel_eligible (dag_plan_view_of u e (plans ! i)))) \<and>
    (\<forall>i j. runs_before ws i j \<longrightarrow> runs_before bs i j)"
  using assms
proof (induction ws)
  case Nil
  then show ?case by (simp add: runs_before_def)
next
  case (Cons w ws)
  then obtain bs where bs:
      "map_option concat (those (map (split_wave_execution_subgroups u e plans) ws)) = Some bs"
      "mset (concat bs) = mset (concat ws)"
      "\<forall>b \<in> set bs. 1 < length b \<longrightarrow>
        (\<forall>i \<in> set b. dv_parallel_eligible (dag_plan_view_of u e (plans ! i)))"
      "\<forall>i j. runs_before ws i j \<longrightarrow> runs_before bs i j"
    by auto
  from Cons.prems split_wave_correct [of w plans u e] obtain cs where cs:
      "split_wave_execution_subgroups u e plans w = Some cs" "mset (concat cs) = mset w"
      "\<forall>b \<in> set cs. 1 < length b \<longrightarrow>
        (\<forall>i \<in> set b. dv_parallel_eligible (dag_plan_view_of u e (plans ! i)))"
    by auto
  have members: "(\<exists>c \<in> set cs. i \<in> set c) \<longleftrightarrow> i \<in> set w"
    "(\<exists>b \<in> set bs. i \<in> set b) \<longleftrightarrow> (\<exists>v \<in> set ws. i \<in> set v)" for i
    using arg_cong [OF cs(2), of set_mset] arg_cong [OF bs(2), of set_mset] by auto
  have "map_option concat (those (map (split_wave_execution_subgroups u e plans) (w # ws))) =
      Some (cs @ bs)"
    using bs(1) cs(1) by auto
  moreover have "runs_before (cs @ bs) i j" if "runs_before (w # ws) i j" for i j
    using that bs(4) members by (auto simp: runs_before_Cons runs_before_append)
  ultimately show ?case using bs(2,3) cs(2,3) by auto
qed

lemma dag_batches_correct:
  assumes "numbered plans"
  shows "\<exists>bs. execution_batches u e SchedDag plans st = Some bs \<and>
    mset (concat bs) = mset [0..<length plans] \<and>
    (\<forall>b \<in> set bs. 1 < length b \<longrightarrow>
       (\<forall>i \<in> set b. dv_parallel_eligible (dag_plan_view_of u e (plans ! i)))) \<and>
    (\<forall>j < length plans. \<forall>i < j.
       depends_on (dag_plan_view_of u e (plans ! j)) (dag_plan_view_of u e (plans ! i)) \<longrightarrow>
       runs_before bs i j)"
proof -
  let ?views = "map (dag_plan_view_of u e) plans"
  have groups: "dag_execution_groups u e plans = build_execution_waves ?views"
    by (cases plans rule: remdups_adj.cases)
       (simp_all add: dag_execution_groups_def build_execution_waves_def)
  have "indexed ?views" using assms by (simp add: indexed_def numbered_def comp_def)
  from waves_correct [OF this] obtain ws where ws: "build_execution_waves ?views = Some ws"
      "mset (concat ws) = mset [0..<length plans]" "\<forall>w \<in> set ws. w \<noteq> [] \<and> sorted w"
      "\<forall>j < length plans. \<forall>i < j. depends_on (?views ! j) (?views ! i) \<longrightarrow> runs_before ws i j"
    by auto
  have "set (concat ws) = {..<length plans}"
    using arg_cong [OF ws(2), of set_mset] by auto
  then have "\<forall>w \<in> set ws. w \<noteq> [] \<and> (\<forall>i \<in> set w. i < length plans)" using ws(3) by auto
  from split_waves_correct [OF this] obtain bs where bs:
      "map_option concat (those (map (split_wave_execution_subgroups u e plans) ws)) = Some bs"
      "mset (concat bs) = mset (concat ws)"
      "\<forall>b \<in> set bs. 1 < length b \<longrightarrow>
        (\<forall>i \<in> set b. dv_parallel_eligible (dag_plan_view_of u e (plans ! i)))"
      "\<forall>i j. runs_before ws i j \<longrightarrow> runs_before bs i j"
    by blast
  have "execution_batches u e SchedDag plans st = Some bs"
    using bs(1) ws(1) by (simp add: execution_batches_def groups)
  with bs ws(2,4) show ?thesis by auto
qed

text \<open>
  C19. The scheduler neither panics, drops nor repeats a call: for the numbered plans of a batch it
  returns batches that together hold every plan exactly once.
\<close>

theorem every_plan_runs_once:
  assumes "numbered plans"
  shows "\<exists>bs. execution_batches u e SchedDag plans st = Some bs \<and>
    mset (concat bs) = mset [0..<length plans]"
  using dag_batches_correct [OF assms, of u e st] by blast

text \<open>
  C7. Program order of conflicting calls: when a later call depends on an earlier one through
  its resources, the earlier one runs in an earlier batch.
\<close>

theorem conflicting_calls_in_order:
  assumes "numbered plans" and "execution_batches u e SchedDag plans st = Some bs"
    and "j < length plans" and "i < j"
    and "depends_on (dag_plan_view_of u e (plans ! j)) (dag_plan_view_of u e (plans ! i))"
  shows "runs_before bs i j"
  using dag_batches_correct [OF assms(1), of u e st] assms(2-) by auto

text \<open>
  C14. What runs in parallel: a batch of several calls holds only calls that write no resource,
  ask for no approval and do not interact.
\<close>

theorem parallel_batches_only_read:
  assumes "numbered plans" and "execution_batches u e SchedDag plans st = Some bs"
    and "b \<in> set bs" and "1 < length b" and "i \<in> set b"
  shows "dv_writes (dag_plan_view_of u e (plans ! i)) = {} \<and>
    \<not> xp_approval_required (plans ! i) \<and> \<not> xp_interactive (plans ! i)"
  using dag_batches_correct [OF assms(1), of u e st] assms(2-) eligible_view by fastforce

section \<open>Runs of the scheduler\<close>

definition sample_call :: "string \<Rightarrow> bool \<Rightarrow> nat \<Rightarrow> string \<Rightarrow> string \<Rightarrow> tool_execution_plan" where
  "sample_call tool reads i key arg =
     \<lparr>xp_index = i, xp_id = ''call'', xp_name = tool, xp_input = JObject [(key, JString arg)],
      xp_interactive = False, xp_approval_required = False, xp_supports_parallel = reads,
      xp_read_only = reads\<rparr>"

abbreviation "read_call \<equiv> \<lambda>i path. sample_call ''read_file'' True i ''path'' path"
abbreviation "edit_call \<equiv> \<lambda>i path. sample_call ''edit_file'' False i ''path'' path"
abbreviation "shell_call \<equiv> \<lambda>i command. sample_call ''exec_shell'' False i ''command'' command"

lemma path_of_call:
  "trim p \<noteq> [] \<Longrightarrow>
   path_field (JObject [(''path'', JString p)]) = Some (normalize_schedule_path (trim p))"
  by (simp add: path_field_def str_field_def)

lemma read_view:
  "trim p \<noteq> [] \<Longrightarrow> dag_plan_view_of u e (read_call i p) =
     \<lparr>dv_index = i, dv_parallel_eligible = True,
      dv_reads = {ResPath (normalize_schedule_path (trim p))}, dv_writes = {}\<rparr>"
  by (simp add: dag_plan_view_of_def sample_call_def extract_schedule_resources_def path_of_call)

lemma edit_view:
  "trim p \<noteq> [] \<Longrightarrow> dag_plan_view_of u e (edit_call i p) =
     \<lparr>dv_index = i, dv_parallel_eligible = False, dv_reads = {},
      dv_writes = {ResPath (normalize_schedule_path (trim p))}\<rparr>"
  by (simp add: dag_plan_view_of_def sample_call_def extract_schedule_resources_def path_of_call
      shell_schedule_read_only_def shell_tool_def)

text \<open>The view of a shell command: a workspace scan when it is safe and sandboxed.\<close>

lemma shell_view:
  "dag_plan_view_of u e (shell_call i command) =
     (if e \<and> sa_level (analyze_command u command) = Safe
      then \<lparr>dv_index = i, dv_parallel_eligible = True, dv_reads = {WorkspaceScan}, dv_writes = {}\<rparr>
      else \<lparr>dv_index = i, dv_parallel_eligible = False, dv_reads = {}, dv_writes = {WorkspaceWrite}\<rparr>)"
  by (simp add: dag_plan_view_of_def sample_call_def extract_schedule_resources_def path_field_def
      str_field_def shell_schedule_read_only_def shell_tool_def workspace_scan_tool_def starts_with_def)

lemmas wave_eval = build_execution_waves_def waves_loop.simps next_wave_def dependencies_def
  depends_on_def resource_conflict_def coarse_workspace_write_before_scan_def upt_rec
  numeral_2_eq_2 numeral_3_eq_3

lemma paths_fixed:
  "trim ''a.rs'' = ''a.rs''" "trim ''./a.rs'' = ''./a.rs''" "trim ''b.rs'' = ''b.rs''"
  "normalize_schedule_path ''a.rs'' = ''a.rs''" "normalize_schedule_path ''./a.rs'' = ''./a.rs''"
  "normalize_schedule_path ''b.rs'' = ''b.rs''"
  by (simp_all add: normalize_schedule_path_def text_eval)

definition sample_batch :: "tool_execution_plan list" where
  "sample_batch = [read_call 0 ''a.rs'', edit_call 1 ''a.rs'', read_call 2 ''b.rs'']"

lemma numbered_sample: "numbered sample_batch"
  by (simp add: sample_batch_def numbered_def sample_call_def upt_rec)

lemma batches_sample: "execution_batches u e SchedDag sample_batch st = Some [[0, 2], [1]]"
  by (simp add: execution_batches_def sample_batch_def dag_execution_groups_def read_view edit_view
      paths_fixed wave_eval split_wave_execution_subgroups_def Let_def)

text \<open>A read, an edit of the same file and a read of another: the two reads run first, together.\<close>

theorem every_plan_runs_once_witness:
  "\<exists>bs. execution_batches id False SchedDag sample_batch \<lparr>sh_comparisons = 0, sh_diffs = 0\<rparr> = Some bs \<and>
     mset (concat bs) = {#0, 1, 2#}"
  using every_plan_runs_once [OF numbered_sample, of id False "\<lparr>sh_comparisons = 0, sh_diffs = 0\<rparr>"]
  by (simp add: sample_batch_def upt_rec numeral_2_eq_2)

theorem conflicting_calls_in_order_witness: "runs_before [[0, 2], [1]] 0 1"
proof (rule conflicting_calls_in_order [OF numbered_sample batches_sample [of id False undefined]])
  show "depends_on (dag_plan_view_of id False (sample_batch ! 1))
      (dag_plan_view_of id False (sample_batch ! 0))"
    by (simp add: sample_batch_def read_view edit_view paths_fixed wave_eval)
qed (simp_all add: sample_batch_def)

text \<open>
  The safety level of a shell command decides what a read is: a listing piped into a deletion
  runs in parallel with a read of what it deletes.
\<close>

definition piped_batch :: "tool_execution_plan list" where
  "piped_batch = [shell_call 0 ''ls | xargs rm -r src'', read_call 1 ''a.rs'']"

theorem parallel_batches_only_read_witness:
  "dv_writes (dag_plan_view_of id True (shell_call 0 ''ls | xargs rm -r src'')) = {}"
proof -
  have "sa_level (analyze_command id ''ls | xargs rm -r src'') = Safe"
    by (rule piped_deletion_safe)
  then have "execution_batches id True SchedDag piped_batch undefined = Some [[0, 1]]"
    by (simp add: execution_batches_def piped_batch_def dag_execution_groups_def read_view shell_view
        paths_fixed wave_eval split_wave_execution_subgroups_def Let_def)
  moreover have "numbered piped_batch"
    by (simp add: piped_batch_def numbered_def sample_call_def upt_rec)
  ultimately show ?thesis
    using parallel_batches_only_read [of piped_batch id True undefined "[[0, 1]]" "[0, 1]" 0]
    by (simp add: piped_batch_def)
qed

text \<open>
  Paths are compared as texts: a read of \<open>./a.rs\<close> after an edit of \<open>a.rs\<close> is not seen to
  depend on it; with another read in the batch, both reads run before the edit.
\<close>

theorem aliased_read_runs_before_edit:
  "execution_batches u e SchedDag
     [edit_call 0 ''a.rs'', read_call 1 ''./a.rs'', read_call 2 ''b.rs''] st = Some [[1, 2], [0]] \<and>
   execution_batches u e SchedDag
     [edit_call 0 ''a.rs'', read_call 1 ''a.rs'', read_call 2 ''b.rs''] st = Some [[0], [2], [1]]"
  by (simp add: execution_batches_def dag_execution_groups_def read_view edit_view
      paths_fixed wave_eval split_wave_execution_subgroups_def Let_def)

end
