(* ===== verification/Resource_Locks.thy ===== *)
theory Resource_Locks
  imports Tool_Scheduler "HOL-Library.Product_Lexorder"
begin

text \<open>
  The resource locks of tool execution: \<open>crates/tools/src/resource_locks.rs\<close> computes what a call
  locks and in which order, \<open>crates/runtime-server/src/tools/resource_locks.rs\<close> acquires the
  locks one by one and holds them until the call has run. The calls of a batch run concurrently;
  a step of the system is one acquisition or the end of one call. A read-write lock of the
  runtime library grants a shared request when nobody holds it exclusively, and an exclusive one
  when nobody holds it.

  Sets of resources are lists here: a hash set in its iteration order.
\<close>

section \<open>Lock order\<close>

datatype resource_lock_mode = Shared | Exclusive

fun resource_lock_order :: "schedule_resource \<Rightarrow> nat \<times> string" where
  "resource_lock_order WorkspaceScan = (0, [])"
| "resource_lock_order (ResPath path) = (1, path)"
| "resource_lock_order WorkspaceWrite = (2, [])"

lemma resource_lock_order_inject: "resource_lock_order r = resource_lock_order s \<longleftrightarrow> r = s"
  by (cases r; cases s) auto

text \<open>The slots a call can lock: the batch lock of the engine, or the slot of a resource.\<close>

datatype lock_slot = GlobalSlot | ResourceSlot schedule_resource

fun slot_key :: "lock_slot \<Rightarrow> nat \<times> nat \<times> string" where
  "slot_key GlobalSlot = (0, 0, [])"
| "slot_key (ResourceSlot r) = (1, resource_lock_order r)"

lemma slot_key_inject: "slot_key r = slot_key s \<longleftrightarrow> r = s"
  by (cases r; cases s) (auto simp: resource_lock_order_inject)

text \<open>\<open>ResourceLockMode\<close> derives its order: \<open>Shared\<close> before \<open>Exclusive\<close>.\<close>

instantiation resource_lock_mode :: linorder
begin

definition less_eq_resource_lock_mode :: "resource_lock_mode \<Rightarrow> resource_lock_mode \<Rightarrow> bool" where
  "less_eq_resource_lock_mode m n \<longleftrightarrow> m = Shared \<or> n = Exclusive"

definition less_resource_lock_mode :: "resource_lock_mode \<Rightarrow> resource_lock_mode \<Rightarrow> bool" where
  "less_resource_lock_mode m n \<longleftrightarrow> m = Shared \<and> n = Exclusive"

instance
  by intro_classes
    (auto simp: less_eq_resource_lock_mode_def less_resource_lock_mode_def
      intro: resource_lock_mode.exhaust)

end

instantiation schedule_resource :: linorder
begin

definition less_eq_schedule_resource :: "schedule_resource \<Rightarrow> schedule_resource \<Rightarrow> bool" where
  "less_eq_schedule_resource r s \<longleftrightarrow> resource_lock_order r \<le> resource_lock_order s"

definition less_schedule_resource :: "schedule_resource \<Rightarrow> schedule_resource \<Rightarrow> bool" where
  "less_schedule_resource r s \<longleftrightarrow> resource_lock_order r < resource_lock_order s"

instance
  by intro_classes
    (auto simp: less_eq_schedule_resource_def less_schedule_resource_def
      resource_lock_order_inject [symmetric])

end

instantiation lock_slot :: linorder
begin

definition less_eq_lock_slot :: "lock_slot \<Rightarrow> lock_slot \<Rightarrow> bool" where
  "less_eq_lock_slot r s \<longleftrightarrow> slot_key r \<le> slot_key s"

definition less_lock_slot :: "lock_slot \<Rightarrow> lock_slot \<Rightarrow> bool" where
  "less_lock_slot r s \<longleftrightarrow> slot_key r < slot_key s"

instance
  by intro_classes
    (auto simp: less_eq_lock_slot_def less_lock_slot_def slot_key_inject [symmetric])

end

lemma slot_less_iff: "ResourceSlot r < ResourceSlot s \<longleftrightarrow> r < s"
  by (simp add: less_lock_slot_def less_schedule_resource_def)

section \<open>What a call locks\<close>

definition resource_lock_targets ::
  "schedule_resource list \<Rightarrow> schedule_resource list \<Rightarrow> (schedule_resource \<times> resource_lock_mode) list"
where
  "resource_lock_targets reads writes =
     sort (map (\<lambda>r. (r, Exclusive)) writes @
           map (\<lambda>r. (r, Shared)) (filter (\<lambda>r. r \<notin> set writes) reads))"

type_synonym lock_request = "lock_slot \<times> resource_lock_mode"

definition acquire_global :: "bool \<Rightarrow> bool \<Rightarrow> lock_request list" where
  "acquire_global supports_parallel force_write =
     [(GlobalSlot, if supports_parallel \<and> \<not> force_write then Shared else Exclusive)]"

definition acquire ::
  "schedule_resource list \<Rightarrow> schedule_resource list \<Rightarrow> bool \<Rightarrow> bool \<Rightarrow> lock_request list" where
  "acquire reads writes fine_grained supports_parallel =
     (if \<not> fine_grained then acquire_global supports_parallel (writes \<noteq> [])
      else
        let targets = resource_lock_targets reads writes in
        if targets = [] then acquire_global supports_parallel False
        else map (\<lambda>(r, m). (ResourceSlot r, m)) targets)"

section \<open>Concurrent calls\<close>

record lock_task =
  lt_held :: "lock_request list"
  lt_pending :: "lock_request list"
  lt_done :: bool

definition start_task :: "lock_request list \<Rightarrow> lock_task" where
  "start_task requests = \<lparr>lt_held = [], lt_pending = requests, lt_done = False\<rparr>"

definition compatible :: "lock_request \<Rightarrow> lock_request \<Rightarrow> bool" where
  "compatible q r \<longleftrightarrow> (fst q = fst r \<longrightarrow> snd q = Shared \<and> snd r = Shared)"

definition grantable :: "lock_task list \<Rightarrow> nat \<Rightarrow> lock_request \<Rightarrow> bool" where
  "grantable ts i q \<longleftrightarrow>
     (\<forall>j < length ts. j \<noteq> i \<longrightarrow> (\<forall>r \<in> set (lt_held (ts ! j)). compatible q r))"

lemma compatible_sym: "compatible q r \<longleftrightarrow> compatible r q"
  by (auto simp: compatible_def)

inductive lock_step :: "lock_task list \<Rightarrow> lock_task list \<Rightarrow> bool" where
  take_lock:
    "i < length ts \<Longrightarrow> \<not> lt_done (ts ! i) \<Longrightarrow> lt_pending (ts ! i) = q # rest \<Longrightarrow> grantable ts i q \<Longrightarrow>
     lock_step ts (ts[i := (ts ! i)\<lparr>lt_held := lt_held (ts ! i) @ [q], lt_pending := rest\<rparr>])"
| finish_call:
    "i < length ts \<Longrightarrow> \<not> lt_done (ts ! i) \<Longrightarrow> lt_pending (ts ! i) = [] \<Longrightarrow>
     lock_step ts (ts[i := (ts ! i)\<lparr>lt_held := [], lt_done := True\<rparr>])"

text \<open>The states after \<open>n\<close> steps, from calls that have locked nothing.\<close>

inductive lock_run :: "lock_request list list \<Rightarrow> nat \<Rightarrow> lock_task list \<Rightarrow> bool"
  for calls :: "lock_request list list"
where
  run_start: "lock_run calls 0 (map start_task calls)"
| run_step: "lock_run calls n ts \<Longrightarrow> lock_step ts ts' \<Longrightarrow> lock_run calls (Suc n) ts'"

section \<open>The discipline: locks taken in order\<close>

locale ordered_locks =
  fixes requests :: "'call \<Rightarrow> lock_request list"
  assumes in_order: "sorted_wrt (<) (map fst (requests c))"
begin

definition task_ok :: "'call \<Rightarrow> lock_task \<Rightarrow> bool" where
  "task_ok c t \<longleftrightarrow>
     (if lt_done t then lt_held t = [] \<and> lt_pending t = []
      else lt_held t @ lt_pending t = requests c)"

definition exclusive :: "lock_task list \<Rightarrow> bool" where
  "exclusive ts \<longleftrightarrow>
     (\<forall>i < length ts. \<forall>j < length ts. i \<noteq> j \<longrightarrow>
        (\<forall>q \<in> set (lt_held (ts ! i)). \<forall>r \<in> set (lt_held (ts ! j)). compatible q r))"

definition unfinished :: "lock_task list \<Rightarrow> nat" where
  "unfinished ts = sum_list (map (\<lambda>t. length (lt_pending t) + (if lt_done t then 0 else 1)) ts)"

lemma run_inv:
  assumes "lock_run (map requests cs) n ts"
  shows "length ts = length cs \<and> (\<forall>i < length cs. task_ok (cs ! i) (ts ! i)) \<and> exclusive ts \<and>
    n + unfinished ts = sum_list (map (\<lambda>c. Suc (length (requests c))) cs)"
  using assms
proof induction
  case run_start
  have "unfinished (map start_task (map requests cs)) = sum_list (map (\<lambda>c. Suc (length (requests c))) cs)"
    by (simp add: unfinished_def start_task_def comp_def)
  then show ?case by (simp add: task_ok_def exclusive_def start_task_def)
next
  case (run_step n ts ts')
  then have len: "length ts = length cs" and ok: "\<And>i. i < length cs \<Longrightarrow> task_ok (cs ! i) (ts ! i)"
    and ex: "exclusive ts" and cnt: "n + unfinished ts = sum_list (map (\<lambda>c. Suc (length (requests c))) cs)"
    by auto
  let ?size = "\<lambda>t. length (lt_pending t) + (if lt_done t then 0 else 1) :: nat"
  have count: "unfinished (ts[i := t]) + ?size (ts ! i) = unfinished ts + ?size t"
    if "i < length ts" for i t
  proof -
    have "?size (ts ! i) \<le> sum_list (map ?size ts)" using that by (intro member_le_sum_list) auto
    then show ?thesis using that by (simp add: unfinished_def map_update sum_list_update)
  qed
  from run_step.hyps(2) show ?case
  proof cases
    case (take_lock i q rest)
    let ?t = "(ts ! i)\<lparr>lt_held := lt_held (ts ! i) @ [q], lt_pending := rest\<rparr>"
    have "task_ok (cs ! i) ?t" using take_lock ok [of i] len by (simp add: task_ok_def)
    then have "\<forall>k < length cs. task_ok (cs ! k) (ts' ! k)"
      using take_lock ok len by (auto simp: nth_list_update)
    moreover have "exclusive ts'"
      unfolding exclusive_def
    proof (intro allI impI ballI)
      fix k l q' r'
      assume kl: "k < length ts'" "l < length ts'" "k \<noteq> l"
        and q': "q' \<in> set (lt_held (ts' ! k))" and r': "r' \<in> set (lt_held (ts' ! l))"
      have other: "compatible a b" if "a \<in> set (lt_held (ts ! k))" "b \<in> set (lt_held (ts ! l))" for a b
        using that ex kl take_lock(1) by (simp add: exclusive_def)
      have new: "compatible q r" if "h < length ts" "h \<noteq> i" "r \<in> set (lt_held (ts ! h))" for h r
        using that take_lock(5) by (simp add: grantable_def)
      have held: "lt_held (ts' ! h) = (if h = i then lt_held (ts ! i) @ [q] else lt_held (ts ! h))"
        if "h < length ts'" for h
        using that by (simp add: take_lock(1))
      have "q' \<in> set (lt_held (ts ! k)) \<or> k = i \<and> q' = q" "r' \<in> set (lt_held (ts ! l)) \<or> l = i \<and> r' = q"
        using q' r' held kl by (auto split: if_splits)
      moreover have "k < length ts" "l < length ts" using kl by (simp_all add: take_lock(1))
      ultimately show "compatible q' r'"
        using other new kl(3) compatible_sym by metis
    qed
    moreover have "unfinished ts' + 1 = unfinished ts"
      using count [of i ?t] take_lock by simp
    ultimately show ?thesis using len cnt take_lock(1) by simp
  next
    case (finish_call i)
    let ?t = "(ts ! i)\<lparr>lt_held := [], lt_done := True\<rparr>"
    have "\<forall>k < length cs. task_ok (cs ! k) (ts' ! k)"
      using finish_call ok len by (auto simp: nth_list_update task_ok_def)
    moreover have "exclusive ts'"
      using finish_call ex len unfolding exclusive_def by (auto simp: nth_list_update)
    moreover have "unfinished ts' + 1 = unfinished ts"
      using count [of i ?t] finish_call by simp
    ultimately show ?thesis using len cnt finish_call(1) by simp
  qed
qed

text \<open>
  While some call is unfinished, some call has all its locks or asks for a slot that nobody holds:
  the largest slot any call asks for.
\<close>

lemma progress:
  assumes run: "lock_run (map requests cs) n ts" and open_call: "i < length ts" "\<not> lt_done (ts ! i)"
  shows "\<exists>k < length ts. \<not> lt_done (ts ! k) \<and>
    (lt_pending (ts ! k) = [] \<or>
     (\<forall>j < length ts. fst (hd (lt_pending (ts ! k))) \<notin> fst ` set (lt_held (ts ! j))))"
proof (rule ccontr)
  assume contra: "\<not> ?thesis"
  note inv = run_inv [OF run]
  define open_set where "open_set = {k. k < length ts \<and> \<not> lt_done (ts ! k)}"
  define want where "want k = fst (hd (lt_pending (ts ! k)))" for k
  have fin: "finite open_set" "open_set \<noteq> {}" using open_call by (auto simp: open_set_def)
  define top where "top = Max (want ` open_set)"
  have "top \<in> want ` open_set" unfolding top_def using fin by (intro Max_in) auto
  then obtain k where k: "k \<in> open_set" "want k = top" by auto
  have "\<exists>j < length ts. want k \<in> fst ` set (lt_held (ts ! j))"
    using contra k(1) by (auto simp: open_set_def want_def)
  then obtain j where j: "j < length ts" "top \<in> fst ` set (lt_held (ts ! j))" using k(2) by auto
  then have "j \<in> open_set" using inv by (auto simp: open_set_def task_ok_def)
  then have reqs: "lt_held (ts ! j) @ lt_pending (ts ! j) = requests (cs ! j)" "lt_pending (ts ! j) \<noteq> []"
    using inv contra j(1) by (auto simp: open_set_def task_ok_def)
  have "sorted_wrt (<) (map fst (lt_held (ts ! j) @ lt_pending (ts ! j)))"
    unfolding reqs(1) by (rule in_order)
  moreover have "want j \<in> fst ` set (lt_pending (ts ! j))"
    using reqs(2) by (auto simp: want_def)
  ultimately have "top < want j" using j(2) by (fastforce simp: sorted_wrt_append)
  moreover have "want j \<le> top"
    unfolding top_def using fin(1) \<open>j \<in> open_set\<close> by (intro Max_ge) auto
  ultimately show False by simp
qed

lemma never_stuck:
  assumes "lock_run (map requests cs) n ts" and "i < length ts" "\<not> lt_done (ts ! i)"
  shows "\<exists>ts'. lock_step ts ts'"
proof -
  from progress [OF assms] obtain k where k: "k < length ts" "\<not> lt_done (ts ! k)"
      "lt_pending (ts ! k) = [] \<or>
       (\<forall>j < length ts. fst (hd (lt_pending (ts ! k))) \<notin> fst ` set (lt_held (ts ! j)))"
    by blast
  show ?thesis
  proof (cases "lt_pending (ts ! k)")
    case Nil
    then show ?thesis using finish_call [OF k(1,2)] by blast
  next
    case (Cons q rest)
    have "grantable ts k q"
      unfolding grantable_def compatible_def
    proof (intro allI impI ballI)
      fix j r assume "j < length ts" "r \<in> set (lt_held (ts ! j))" "fst q = fst r"
      with k(3) Cons show "snd q = Shared \<and> snd r = Shared" by auto
    qed
    then show ?thesis using take_lock [OF k(1,2) Cons] by blast
  qed
qed

end

section \<open>The locks of the code are taken in order\<close>

text \<open>A call as \<open>FineGrainedLockContext\<close> and the executor describe it.\<close>

record lock_call =
  lc_reads :: "schedule_resource list"
  lc_writes :: "schedule_resource list"
  lc_fine_grained :: bool
  lc_supports_parallel :: bool

definition lock_requests :: "lock_call \<Rightarrow> lock_request list" where
  "lock_requests c =
     acquire (remdups (lc_reads c)) (remdups (lc_writes c)) (lc_fine_grained c) (lc_supports_parallel c)"

lemma targets_in_order:
  assumes "distinct reads" and "distinct writes"
  shows "sorted_wrt (<) (map fst (resource_lock_targets reads writes))"
proof -
  let ?xs = "map (\<lambda>r. (r, Exclusive)) writes @ map (\<lambda>r. (r, Shared)) (filter (\<lambda>r. r \<notin> set writes) reads)"
  have "sorted (map fst (sort ?xs))"
    by (rule sorted_map_mono [OF sorted_sort]) (auto simp: mono_on_def less_eq_prod_def)
  moreover have "distinct (map fst ?xs)" using assms by (auto simp: comp_def)
  then have "distinct (map fst (sort ?xs))"
    by (metis mset_map mset_sort mset_eq_imp_distinct_iff)
  ultimately show ?thesis
    unfolding resource_lock_targets_def strict_sorted_iff by blast
qed

interpretation tool_locks: ordered_locks lock_requests
proof
  fix c
  have "sorted_wrt (<) (map fst (acquire_global a b))" for a b by (simp add: acquire_global_def)
  moreover have "sorted_wrt (<) (map fst (map (\<lambda>(r, m). (ResourceSlot r, m))
      (resource_lock_targets (remdups rs) (remdups ws))))" for rs ws
    using targets_in_order [of "remdups rs" "remdups ws"]
    by (simp add: sorted_wrt_map case_prod_beta slot_less_iff)
  ultimately show "sorted_wrt (<) (map fst (lock_requests c))"
    by (simp add: lock_requests_def acquire_def Let_def)
qed

text \<open>
  C10. No deadlock. However the acquisitions of a batch of calls interleave, as long as a call is
  unfinished, some unfinished call holds all its locks (and can finish) or waits for a slot that
  nobody holds (and gets it, whoever is first in the queue of that slot).
\<close>

theorem locks_never_deadlock:
  assumes "lock_run (map lock_requests cs) n ts" and "i < length ts" and "\<not> lt_done (ts ! i)"
  shows "\<exists>k < length ts. \<not> lt_done (ts ! k) \<and>
    (lt_pending (ts ! k) = [] \<or>
     (\<forall>j < length ts. fst (hd (lt_pending (ts ! k))) \<notin> fst ` set (lt_held (ts ! j))))"
  using assms by (rule tool_locks.progress)

definition writer :: "string \<Rightarrow> lock_call" where
  "writer p = \<lparr>lc_reads = [ResPath ''shared''], lc_writes = [ResPath p], lc_fine_grained = True,
     lc_supports_parallel = False\<rparr>"

definition scanner :: lock_call where
  "scanner = \<lparr>lc_reads = [WorkspaceScan], lc_writes = [], lc_fine_grained = True,
     lc_supports_parallel = True\<rparr>"

text \<open>Two scans of the workspace: after the first has taken its lock, it can finish.\<close>

definition scans_half_way :: "lock_task list" where
  "scans_half_way =
     [\<lparr>lt_held = [(ResourceSlot WorkspaceScan, Shared)], lt_pending = [], lt_done = False\<rparr>,
      start_task [(ResourceSlot WorkspaceScan, Shared)]]"

lemma scan_requests: "lock_requests scanner = [(ResourceSlot WorkspaceScan, Shared)]"
  by (simp add: lock_requests_def scanner_def acquire_def resource_lock_targets_def)

lemma scans_run: "lock_run (map lock_requests [scanner, scanner]) (Suc 0) scans_half_way"
proof (rule run_step [OF run_start])
  have "lock_step (map start_task (map lock_requests [scanner, scanner]))
      ((map start_task (map lock_requests [scanner, scanner]))[0 :=
        (start_task (lock_requests scanner))\<lparr>lt_held := [(ResourceSlot WorkspaceScan, Shared)],
          lt_pending := []\<rparr>])"
    using take_lock [of 0 "map start_task (map lock_requests [scanner, scanner])"
        "(ResourceSlot WorkspaceScan, Shared)" "[]"]
    by (simp add: start_task_def scan_requests grantable_def)
  then show "lock_step (map start_task (map lock_requests [scanner, scanner])) scans_half_way"
    by (simp add: start_task_def scan_requests scans_half_way_def)
qed

theorem locks_never_deadlock_witness:
  "\<exists>k < length scans_half_way. \<not> lt_done (scans_half_way ! k) \<and>
    (lt_pending (scans_half_way ! k) = [] \<or>
     (\<forall>j < length scans_half_way.
        fst (hd (lt_pending (scans_half_way ! k))) \<notin> fst ` set (lt_held (scans_half_way ! j))))"
  by (rule locks_never_deadlock [OF scans_run, of 0]) (simp_all add: scans_half_way_def)

text \<open>
  Every batch of calls finishes: no run has more steps than there are locks and calls, and a
  state in which nothing more can happen is one in which every call is done.
\<close>

theorem lock_runs_finish:
  assumes "lock_run (map lock_requests cs) n ts"
  shows "n \<le> sum_list (map (\<lambda>c. Suc (length (lock_requests c))) cs) \<and>
    ((\<nexists>ts'. lock_step ts ts') \<longleftrightarrow> (\<forall>t \<in> set ts. lt_done t))"
proof
  show "n \<le> sum_list (map (\<lambda>c. Suc (length (lock_requests c))) cs)"
    using tool_locks.run_inv [OF assms] by linarith
  have "\<nexists>ts'. lock_step ts ts'" if "\<forall>t \<in> set ts. lt_done t"
    using that by (auto elim!: lock_step.cases)
  moreover have "\<exists>ts'. lock_step ts ts'" if "\<not> (\<forall>t \<in> set ts. lt_done t)"
    using that tool_locks.never_stuck [OF assms] by (auto simp: in_set_conv_nth)
  ultimately show "(\<nexists>ts'. lock_step ts ts') \<longleftrightarrow> (\<forall>t \<in> set ts. lt_done t)" by blast
qed

theorem lock_runs_finish_witness:
  "(\<exists>ts'. lock_step (map start_task (map lock_requests [scanner, writer ''a''])) ts')"
  using lock_runs_finish [OF run_start, of "[scanner, writer ''a'']"] by (auto simp: start_task_def)

text \<open>
  Mutual exclusion. Two calls never hold the same slot at once unless both share it; so a call
  that writes a resource runs alone on it.
\<close>

theorem locks_exclude_writers:
  assumes "lock_run (map lock_requests cs) n ts"
    and "i < length ts" and "j < length ts" and "i \<noteq> j"
    and "(s, m) \<in> set (lt_held (ts ! i))" and "(s, m') \<in> set (lt_held (ts ! j))"
  shows "m = Shared \<and> m' = Shared"
  using tool_locks.run_inv [OF assms(1)] assms(2-)
  by (fastforce simp: tool_locks.exclusive_def compatible_def)

text \<open>Both scans hold their slot: they share it.\<close>

definition scans_together :: "lock_task list" where
  "scans_together =
     replicate 2 \<lparr>lt_held = [(ResourceSlot WorkspaceScan, Shared)], lt_pending = [], lt_done = False\<rparr>"

theorem locks_exclude_writers_witness:
  "\<exists>m. (ResourceSlot WorkspaceScan, m) \<in> set (lt_held (scans_together ! 0)) \<and> m = Shared"
proof -
  have "lock_step scans_half_way scans_together"
    using take_lock [of 1 scans_half_way "(ResourceSlot WorkspaceScan, Shared)" "[]"]
    by (simp add: scans_half_way_def scans_together_def start_task_def grantable_def compatible_def
        All_less_Suc numeral_2_eq_2)
  note run = run_step [OF scans_run this]
  obtain m where m: "(ResourceSlot WorkspaceScan, m) \<in> set (lt_held (scans_together ! 0))"
    by (auto simp: scans_together_def numeral_2_eq_2)
  then have "m = Shared \<and> m = Shared"
    by (intro locks_exclude_writers [OF run, of 0 1 "ResourceSlot WorkspaceScan" m m])
       (simp_all add: scans_together_def numeral_2_eq_2)
  with m show ?thesis by blast
qed

end
