(* ===== verification/Message_Tokens.thy ===== *)
theory Message_Tokens
  imports Text_Ops Transcript_Rebuild
begin

text \<open>
  Token estimates (\<open>crates/core/src/engine/token_estimate.rs\<close>,
  \<open>crates/runtime-server/src/compaction/tokens.rs\<close>) and the texts cut to a number of characters
  (\<open>crates/core/src/engine/context.rs\<close>, \<open>crates/runtime-server/src/compaction/prune.rs\<close>).

  \<open>to_text\<close> is \<open>Display\<close> of a JSON value, which \<open>serde_json\<close> defines. Sums of token counts are
  natural numbers: the saturation at \<open>usize::MAX\<close> of the code needs texts longer than memory.
\<close>

section \<open>Characters of a text\<close>

text \<open>
  The characters of a UTF-8 byte string, each as its byte sequence: the first byte gives the
  length. On valid UTF-8 this is \<open>str::chars\<close>.
\<close>

definition char_width :: "char \<Rightarrow> nat" where
  "char_width c =
     (let n = (of_char c :: nat) in if n < 192 then 1 else if n < 224 then 2 else if n < 240 then 3 else 4)"

function text_chars :: "string \<Rightarrow> string list" where
  "text_chars [] = []"
| "text_chars (c # cs) =
     (c # take (char_width c - 1) cs) # text_chars (drop (char_width c - 1) cs)"
  by pat_completeness auto
termination by (relation "measure length") auto

text \<open>The code point of a character.\<close>

definition lead_bits :: "char \<Rightarrow> nat" where
  "lead_bits c =
     (let n = (of_char c :: nat) in
      if n < 192 then n else if n < 224 then n - 192 else if n < 240 then n - 224 else n - 240)"

definition code_point :: "string \<Rightarrow> nat" where
  "code_point ch = foldl (\<lambda>n c. 64 * n + of_char c mod 64) (lead_bits (hd ch)) (tl ch)"

definition char_count :: "string \<Rightarrow> nat" where
  "char_count s = length (text_chars s)"

text \<open>\<open>s.chars().take(n)\<close> and the text of the last \<open>n\<close> characters.\<close>

definition take_chars :: "nat \<Rightarrow> string \<Rightarrow> string" where
  "take_chars n s = concat (take n (text_chars s))"

definition last_chars :: "nat \<Rightarrow> string \<Rightarrow> string" where
  "last_chars n s = concat (drop (char_count s - n) (text_chars s))"

lemma concat_text_chars [simp]: "concat (text_chars s) = s"
  by (induction s rule: text_chars.induct) auto

lemma char_count_Nil [simp]: "char_count [] = 0"
  by (simp add: char_count_def)

lemma text_chars_proper: "ch \<in> set (text_chars s) \<Longrightarrow> ch \<noteq> []"
  by (induction s rule: text_chars.induct) auto

lemma text_chars_ascii: "is_ascii s \<Longrightarrow> text_chars s = map (\<lambda>c. [c]) s"
  by (induction s) (auto simp: is_ascii_def char_width_def)

lemma char_count_ascii: "is_ascii s \<Longrightarrow> char_count s = length s"
  by (simp add: char_count_def text_chars_ascii)

lemma char_count_le: "char_count s \<le> length s"
  by (induction s rule: text_chars.induct) (auto simp: char_count_def)

lemma text_chars_take: "text_chars (take_chars n s) = take n (text_chars s)"
  unfolding take_chars_def
proof (induction s arbitrary: n rule: text_chars.induct)
  case (2 c cs)
  show ?case
  proof (cases n)
    case (Suc m)
    have "take (char_width c - 1) cs @ concat (take m (text_chars (drop (char_width c - 1) cs))) =
        take (char_width c - 1) cs \<and>
        drop (char_width c - 1) cs = [] \<or> length (take (char_width c - 1) cs) = char_width c - 1"
      by auto
    with Suc 2 show ?thesis by auto
  qed simp
qed simp

lemma char_count_take: "char_count (take_chars n s) = min n (char_count s)"
  by (simp add: char_count_def text_chars_take)

lemma take_chars_all: "char_count s \<le> n \<Longrightarrow> take_chars n s = s"
  by (simp add: take_chars_def char_count_def)

lemma text_chars_append:
  "text_chars (take_chars n s @ t) = take n (text_chars s) @ text_chars t"
  if "n < char_count s"
  using that unfolding take_chars_def char_count_def
proof (induction s arbitrary: n rule: text_chars.induct)
  case (2 c cs)
  show ?case
  proof (cases n)
    case (Suc m)
    then have "m < length (text_chars (drop (char_width c - 1) cs))"
      using 2(2) by simp
    moreover from this have "length (take (char_width c - 1) cs) = char_width c - 1"
      by (cases "length cs \<le> char_width c - 1") auto
    ultimately show ?thesis using Suc 2(1) [of m] by simp
  qed simp
qed simp

section \<open>Estimates of a text\<close>

definition is_cjk_char :: "nat \<Rightarrow> bool" where
  "is_cjk_char ch \<longleftrightarrow>
     0x4e00 \<le> ch \<and> ch \<le> 0x9fff \<or> 0x3400 \<le> ch \<and> ch \<le> 0x4dbf \<or> 0x3000 \<le> ch \<and> ch \<le> 0x303f \<or>
     0xff00 \<le> ch \<and> ch \<le> 0xffef \<or> 0x2e80 \<le> ch \<and> ch \<le> 0x2fdf"

fun count_chars :: "nat \<times> nat \<Rightarrow> string list \<Rightarrow> nat \<times> nat" where
  "count_chars (cjk, other) [] = (cjk, other)"
| "count_chars (cjk, other) (ch # chs) =
     (if is_cjk_char (code_point ch) then count_chars (cjk + 1, other) chs
      else count_chars (cjk, other + 1) chs)"

definition count_cjk_and_other_chars :: "string \<Rightarrow> nat \<times> nat" where
  "count_cjk_and_other_chars text = count_chars (0, 0) (text_chars text)"

definition div_ceil :: "nat \<Rightarrow> nat \<Rightarrow> nat" where
  "div_ceil a b = (a + b - 1) div b"

definition estimate_text_tokens :: "string \<Rightarrow> nat" where
  "estimate_text_tokens text =
     (if is_ascii text then div_ceil (length text) 3
      else
        (case count_cjk_and_other_chars text of (cjk, other) \<Rightarrow>
           let deepseek_ratio = div_ceil (other * 3) 10 + div_ceil (cjk * 6) 10;
               legacy_chars_third = div_ceil (cjk + other) 3
           in max deepseek_ratio legacy_chars_third))"

section \<open>Estimates of messages and requests\<close>

record system_block =
  sys_type :: string
  sys_text :: string
  sys_cache_control :: "cache_control option"

datatype system_prompt = SystemText string | SystemBlocks "system_block list"

fun estimate_block :: "(json \<Rightarrow> string) \<Rightarrow> content_block \<Rightarrow> bool \<Rightarrow> nat" where
  "estimate_block to_text (Text txt _) include_thinking = estimate_text_tokens txt"
| "estimate_block to_text (Thinking txt) include_thinking =
     (if include_thinking then estimate_text_tokens txt else 0)"
| "estimate_block to_text (ToolUse _ _ input _) include_thinking =
     estimate_text_tokens (to_text input)"
| "estimate_block to_text (ToolResult _ txt _ _) include_thinking = estimate_text_tokens txt"
| "estimate_block to_text (ServerToolUse _ _ input) include_thinking =
     estimate_text_tokens (to_text input)"
| "estimate_block to_text (ToolSearchToolResult _ v) include_thinking =
     estimate_text_tokens (to_text v)"
| "estimate_block to_text (CodeExecutionToolResult _ v) include_thinking =
     estimate_text_tokens (to_text v)"

definition estimate_message :: "(json \<Rightarrow> string) \<Rightarrow> message \<Rightarrow> bool \<Rightarrow> nat" where
  "estimate_message to_text m include_thinking =
     sum_list (map (\<lambda>b. estimate_block to_text b include_thinking) (content m))"

fun estimate_system :: "system_prompt option \<Rightarrow> nat" where
  "estimate_system (Some (SystemText txt)) = estimate_text_tokens txt"
| "estimate_system (Some (SystemBlocks bs)) =
     sum_list (map (\<lambda>b. estimate_text_tokens (sys_text b)) bs)"
| "estimate_system None = 0"

definition MESSAGE_FRAMING_TOKENS :: nat where "MESSAGE_FRAMING_TOKENS = 12"
definition SESSION_FRAMING_TOKENS :: nat where "SESSION_FRAMING_TOKENS = 48"

definition estimate_request_input ::
  "(json \<Rightarrow> string) \<Rightarrow> message list \<Rightarrow> system_prompt option \<Rightarrow> bool \<Rightarrow> nat" where
  "estimate_request_input to_text ms system include_thinking =
     (let raw = sum_list (map (\<lambda>m. estimate_message to_text m include_thinking) ms);
          message_tokens = div_ceil (raw * 3) 2;
          framing = length ms * MESSAGE_FRAMING_TOKENS + SESSION_FRAMING_TOKENS
      in message_tokens + estimate_system system + framing)"

definition message_has_tool_use :: "message \<Rightarrow> bool" where
  "message_has_tool_use m \<longleftrightarrow> list_ex is_ToolUse (content m)"

definition estimate_request_input_with_selective_thinking ::
  "(json \<Rightarrow> string) \<Rightarrow> message list \<Rightarrow> system_prompt option \<Rightarrow> nat" where
  "estimate_request_input_with_selective_thinking to_text ms system =
     (let raw = sum_list (map (\<lambda>m. estimate_message to_text m (message_has_tool_use m)) ms);
          message_tokens = div_ceil (raw * 3) 2;
          framing = length ms * MESSAGE_FRAMING_TOKENS + SESSION_FRAMING_TOKENS
      in message_tokens + estimate_system system + framing)"

text \<open>\<open>estimate_input_tokens_conservative\<close> of the engine (\<open>context.rs\<close>).\<close>

definition estimate_input_tokens_conservative ::
  "(json \<Rightarrow> string) \<Rightarrow> message list \<Rightarrow> system_prompt option \<Rightarrow> nat" where
  "estimate_input_tokens_conservative to_text ms system =
     estimate_request_input to_text ms system True"

text \<open>The walker of the compaction trigger, which does not count server-side blocks.\<close>

fun compaction_block_tokens :: "(json \<Rightarrow> string) \<Rightarrow> bool \<Rightarrow> content_block \<Rightarrow> nat" where
  "compaction_block_tokens to_text include_thinking (Text txt _) = estimate_text_tokens txt"
| "compaction_block_tokens to_text include_thinking (Thinking txt) =
     (if include_thinking then estimate_text_tokens txt else 0)"
| "compaction_block_tokens to_text include_thinking (ToolUse _ _ input _) =
     estimate_text_tokens (to_text input)"
| "compaction_block_tokens to_text include_thinking (ToolResult _ txt _ _) =
     estimate_text_tokens txt"
| "compaction_block_tokens to_text include_thinking (ServerToolUse _ _ _) = 0"
| "compaction_block_tokens to_text include_thinking (ToolSearchToolResult _ _) = 0"
| "compaction_block_tokens to_text include_thinking (CodeExecutionToolResult _ _) = 0"

definition estimate_tokens_for_message :: "(json \<Rightarrow> string) \<Rightarrow> message \<Rightarrow> bool \<Rightarrow> nat" where
  "estimate_tokens_for_message to_text m include_thinking =
     sum_list (map (compaction_block_tokens to_text include_thinking) (content m))"

definition estimate_tokens :: "(json \<Rightarrow> string) \<Rightarrow> message list \<Rightarrow> nat" where
  "estimate_tokens to_text ms =
     sum_list (map (\<lambda>m. estimate_tokens_for_message to_text m (message_has_tool_use m)) ms)"

section \<open>Properties\<close>

lemma div_ceil_mono: "a \<le> b \<Longrightarrow> div_ceil a n \<le> div_ceil b n"
  unfolding div_ceil_def by (rule div_le_mono) simp

lemma count_chars_split:
  "count_chars (a, b) chs =
     (a + length (filter (is_cjk_char \<circ> code_point) chs),
      b + length (filter (Not \<circ> (is_cjk_char \<circ> code_point)) chs))"
  by (induction chs arbitrary: a b) auto

lemma ascii_char_not_cjk: "(of_char c :: nat) < 128 \<Longrightarrow> \<not> is_cjk_char (code_point [c])"
  by (simp add: code_point_def lead_bits_def is_cjk_char_def)

lemma count_ascii: "is_ascii s \<Longrightarrow> count_cjk_and_other_chars s = (0, length s)"
  unfolding count_cjk_and_other_chars_def
  by (simp add: text_chars_ascii count_chars_split filter_map)
     (auto simp: is_ascii_def list_all_iff ascii_char_not_cjk comp_def
       intro!: filter_True filter_False)

lemma third_dominates: "div_ceil (n * 3) 10 \<le> div_ceil n 3"
proof -
  define q where "q = (n + 2) div 3"
  have "n + 2 = 3 * q + (n + 2) mod 3" by (simp add: q_def)
  moreover have "(n + 2) mod 3 < 3" by simp
  ultimately have "n * 3 + 9 < Suc q * 10" by simp
  then have "(n * 3 + 9) div 10 < Suc q"
    by (simp add: div_less_iff_less_mult)
  moreover have "n * 3 + 10 - 1 = n * 3 + 9" "n + 3 - 1 = n + 2" by simp_all
  ultimately show ?thesis unfolding div_ceil_def q_def by (simp only: less_Suc_eq_le)
qed

text \<open>
  The ASCII fast path of the text estimate is exact: on every text the estimate is the larger
  of the two calibrations, the per-character ratios of DeepSeek and a third of the characters, so
  it is below neither of them.
\<close>

theorem estimate_is_the_larger_calibration:
  "estimate_text_tokens s =
     (let (cjk, other) = count_cjk_and_other_chars s
      in max (div_ceil (other * 3) 10 + div_ceil (cjk * 6) 10) (div_ceil (cjk + other) 3))
   \<and> fst (count_cjk_and_other_chars s) + snd (count_cjk_and_other_chars s) = char_count s"
proof
  show "estimate_text_tokens s =
     (let (cjk, other) = count_cjk_and_other_chars s
      in max (div_ceil (other * 3) 10 + div_ceil (cjk * 6) 10) (div_ceil (cjk + other) 3))"
  proof (cases "is_ascii s")
    case True
    then show ?thesis
      using third_dominates [of "length s"]
      by (simp add: estimate_text_tokens_def count_ascii max_def div_ceil_def)
  qed (simp add: estimate_text_tokens_def Let_def split: prod.split)
  show "fst (count_cjk_and_other_chars s) + snd (count_cjk_and_other_chars s) = char_count s"
    unfolding count_cjk_and_other_chars_def char_count_def count_chars_split
    using sum_length_filter_compl [of "is_cjk_char \<circ> code_point" "text_chars s"]
    by (simp add: comp_def)
qed

lemma request_parts:
  "estimate_input_tokens_conservative to_text ms system =
     div_ceil (sum_list (map (\<lambda>m. estimate_message to_text m True) ms) * 3) 2 +
     estimate_system system + (length ms * 12 + 48)"
  by (simp add: estimate_input_tokens_conservative_def estimate_request_input_def Let_def
      MESSAGE_FRAMING_TOKENS_def SESSION_FRAMING_TOKENS_def)

lemma sum_list_drop_le: "sum_list (map f (drop n xs)) \<le> (sum_list (map f xs) :: nat)"
  by (metis append_take_drop_id le_add2 map_append sum_list_append)

text \<open>Dropping messages from the front never raises the estimate.\<close>

lemma estimate_drop_le:
  "estimate_input_tokens_conservative to_text (drop n ms) system
     \<le> estimate_input_tokens_conservative to_text ms system"
  unfolding request_parts
  by (intro add_mono div_ceil_mono mult_le_mono1 sum_list_drop_le) simp_all

lemma selective_le_full:
  "estimate_request_input_with_selective_thinking to_text ms system
     \<le> estimate_input_tokens_conservative to_text ms system"
proof -
  have "estimate_block to_text b x \<le> estimate_block to_text b True" for b x
    by (cases b) auto
  then have "estimate_message to_text m x \<le> estimate_message to_text m True" for m x
    unfolding estimate_message_def by (intro sum_list_mono) auto
  then show ?thesis
    unfolding estimate_request_input_with_selective_thinking_def request_parts Let_def
      MESSAGE_FRAMING_TOKENS_def SESSION_FRAMING_TOKENS_def
    by (intro add_mono div_ceil_mono mult_le_mono1 sum_list_mono) simp_all
qed

text \<open>
  The two estimates named \<open>estimate_input_tokens_conservative\<close> differ as soon as a message
  without a tool call carries reasoning.
\<close>

lemma estimates_differ:
  "estimate_request_input_with_selective_thinking to_text
       [\<lparr>role = ''assistant'', content = [Thinking ''abc'']\<rparr>] None = 60 \<and>
   estimate_input_tokens_conservative to_text
       [\<lparr>role = ''assistant'', content = [Thinking ''abc'']\<rparr>] None = 62"
  by (simp add: estimate_request_input_with_selective_thinking_def request_parts
      estimate_message_def message_has_tool_use_def estimate_text_tokens_def is_ascii_def
      div_ceil_def MESSAGE_FRAMING_TOKENS_def SESSION_FRAMING_TOKENS_def)

end
