(* ===== verification/Tool_Pairs.thy ===== *)
theory Tool_Pairs
  imports Transcript_Rebuild
begin

text \<open>
  The pairing of tool calls with their results
  (\<open>enforce_tool_call_pairs\<close>, \<open>crates/runtime-server/src/compaction/plan.rs\<close>): no message of the
  kept part of a session may hold one half of a pair whose other half is dropped. The code
  repeats a round of insertions and removals until nothing changes, at most
  \<open>max (length ms) 10\<close> times.

  The locale \<open>pairing\<close> is the loop on any graph of partners; its lemmas say what the loop leaves
  when it converges and when it does. The interpretation on the partners of a message list gives
  the properties of the code.
\<close>

section \<open>Pairing tool calls with their results\<close>

fun use_id :: "content_block \<Rightarrow> string option" where
  "use_id (ToolUse i _ _ _) = Some i"
| "use_id _ = None"

fun result_id :: "content_block \<Rightarrow> string option" where
  "result_id (ToolResult i _ _ _) = Some i"
| "result_id _ = None"

definition call_ids :: "message \<Rightarrow> string list" where
  "call_ids m = List.map_filter use_id (content m)"

definition result_ids :: "message \<Rightarrow> string list" where
  "result_ids m = List.map_filter result_id (content m)"

text \<open>The maps from an id to the index of the message that has it; the last one wins.\<close>

fun index_ids ::
  "(message \<Rightarrow> string list) \<Rightarrow> nat \<Rightarrow> message list \<Rightarrow> (string \<rightharpoonup> nat) \<Rightarrow> (string \<rightharpoonup> nat)" where
  "index_ids ids i [] M = M"
| "index_ids ids i (m # ms) M = index_ids ids (Suc i) ms (fold (\<lambda>k M. M(k \<mapsto> i)) (ids m) M)"

definition call_id_to_idx :: "message list \<Rightarrow> (string \<rightharpoonup> nat)" where
  "call_id_to_idx ms = index_ids call_ids 0 ms Map.empty"

definition result_id_to_idx :: "message list \<Rightarrow> (string \<rightharpoonup> nat)" where
  "result_id_to_idx ms = index_ids result_ids 0 ms Map.empty"

text \<open>What a block needs: the message with the other half of its pair, if there is one.\<close>

fun block_partner ::
  "(string \<rightharpoonup> nat) \<Rightarrow> (string \<rightharpoonup> nat) \<Rightarrow> content_block \<Rightarrow> nat option option" where
  "block_partner calls results (ToolResult i _ _ _) = Some (calls i)"
| "block_partner calls results (ToolUse i _ _ _) = Some (results i)"
| "block_partner calls results _ = None"

definition message_partners :: "message list \<Rightarrow> nat \<Rightarrow> nat option list" where
  "message_partners ms i =
     List.map_filter (block_partner (call_id_to_idx ms) (result_id_to_idx ms)) (content (ms ! i))"

text \<open>
  One round: the entries pushed to \<open>to_add\<close> and \<open>to_remove\<close> for every pinned message, then the
  insertions that no removal forbids, then the removals. \<open>needs i\<close> lists the partners of message
  \<open>i\<close>, \<open>n\<close> is the number of messages.
\<close>

definition round_adds ::
  "nat \<Rightarrow> (nat \<Rightarrow> nat option list) \<Rightarrow> nat set \<Rightarrow> nat set \<Rightarrow> nat list" where
  "round_adds n needs pinned removed =
     concat (map (\<lambda>i. List.map_filter (\<lambda>p. case p of
           Some j \<Rightarrow> if j \<notin> removed then Some j else None
         | None \<Rightarrow> None) (needs i))
       (filter (\<lambda>i. i \<in> pinned) [0..<n]))"

definition round_removes ::
  "nat \<Rightarrow> (nat \<Rightarrow> nat option list) \<Rightarrow> nat set \<Rightarrow> nat set \<Rightarrow> nat list" where
  "round_removes n needs pinned removed =
     concat (map (\<lambda>i. List.map_filter (\<lambda>p. case p of
           Some j \<Rightarrow> if j \<notin> removed then None else Some i
         | None \<Rightarrow> Some i) (needs i))
       (filter (\<lambda>i. i \<in> pinned) [0..<n]))"

fun insert_all :: "nat set \<Rightarrow> nat set \<Rightarrow> nat list \<Rightarrow> bool \<Rightarrow> nat set \<times> bool" where
  "insert_all forbidden pinned [] changed = (pinned, changed)"
| "insert_all forbidden pinned (i # adds) changed =
     (if i \<notin> forbidden \<and> i \<notin> pinned then insert_all forbidden (insert i pinned) adds True
      else insert_all forbidden pinned adds changed)"

fun remove_all :: "nat set \<Rightarrow> nat set \<Rightarrow> nat list \<Rightarrow> bool \<Rightarrow> nat set \<times> nat set \<times> bool" where
  "remove_all pinned removed [] changed = (pinned, removed, changed)"
| "remove_all pinned removed (i # dels) changed =
     (if i \<in> pinned then remove_all (pinned - {i}) (insert i removed) dels True
      else remove_all pinned removed dels changed)"

definition pair_round ::
  "nat \<Rightarrow> (nat \<Rightarrow> nat option list) \<Rightarrow> nat set \<Rightarrow> nat set \<Rightarrow> nat set \<times> nat set \<times> bool" where
  "pair_round n needs pinned removed =
     (let adds = round_adds n needs pinned removed;
          dels = round_removes n needs pinned removed
      in case insert_all (set dels) pinned adds False of
           (pinned', changed) \<Rightarrow> remove_all pinned' removed dels changed)"

text \<open>The loop: the pinned messages it leaves, and whether it converged within its rounds.\<close>

fun pair_rounds ::
  "nat \<Rightarrow> nat \<Rightarrow> (nat \<Rightarrow> nat option list) \<Rightarrow> nat set \<Rightarrow> nat set \<Rightarrow> nat set \<times> bool" where
  "pair_rounds 0 n needs pinned removed = (pinned, False)"
| "pair_rounds (Suc k) n needs pinned removed =
     (case pair_round n needs pinned removed of
        (pinned', removed', changed) \<Rightarrow>
          if changed then pair_rounds k n needs pinned' removed' else (pinned', True))"

definition enforce_tool_call_pairs :: "message list \<Rightarrow> nat set \<Rightarrow> nat set \<times> bool" where
  "enforce_tool_call_pairs ms pinned =
     (if pinned = {} then (pinned, True)
      else pair_rounds (max (length ms) 10) (length ms) (message_partners ms) pinned {})"

section \<open>The loop on a graph of partners\<close>

text \<open>What one round does, as sets.\<close>

lemma set_map_filter_iff: "y \<in> set (List.map_filter f xs) \<longleftrightarrow> (\<exists>x\<in>set xs. f x = Some y)"
  by (force simp: List.map_filter_def)

lemma set_round_adds:
  "set (round_adds n needs P R) = {j. \<exists>i<n. i \<in> P \<and> Some j \<in> set (needs i) \<and> j \<notin> R}"
proof -
  have "(\<exists>p\<in>set (needs i). (case p of Some j \<Rightarrow> if j \<notin> R then Some j else None | None \<Rightarrow> None) =
      Some j) \<longleftrightarrow> Some j \<in> set (needs i) \<and> j \<notin> R" for i j
    by (auto split: option.splits if_splits)
  then show ?thesis by (auto simp: round_adds_def set_map_filter_iff)
qed

lemma set_round_removes:
  "set (round_removes n needs P R) =
     {i. i < n \<and> i \<in> P \<and> (None \<in> set (needs i) \<or> (\<exists>j\<in>R. Some j \<in> set (needs i)))}"
proof -
  have "(\<exists>p\<in>set (needs i). (case p of Some j \<Rightarrow> if j \<notin> R then None else Some i
      | None \<Rightarrow> Some i) = Some k) \<longleftrightarrow>
      k = i \<and> (None \<in> set (needs i) \<or> (\<exists>j\<in>R. Some j \<in> set (needs i)))" for i k
    by (auto split: option.splits if_splits) (metis option.exhaust)+
  then show ?thesis by (auto simp: round_removes_def set_map_filter_iff)
qed

lemma insert_all_sets:
  "insert_all F P adds c = (P \<union> (set adds - F), c \<or> \<not> set adds - F \<subseteq> P)"
  by (induction F P adds c rule: insert_all.induct) auto

lemma remove_all_sets:
  "remove_all P R dels c = (P - set dels, R \<union> (set dels \<inter> P), c \<or> set dels \<inter> P \<noteq> {})"
  by (induction P R dels c rule: remove_all.induct) auto

locale pairing =
  fixes n :: nat and needs :: "nat \<Rightarrow> nat option list"
  assumes partner_bound: "i < n \<Longrightarrow> Some j \<in> set (needs i) \<Longrightarrow> j < n"
begin

definition link :: "(nat \<times> nat) set" where
  "link = {(i, j). i < n \<and> Some j \<in> set (needs i)}"

definition broken :: "nat set" where
  "broken = {i. i < n \<and> None \<in> set (needs i)}"

definition doomed :: "nat set" where
  "doomed = {i. \<exists>j \<in> broken. (i, j) \<in> link\<^sup>*}"

definition survivors :: "nat set \<Rightarrow> nat set" where
  "survivors P0 = link\<^sup>* `` P0 - doomed"

definition dels :: "nat set \<Rightarrow> nat set \<Rightarrow> nat set" where
  "dels P R = P \<inter> (broken \<union> link\<inverse> `` R)"

definition adds :: "nat set \<Rightarrow> nat set \<Rightarrow> nat set" where
  "adds P R = link `` P - R"

lemma link_bound: "(i, j) \<in> link \<Longrightarrow> i < n \<and> j < n"
  using partner_bound by (auto simp: link_def)

lemma pair_round_sets:
  assumes "P \<subseteq> {..<n}" and "P \<inter> R = {}"
  shows "pair_round n needs P R =
    (P \<union> adds P R - dels P R, R \<union> dels P R, \<not> adds P R \<subseteq> P \<or> dels P R \<noteq> {})"
proof -
  have a: "set (round_adds n needs P R) = adds P R"
    by (auto simp: set_round_adds adds_def link_def)
  have d: "set (round_removes n needs P R) = dels P R"
    using assms(1) by (auto simp: set_round_removes dels_def broken_def link_def)
  have "dels P R \<subseteq> P" by (auto simp: dels_def)
  then show ?thesis
    unfolding pair_round_def Let_def insert_all_sets remove_all_sets a d split prod.case
    by auto
qed

definition inv :: "nat set \<Rightarrow> nat set \<Rightarrow> nat set \<Rightarrow> bool" where
  "inv P0 P R \<longleftrightarrow>
     P \<inter> R = {} \<and> P \<union> R \<subseteq> {..<n} \<and> P0 \<subseteq> P \<union> R \<and> P \<union> R \<subseteq> link\<^sup>* `` P0 \<and>
     R \<subseteq> doomed \<and> link `` R \<subseteq> P \<union> R"

lemma inv_init: "P0 \<subseteq> {..<n} \<Longrightarrow> inv P0 P0 {}"
  by (auto simp: inv_def)

lemma dels_doomed: "R \<subseteq> doomed \<Longrightarrow> dels P R \<subseteq> doomed"
  by (auto simp: dels_def doomed_def) (blast intro: converse_rtrancl_into_rtrancl)

lemma inv_round:
  assumes "inv P0 P R"
  shows "inv P0 (P \<union> adds P R - dels P R) (R \<union> dels P R)"
    and "(P \<union> adds P R - dels P R) \<union> (R \<union> dels P R) = P \<union> R \<union> link `` (P \<union> R)"
proof -
  note i = assms [unfolded inv_def]
  have d: "dels P R \<subseteq> P" by (auto simp: dels_def)
  show u: "(P \<union> adds P R - dels P R) \<union> (R \<union> dels P R) = P \<union> R \<union> link `` (P \<union> R)"
    using i d by (auto simp: adds_def)
  have "link `` (P \<union> R) \<subseteq> link\<^sup>* `` P0"
    using i by (auto intro: rtrancl_into_rtrancl dest!: subsetD)
  moreover have "link `` (P \<union> R) \<subseteq> {..<n}" using link_bound by auto
  moreover have "link `` (R \<union> dels P R) \<subseteq> P \<union> R \<union> link `` (P \<union> R)"
    using d by auto
  moreover have "R \<union> dels P R \<subseteq> doomed" using i dels_doomed by auto
  ultimately show "inv P0 (P \<union> adds P R - dels P R) (R \<union> dels P R)"
    using i d unfolding inv_def u by (auto simp: adds_def)
qed

lemma unchanged_survivors:
  assumes "inv P0 P R" and "adds P R \<subseteq> P" and "dels P R = {}"
  shows "P = survivors P0"
proof -
  note i = assms(1) [unfolded inv_def]
  have p: "link `` P \<subseteq> P" using assms i by (auto simp: adds_def dels_def)
  have closed: "link `` (P \<union> R) \<subseteq> P \<union> R" using p i by auto
  have reach: "link\<^sup>* `` P0 \<subseteq> P \<union> R"
    using i Image_closed_trancl [OF closed] by (metis Image_mono order_refl)
  have "P \<inter> doomed = {}"
  proof -
    have "link\<^sup>* `` P \<subseteq> P" using Image_closed_trancl [OF p] by auto
    then show ?thesis using assms(3) by (auto simp: doomed_def dels_def)
  qed
  then show ?thesis using i reach by (auto simp: survivors_def)
qed

lemma rounds_survivors:
  "pair_rounds k n needs P R = (Q, True) \<Longrightarrow> inv P0 P R \<Longrightarrow> Q = survivors P0"
proof (induction k arbitrary: P R)
  case (Suc k)
  have s: "P \<subseteq> {..<n}" "P \<inter> R = {}" using Suc.prems(2) by (auto simp: inv_def)
  show ?case
  proof (cases "adds P R \<subseteq> P \<and> dels P R = {}")
    case True
    then have "Q = P" using Suc.prems(1) by (auto simp: pair_round_sets [OF s] Un_absorb2)
    then show ?thesis using unchanged_survivors Suc.prems(2) True by blast
  next
    case False
    then have "pair_rounds k n needs (P \<union> adds P R - dels P R) (R \<union> dels P R) = (Q, True)"
      using Suc.prems(1) by (auto simp: pair_round_sets [OF s])
    then show ?thesis using Suc.IH inv_round(1) [OF Suc.prems(2)] by blast
  qed
qed simp

lemma survivors_closed:
  assumes "P0 \<subseteq> {..<n}" and "i \<in> survivors P0" and "p \<in> set (needs i)"
  shows "\<exists>j\<in>survivors P0. p = Some j"
proof -
  from assms(2) obtain s where s: "s \<in> P0" "(s, i) \<in> link\<^sup>*" and i: "i \<notin> doomed"
    by (auto simp: survivors_def)
  have "i < n" using s(2,1) assms(1) by (induction rule: rtrancl_induct) (auto dest: link_bound)
  moreover have "p \<noteq> None"
  proof
    assume "p = None"
    then have "i \<in> broken" using assms(3) \<open>i < n\<close> by (simp add: broken_def)
    then show False using i by (auto simp: doomed_def)
  qed
  ultimately obtain j where j: "p = Some j" "(i, j) \<in> link" using assms(3) by (auto simp: link_def)
  moreover have "j \<notin> doomed"
    using i j(2) by (auto simp: doomed_def dest: converse_rtrancl_into_rtrancl)
  ultimately show ?thesis using s by (auto simp: survivors_def intro: rtrancl_into_rtrancl)
qed

text \<open>
  When every path of three links closes to one link, as in a transcript where each answer belongs
  to one request, the insertions are over after two rounds and the removals after three more.
\<close>

fun state :: "nat set \<Rightarrow> nat \<Rightarrow> nat set \<times> nat set" where
  "state P0 0 = (P0, {})"
| "state P0 (Suc k) =
     (case state P0 k of (P, R) \<Rightarrow> (P \<union> adds P R - dels P R, R \<union> dels P R))"

definition reached :: "nat set \<Rightarrow> nat \<Rightarrow> nat set" where
  "reached P0 k = fst (state P0 k) \<union> snd (state P0 k)"

lemma inv_state: "P0 \<subseteq> {..<n} \<Longrightarrow> inv P0 (fst (state P0 k)) (snd (state P0 k))"
  by (induction k) (auto simp: inv_init inv_round(1) split: prod.split)

lemma reached_Suc:
  "P0 \<subseteq> {..<n} \<Longrightarrow> reached P0 (Suc k) = reached P0 k \<union> link `` reached P0 k"
  using inv_round(2) [OF inv_state, of P0 k]
  by (cases "state P0 k") (simp add: reached_def)

lemma removed_Suc:
  assumes "P0 \<subseteq> {..<n}"
  shows "snd (state P0 (Suc k)) =
    snd (state P0 k) \<union> (reached P0 k \<inter> (broken \<union> link\<inverse> `` snd (state P0 k)))"
  by (auto simp: reached_def dels_def split: prod.split)

lemma pair_rounds_state:
  assumes "P0 \<subseteq> {..<n}"
    and "pair_rounds k n needs (fst (state P0 m)) (snd (state P0 m)) = (Q, False)" and "j < k"
  shows "state P0 (Suc (m + j)) \<noteq> state P0 (m + j)"
  using assms(2,3)
proof (induction k arbitrary: m j)
  case (Suc k)
  define P where "P = fst (state P0 m)"
  define R where "R = snd (state P0 m)"
  have i: "inv P0 P R" using inv_state [OF assms(1)] by (simp add: P_def R_def)
  then have s: "P \<subseteq> {..<n}" "P \<inter> R = {}" by (auto simp: inv_def)
  have nxt: "state P0 (Suc m) = (P \<union> adds P R - dels P R, R \<union> dels P R)"
    by (simp add: P_def R_def split: prod.split)
  have changed: "\<not> (adds P R \<subseteq> P \<and> dels P R = {})"
    using Suc.prems(1) unfolding P_def [symmetric] R_def [symmetric]
    by (auto simp: pair_round_sets [OF s] split: if_splits)
  show ?case
  proof (cases j)
    case 0
    have "\<not> (R \<union> dels P R = R \<and> P \<union> adds P R - dels P R = P)"
      using changed s(2) by (auto simp: dels_def)
    then show ?thesis using 0 nxt by (auto simp: P_def R_def split: prod.splits)
  next
    case (Suc j')
    then have "pair_rounds k n needs (fst (state P0 (Suc m))) (snd (state P0 (Suc m))) = (Q, False)"
      using Suc.prems(1) changed unfolding nxt P_def [symmetric] R_def [symmetric]
      by (auto simp: pair_round_sets [OF s])
    from Suc.IH [OF this, of j'] Suc Suc.prems(2) show ?thesis by simp
  qed
qed simp

lemma star_trancl:
  assumes "link O link O link \<subseteq> link" and "(i, j) \<in> link\<^sup>+"
  shows "(i, j) \<in> link \<union> link O link"
  using assms(2)
proof (induction rule: trancl_induct)
  case (step y z)
  then show ?case using assms(1) by blast
qed simp

lemma star_reached:
  assumes "P0 \<subseteq> {..<n}" and "link O link O link \<subseteq> link" and "2 \<le> k"
  shows "reached P0 k = reached P0 2" and "link `` reached P0 2 \<subseteq> reached P0 2"
proof -
  have r: "reached P0 2 = P0 \<union> link `` P0 \<union> link `` (P0 \<union> link `` P0)"
    using reached_Suc [OF assms(1), of 0] reached_Suc [OF assms(1), of 1]
    by (simp add: numeral_2_eq_2) (simp add: reached_def)
  have "(link O link O link) `` P0 \<subseteq> link `` P0" using assms(2) by (rule Image_mono) simp
  then have third: "link `` (link `` (link `` P0)) \<subseteq> link `` P0" by (simp add: relcomp_Image)
  show closed: "link `` reached P0 2 \<subseteq> reached P0 2"
    unfolding r Image_Un using third by (intro Un_least) auto
  show "reached P0 k = reached P0 2"
    using assms(3) by (induction k rule: dec_induct) (use closed reached_Suc [OF assms(1)] in auto)
qed

lemma star_converges:
  assumes P0: "P0 \<subseteq> {..<n}" and star: "link O link O link \<subseteq> link" and k: "6 \<le> k"
  shows "pair_rounds k n needs P0 {} = (survivors P0, True)"
proof -
  define C where "C = reached P0 2"
  define R where "R m = snd (state P0 m)" for m
  have closed: "link `` C \<subseteq> C"
    unfolding C_def by (rule star_reached(2) [OF P0 star order_refl])
  have reached: "reached P0 m = C" if "2 \<le> m" for m
    unfolding C_def using that by (rule star_reached(1) [OF P0 star])
  have R: "R (Suc m) = R m \<union> (C \<inter> (broken \<union> link\<inverse> `` R m))" if "2 \<le> m" for m
    using removed_Suc [OF P0, of m] reached [OF that] by (simp add: R_def)
  have r3: "C \<inter> broken \<subseteq> R 3" using R [of 2] by (auto simp: numeral_3_eq_3 numeral_2_eq_2)
  have r4: "R 3 \<union> (C \<inter> link\<inverse> `` R 3) \<subseteq> R 4" using R [of 3] by auto
  have r5: "R 4 \<union> (C \<inter> link\<inverse> `` R 4) \<subseteq> R 5" using R [of 4] by auto
  have doom: "R 5 \<subseteq> doomed" using inv_state [OF P0] by (auto simp: R_def inv_def)
  have "x \<in> R 5" if x: "x \<in> C" and y: "(x, y) \<in> link" "y \<in> R 5" for x y
  proof -
    from doom y(2) obtain b where b: "b \<in> broken" "(y, b) \<in> link\<^sup>*" by (auto simp: doomed_def)
    then have "(x, b) \<in> link \<union> link O link"
      using y(1) by (intro star_trancl [OF star]) (meson rtrancl_into_trancl2)
    then show ?thesis using b(1) x closed r3 r4 r5 by blast
  qed
  then have R6: "R 6 = R 5" using R [of 5] r3 r4 r5 by auto
  have "fst (state P0 m) = reached P0 m - R m" for m
    using inv_state [OF P0, of m] by (auto simp: R_def reached_def inv_def)
  then have "state P0 6 = state P0 5"
    using R6 reached [of 5] reached [of 6] by (simp add: prod_eq_iff R_def)
  then have "state P0 (Suc (0 + 5)) = state P0 (0 + 5)" by simp
  then have "snd (pair_rounds k n needs P0 {})"
    using pair_rounds_state [OF P0, of k 0 _ 5] k
    by (cases "pair_rounds k n needs P0 {}") fastforce
  then show ?thesis
    using rounds_survivors [OF _ inv_init [OF P0]] by (metis prod.collapse)
qed

end

section \<open>The loop on a transcript\<close>

lemma fold_upd: "fold (\<lambda>k M. M(k \<mapsto> i)) ks M k = (if k \<in> set ks then Some i else M k)"
  by (induction ks arbitrary: M) auto

text \<open>The map sends an id to the last message that has it.\<close>

lemma index_ids_None:
  "index_ids ids i ms M k = None \<longleftrightarrow> M k = None \<and> (\<forall>m\<in>set ms. k \<notin> set (ids m))"
  by (induction ms arbitrary: i M) (auto simp: fold_upd)

lemma index_ids_Some:
  "index_ids ids i ms M k = Some j \<Longrightarrow>
     M k = Some j \<or> (i \<le> j \<and> j < i + length ms \<and> k \<in> set (ids (ms ! (j - i))))"
proof (induction ms arbitrary: i M)
  case (Cons m ms)
  from Cons.IH [of "Suc i"] Cons.prems show ?case
    by (fastforce simp: fold_upd nth_Cons' split: if_splits)
qed simp

lemma call_index:
  "call_id_to_idx ms k = Some j \<Longrightarrow> j < length ms \<and> k \<in> set (call_ids (ms ! j))"
  "call_id_to_idx ms k = None \<longleftrightarrow> (\<forall>m\<in>set ms. k \<notin> set (call_ids m))"
  by (auto simp: call_id_to_idx_def index_ids_None dest: index_ids_Some)

lemma result_index:
  "result_id_to_idx ms k = Some j \<Longrightarrow> j < length ms \<and> k \<in> set (result_ids (ms ! j))"
  "result_id_to_idx ms k = None \<longleftrightarrow> (\<forall>m\<in>set ms. k \<notin> set (result_ids m))"
  by (auto simp: result_id_to_idx_def index_ids_None dest: index_ids_Some)

lemma in_call_ids: "k \<in> set (call_ids m) \<longleftrightarrow> (\<exists>n v c. ToolUse k n v c \<in> set (content m))"
  by (auto simp: call_ids_def set_map_filter_iff elim!: use_id.elims) force

lemma in_result_ids: "k \<in> set (result_ids m) \<longleftrightarrow> (\<exists>t e b. ToolResult k t e b \<in> set (content m))"
  by (auto simp: result_ids_def set_map_filter_iff elim!: result_id.elims) force

lemma message_partners_iff:
  "p \<in> set (message_partners ms i) \<longleftrightarrow>
     (\<exists>k. k \<in> set (call_ids (ms ! i)) \<and> p = result_id_to_idx ms k) \<or>
     (\<exists>k. k \<in> set (result_ids (ms ! i)) \<and> p = call_id_to_idx ms k)"
proof -
  have bp: "block_partner calls results b = Some p \<longleftrightarrow>
      (\<exists>k n v c. b = ToolUse k n v c \<and> p = results k) \<or>
      (\<exists>k t e bs. b = ToolResult k t e bs \<and> p = calls k)" for calls results b
    by (cases b) auto
  then show ?thesis
    unfolding message_partners_def set_map_filter_iff in_call_ids in_result_ids bp by blast
qed

interpretation transcript: pairing "length ms" "message_partners ms" for ms
  by unfold_locales (metis message_partners_iff call_index(1) result_index(1))

text \<open>
  Two messages are linked when one holds a call and the other its result; a half pair is a message
  with a call nothing answers or a result nothing asked for.
\<close>

definition pair_link :: "message list \<Rightarrow> (nat \<times> nat) set" where
  "pair_link ms =
     {(i, j). i < length ms \<and>
        ((\<exists>k \<in> set (call_ids (ms ! i)). result_id_to_idx ms k = Some j) \<or>
         (\<exists>k \<in> set (result_ids (ms ! i)). call_id_to_idx ms k = Some j))}"

definition half_pair :: "message list \<Rightarrow> nat \<Rightarrow> bool" where
  "half_pair ms i \<longleftrightarrow> i < length ms \<and>
     ((\<exists>k \<in> set (call_ids (ms ! i)). \<forall>m\<in>set ms. k \<notin> set (result_ids m)) \<or>
      (\<exists>k \<in> set (result_ids (ms ! i)). \<forall>m\<in>set ms. k \<notin> set (call_ids m)))"

definition one_request_per_answer :: "message list \<Rightarrow> bool" where
  "one_request_per_answer ms \<longleftrightarrow>
     (\<forall>m\<in>set ms. result_ids m \<noteq> [] \<longrightarrow>
        call_ids m = [] \<and>
        (\<exists>c. \<forall>k\<in>set (result_ids m). \<forall>j<length ms. k \<in> set (call_ids (ms ! j)) \<longrightarrow> j = c))"

lemma transcript_link: "transcript.link ms = pair_link ms"
  by (auto simp: transcript.link_def pair_link_def message_partners_iff eq_commute)

lemma transcript_broken: "transcript.broken ms = Collect (half_pair ms)"
proof -
  have "None = call_id_to_idx ms k \<longleftrightarrow> (\<forall>m\<in>set ms. k \<notin> set (call_ids m))"
    and "None = result_id_to_idx ms k \<longleftrightarrow> (\<forall>m\<in>set ms. k \<notin> set (result_ids m))" for k
    using call_index(2) result_index(2) by metis+
  then show ?thesis
    by (intro set_eqI) (simp add: transcript.broken_def half_pair_def message_partners_iff, blast)
qed

lemma pair_link_cases:
  assumes "(i, j) \<in> pair_link ms"
  obtains (call) k where "k \<in> set (call_ids (ms ! i))" "k \<in> set (result_ids (ms ! j))"
      "i < length ms" "j < length ms" "result_id_to_idx ms k = Some j"
  | (result) k where "k \<in> set (result_ids (ms ! i))" "k \<in> set (call_ids (ms ! j))"
      "i < length ms" "j < length ms"
  using assms by (auto simp: pair_link_def dest: call_index(1) result_index(1))

text \<open>In such a transcript an answer is linked to its request only, so three links are one.\<close>

lemma answer_links:
  assumes one: "one_request_per_answer ms" and "k \<in> set (result_ids (ms ! j))"
    and "k \<in> set (call_ids (ms ! i))" and "i < length ms" "j < length ms"
    and "(j, l) \<in> pair_link ms"
  shows "l = i"
proof -
  have "ms ! j \<in> set ms" using assms(5) by simp
  then obtain c where c: "call_ids (ms ! j) = []"
    "\<forall>k\<in>set (result_ids (ms ! j)). \<forall>i<length ms. k \<in> set (call_ids (ms ! i)) \<longrightarrow> i = c"
    using one assms(2) unfolding one_request_per_answer_def by fastforce
  then have "i = c" using assms by blast
  moreover have "l = c"
    using assms(6) by (cases rule: pair_link_cases) (use c in auto)
  ultimately show ?thesis by simp
qed

lemma requests_star:
  assumes "one_request_per_answer ms"
  shows "pair_link ms O pair_link ms O pair_link ms \<subseteq> pair_link ms"
proof clarify
  fix i j k l assume l: "(i, j) \<in> pair_link ms" "(j, k) \<in> pair_link ms" "(k, l) \<in> pair_link ms"
  from l(1) show "(i, l) \<in> pair_link ms"
  proof (cases rule: pair_link_cases)
    case (call x)
    then have "k = i" using answer_links [OF assms] l(2) by blast
    then show ?thesis using l(3) by simp
  next
    case (result x)
    from l(2) have "l = j"
    proof (cases rule: pair_link_cases)
      case (call y)
      then show ?thesis using answer_links [OF assms] l(3) by blast
    next
      case (result y)
      have "ms ! j \<in> set ms" using \<open>j < length ms\<close> by simp
      then have "call_ids (ms ! j) = []"
        using assms result(1) unfolding one_request_per_answer_def by fastforce
      then show ?thesis using \<open>x \<in> set (call_ids (ms ! j))\<close> by simp
    qed
    then show ?thesis using l(1) by simp
  qed
qed

lemma pairing_exact:
  assumes "one_request_per_answer ms" and "P \<subseteq> {..<length ms}"
  shows "enforce_tool_call_pairs ms P =
    ({i. (\<exists>p\<in>P. (p, i) \<in> (pair_link ms)\<^sup>*) \<and>
         \<not> (\<exists>h. half_pair ms h \<and> (i, h) \<in> (pair_link ms)\<^sup>*)}, True)"
proof (cases "P = {}")
  case False
  then show ?thesis
    using transcript.star_converges [OF assms(2), of "max (length ms) 10"] requests_star [OF assms(1)]
    by (auto simp: enforce_tool_call_pairs_def transcript_link transcript.survivors_def
        transcript.doomed_def transcript_broken)
qed (simp add: enforce_tool_call_pairs_def)

text \<open>
  C20. Which messages the pairing keeps, in a transcript where every answer belongs to one request
  (a message with tool results has no calls, and all its results answer one message): exactly the
  messages linked to a pinned one through pairs, less those linked to a call without a result or
  a result without a call. The rounds the code allows are enough: the loop converges.
\<close>

theorem pairing_keeps_exactly:
  assumes "one_request_per_answer ms" and "P \<subseteq> {..<length ms}"
  shows "enforce_tool_call_pairs ms P =
    ({i. (\<exists>p\<in>P. (p, i) \<in> (pair_link ms)\<^sup>*) \<and>
         \<not> (\<exists>h. half_pair ms h \<and> (i, h) \<in> (pair_link ms)\<^sup>*)}, True)"
  using assms by (rule pairing_exact)

lemma converged_whole:
  assumes "P \<subseteq> {..<length ms}" and "enforce_tool_call_pairs ms P = (K, True)"
  shows "(\<exists>i\<in>K. k \<in> set (call_ids (ms ! i))) \<longleftrightarrow> (\<exists>i\<in>K. k \<in> set (result_ids (ms ! i)))"
proof (cases "P = {}")
  case False
  then have K: "K = transcript.survivors ms P"
    using assms transcript.rounds_survivors transcript.inv_init
    by (simp add: enforce_tool_call_pairs_def)
  show ?thesis
  proof (intro iffI; elim bexE)
    fix i assume i: "i \<in> K" "k \<in> set (call_ids (ms ! i))"
    then have "result_id_to_idx ms k \<in> set (message_partners ms i)"
      by (auto simp: message_partners_iff)
    then show "\<exists>i\<in>K. k \<in> set (result_ids (ms ! i))"
      using transcript.survivors_closed [OF assms(1)] i(1) result_index(1) unfolding K by metis
  next
    fix i assume i: "i \<in> K" "k \<in> set (result_ids (ms ! i))"
    then have "call_id_to_idx ms k \<in> set (message_partners ms i)"
      by (auto simp: message_partners_iff)
    then show "\<exists>i\<in>K. k \<in> set (call_ids (ms ! i))"
      using transcript.survivors_closed [OF assms(1)] i(1) call_index(1) unfolding K by metis
  qed
qed (use assms in \<open>simp add: enforce_tool_call_pairs_def\<close>)

text \<open>A request, its answer, and a call that nothing answers.\<close>

definition answered_transcript :: "message list" where
  "answered_transcript =
     [\<lparr>role = ''user'', content = [Text ''go'' None]\<rparr>,
      \<lparr>role = ''assistant'', content = [ToolUse ''a'' ''read_file'' JNull None]\<rparr>,
      \<lparr>role = ''user'', content = [ToolResult ''a'' ''ok'' None None]\<rparr>,
      \<lparr>role = ''assistant'', content = [ToolUse ''b'' ''read_file'' JNull None]\<rparr>]"

lemma answered_one_request: "one_request_per_answer answered_transcript"
proof -
  have "\<forall>k\<in>set (result_ids m). \<forall>j<length answered_transcript.
      k \<in> set (call_ids (answered_transcript ! j)) \<longrightarrow> j = 1" if "m \<in> set answered_transcript" for m
    using that
    by (auto simp: answered_transcript_def result_ids_def call_ids_def List.map_filter_def
        less_Suc_eq)
  moreover have "result_ids m \<noteq> [] \<longrightarrow> call_ids m = []" if "m \<in> set answered_transcript" for m
    using that
    by (auto simp: answered_transcript_def result_ids_def call_ids_def List.map_filter_def)
  ultimately show ?thesis unfolding one_request_per_answer_def by blast
qed

theorem pairing_keeps_exactly_witness:
  "enforce_tool_call_pairs answered_transcript {0, 2, 3} =
    ({i. (\<exists>p\<in>{0, 2, 3}. (p, i) \<in> (pair_link answered_transcript)\<^sup>*) \<and>
         \<not> (\<exists>h. half_pair answered_transcript h \<and> (i, h) \<in> (pair_link answered_transcript)\<^sup>*)}, True)
   \<and> enforce_tool_call_pairs answered_transcript {0, 2, 3} = ({0, 1, 2}, True)"
proof
  have "{0, 2, 3} \<subseteq> {..<length answered_transcript}" by (simp add: answered_transcript_def)
  from pairing_keeps_exactly [OF answered_one_request this]
  show "enforce_tool_call_pairs answered_transcript {0, 2, 3} =
    ({i. (\<exists>p\<in>{0, 2, 3}. (p, i) \<in> (pair_link answered_transcript)\<^sup>*) \<and>
         \<not> (\<exists>h. half_pair answered_transcript h \<and> (i, h) \<in> (pair_link answered_transcript)\<^sup>*)}, True)" .
  show "enforce_tool_call_pairs answered_transcript {0, 2, 3} = ({0, 1, 2}, True)" by code_simp
qed

text \<open>
  A transcript whose messages form one chain: message \<open>i\<close> answers the call of the message before
  it and makes a call of its own, the last of which nothing answers.
\<close>

definition chain_message :: "nat \<Rightarrow> message" where
  "chain_message i =
     \<lparr>role = ''assistant'',
      content = (if i = 0 then [] else [ToolResult [char_of i] ''ok'' None None]) @
        [ToolUse [char_of (i + 1)] ''read_file'' JNull None]\<rparr>"

definition chain_transcript :: "message list" where
  "chain_transcript = map chain_message [0..<10]"

text \<open>
  The rounds allowed by the code are not enough for every transcript: on a chain of ten
  messages, of which the first is pinned, the loop stops after its ten rounds without converging,
  and keeps a message whose tool call has its result in a message that it drops.
\<close>

theorem chain_keeps_half_a_pair:
  "enforce_tool_call_pairs chain_transcript {0} = ({0..<9}, False) \<and>
   [CHR 0x09] \<in> set (call_ids (chain_transcript ! 8)) \<and>
   \<not> (\<exists>i\<in>{0..<9}. [CHR 0x09] \<in> set (result_ids (chain_transcript ! i))) \<and>
   [CHR 0x09] \<in> set (result_ids (chain_transcript ! 9))"
  by code_simp

end
