(* ===== verification/Compaction_Plan.thy ===== *)
theory Compaction_Plan
  imports Message_Tokens Approval_Cache Tool_Pairs
begin

text \<open>
  Which messages a compaction keeps (\<open>crates/runtime-server/src/compaction/plan.rs\<close>): the recent
  tail, messages about errors, patches or working-set paths and the pins of the caller, after the
  pairing of theory \<open>Tool_Pairs\<close>.

  Parameters: the matches of the path expression (the \<open>regex\<close> crate), \<open>Path::is_absolute\<close> and
  \<open>Path::strip_prefix\<close> of the platform, the existence of a file in the workspace, \<open>Display\<close> of
  a JSON value, and the Unicode tables \<open>u\<close> of \<open>to_lowercase\<close>.
\<close>

section \<open>Paths that a message mentions\<close>

record path_tools =
  pt_matches :: "string \<Rightarrow> string list"
  pt_is_absolute :: "string \<Rightarrow> bool"
  pt_workspace :: bool
  pt_strip_workspace :: "string \<Rightarrow> string option"
  pt_exists :: "string \<Rightarrow> bool"

function trim_start_matches :: "string \<Rightarrow> string \<Rightarrow> string" where
  "trim_start_matches p s =
     (if p \<noteq> [] \<and> starts_with s p then trim_start_matches p (drop (length p) s) else s)"
  by pat_completeness auto
termination
  by (relation "measure (length \<circ> snd)") (auto simp: starts_with_iff)

declare trim_start_matches.simps [simp del]

definition ROOT_FILES :: "string list" where
  "ROOT_FILES =
     [''Cargo.toml'', ''Cargo.lock'', ''README.md'', ''CHANGELOG.md'', ''AGENTS.md'',
      ''config.example.toml'']"

text \<open>The last test of \<open>looks_repo_relative\<close>, \<open>rsplit('.').next().is_some()\<close>, always holds.\<close>

definition looks_repo_relative :: "string \<Rightarrow> bool" where
  "looks_repo_relative path \<longleftrightarrow>
     path \<in> set ROOT_FILES \<or>
     list_ex (starts_with path)
       [''src/'', ''tests/'', ''docs/'', ''examples/'', ''benches/'', ''crates/'', ''.github/''] \<or>
     CHR ''/'' \<in> set path"

definition normalize_path_candidate :: "path_tools \<Rightarrow> string \<Rightarrow> string option" where
  "normalize_path_candidate pt candidate =
     (if candidate = [] then None
      else
        let cleaned = map (\<lambda>c. if c = CHR 0x5C then CHR ''/'' else c) candidate;
            path = (if pt_is_absolute pt cleaned
                    then (if pt_workspace pt then pt_strip_workspace pt cleaned else None)
                    else Some cleaned)
        in case path of
             None \<Rightarrow> None
           | Some p \<Rightarrow>
               let rel = trim_start_matches ''./'' p in
               if rel = [] \<or> str_contains rel ''..'' then None
               else if pt_workspace pt then
                 (if pt_exists pt rel \<or> looks_repo_relative rel then Some rel else None)
               else if looks_repo_relative rel then Some rel else None)"

definition paths_from_text :: "path_tools \<Rightarrow> string \<Rightarrow> string list" where
  "paths_from_text pt text = List.map_filter (normalize_path_candidate pt) (pt_matches pt text)"

definition paths_from_tool_input :: "path_tools \<Rightarrow> json \<Rightarrow> string list" where
  "paths_from_tool_input pt input =
     List.map_filter (\<lambda>key. Option.bind (str_field input key) (normalize_path_candidate pt))
       [''path'', ''file'', ''target'', ''cwd''] @
     concat (map (\<lambda>key.
         case Option.bind (json_get input key) as_array of
           None \<Rightarrow> []
         | Some vals \<Rightarrow>
             List.map_filter (\<lambda>v. Option.bind (as_str v) (normalize_path_candidate pt)) vals)
       [''paths'', ''files'', ''targets''])"

fun block_paths :: "path_tools \<Rightarrow> content_block \<Rightarrow> string list" where
  "block_paths pt (Text txt _) = paths_from_text pt txt"
| "block_paths pt (ToolResult _ txt _ _) = paths_from_text pt txt"
| "block_paths pt (ToolUse _ _ input _) = paths_from_tool_input pt input"
| "block_paths pt _ = []"

definition extract_paths_from_message :: "path_tools \<Rightarrow> message \<Rightarrow> string list" where
  "extract_paths_from_message pt m = concat (map (block_paths pt) (content m))"

definition MAX_WORKING_SET_PATHS :: nat where "MAX_WORKING_SET_PATHS = 24"
definition RECENT_WORKING_SET_WINDOW :: nat where "RECENT_WORKING_SET_WINDOW = 12"

text \<open>
  The two loops of \<open>derive_working_set_paths\<close> run over one sequence of candidates, the seed
  messages from the last to the first and then the recent messages; the function returns as soon
  as it has 24 paths.
\<close>

fun collect_paths :: "string list \<Rightarrow> string list \<Rightarrow> string list" where
  "collect_paths paths [] = paths"
| "collect_paths paths (c # cs) =
     (if c \<in> set paths then collect_paths paths cs
      else if MAX_WORKING_SET_PATHS \<le> length paths + 1 then paths @ [c]
      else collect_paths (paths @ [c]) cs)"

definition derive_working_set_paths ::
  "path_tools \<Rightarrow> message list \<Rightarrow> nat list \<Rightarrow> string list" where
  "derive_working_set_paths pt ms seeds =
     collect_paths []
       (concat (map (\<lambda>i. extract_paths_from_message pt (ms ! i))
          (rev (sort (filter (\<lambda>i. i < length ms) seeds)))) @
        concat (map (extract_paths_from_message pt)
          (take RECENT_WORKING_SET_WINDOW (rev ms))))"

section \<open>Messages worth pinning\<close>

fun block_text :: "(json \<Rightarrow> string) \<Rightarrow> content_block \<Rightarrow> string" where
  "block_text to_text (Text txt _) = txt @ [CHR 0x0A]"
| "block_text to_text (ToolUse _ name input _) =
     ''[tool_use:'' @ name @ ''] '' @ to_text input @ [CHR 0x0A]"
| "block_text to_text (ToolResult _ txt _ _) = txt @ [CHR 0x0A]"
| "block_text to_text _ = []"

definition compaction_message_text :: "(json \<Rightarrow> string) \<Rightarrow> message \<Rightarrow> string" where
  "compaction_message_text to_text m = concat (map (block_text to_text) (content m))"

definition error_markers :: "string list" where
  "error_markers =
     [''error:'', ''error '', ''failed'', ''panic'', ''traceback'', ''stack trace'',
      ''assertion failed'', ''test failed'']"

definition patch_markers :: "string list" where
  "patch_markers =
     [''diff --git'', ''+++ b/'', ''--- a/'', ''*** begin patch'', ''*** update file:'',
      ''*** add file:'', ''*** delete file:'', [CHR 0x60, CHR 0x60, CHR 0x60] @ ''diff'',
      ''apply_patch'']"

definition should_pin_message :: "(string \<Rightarrow> string) \<Rightarrow> string \<Rightarrow> string list \<Rightarrow> bool" where
  "should_pin_message u text working_set \<longleftrightarrow>
     list_ex (str_contains text) working_set \<or>
     list_ex (str_contains (to_lowercase u text)) error_markers \<or>
     list_ex (str_contains (to_lowercase u text)) patch_markers"

section \<open>The plan\<close>

record compaction_plan =
  pinned_indices :: "nat set"
  summarize_indices :: "nat list"

definition KEEP_RECENT_MESSAGES :: nat where "KEEP_RECENT_MESSAGES = 4"

definition plan_working_set ::
  "path_tools \<Rightarrow> message list \<Rightarrow> nat list option \<Rightarrow> string list option \<Rightarrow> string list" where
  "plan_working_set pt ms pins external_paths =
     derive_working_set_paths pt ms (case pins of Some is \<Rightarrow> is | None \<Rightarrow> []) @
     (case external_paths of
        Some ps \<Rightarrow> List.map_filter (normalize_path_candidate pt) ps
      | None \<Rightarrow> [])"

text \<open>The pins before the pairing: the tail, the heuristics, and the pins of the caller.\<close>

definition initial_pins ::
  "(string \<Rightarrow> string) \<Rightarrow> (json \<Rightarrow> string) \<Rightarrow> path_tools \<Rightarrow> message list \<Rightarrow> nat \<Rightarrow> nat list option \<Rightarrow>
   string list option \<Rightarrow> nat set" where
  "initial_pins u to_text pt ms keep_recent pins external_paths =
     (let len = length ms;
          ws = plan_working_set pt ms pins external_paths
      in {len - keep_recent..<len} \<union>
         set (filter (\<lambda>i. should_pin_message u (compaction_message_text to_text (ms ! i)) ws)
            [0..<len - keep_recent]) \<union>
         (case pins of Some is \<Rightarrow> set (filter (\<lambda>i. i < len) is) | None \<Rightarrow> {}))"

definition plan_compaction ::
  "(string \<Rightarrow> string) \<Rightarrow> (json \<Rightarrow> string) \<Rightarrow> path_tools \<Rightarrow> message list \<Rightarrow> nat \<Rightarrow> nat list option \<Rightarrow>
   string list option \<Rightarrow> compaction_plan" where
  "plan_compaction u to_text pt ms keep_recent pins external_paths =
     (if ms = [] then \<lparr>pinned_indices = {}, summarize_indices = []\<rparr>
      else
        let pinned = fst (enforce_tool_call_pairs ms
              (initial_pins u to_text pt ms keep_recent pins external_paths))
        in \<lparr>pinned_indices = pinned,
            summarize_indices = filter (\<lambda>i. i \<notin> pinned) [0..<length ms]\<rparr>)"

section \<open>What a plan keeps\<close>

lemma initial_pins_bound: "initial_pins u to_text pt ms keep_recent pins external_paths \<subseteq> {..<length ms}"
  by (auto simp: initial_pins_def Let_def split: option.split)

text \<open>\<open>kept_by_plan\<close>: the messages a compaction returns, in order.\<close>

definition kept_by_plan :: "compaction_plan \<Rightarrow> message list \<Rightarrow> message list" where
  "kept_by_plan plan ms =
     map (\<lambda>i. ms ! i) (filter (\<lambda>i. i \<in> pinned_indices plan) [0..<length ms])"

lemma kept_members:
  assumes "pinned_indices plan \<subseteq> {..<length ms}"
  shows "(\<exists>m\<in>set (kept_by_plan plan ms). Q m) \<longleftrightarrow> (\<exists>i\<in>pinned_indices plan. Q (ms ! i))"
  using assms by (auto simp: kept_by_plan_def)

lemma kept_bound:
  "P \<subseteq> {..<length ms} \<Longrightarrow>
    {i. (\<exists>p\<in>P. (p, i) \<in> (pair_link ms)\<^sup>*) \<and> Q i} \<subseteq> {..<length ms}"
proof clarify
  fix i p assume P: "P \<subseteq> {..<length ms}" "p \<in> P" and "(p, i) \<in> (pair_link ms)\<^sup>*"
  from this(3) show "i < length ms"
    by (induction rule: rtrancl_induct) (use P in \<open>auto elim: pair_link_cases\<close>)
qed

lemma plan_pairs:
  assumes "one_request_per_answer ms" and "ms \<noteq> []"
  shows "pinned_indices (plan_compaction u to_text pt ms keep_recent pins external_paths) =
    {i. (\<exists>p\<in>initial_pins u to_text pt ms keep_recent pins external_paths.
           (p, i) \<in> (pair_link ms)\<^sup>*) \<and>
        \<not> (\<exists>h. half_pair ms h \<and> (i, h) \<in> (pair_link ms)\<^sup>*)}"
    and "enforce_tool_call_pairs ms (initial_pins u to_text pt ms keep_recent pins external_paths) =
      (pinned_indices (plan_compaction u to_text pt ms keep_recent pins external_paths), True)"
  using assms pairing_exact [OF assms(1) initial_pins_bound]
  by (simp_all add: plan_compaction_def)

lemma plan_whole_pairs:
  assumes "one_request_per_answer ms"
  shows "(\<exists>m \<in> set (kept_by_plan
            (plan_compaction u to_text pt ms keep_recent pins external_paths) ms).
            k \<in> set (call_ids m)) \<longleftrightarrow>
         (\<exists>m \<in> set (kept_by_plan
            (plan_compaction u to_text pt ms keep_recent pins external_paths) ms).
            k \<in> set (result_ids m))"
proof (cases "ms = []")
  case False
  have "pinned_indices (plan_compaction u to_text pt ms keep_recent pins external_paths)
      \<subseteq> {..<length ms}"
    using plan_pairs(1) [OF assms False] kept_bound [OF initial_pins_bound] by simp
  from kept_members [OF this] show ?thesis
    using converged_whole [OF initial_pins_bound plan_pairs(2) [OF assms False]] by simp
qed (simp add: kept_by_plan_def)

text \<open>
  A compaction never separates a tool call from its result: in a transcript where every answer
  belongs to one request, and whatever the working set, the pins of the caller and the size of
  the kept tail, an id has a call among the messages the plan keeps exactly when it has a result
  among them.
\<close>

theorem plan_keeps_whole_pairs:
  assumes "one_request_per_answer ms"
  shows "(\<exists>m \<in> set (kept_by_plan
            (plan_compaction u to_text pt ms keep_recent pins external_paths) ms).
            k \<in> set (call_ids m)) \<longleftrightarrow>
         (\<exists>m \<in> set (kept_by_plan
            (plan_compaction u to_text pt ms keep_recent pins external_paths) ms).
            k \<in> set (result_ids m))"
  using assms by (rule plan_whole_pairs)

text \<open>A workspace without files, for concrete runs.\<close>

definition no_paths :: path_tools where
  "no_paths =
     \<lparr>pt_matches = (\<lambda>s. []), pt_is_absolute = (\<lambda>s. starts_with s ''/''), pt_workspace = False,
      pt_strip_workspace = (\<lambda>s. None), pt_exists = (\<lambda>s. False)\<rparr>"

theorem plan_keeps_whole_pairs_witness:
  "(\<exists>m \<in> set (kept_by_plan (plan_compaction (\<lambda>s. s) (\<lambda>v. []) no_paths answered_transcript 2 None None)
       answered_transcript). ''a'' \<in> set (call_ids m)) \<longleftrightarrow>
   (\<exists>m \<in> set (kept_by_plan (plan_compaction (\<lambda>s. s) (\<lambda>v. []) no_paths answered_transcript 2 None None)
       answered_transcript). ''a'' \<in> set (result_ids m))"
  by (rule plan_keeps_whole_pairs [OF answered_one_request])

end
