(* ===== verification/Model_Catalog.thy ===== *)
theory Model_Catalog
  imports Text_Ops
begin

text \<open>
  What the engine knows of a model from its name: the capability catalog
  (\<open>crates/core/src/model_catalog.rs\<close> with the families of
  \<open>crates/core/model-catalog.json\<close>, which it embeds), the context window and the output caps
  (\<open>crates/core/src/chat.rs\<close>), the window profile and the scaled thresholds
  (\<open>crates/core/src/context_profile.rs\<close>) and the input budget of a request
  (\<open>crates/core/src/engine/context.rs\<close>).
\<close>

section \<open>The catalog\<close>

record match_leaf =
  leaf_contains :: "string option"
  leaf_starts_with :: "string option"
  leaf_equals :: "string option"
  leaf_not_contains :: "string option"

datatype match_node = MatchAll "match_node list" | MatchAny "match_node list" | MatchLeaf match_leaf

record family_def =
  fam_id :: string
  fam_match :: match_node
  fam_context_window :: u32
  fam_max_output :: u32
  fam_default_max_output :: "u32 option"
  fam_omit_sampling :: bool
  fam_always_thinking :: bool
  fam_thinking_supported :: bool
  fam_effort_map :: "(string \<times> string) list"

record model_caps =
  caps_family_id :: "string option"
  caps_context_window :: u32
  caps_max_output :: u32
  caps_default_max_output :: "u32 option"
  caps_omit_sampling :: bool
  caps_always_thinking :: bool
  caps_thinking_supported :: bool
  caps_has_effort_map :: bool

definition leaf_holds :: "string option \<Rightarrow> (string \<Rightarrow> bool) \<Rightarrow> bool" where
  "leaf_holds v p = (case v of None \<Rightarrow> True | Some s \<Rightarrow> p (to_ascii_lowercase s))"

fun eval_match :: "match_node \<Rightarrow> string \<Rightarrow> bool" where
  "eval_match (MatchAll ns) m = list_all (\<lambda>n. eval_match n m) ns"
| "eval_match (MatchAny ns) m = list_ex (\<lambda>n. eval_match n m) ns"
| "eval_match (MatchLeaf l) m =
     ((leaf_contains l \<noteq> None \<or> leaf_starts_with l \<noteq> None \<or> leaf_equals l \<noteq> None \<or>
       leaf_not_contains l \<noteq> None) \<and>
      leaf_holds (leaf_contains l) (str_contains m) \<and>
      leaf_holds (leaf_starts_with l) (starts_with m) \<and>
      leaf_holds (leaf_equals l) (\<lambda>v. m = v) \<and>
      leaf_holds (leaf_not_contains l) (\<lambda>v. \<not> str_contains m v))"

definition no_leaf :: match_leaf where
  "no_leaf = \<lparr>leaf_contains = None, leaf_starts_with = None, leaf_equals = None,
     leaf_not_contains = None\<rparr>"

definition has :: "string \<Rightarrow> match_node" where
  "has s = MatchLeaf (no_leaf\<lparr>leaf_contains := Some s\<rparr>)"

definition lacks :: "string \<Rightarrow> match_node" where
  "lacks s = MatchLeaf (no_leaf\<lparr>leaf_not_contains := Some s\<rparr>)"

definition begins :: "string \<Rightarrow> match_node" where
  "begins s = MatchLeaf (no_leaf\<lparr>leaf_starts_with := Some s\<rparr>)"

text \<open>A family with the defaults that \<open>serde\<close> fills in for the fields the file leaves out.\<close>

definition family :: "string \<Rightarrow> match_node \<Rightarrow> u32 \<Rightarrow> family_def" where
  "family i n w =
     \<lparr>fam_id = i, fam_match = n, fam_context_window = w, fam_max_output = 65536,
      fam_default_max_output = None, fam_omit_sampling = False, fam_always_thinking = False,
      fam_thinking_supported = False, fam_effort_map = []\<rparr>"

definition kimi_effort_map :: "(string \<times> string) list" where
  "kimi_effort_map =
     [(''low'', ''low''), (''minimal'', ''low''), (''high'', ''high''), (''medium'', ''high''),
      (''mid'', ''high''), (''default'', ''high''), (''xhigh'', ''max''), (''max'', ''max''),
      (''highest'', ''max''), (''off'', ''max''), (''disabled'', ''max''), (''none'', ''max''),
      (''false'', ''max'')]"

definition deepseek_v4_family :: family_def where
  "deepseek_v4_family =
     (family ''deepseek_v4''
        (MatchAll [has ''deepseek'',
           MatchAny [has ''v4-pro'', has ''v4-flash'', has ''v4pro'', has ''v4flash'',
             MatchAll [has ''v4'', lacks ''v3'']]]) 1000000)
     \<lparr>fam_max_output := 393216, fam_thinking_supported := True\<rparr>"

definition kimi_k3_family :: family_def where
  "kimi_k3_family =
     (family ''kimi_k3'' (MatchAny [has ''kimi-k3'', begins ''kimi-k'']) 1000000)
     \<lparr>fam_max_output := 1048576, fam_default_max_output := Some 131072, fam_omit_sampling := True,
      fam_always_thinking := True, fam_thinking_supported := True,
      fam_effort_map := kimi_effort_map\<rparr>"

definition catalog_families :: "family_def list" where
  "catalog_families =
     [deepseek_v4_family, kimi_k3_family,
      family ''agnes_chat''
        (MatchAll [has ''agnes'', lacks ''image'', lacks ''video'', lacks ''embed'']) 256000,
      family ''deepseek_legacy'' (has ''deepseek'') 128000,
      family ''claude'' (has ''claude'') 200000,
      family ''qwen'' (MatchAny [has ''qwen'', has ''qwq'']) 128000,
      family ''llama3'' (MatchAny [has ''llama-3'', has ''llama3'', has ''llama_3'']) 128000,
      family ''llama_legacy'' (has ''llama'') 4096,
      family ''mistral'' (MatchAny [has ''mixtral'', has ''mistral'']) 32000,
      family ''gemma'' (has ''gemma'') 8192,
      family ''phi''
        (MatchAny [has ''phi-3'', has ''phi3'', has ''phi-4'', has ''phi4'']) 128000,
      family ''gpt4'' (MatchAny [has ''gpt-4'', has ''gpt4'']) 128000,
      family ''yi'' (MatchAny [has ''/yi-'', begins ''yi-'']) 200000]"

definition caps_from_family :: "family_def \<Rightarrow> model_caps" where
  "caps_from_family f =
     \<lparr>caps_family_id = Some (fam_id f), caps_context_window = fam_context_window f,
      caps_max_output = fam_max_output f, caps_default_max_output = fam_default_max_output f,
      caps_omit_sampling = fam_omit_sampling f, caps_always_thinking = fam_always_thinking f,
      caps_thinking_supported = fam_thinking_supported f,
      caps_has_effort_map = (fam_effort_map f \<noteq> [])\<rparr>"

definition default_caps :: model_caps where
  "default_caps =
     \<lparr>caps_family_id = None, caps_context_window = 128000, caps_max_output = 65536,
      caps_default_max_output = None, caps_omit_sampling = False, caps_always_thinking = False,
      caps_thinking_supported = False, caps_has_effort_map = False\<rparr>"

definition matched_family :: "string \<Rightarrow> family_def option" where
  "matched_family model =
     List.find (\<lambda>f. eval_match (fam_match f) (to_ascii_lowercase model)) catalog_families"

definition resolve_model_caps :: "string \<Rightarrow> model_caps" where
  "resolve_model_caps model =
     (case matched_family model of Some f \<Rightarrow> caps_from_family f | None \<Rightarrow> default_caps)"

text \<open>
  \<open>map_model_reasoning_effort\<close>: the first family that matches decides, also when it has no map.
\<close>

definition map_model_reasoning_effort :: "string \<Rightarrow> string \<Rightarrow> string option" where
  "map_model_reasoning_effort model effort =
     (case matched_family model of
        None \<Rightarrow> None
      | Some f \<Rightarrow>
          if fam_effort_map f = [] then None
          else
            let t = to_ascii_lowercase (trim effort);
                key = (if t = [] then ''default'' else t)
            in Some (case map_of (fam_effort_map f) key of
                 Some v \<Rightarrow> v
               | None \<Rightarrow> (case map_of (fam_effort_map f) ''default'' of
                            Some v \<Rightarrow> v
                          | None \<Rightarrow> ''max'')))"

definition is_deepseek_v4_model :: "string \<Rightarrow> bool" where
  "is_deepseek_v4_model model \<longleftrightarrow> caps_family_id (resolve_model_caps model) = Some ''deepseek_v4''"

definition is_kimi_k3_model :: "string \<Rightarrow> bool" where
  "is_kimi_k3_model model \<longleftrightarrow> caps_family_id (resolve_model_caps model) = Some ''kimi_k3''"

section \<open>Output caps\<close>

definition DEFAULT_MAX_OUTPUT_TOKENS :: u32 where "DEFAULT_MAX_OUTPUT_TOKENS = 65536"
definition NVIDIA_NIM_MAX_COMPLETION_TOKENS :: u32 where
  "NVIDIA_NIM_MAX_COMPLETION_TOKENS = 262144"

definition max_output_token_cap_for_model :: "string \<Rightarrow> u32" where
  "max_output_token_cap_for_model model = caps_max_output (resolve_model_caps model)"

definition clamp_max_output_tokens_for_model :: "string \<Rightarrow> u32 \<Rightarrow> u32" where
  "clamp_max_output_tokens_for_model model requested =
     min requested (max_output_token_cap_for_model model)"

definition clamp_max_output_tokens_with_catalog_limit ::
  "string \<Rightarrow> u32 \<Rightarrow> u32 option \<Rightarrow> u32" where
  "clamp_max_output_tokens_with_catalog_limit model requested catalog_limit =
     (let base_cap = max_output_token_cap_for_model model in
      case catalog_limit of
        None \<Rightarrow> min requested base_cap
      | Some limit \<Rightarrow>
          if limit = 0 then min requested base_cap
          else if is_deepseek_v4_model model then
            if limit > DEFAULT_MAX_OUTPUT_TOKENS then min requested (min base_cap limit)
            else min requested limit
          else min requested (min base_cap limit))"

definition clamp_max_output_tokens_for_nvidia_nim :: "u32 \<Rightarrow> u32" where
  "clamp_max_output_tokens_for_nvidia_nim wired = min wired NVIDIA_NIM_MAX_COMPLETION_TOKENS"

section \<open>The context window\<close>

definition is_ascii_digit :: "char \<Rightarrow> bool" where
  "is_ascii_digit c \<longleftrightarrow> 48 \<le> (of_char c :: nat) \<and> (of_char c :: nat) \<le> 57"

definition is_ascii_alphanumeric :: "char \<Rightarrow> bool" where
  "is_ascii_alphanumeric c \<longleftrightarrow>
     is_ascii_digit c \<or> 65 \<le> (of_char c :: nat) \<and> (of_char c :: nat) \<le> 90 \<or>
     97 \<le> (of_char c :: nat) \<and> (of_char c :: nat) \<le> 122"

definition digits_value :: "string \<Rightarrow> nat" where
  "digits_value ds = foldl (\<lambda>n c. 10 * n + (of_char c - 48)) 0 ds"

text \<open>\<open>str::parse::<u32>\<close> on a run of ASCII digits.\<close>

definition parse_u32_digits :: "string \<Rightarrow> u32 option" where
  "parse_u32_digits ds =
     (if ds = [] \<or> digits_value ds \<ge> 2 ^ 32 then None else Some (of_nat (digits_value ds)))"

text \<open>
  The scan of \<open>deepseek_context_window_hint\<close> from one byte on; \<open>before\<close> says whether the byte in
  front of it is alphanumeric.
\<close>

function window_hint_from :: "bool \<Rightarrow> string \<Rightarrow> u32 option" where
  "window_hint_from before [] = None"
| "window_hint_from before (c # cs) =
     (if is_ascii_digit c then
        (let ds = c # takeWhile is_ascii_digit cs;
             rest = dropWhile is_ascii_digit cs
         in case rest of
              [] \<Rightarrow> None
            | k # after \<Rightarrow>
                if k \<noteq> CHR ''k'' \<or> before \<or> (after \<noteq> [] \<and> is_ascii_alphanumeric (hd after))
                then window_hint_from True rest
                else case parse_u32_digits ds of
                       Some n \<Rightarrow> if 8 \<le> n \<and> n \<le> 1024 then Some (sat_mul n 1000)
                                 else window_hint_from True rest
                     | None \<Rightarrow> window_hint_from True rest)
      else window_hint_from (is_ascii_alphanumeric c) cs)"
  by pat_completeness auto
termination
  by (relation "measure (\<lambda>(_, s). length s)")
     (auto simp: le_imp_less_Suc length_dropWhile_le)

definition deepseek_context_window_hint :: "string \<Rightarrow> u32 option" where
  "deepseek_context_window_hint model_lower = window_hint_from False model_lower"

definition context_window_for_model :: "(string \<Rightarrow> string) \<Rightarrow> string \<Rightarrow> u32 option" where
  "context_window_for_model u model =
     (let lower = to_lowercase u model;
          known = (let caps = resolve_model_caps model in
                   if caps_family_id caps \<noteq> None then Some (caps_context_window caps) else None)
      in if str_contains lower ''deepseek'' then
           (case deepseek_context_window_hint lower of Some w \<Rightarrow> Some w | None \<Rightarrow> known)
         else known)"

definition DEFAULT_COMPACTION_TOKEN_THRESHOLD :: nat where
  "DEFAULT_COMPACTION_TOKEN_THRESHOLD = 102400"

definition compaction_threshold_for_model :: "(string \<Rightarrow> string) \<Rightarrow> string \<Rightarrow> nat" where
  "compaction_threshold_for_model u model =
     (case context_window_for_model u model of
        None \<Rightarrow> DEFAULT_COMPACTION_TOKEN_THRESHOLD
      | Some w \<Rightarrow> unat w * 80 div 100)"

definition compaction_threshold_for_override ::
  "(string \<Rightarrow> string) \<Rightarrow> string option \<Rightarrow> nat" where
  "compaction_threshold_for_override u override_model =
     (case override_model of
        Some m \<Rightarrow> compaction_threshold_for_model u m
      | None \<Rightarrow> DEFAULT_COMPACTION_TOKEN_THRESHOLD)"

section \<open>Profiles and thresholds\<close>

datatype context_profile = ProfileLarge | ProfileMedium | ProfileSmall | ProfileUnknown

definition LARGE_CONTEXT_WINDOW_TOKENS :: u32 where "LARGE_CONTEXT_WINDOW_TOKENS = 500000"
definition MEDIUM_CONTEXT_WINDOW_MIN_TOKENS :: u32 where
  "MEDIUM_CONTEXT_WINDOW_MIN_TOKENS = 128000"

definition resolve_context_profile :: "(string \<Rightarrow> string) \<Rightarrow> string \<Rightarrow> context_profile" where
  "resolve_context_profile u model =
     (case context_window_for_model u model of
        None \<Rightarrow> ProfileUnknown
      | Some w \<Rightarrow>
          if w \<ge> LARGE_CONTEXT_WINDOW_TOKENS then ProfileLarge
          else if w \<ge> MEDIUM_CONTEXT_WINDOW_MIN_TOKENS then ProfileMedium
          else ProfileSmall)"

definition is_large_context_profile :: "(string \<Rightarrow> string) \<Rightarrow> string \<Rightarrow> bool" where
  "is_large_context_profile u model \<longleftrightarrow> resolve_context_profile u model = ProfileLarge"

definition default_seam_enabled_for_model :: "(string \<Rightarrow> string) \<Rightarrow> string \<Rightarrow> bool" where
  "default_seam_enabled_for_model u model \<longleftrightarrow> is_large_context_profile u model"

text \<open>\<open>auto_compaction_allowed\<close> reads only the \<open>enabled\<close> flag of the cycle configuration.\<close>

definition auto_compaction_allowed :: "(string \<Rightarrow> string) \<Rightarrow> string \<Rightarrow> bool \<Rightarrow> bool" where
  "auto_compaction_allowed u model cycle_enabled \<longleftrightarrow>
     (if \<not> cycle_enabled then True
      else case context_window_for_model u model of
             None \<Rightarrow> True
           | Some w \<Rightarrow> \<not> w \<ge> LARGE_CONTEXT_WINDOW_TOKENS)"

definition baseline_threshold :: "u32 \<Rightarrow> u32 \<Rightarrow> nat" where
  "baseline_threshold w percent = unat w * unat percent div 100"

record context_threshold_overrides =
  ov_l1 :: "nat option"
  ov_l2 :: "nat option"
  ov_l3 :: "nat option"
  ov_cycle :: "nat option"

record scaled_context_thresholds =
  st_profile :: context_profile
  st_window :: "u32 option"
  st_l1 :: nat
  st_l2 :: nat
  st_l3 :: nat
  st_cycle :: nat

definition unwrap_or :: "'a option \<Rightarrow> 'a \<Rightarrow> 'a" where
  "unwrap_or x d = (case x of Some y \<Rightarrow> y | None \<Rightarrow> d)"

definition scaled_thresholds ::
  "(string \<Rightarrow> string) \<Rightarrow> string \<Rightarrow> context_threshold_overrides \<Rightarrow> scaled_context_thresholds" where
  "scaled_thresholds u model ov =
     (case context_window_for_model u model of
        Some w \<Rightarrow>
          \<lparr>st_profile = resolve_context_profile u model, st_window = Some w,
           st_l1 = unwrap_or (ov_l1 ov) (baseline_threshold w 19),
           st_l2 = unwrap_or (ov_l2 ov) (baseline_threshold w 38),
           st_l3 = unwrap_or (ov_l3 ov) (baseline_threshold w 57),
           st_cycle = unwrap_or (ov_cycle ov) (baseline_threshold w 75)\<rparr>
      | None \<Rightarrow>
          \<lparr>st_profile = resolve_context_profile u model, st_window = None,
           st_l1 = unwrap_or (ov_l1 ov) 192000, st_l2 = unwrap_or (ov_l2 ov) 384000,
           st_l3 = unwrap_or (ov_l3 ov) 576000, st_cycle = unwrap_or (ov_cycle ov) 768000\<rparr>)"

definition cycle_trigger_floor :: "(string \<Rightarrow> string) \<Rightarrow> string \<Rightarrow> nat \<Rightarrow> u64 \<Rightarrow> u64" where
  "cycle_trigger_floor u model cycle_threshold headroom =
     (let threshold = of_nat cycle_threshold in
      case context_window_for_model u model of
        None \<Rightarrow> threshold
      | Some w \<Rightarrow> min threshold (sat_sub (ucast w) headroom))"

definition in_lht_scaled_warning_band ::
  "(string \<Rightarrow> string) \<Rightarrow> u64 \<Rightarrow> u64 \<Rightarrow> string \<Rightarrow> scaled_context_thresholds \<Rightarrow> bool" where
  "in_lht_scaled_warning_band u active_input_tokens headroom model thresholds \<longleftrightarrow>
     of_nat (st_l3 thresholds) \<le> active_input_tokens \<and>
     active_input_tokens < cycle_trigger_floor u model (st_cycle thresholds) headroom"

section \<open>The input budget of a request\<close>

definition TURN_MAX_OUTPUT_TOKENS :: u32 where "TURN_MAX_OUTPUT_TOKENS = 262144"
definition CONTEXT_HEADROOM_TOKENS :: nat where "CONTEXT_HEADROOM_TOKENS = 1024"

definition effective_max_output_tokens :: "(string \<Rightarrow> string) \<Rightarrow> string \<Rightarrow> u32" where
  "effective_max_output_tokens u model =
     (if is_deepseek_v4_model model then DEFAULT_MAX_OUTPUT_TOKENS
      else min (unwrap_or (context_window_for_model u model) 128000 div 2)
             (max_output_token_cap_for_model model))"

definition checked_sub :: "nat \<Rightarrow> nat \<Rightarrow> nat option" where
  "checked_sub a b = (if b \<le> a then Some (a - b) else None)"

definition context_input_budget :: "(string \<Rightarrow> string) \<Rightarrow> string \<Rightarrow> u32 \<Rightarrow> nat option" where
  "context_input_budget u model requested_output_tokens =
     (case context_window_for_model u model of
        None \<Rightarrow> None
      | Some w \<Rightarrow>
          (case checked_sub (unat w) (unat requested_output_tokens) of
             None \<Rightarrow> None
           | Some v \<Rightarrow> checked_sub v CONTEXT_HEADROOM_TOKENS))"

definition turn_response_headroom_tokens :: u64 where
  "turn_response_headroom_tokens =
     sat_add (ucast TURN_MAX_OUTPUT_TOKENS) (of_nat CONTEXT_HEADROOM_TOKENS)"

definition is_context_length_error_message :: "string \<Rightarrow> bool" where
  "is_context_length_error_message message =
     (let lower = to_ascii_lowercase message in
      str_contains lower ''maximum context length'' \<or> str_contains lower ''context length'' \<or>
      str_contains lower ''context_length'' \<or> str_contains lower ''prompt is too long'' \<or>
      (str_contains lower ''requested'' \<and> str_contains lower ''tokens'' \<and>
       str_contains lower ''maximum'') \<or>
      str_contains lower ''context window'')"

section \<open>What a name says about the window\<close>

text \<open>
  A name states a window of \<open>n\<close> thousand tokens when the decimal number \<open>n\<close>, followed by a
  \<open>k\<close>, stands in it as a word of its own.
\<close>

definition names_window_after :: "bool \<Rightarrow> string \<Rightarrow> nat \<Rightarrow> bool" where
  "names_window_after before s n \<longleftrightarrow>
     (\<exists>pre ds post. s = pre @ ds @ CHR ''k'' # post \<and> ds \<noteq> [] \<and> list_all is_ascii_digit ds \<and>
        \<not> (if pre = [] then before else is_ascii_alphanumeric (last pre)) \<and>
        \<not> (post \<noteq> [] \<and> is_ascii_alphanumeric (hd post)) \<and>
        digits_value ds = n \<and> 8 \<le> n \<and> n \<le> 1024)"

definition names_window :: "string \<Rightarrow> nat \<Rightarrow> bool" where
  "names_window s n \<longleftrightarrow> names_window_after False s n"

lemma names_window_afterI:
  assumes "s = pre @ ds @ CHR ''k'' # post" "ds \<noteq> []" "list_all is_ascii_digit ds"
    "\<not> (if pre = [] then before else is_ascii_alphanumeric (last pre))"
    "\<not> (post \<noteq> [] \<and> is_ascii_alphanumeric (hd post))"
    "digits_value ds = n" "8 \<le> n" "n \<le> 1024"
  shows "names_window_after before s n"
  unfolding names_window_after_def using assms by metis

lemma k_not_digit [simp]: "\<not> is_ascii_digit CHR ''k''"
  by (simp add: is_ascii_digit_def)

lemma digit_alphanumeric: "is_ascii_digit c \<Longrightarrow> is_ascii_alphanumeric c"
  by (simp add: is_ascii_alphanumeric_def)

lemma names_window_skip:
  assumes "\<not> is_ascii_digit c"
  shows "names_window_after before (c # cs) n \<longleftrightarrow>
    names_window_after (is_ascii_alphanumeric c) cs n"
proof
  assume "names_window_after before (c # cs) n"
  then obtain pre ds post where p: "c # cs = pre @ ds @ CHR ''k'' # post" "ds \<noteq> []"
    "list_all is_ascii_digit ds" "\<not> (if pre = [] then before else is_ascii_alphanumeric (last pre))"
    "\<not> (post \<noteq> [] \<and> is_ascii_alphanumeric (hd post))" "digits_value ds = n" "8 \<le> n" "n \<le> 1024"
    by (auto simp: names_window_after_def)
  have "pre \<noteq> []" using p(1-3) assms by (cases ds) auto
  then obtain pre' where "pre = c # pre'" using p(1) by (cases pre) auto
  then show "names_window_after (is_ascii_alphanumeric c) cs n"
    using p by (intro names_window_afterI [of cs pre' ds post]) (auto split: if_splits)
next
  assume "names_window_after (is_ascii_alphanumeric c) cs n"
  then obtain pre ds post where p: "cs = pre @ ds @ CHR ''k'' # post" "ds \<noteq> []"
    "list_all is_ascii_digit ds"
    "\<not> (if pre = [] then is_ascii_alphanumeric c else is_ascii_alphanumeric (last pre))"
    "\<not> (post \<noteq> [] \<and> is_ascii_alphanumeric (hd post))" "digits_value ds = n" "8 \<le> n" "n \<le> 1024"
    by (auto simp: names_window_after_def)
  then show "names_window_after before (c # cs) n"
    by (intro names_window_afterI [of "c # cs" "c # pre" ds post]) (auto split: if_splits)
qed

text \<open>Past a run of digits, only the run itself or what follows it can state a window.\<close>

lemma append_eq_longer:
  assumes "r @ w = p @ v" and "length r \<le> length p"
  obtains q where "p = r @ q" and "w = q @ v"
  using assms by (metis append_eq_append_conv_if append_take_drop_id)

lemma run_decompose:
  assumes eq: "run @ rest = pre @ ds @ CHR ''k'' # post"
    and run: "list_all is_ascii_digit run" and r: "rest = [] \<or> \<not> is_ascii_digit (hd rest)"
    and ds: "list_all is_ascii_digit ds" and pre: "pre \<noteq> []" "\<not> is_ascii_digit (last pre)"
  obtains q where "pre = run @ q" and "q \<noteq> []" and "rest = q @ ds @ CHR ''k'' # post"
proof -
  have "length run < length pre"
  proof (rule ccontr)
    assume "\<not> length run < length pre"
    then have "take (length pre) run = pre"
      using eq by (metis append_eq_append_conv_if linorder_not_less)
    then have "last pre \<in> set run"
      using pre(1) by (metis in_set_takeD last_in_set)
    then show False using run pre(2) by (auto simp: list_all_iff)
  qed
  then show thesis
    using eq that append_eq_longer [of run rest pre "ds @ CHR ''k'' # post"]
    by (metis append.right_neutral less_le nat_less_le)
qed

lemma run_is_maximal:
  assumes "run @ rest = ds @ CHR ''k'' # post" and "list_all is_ascii_digit run"
    and "list_all is_ascii_digit ds" and "rest = [] \<or> \<not> is_ascii_digit (hd rest)"
  shows "ds = run \<and> rest = CHR ''k'' # post"
proof -
  have "takeWhile is_ascii_digit (run @ rest) = run"
    using assms(2,4) by (cases rest) (auto simp: takeWhile_append list_all_iff)
  moreover have "takeWhile is_ascii_digit (ds @ CHR ''k'' # post) = ds"
    using assms(3) by (auto simp: takeWhile_append list_all_iff)
  ultimately show ?thesis using assms(1) by simp
qed

lemma names_window_run:
  assumes run: "run \<noteq> []" "list_all is_ascii_digit run"
    and r: "rest = [] \<or> \<not> is_ascii_digit (hd rest)"
  shows "names_window_after before (run @ rest) n \<longleftrightarrow>
    (\<exists>post. rest = CHR ''k'' # post \<and> \<not> before \<and>
       \<not> (post \<noteq> [] \<and> is_ascii_alphanumeric (hd post)) \<and>
       digits_value run = n \<and> 8 \<le> n \<and> n \<le> 1024) \<or> names_window_after True rest n"
    (is "?lhs \<longleftrightarrow> ?here \<or> ?later")
proof
  assume ?lhs
  then obtain pre ds post where p: "run @ rest = pre @ ds @ CHR ''k'' # post" "ds \<noteq> []"
    "list_all is_ascii_digit ds" "\<not> (if pre = [] then before else is_ascii_alphanumeric (last pre))"
    "\<not> (post \<noteq> [] \<and> is_ascii_alphanumeric (hd post))" "digits_value ds = n" "8 \<le> n" "n \<le> 1024"
    by (auto simp: names_window_after_def)
  show "?here \<or> ?later"
  proof (cases "pre = []")
    case True
    then show ?thesis
      using p run_is_maximal [of run rest ds post] run(2) r by auto
  next
    case False
    then have "\<not> is_ascii_digit (last pre)" using p(4) digit_alphanumeric by auto
    from run_decompose [OF p(1) run(2) r p(3) False this] obtain q where
      q: "pre = run @ q" "q \<noteq> []" "rest = q @ ds @ CHR ''k'' # post" .
    then have ?later
      using p False by (intro names_window_afterI [of rest q ds post]) auto
    then show ?thesis ..
  qed
next
  assume "?here \<or> ?later"
  then show ?lhs
  proof
    assume ?here
    then show ?lhs
      using run names_window_afterI [of "run @ rest" "[]" run] by auto
  next
    assume ?later
    then obtain pre ds post where p: "rest = pre @ ds @ CHR ''k'' # post" "ds \<noteq> []"
      "list_all is_ascii_digit ds" "pre \<noteq> []" "\<not> is_ascii_alphanumeric (last pre)"
      "\<not> (post \<noteq> [] \<and> is_ascii_alphanumeric (hd post))" "digits_value ds = n" "8 \<le> n" "n \<le> 1024"
      by (auto simp: names_window_after_def split: if_splits)
    then show ?lhs
      by (intro names_window_afterI [of "run @ rest" "run @ pre" ds post]) auto
  qed
qed

lemma names_window_Nil [simp]: "\<not> names_window_after before [] n"
  by (simp add: names_window_after_def)

lemma parse_short_run:
  "8 \<le> digits_value ds \<Longrightarrow> digits_value ds \<le> 1024 \<Longrightarrow> ds \<noteq> [] \<Longrightarrow>
    parse_u32_digits ds = Some (of_nat (digits_value ds))"
  by (simp add: parse_u32_digits_def)

lemma parse_window:
  assumes "parse_u32_digits ds = Some n"
  shows "unat n = digits_value ds"
    and "8 \<le> n \<longleftrightarrow> 8 \<le> digits_value ds" and "n \<le> 1024 \<longleftrightarrow> digits_value ds \<le> 1024"
  using assms
  by (auto simp: parse_u32_digits_def unat_of_nat word_le_nat_alt split: if_splits)

lemma thousand_tokens:
  assumes "(n :: u32) \<le> 1024"
  shows "unat (sat_mul n 1000) = 1000 * unat n"
proof -
  have "unat n \<le> 1024" using assms by (simp add: word_le_nat_alt)
  then show ?thesis by (simp add: unat_sat_mul)
qed

text \<open>
  One step of the scan at a run of digits: either the run states a window, or nothing does before
  the rest.
\<close>

definition hint_exact :: "bool \<Rightarrow> string \<Rightarrow> u32 option \<Rightarrow> bool" where
  "hint_exact before s h \<longleftrightarrow>
     (case h of
        Some w \<Rightarrow> \<exists>n. names_window_after before s n \<and> unat w = 1000 * n
      | None \<Rightarrow> \<forall>n. \<not> names_window_after before s n)"

lemma window_hint_exact: "hint_exact before s (window_hint_from before s)"
proof (induction s arbitrary: before rule: length_induct)
  case (1 s)
  show ?case
  proof (cases s)
    case Nil
    then show ?thesis by (simp add: hint_exact_def)
  next
    case s: (Cons c cs)
    show ?thesis
    proof (cases "is_ascii_digit c")
      case False
      then have "hint_exact (is_ascii_alphanumeric c) cs
          (window_hint_from (is_ascii_alphanumeric c) cs)"
        using 1 s by simp
      then show ?thesis
        using False s by (simp add: names_window_skip hint_exact_def split: option.splits)
    next
      case True
      define run where "run = c # takeWhile is_ascii_digit cs"
      define rest where "rest = dropWhile is_ascii_digit cs"
      have cs: "s = run @ rest" by (simp add: run_def rest_def s)
      have run: "run \<noteq> []" "list_all is_ascii_digit run"
        using True by (auto simp: run_def list_all_iff dest: set_takeWhileD)
      have r: "rest = [] \<or> \<not> is_ascii_digit (hd rest)"
        using hd_dropWhile [of is_ascii_digit cs] by (auto simp: rest_def)
      note names = names_window_run [OF run r, of before, folded cs]
      have later: "hint_exact True rest (window_hint_from True rest)"
        using 1 cs run(1) by simp
      show ?thesis
      proof (cases rest)
        case Nil
        then have d: "dropWhile is_ascii_digit cs = []" by (simp only: rest_def)
        have "window_hint_from before s = None"
          using True by (simp add: s d Let_def del: dropWhile_eq_Nil_conv)
        then show ?thesis using names Nil by (simp add: hint_exact_def)
      next
        case (Cons k after)
        then have d: "dropWhile is_ascii_digit cs = k # after" by (simp only: rest_def)
        have "window_hint_from before s =
            (if k \<noteq> CHR ''k'' \<or> before \<or> (after \<noteq> [] \<and> is_ascii_alphanumeric (hd after))
             then window_hint_from True (k # after)
             else case parse_u32_digits run of
                    Some n \<Rightarrow> if 8 \<le> n \<and> n \<le> 1024 then Some (sat_mul n 1000)
                              else window_hint_from True (k # after)
                  | None \<Rightarrow> window_hint_from True (k # after))"
          using True by (simp add: s d run_def Let_def)
        then show ?thesis
          using later names Cons thousand_tokens parse_window [of run] parse_short_run [of run]
            run(1)
          by (auto simp: hint_exact_def split: option.splits if_splits)
      qed
    qed
  qed
qed

text \<open>
  A window size written in a model name is found, and only such a size is reported: the scan
  returns \<open>1000 * n\<close> for a number \<open>n\<close> from 8 to 1024 that stands before a \<open>k\<close> with no letter
  or digit on either side, and returns nothing only if the name contains no such number.
\<close>

theorem stated_window_found:
  "case deepseek_context_window_hint name of
     Some w \<Rightarrow> \<exists>n. names_window name n \<and> unat w = 1000 * n
   | None \<Rightarrow> \<not> (\<exists>n. names_window name n)"
  using window_hint_exact [of False name]
  by (simp add: hint_exact_def deepseek_context_window_hint_def names_window_def split: option.splits)

section \<open>Which models have an input budget\<close>

definition stated_window :: "(string \<Rightarrow> string) \<Rightarrow> string \<Rightarrow> u32 option" where
  "stated_window u model =
     (if str_contains (to_lowercase u model) ''deepseek''
      then deepseek_context_window_hint (to_lowercase u model) else None)"

lemma context_window_cases:
  "context_window_for_model u model =
     (case stated_window u model of
        Some w \<Rightarrow> Some w
      | None \<Rightarrow> map_option fam_context_window (matched_family model))"
  by (simp add: context_window_for_model_def stated_window_def resolve_model_caps_def Let_def
      caps_from_family_def default_caps_def split: option.split)

lemma catalog_windows:
  "list_all (\<lambda>f. unat (fam_context_window f) \<ge> 263168 \<longleftrightarrow>
      fam_id f = ''deepseek_v4'' \<or> fam_id f = ''kimi_k3'') catalog_families"
  by (simp add: catalog_families_def deepseek_v4_family_def kimi_k3_family_def family_def)

lemma matched_family_in: "matched_family model = Some f \<Longrightarrow> f \<in> set catalog_families"
  by (auto simp: matched_family_def find_Some_iff in_set_conv_nth)

lemma matched_family_id:
  "is_deepseek_v4_model model \<longleftrightarrow> (\<exists>f. matched_family model = Some f \<and> fam_id f = ''deepseek_v4'')"
  "is_kimi_k3_model model \<longleftrightarrow> (\<exists>f. matched_family model = Some f \<and> fam_id f = ''kimi_k3'')"
  by (auto simp: is_deepseek_v4_model_def is_kimi_k3_model_def resolve_model_caps_def
      caps_from_family_def default_caps_def split: option.splits)

lemma turn_budget_value:
  "context_input_budget u model TURN_MAX_OUTPUT_TOKENS =
     (case context_window_for_model u model of
        Some w \<Rightarrow> if 263168 \<le> unat w then Some (unat w - 263168) else None
      | None \<Rightarrow> None)"
  by (auto simp: context_input_budget_def checked_sub_def TURN_MAX_OUTPUT_TOKENS_def
      CONTEXT_HEADROOM_TOKENS_def split: option.splits)

text \<open>
  The budget the turn loop checks a request against exists exactly for the models of the
  families \<open>deepseek_v4\<close> and \<open>kimi_k3\<close>, and for a name that states its own window exactly when
  that window is at least 263168 tokens: the fixed output reservation of 262144 tokens does not
  fit into any other window of the catalog, so for every other known model there is no budget,
  however small the request.
\<close>

theorem turn_budget_exists_iff:
  "context_input_budget u model TURN_MAX_OUTPUT_TOKENS \<noteq> None \<longleftrightarrow>
     (case stated_window u model of
        Some w \<Rightarrow> 263168 \<le> unat w
      | None \<Rightarrow> is_deepseek_v4_model model \<or> is_kimi_k3_model model)"
proof (cases "stated_window u model")
  case None
  show ?thesis
  proof (cases "matched_family model")
    case (Some f)
    then have "263168 \<le> unat (fam_context_window f) \<longleftrightarrow>
        fam_id f = ''deepseek_v4'' \<or> fam_id f = ''kimi_k3''"
      using catalog_windows matched_family_in by (auto simp: list_all_iff)
    then show ?thesis
      using None Some by (auto simp: turn_budget_value context_window_cases matched_family_id)
  qed (use None in \<open>simp add: turn_budget_value context_window_cases matched_family_id\<close>)
qed (simp add: turn_budget_value context_window_cases)

end
