(* ===== verification/Context_Trim.thy ===== *)
theory Context_Trim
  imports Compaction_Plan Model_Catalog
begin

text \<open>
  The hot and cold parts of a session (\<open>crates/core/src/context_partition.rs\<close>), the number of
  oldest messages to drain (\<open>crates/core/src/engine/context.rs\<close>) and the emergency trim of the
  runtime (\<open>crates/runtime-server/src/core/engine/context_trim.rs\<close>).

  The pins and paths of the working set, which the trim recomputes for every message list, are
  the functions \<open>pins_of\<close> and \<open>paths_of\<close>.
\<close>

section \<open>The partition\<close>

datatype message_context_tier = TierHot | TierPinned | TierColdSummary | TierColdExternalRef

record session_context_partition =
  sp_tiers :: "message_context_tier list"
  sp_keep_recent :: nat
  sp_hot :: "nat list"
  sp_cold_summary :: "nat list"
  sp_cold_pinned :: "nat list"
  sp_cold_external :: "nat list"

definition WORKSHOP_REF_MARKER :: string where "WORKSHOP_REF_MARKER = ''[workshop-ref:''"

definition message_has_external_ref :: "string \<Rightarrow> bool" where
  "message_has_external_ref text \<longleftrightarrow> str_contains text WORKSHOP_REF_MARKER"

fun visible_text :: "content_block \<Rightarrow> string" where
  "visible_text (Text txt _) = txt"
| "visible_text (ToolResult _ txt _ _) = txt"
| "visible_text _ = []"

definition message_visible_text :: "message \<Rightarrow> string" where
  "message_visible_text m = concat (map visible_text (content m))"

definition message_tier ::
  "message list \<Rightarrow> nat \<Rightarrow> nat set \<Rightarrow> nat \<Rightarrow> message_context_tier" where
  "message_tier ms keep_recent pinned i =
     (if message_has_external_ref (message_visible_text (ms ! i)) then TierColdExternalRef
      else if i \<ge> length ms - keep_recent then TierHot
      else if i \<in> pinned then TierPinned
      else TierColdSummary)"

definition classify_session_messages ::
  "message list \<Rightarrow> nat \<Rightarrow> nat set \<Rightarrow> session_context_partition" where
  "classify_session_messages ms keep_recent pinned =
     (let tier = message_tier ms keep_recent pinned;
          of_tier = (\<lambda>t. filter (\<lambda>i. tier i = t) [0..<length ms])
      in \<lparr>sp_tiers = map tier [0..<length ms], sp_keep_recent = keep_recent,
          sp_hot = of_tier TierHot, sp_cold_summary = of_tier TierColdSummary,
          sp_cold_pinned = of_tier TierPinned, sp_cold_external = of_tier TierColdExternalRef\<rparr>)"

definition protected_message_indices :: "session_context_partition \<Rightarrow> nat set" where
  "protected_message_indices p =
     set (sp_hot p) \<union> set (sp_cold_pinned p) \<union> set (sp_cold_external p)"

definition next_message_index_to_trim :: "session_context_partition \<Rightarrow> nat \<Rightarrow> nat option" where
  "next_message_index_to_trim p message_count =
     (if message_count = 0 then None
      else case List.find (\<lambda>i. i < message_count) (sp_cold_summary p) of
             Some i \<Rightarrow> Some i
           | None \<Rightarrow>
               List.find (\<lambda>i. i \<notin> protected_message_indices p) [0..<message_count])"

lemma next_index_bound: "next_message_index_to_trim p n = Some i \<Longrightarrow> i < n"
  by (auto simp: next_message_index_to_trim_def find_Some_iff split: if_splits option.splits)

section \<open>Draining and trimming\<close>

definition MIN_RECENT_MESSAGES_TO_KEEP :: nat where "MIN_RECENT_MESSAGES_TO_KEEP = 4"

definition count_oldest_messages_to_drain ::
  "(json \<Rightarrow> string) \<Rightarrow> message list \<Rightarrow> system_prompt option \<Rightarrow> nat \<Rightarrow> nat" where
  "count_oldest_messages_to_drain to_text ms system target_input_budget =
     (if length ms \<le> MIN_RECENT_MESSAGES_TO_KEEP then 0
      else
        let max_drain = length ms - MIN_RECENT_MESSAGES_TO_KEEP
        in case List.find
                  (\<lambda>n. estimate_input_tokens_conservative to_text (drop n ms) system
                     \<le> target_input_budget) [1..<Suc max_drain] of
             Some n \<Rightarrow> n
           | None \<Rightarrow> max_drain)"

definition session_context_partition_for_trim ::
  "(string \<Rightarrow> string) \<Rightarrow> (json \<Rightarrow> string) \<Rightarrow> path_tools \<Rightarrow> (message list \<Rightarrow> nat list) \<Rightarrow> string list \<Rightarrow>
   message list \<Rightarrow> session_context_partition" where
  "session_context_partition_for_trim u to_text pt pins_of paths ms =
     classify_session_messages ms KEEP_RECENT_MESSAGES
       (pinned_indices (plan_compaction u to_text pt ms KEEP_RECENT_MESSAGES
          (Some (pins_of ms)) (Some paths)))"

text \<open>The step that both the fast path and the last resort take.\<close>

definition drain_front ::
  "(json \<Rightarrow> string) \<Rightarrow> system_prompt option \<Rightarrow> nat \<Rightarrow> message list \<Rightarrow> message list" where
  "drain_front to_text system budget ms =
     (if estimate_input_tokens_conservative to_text ms system > budget
      then drop (count_oldest_messages_to_drain to_text ms system budget) ms else ms)"

text \<open>The loop that removes one message at a time, by tier.\<close>

function trim_by_tier ::
  "(json \<Rightarrow> string) \<Rightarrow> system_prompt option \<Rightarrow> nat \<Rightarrow>
   (message list \<Rightarrow> session_context_partition) \<Rightarrow> message list \<Rightarrow> message list" where
  "trim_by_tier to_text system budget partition_of ms =
     (if estimate_input_tokens_conservative to_text ms system > budget \<and>
         length ms > MIN_RECENT_MESSAGES_TO_KEEP then
        (case next_message_index_to_trim (partition_of ms) (length ms) of
           None \<Rightarrow> ms
         | Some i \<Rightarrow>
             trim_by_tier to_text system budget partition_of (take i ms @ drop (Suc i) ms))
      else ms)"
  by pat_completeness auto
termination
  by (relation "measure (\<lambda>(_, _, _, _, ms). length ms)") (auto dest: next_index_bound)

declare trim_by_tier.simps [simp del]

definition trim_messages_partition_aware ::
  "(string \<Rightarrow> string) \<Rightarrow> (json \<Rightarrow> string) \<Rightarrow> path_tools \<Rightarrow> (message list \<Rightarrow> nat list) \<Rightarrow> string list \<Rightarrow>
   message list \<Rightarrow> system_prompt option \<Rightarrow> nat \<Rightarrow> message list \<times> nat" where
  "trim_messages_partition_aware u to_text pt pins_of paths ms system budget =
     (let ms1 = drain_front to_text system budget ms;
          ms2 = trim_by_tier to_text system budget
                  (session_context_partition_for_trim u to_text pt pins_of paths) ms1;
          ms3 = drain_front to_text system budget ms2
      in (ms3, length ms - length ms3))"

section \<open>What the partition protects\<close>

lemma tier_partition:
  "set (sp_cold_summary (classify_session_messages ms keep pinned)) =
     {..<length ms} - protected_message_indices (classify_session_messages ms keep pinned)"
proof -
  have "message_tier ms keep pinned i = TierColdSummary \<longleftrightarrow>
      message_tier ms keep pinned i \<noteq> TierHot \<and> message_tier ms keep pinned i \<noteq> TierPinned \<and>
      message_tier ms keep pinned i \<noteq> TierColdExternalRef" for i
    by (cases "message_tier ms keep pinned i") auto
  then show ?thesis
    by (auto simp: classify_session_messages_def protected_message_indices_def Let_def)
qed

text \<open>
  The next message to trim is the oldest one outside every protected tier, and there is none
  exactly when every message is recent, pinned or stands for an external reference.
\<close>

theorem next_trim_is_oldest_unprotected:
  "next_message_index_to_trim (classify_session_messages ms keep pinned) (length ms) =
     List.find (\<lambda>i. i \<notin> protected_message_indices (classify_session_messages ms keep pinned))
       [0..<length ms]"
proof -
  let ?p = "classify_session_messages ms keep pinned"
  let ?open = "\<lambda>i. i \<notin> protected_message_indices ?p"
  have c: "sp_cold_summary ?p = filter ?open [0..<length ms]"
  proof -
    have "sp_cold_summary ?p =
        filter (\<lambda>i. i \<in> set (sp_cold_summary ?p)) [0..<length ms]"
      by (rule sym) (auto simp: classify_session_messages_def Let_def intro!: filter_cong)
    also have "\<dots> = filter ?open [0..<length ms]"
      unfolding tier_partition by (rule filter_cong) auto
    finally show ?thesis .
  qed
  have "List.find (\<lambda>i. i < length ms) (filter ?open xs) = List.find ?open xs"
    if "set xs \<subseteq> {..<length ms}" for xs
    using that by (induction xs) auto
  moreover have "set [0..<length ms] \<subseteq> {..<length ms}" by auto
  ultimately have "List.find (\<lambda>i. i < length ms) (filter ?open [0..<length ms]) =
      List.find ?open [0..<length ms]" by blast
  then show ?thesis
    by (auto simp: next_message_index_to_trim_def c split: option.split)
qed

section \<open>What the trim removes\<close>

lemma found: "List.find P xs = Some x \<Longrightarrow> x \<in> set xs \<and> P x"
  by (auto simp: find_Some_iff in_set_conv_nth)

lemma drain_count_bound:
  "count_oldest_messages_to_drain to_text ms system budget \<le> length ms - 4"
  by (auto simp: count_oldest_messages_to_drain_def MIN_RECENT_MESSAGES_TO_KEEP_def Let_def
      dest!: found split: option.split)

lemma drain_settles:
  assumes "length ms > 4"
  shows "estimate_input_tokens_conservative to_text
      (drop (count_oldest_messages_to_drain to_text ms system budget) ms) system \<le> budget \<or>
    count_oldest_messages_to_drain to_text ms system budget = length ms - 4"
  using assms
  by (auto simp: count_oldest_messages_to_drain_def MIN_RECENT_MESSAGES_TO_KEEP_def Let_def
      dest!: found split: option.split)

lemma drain_front_settled:
  "estimate_input_tokens_conservative to_text (drain_front to_text system budget ms) system \<le> budget \<or>
   length (drain_front to_text system budget ms) \<le> 4"
proof (cases "length ms > 4")
  case True
  from drain_settles [OF this, of to_text system budget] show ?thesis
    by (auto simp: drain_front_def)
qed (auto simp: drain_front_def)

lemma drain_front_idem:
  "drain_front to_text system budget (drain_front to_text system budget ms) =
   drain_front to_text system budget ms"
  using drain_front_settled [of to_text system budget ms]
  by (subst (1) drain_front_def)
     (auto simp: count_oldest_messages_to_drain_def MIN_RECENT_MESSAGES_TO_KEEP_def)

lemma tier_loop_idle:
  "trim_by_tier to_text system budget partition_of (drain_front to_text system budget ms) =
   drain_front to_text system budget ms"
  using drain_front_settled [of to_text system budget ms]
  by (subst trim_by_tier.simps) (auto simp: MIN_RECENT_MESSAGES_TO_KEEP_def)

text \<open>
  The emergency trim is a plain drain of the oldest messages: whatever the workspace, the
  pins and the paths, it removes the shortest front that makes the rest fit the budget, and at
  most all but the last four messages. The loop by tier never removes a message, because the
  drain before it has already reached the budget or the floor.
\<close>

theorem trim_drains_the_front:
  "trim_messages_partition_aware u to_text pt pins_of paths ms system budget =
     (if estimate_input_tokens_conservative to_text ms system \<le> budget then (ms, 0)
      else let n = count_oldest_messages_to_drain to_text ms system budget in (drop n ms, n))"
proof -
  let ?n = "count_oldest_messages_to_drain to_text ms system budget"
  have "?n \<le> length ms" using drain_count_bound [of to_text ms system budget] by simp
  then show ?thesis
    by (simp add: trim_messages_partition_aware_def tier_loop_idle drain_front_idem)
       (simp add: drain_front_def Let_def)
qed

text \<open>
  So a message that stands for an external reference is removed before cold messages after it.
\<close>

definition reference_first :: "message list" where
  "reference_first =
     map (\<lambda>txt. \<lparr>role = ''user'', content = [Text txt None]\<rparr>)
       [''[workshop-ref: 1]'', ''cold'', ''a'', ''b'', ''c'', ''d'']"

text \<open>
  The trim removes a protected message and keeps an unprotected one: in a session of six
  messages whose first stands for an external reference and whose second is cold, the partition
  protects the first and not the second, and the trim to 120 tokens removes the first and keeps
  the second.
\<close>

theorem trim_removes_protected_first:
  "0 \<in> protected_message_indices (session_context_partition_for_trim (\<lambda>s. s) (\<lambda>v. []) no_paths
      (\<lambda>ms. []) [] reference_first) \<and>
   1 \<notin> protected_message_indices (session_context_partition_for_trim (\<lambda>s. s) (\<lambda>v. []) no_paths
      (\<lambda>ms. []) [] reference_first) \<and>
   trim_messages_partition_aware (\<lambda>s. s) (\<lambda>v. []) no_paths (\<lambda>ms. []) [] reference_first None 120 =
     (tl reference_first, 1)"
  by code_simp

end
