(* ===== verification/Tool_Prune.thy ===== *)
theory Tool_Prune
  imports Message_Tokens Tool_Pairs Outer_Policy
begin

text \<open>
  The mechanical prune of old tool results before a compaction
  (\<open>crates/runtime-server/src/compaction/prune.rs\<close>): outside a window of recent messages, earlier
  copies of one tool call's result and long results become one-line summaries.

  \<open>to_json\<close> is \<open>serde_json::to_string\<close> on a tool input and \<open>to_text\<close> its \<open>Display\<close>, the
  fallback of the code.
\<close>

section \<open>Tool calls by id\<close>

record tool_use_info =
  ti_name :: string
  ti_key :: string
  ti_args_preview :: string

definition truncate_chars :: "string \<Rightarrow> nat \<Rightarrow> string" where
  "truncate_chars text max_chars = (if max_chars = 0 then [] else take_chars max_chars text)"

definition tail_chars :: "string \<Rightarrow> nat \<Rightarrow> string" where
  "tail_chars text max_chars =
     (if max_chars = 0 then []
      else if char_count text \<le> max_chars then text
      else last_chars max_chars text)"

definition input_line :: "(json \<Rightarrow> string option) \<Rightarrow> (json \<Rightarrow> string) \<Rightarrow> json \<Rightarrow> string" where
  "input_line to_json to_text v = (case to_json v of Some s \<Rightarrow> s | None \<Rightarrow> to_text v)"

definition tool_use_key ::
  "(json \<Rightarrow> string option) \<Rightarrow> (json \<Rightarrow> string) \<Rightarrow> string \<Rightarrow> json \<Rightarrow> string" where
  "tool_use_key to_json to_text name input = name @ '':'' @ input_line to_json to_text input"

definition tool_args_preview :: "(json \<Rightarrow> string option) \<Rightarrow> (json \<Rightarrow> string) \<Rightarrow> json \<Rightarrow> string" where
  "tool_args_preview to_json to_text input = truncate_chars (input_line to_json to_text input) 120"

fun insert_tool_use ::
  "(json \<Rightarrow> string option) \<Rightarrow> (json \<Rightarrow> string) \<Rightarrow> content_block \<Rightarrow>
   (string \<rightharpoonup> tool_use_info) \<Rightarrow> (string \<rightharpoonup> tool_use_info)" where
  "insert_tool_use to_json to_text (ToolUse i name input _) M =
     M(i \<mapsto> \<lparr>ti_name = name, ti_key = tool_use_key to_json to_text name input,
            ti_args_preview = tool_args_preview to_json to_text input\<rparr>)"
| "insert_tool_use to_json to_text _ M = M"

definition collect_tool_uses ::
  "(json \<Rightarrow> string option) \<Rightarrow> (json \<Rightarrow> string) \<Rightarrow> message list \<Rightarrow> (string \<rightharpoonup> tool_use_info)" where
  "collect_tool_uses to_json to_text ms =
     fold (insert_tool_use to_json to_text) (concat (map content ms)) Map.empty"

section \<open>The candidates\<close>

record prune_candidate =
  pc_message :: nat
  pc_block :: nat
  pc_key :: string
  pc_tool :: string
  pc_args :: string
  pc_len :: nat

fun block_candidate ::
  "(string \<rightharpoonup> tool_use_info) \<Rightarrow> nat \<Rightarrow> nat \<Rightarrow> content_block \<Rightarrow> prune_candidate option" where
  "block_candidate uses i b (ToolResult k txt _ _) =
     (case uses k of
        None \<Rightarrow> None
      | Some info \<Rightarrow>
          Some \<lparr>pc_message = i, pc_block = b, pc_key = ti_key info, pc_tool = ti_name info,
                pc_args = ti_args_preview info, pc_len = length txt\<rparr>)"
| "block_candidate uses i b _ = None"

definition message_candidates ::
  "(string \<rightharpoonup> tool_use_info) \<Rightarrow> message list \<Rightarrow> nat \<Rightarrow> prune_candidate list" where
  "message_candidates uses ms i =
     List.map_filter (\<lambda>b. block_candidate uses i b (content (ms ! i) ! b))
       [0..<length (content (ms ! i))]"

definition prune_candidates ::
  "(string \<rightharpoonup> tool_use_info) \<Rightarrow> message list \<Rightarrow> nat \<Rightarrow> prune_candidate list" where
  "prune_candidates uses ms cutoff =
     concat (map (message_candidates uses ms) [0..<cutoff])"

definition latest_by_key :: "prune_candidate list \<Rightarrow> (string \<rightharpoonup> nat)" where
  "latest_by_key cs = fold (\<lambda>c M. M(pc_key c \<mapsto> pc_message c)) cs Map.empty"

definition count_by_key :: "prune_candidate list \<Rightarrow> string \<Rightarrow> nat" where
  "count_by_key cs k = length (filter (\<lambda>c. pc_key c = k) cs)"

definition SUMMARY_TOOL_RESULT_SNIPPET_CHARS :: nat where
  "SUMMARY_TOOL_RESULT_SNIPPET_CHARS = 240"

definition prune_summary :: "prune_candidate \<Rightarrow> string" where
  "prune_summary c =
     ''['' @ pc_tool c @ ''] tool result pruned ('' @ show_nat (pc_len c) @ '' bytes; args: '' @
     pc_args c @ '')''"

text \<open>The tests of the loop: whether a candidate is replaced by its summary.\<close>

definition prunes :: "prune_candidate list \<Rightarrow> prune_candidate \<Rightarrow> bool" where
  "prunes cs c \<longleftrightarrow>
     (let duplicate_count = count_by_key cs (pc_key c);
          is_latest_duplicate =
            duplicate_count > 1 \<and> latest_by_key cs (pc_key c) = Some (pc_message c)
      in if is_latest_duplicate then False
         else if duplicate_count \<le> 1 \<and> pc_len c \<le> SUMMARY_TOOL_RESULT_SNIPPET_CHARS then False
         else \<not> length (prune_summary c) \<ge> pc_len c)"

section \<open>The prune\<close>

fun summarize_result :: "string \<Rightarrow> content_block \<Rightarrow> content_block" where
  "summarize_result summary (ToolResult k _ e _) = ToolResult k summary e None"
| "summarize_result summary b = b"

fun result_length :: "content_block \<Rightarrow> nat" where
  "result_length (ToolResult _ txt _ _) = length txt"
| "result_length _ = 0"

definition update_block :: "nat \<Rightarrow> nat \<Rightarrow> (content_block \<Rightarrow> content_block) \<Rightarrow> message list \<Rightarrow> message list"
  where
  "update_block i b f ms =
     ms[i := (ms ! i)\<lparr>content := (content (ms ! i))[b := f (content (ms ! i) ! b)]\<rparr>]"

fun prune_loop ::
  "prune_candidate list \<Rightarrow> prune_candidate list \<Rightarrow> message list \<Rightarrow> nat \<Rightarrow> message list \<times> nat" where
  "prune_loop cs [] ms bytes_saved = (ms, bytes_saved)"
| "prune_loop cs (c # rest) ms bytes_saved =
     (if prunes cs c then
        let summary = prune_summary c;
            block = content (ms ! pc_message c) ! pc_block c
        in prune_loop cs rest
             (update_block (pc_message c) (pc_block c) (summarize_result summary) ms)
             (bytes_saved +
              (if is_ToolResult block then result_length block - length summary else 0))
      else prune_loop cs rest ms bytes_saved)"

definition prune_tool_results ::
  "(json \<Rightarrow> string option) \<Rightarrow> (json \<Rightarrow> string) \<Rightarrow> message list \<Rightarrow> nat \<Rightarrow> message list \<times> nat" where
  "prune_tool_results to_json to_text ms protected_window =
     (let cutoff = length ms - protected_window in
      if cutoff = 0 then (ms, 0)
      else
        let cs = prune_candidates (collect_tool_uses to_json to_text ms) ms cutoff
        in prune_loop cs cs ms 0)"

section \<open>One block at a time\<close>

definition position :: "prune_candidate \<Rightarrow> nat \<times> nat" where
  "position c = (pc_message c, pc_block c)"

definition block_at :: "message list \<Rightarrow> nat \<times> nat \<Rightarrow> content_block" where
  "block_at ms q = content (ms ! fst q) ! snd q"

definition positions :: "message list \<Rightarrow> (nat \<times> nat) set" where
  "positions ms = {(i, b). i < length ms \<and> b < length (content (ms ! i))}"

text \<open>Two sessions of one shape: the same messages with the same numbers of blocks.\<close>

definition same_shape :: "message list \<Rightarrow> message list \<Rightarrow> bool" where
  "same_shape ms ms' \<longleftrightarrow>
     map (\<lambda>m. (role m, length (content m))) ms = map (\<lambda>m. (role m, length (content m))) ms'"

definition result_bytes :: "message list \<Rightarrow> nat" where
  "result_bytes ms = sum_list (map (\<lambda>m. sum_list (map result_length (content m))) ms)"

lemma same_shape_refl [simp]: "same_shape ms ms"
  by (simp add: same_shape_def)

lemma same_shape_trans: "same_shape a b \<Longrightarrow> same_shape b c \<Longrightarrow> same_shape a c"
  by (simp add: same_shape_def)

lemma same_shape_positions: "same_shape ms ms' \<Longrightarrow> positions ms = positions ms'"
  unfolding same_shape_def positions_def
  by (metis (no_types, lifting) length_map nth_map prod.inject)

lemma update_block_shape: "q \<in> positions ms \<Longrightarrow> same_shape ms (update_block (fst q) (snd q) f ms)"
  by (auto simp: same_shape_def update_block_def positions_def map_update
      intro!: nth_equalityI simp: nth_list_update)

lemma update_block_at:
  "q \<in> positions ms \<Longrightarrow>
    block_at (update_block (fst q) (snd q) f ms) r = (if r = q then f (block_at ms q) else block_at ms r)"
  by (cases q; cases r)
     (auto simp: block_at_def update_block_def positions_def nth_list_update)

lemma sum_list_change:
  fixes xs :: "nat list"
  shows "i < length xs \<Longrightarrow> sum_list (xs[i := x]) + xs ! i = sum_list xs + x"
  by (induction xs arbitrary: i) (auto split: nat.split)

lemma update_block_bytes:
  assumes "q \<in> positions ms"
  shows "result_bytes (update_block (fst q) (snd q) f ms) + result_length (block_at ms q) =
    result_bytes ms + result_length (f (block_at ms q))"
proof -
  obtain i b where q: "q = (i, b)" by (cases q)
  then have i: "i < length ms" "b < length (content (ms ! i))" using assms by (auto simp: positions_def)
  let ?g = "\<lambda>m. sum_list (map result_length (content m))"
  let ?m = "(ms ! i)\<lparr>content := (content (ms ! i))[b := f (content (ms ! i) ! b)]\<rparr>"
  have "?g ?m + result_length (content (ms ! i) ! b) =
      ?g (ms ! i) + result_length (f (content (ms ! i) ! b))"
    using sum_list_change [of b "map result_length (content (ms ! i))"] i by (simp add: map_update)
  moreover have "sum_list ((map ?g ms)[i := ?g ?m]) + ?g (ms ! i) = sum_list (map ?g ms) + ?g ?m"
    using sum_list_change [of i "map ?g ms"] i by simp
  ultimately show ?thesis
    by (simp add: q result_bytes_def update_block_def block_at_def map_update)
qed

text \<open>The loop changes exactly the blocks at the positions of the candidates it prunes.\<close>

lemma prune_loop_blocks:
  "distinct (map position rest) \<Longrightarrow> position ` set rest \<subseteq> positions ms \<Longrightarrow>
   same_shape ms (fst (prune_loop cs rest ms n)) \<and>
   (\<forall>q. block_at (fst (prune_loop cs rest ms n)) q =
      (case List.find (\<lambda>c. position c = q \<and> prunes cs c) rest of
         Some c \<Rightarrow> summarize_result (prune_summary c) (block_at ms q)
       | None \<Rightarrow> block_at ms q))"
proof (induction rest arbitrary: ms n)
  case (Cons c rest)
  let ?f = "summarize_result (prune_summary c)"
  let ?ms = "update_block (pc_message c) (pc_block c) ?f ms"
  have c: "position c \<in> positions ms" using Cons.prems(2) by simp
  have shape: "same_shape ms ?ms" using update_block_shape [OF c] by (simp add: position_def)
  have upd: "block_at ?ms r = (if r = position c then ?f (block_at ms (position c)) else block_at ms r)"
    for r
    using update_block_at [OF c, of ?f r] by (simp add: position_def)
  have rest: "distinct (map position rest)" "position ` set rest \<subseteq> positions ms"
    "position ` set rest \<subseteq> positions ?ms"
    using Cons.prems(1,2) same_shape_positions [OF shape] by simp_all
  have other: "\<forall>d\<in>set rest. position d \<noteq> position c"
    using Cons.prems(1) by (metis distinct.simps(2) image_eqI list.simps(9) set_map)
  have gone: "List.find (\<lambda>d. position d = position c \<and> prunes cs d) rest = None"
    using other by (auto simp: find_None_iff)
  show ?case
  proof (cases "prunes cs c")
    case True
    define n' where "n' = n + (if is_ToolResult (block_at ms (position c))
             then result_length (block_at ms (position c)) - length (prune_summary c) else 0)"
    have run: "prune_loop cs (c # rest) ms n = prune_loop cs rest ?ms n'"
      using True by (simp add: n'_def Let_def block_at_def position_def)
    note ih = Cons.IH [OF rest(1,3), of n']
    have "block_at (fst (prune_loop cs (c # rest) ms n)) q =
      (case List.find (\<lambda>c. position c = q \<and> prunes cs c) (c # rest) of
         Some c \<Rightarrow> summarize_result (prune_summary c) (block_at ms q)
       | None \<Rightarrow> block_at ms q)" for q
      using ih [THEN conjunct2, THEN spec, of q] gone True unfolding run
      by (cases "q = position c") (simp_all only: upd, simp_all)
    moreover have "same_shape ms (fst (prune_loop cs (c # rest) ms n))"
      unfolding run using ih shape same_shape_trans by blast
    ultimately show ?thesis by blast
  next
    case False
    with Cons.IH [OF rest(1,2)] show ?thesis by simp
  qed
qed simp

lemma prune_loop_bytes:
  "distinct (map position rest) \<Longrightarrow> position ` set rest \<subseteq> positions ms \<Longrightarrow>
   \<forall>c\<in>set rest. is_ToolResult (block_at ms (position c)) \<and>
      result_length (block_at ms (position c)) = pc_len c \<Longrightarrow>
   prune_loop cs rest ms n = (ms', n') \<Longrightarrow> result_bytes ms' + n' = result_bytes ms + n"
proof (induction rest arbitrary: ms n)
  case (Cons c rest)
  let ?f = "summarize_result (prune_summary c)"
  let ?ms = "update_block (pc_message c) (pc_block c) ?f ms"
  let ?b = "block_at ms (position c)"
  have c: "position c \<in> positions ms" using Cons.prems(2) by simp
  have shape: "same_shape ms ?ms" using update_block_shape [OF c] by (simp add: position_def)
  have upd: "block_at ?ms r = (if r = position c then ?f ?b else block_at ms r)" for r
    using update_block_at [OF c, of ?f r] by (simp add: position_def)
  have rest: "distinct (map position rest)" "position ` set rest \<subseteq> positions ms"
    "position ` set rest \<subseteq> positions ?ms"
    using Cons.prems(1,2) same_shape_positions [OF shape] by simp_all
  have other: "\<forall>d\<in>set rest. position d \<noteq> position c"
    using Cons.prems(1) by (metis distinct.simps(2) image_eqI list.simps(9) set_map)
  have b: "is_ToolResult ?b" "result_length ?b = pc_len c" using Cons.prems(3) by auto
  show ?case
  proof (cases "prunes cs c")
    case True
    then have short: "length (prune_summary c) < pc_len c"
      by (auto simp: prunes_def Let_def split: if_splits)
    have f: "result_length (?f ?b) = length (prune_summary c)" using b(1) by (cases ?b) auto
    have "\<forall>d\<in>set rest. is_ToolResult (block_at ?ms (position d)) \<and>
        result_length (block_at ?ms (position d)) = pc_len d"
      using Cons.prems(3) other by (auto simp: upd)
    moreover have "prune_loop cs rest ?ms (n + (pc_len c - length (prune_summary c))) = (ms', n')"
      using Cons.prems(4) True b by (simp add: Let_def block_at_def position_def)
    ultimately have "result_bytes ms' + n' =
        result_bytes ?ms + (n + (pc_len c - length (prune_summary c)))"
      using Cons.IH [OF rest(1,3)] by blast
    then show ?thesis
      using update_block_bytes [OF c, of ?f] f b(2) short by (simp add: position_def)
  next
    case False
    then show ?thesis using Cons.IH [OF rest(1,2)] Cons.prems(3,4) by simp
  qed
qed simp

section \<open>The candidates of a session\<close>

lemma distinct_map_filter:
  assumes "distinct xs" and "\<And>x y. f x = Some y \<Longrightarrow> g y = h x" and "inj h"
  shows "distinct (map g (List.map_filter f xs))"
proof -
  have "g ` set (List.map_filter f ys) \<subseteq> h ` set ys" for ys
    using assms(2) by (auto simp: set_map_filter_iff)
  then show ?thesis
    using assms(1,3)
  proof (induction xs)
    case (Cons x xs)
    have "h x \<notin> h ` set xs" using Cons.prems by (auto dest: injD)
    then show ?case
      using Cons assms(2) [of x]
      by (auto simp: List.map_filter_simps split: option.split)
  qed (simp add: List.map_filter_simps)
qed

lemma distinct_concat_map:
  assumes "distinct is" and "\<And>i. distinct (map g (F i))" and "\<And>i y. y \<in> set (F i) \<Longrightarrow> fst (g y) = i"
  shows "distinct (map g (concat (map F is)))"
  using assms(1)
proof (induction "is")
  case (Cons i "is")
  have "g y \<notin> g ` set (concat (map F is))" if "y \<in> set (F i)" for y
    using that Cons.prems by auto (metis assms(3))
  then have "g ` set (F i) \<inter> g ` set (concat (map F is)) = {}" by blast
  with Cons assms(2) [of i] show ?case by simp
qed simp

lemma in_candidates:
  "c \<in> set (prune_candidates uses ms cutoff) \<longleftrightarrow>
     (\<exists>i<cutoff. \<exists>b<length (content (ms ! i)). block_candidate uses i b (content (ms ! i) ! b) = Some c)"
  by (auto simp: prune_candidates_def message_candidates_def set_map_filter_iff Bex_def)

lemma block_candidate_position: "block_candidate uses i b blk = Some c \<Longrightarrow> position c = (i, b)"
  by (cases blk) (auto simp: position_def split: option.splits)

lemma block_candidate_result:
  "block_candidate uses i b blk = Some c \<Longrightarrow> is_ToolResult blk \<and> result_length blk = pc_len c"
  by (cases blk) (auto split: option.splits)

lemma candidates_distinct: "distinct (map position (prune_candidates uses ms cutoff))"
  unfolding prune_candidates_def
proof (rule distinct_concat_map)
  show "distinct (map position (message_candidates uses ms i))" for i
    unfolding message_candidates_def
    by (rule distinct_map_filter [where h = "\<lambda>b. (i, b)"])
       (auto simp: inj_def dest: block_candidate_position)
  show "y \<in> set (message_candidates uses ms i) \<Longrightarrow> fst (position y) = i" for i y
    by (auto simp: message_candidates_def set_map_filter_iff dest: block_candidate_position)
qed simp

lemma candidates_positions:
  "cutoff \<le> length ms \<Longrightarrow> position ` set (prune_candidates uses ms cutoff) \<subseteq> positions ms"
  by (fastforce simp: in_candidates positions_def dest: block_candidate_position)

lemma candidate_at:
  assumes "c \<in> set (prune_candidates uses ms cutoff)"
  shows "block_candidate uses (fst (position c)) (snd (position c)) (block_at ms (position c)) = Some c"
    and "fst (position c) < cutoff"
proof -
  from assms obtain i b where c: "i < cutoff" "block_candidate uses i b (content (ms ! i) ! b) = Some c"
    by (auto simp: in_candidates)
  moreover from c(2) have "position c = (i, b)" by (rule block_candidate_position)
  ultimately show
    "block_candidate uses (fst (position c)) (snd (position c)) (block_at ms (position c)) = Some c"
    and "fst (position c) < cutoff"
    by (simp_all add: block_at_def)
qed

section \<open>The prune, block by block\<close>

text \<open>The block that the prune leaves at a position of the session.\<close>

definition pruned_block ::
  "(json \<Rightarrow> string option) \<Rightarrow> (json \<Rightarrow> string) \<Rightarrow> message list \<Rightarrow> nat \<Rightarrow> nat \<times> nat \<Rightarrow> content_block" where
  "pruned_block to_json to_text ms protected_window q =
     (let cutoff = length ms - protected_window;
          uses = collect_tool_uses to_json to_text ms;
          cs = prune_candidates uses ms cutoff
      in case block_candidate uses (fst q) (snd q) (block_at ms q) of
           None \<Rightarrow> block_at ms q
         | Some c \<Rightarrow>
             if fst q < cutoff \<and> prunes cs c then summarize_result (prune_summary c) (block_at ms q)
             else block_at ms q)"

lemma prune_blocks:
  shows "same_shape ms (fst (prune_tool_results to_json to_text ms w))"
    and "q \<in> positions ms \<Longrightarrow>
      block_at (fst (prune_tool_results to_json to_text ms w)) q = pruned_block to_json to_text ms w q"
    and "result_bytes (fst (prune_tool_results to_json to_text ms w)) +
      snd (prune_tool_results to_json to_text ms w) = result_bytes ms"
proof -
  define cutoff where "cutoff = length ms - w"
  define uses where "uses = collect_tool_uses to_json to_text ms"
  define cs where "cs = prune_candidates uses ms cutoff"
  have cut: "cutoff \<le> length ms" by (simp add: cutoff_def)
  have empty: "cs = []" if "cutoff = 0" using that by (simp add: cs_def prune_candidates_def)
  have run: "prune_tool_results to_json to_text ms w = prune_loop cs cs ms 0"
    using empty by (auto simp: prune_tool_results_def Let_def cs_def uses_def cutoff_def)
  have d: "distinct (map position cs)" unfolding cs_def by (rule candidates_distinct)
  have p: "position ` set cs \<subseteq> positions ms" unfolding cs_def by (rule candidates_positions [OF cut])
  note loop = prune_loop_blocks [OF d p, of cs 0]
  show "same_shape ms (fst (prune_tool_results to_json to_text ms w))"
    using loop unfolding run by blast
  have "\<forall>c\<in>set cs. is_ToolResult (block_at ms (position c)) \<and>
      result_length (block_at ms (position c)) = pc_len c"
    unfolding cs_def using candidate_at(1) block_candidate_result by blast
  then show "result_bytes (fst (prune_tool_results to_json to_text ms w)) +
      snd (prune_tool_results to_json to_text ms w) = result_bytes ms"
    using prune_loop_bytes [OF d p] unfolding run by (metis add_0_right prod.collapse)
  assume q: "q \<in> positions ms"
  show "block_at (fst (prune_tool_results to_json to_text ms w)) q = pruned_block to_json to_text ms w q"
  proof (cases "List.find (\<lambda>c. position c = q \<and> prunes cs c) cs")
    case None
    then have "\<not> (\<exists>c\<in>set cs. position c = q \<and> prunes cs c)" by (auto simp: find_None_iff)
    moreover have "c \<in> set cs \<and> position c = q"
      if "block_candidate uses (fst q) (snd q) (block_at ms q) = Some c" "fst q < cutoff" for c
    proof -
      have "\<exists>i<cutoff. \<exists>b<length (content (ms ! i)).
          block_candidate uses i b (content (ms ! i) ! b) = Some c"
        using that q by (intro exI [of _ "fst q"] conjI exI [of _ "snd q"])
          (auto simp: positions_def block_at_def)
      then show ?thesis
        using block_candidate_position [OF that(1)] by (simp add: cs_def in_candidates)
    qed
    ultimately show ?thesis
      using loop [THEN conjunct2, THEN spec, of q] None unfolding run pruned_block_def Let_def
      by (auto simp flip: uses_def cutoff_def cs_def split: option.split)
  next
    case (Some c)
    then have c: "c \<in> set cs" "position c = q" "prunes cs c"
      by (auto simp: find_Some_iff in_set_conv_nth)
    with candidate_at [of c uses ms cutoff] show ?thesis
      using loop [THEN conjunct2, THEN spec, of q] Some unfolding run pruned_block_def Let_def
      by (auto simp flip: uses_def cutoff_def cs_def)
  qed
qed

definition prune_reference ::
  "(json \<Rightarrow> string option) \<Rightarrow> (json \<Rightarrow> string) \<Rightarrow> message list \<Rightarrow> nat \<Rightarrow> message list" where
  "prune_reference to_json to_text ms protected_window =
     map (\<lambda>i. (ms ! i)\<lparr>content :=
            map (\<lambda>b. pruned_block to_json to_text ms protected_window (i, b))
              [0..<length (content (ms ! i))]\<rparr>) [0..<length ms]"

lemma same_shape_nth:
  "same_shape ms ms' \<Longrightarrow> length ms = length ms' \<and>
    (\<forall>i<length ms. role (ms ! i) = role (ms' ! i) \<and>
       length (content (ms ! i)) = length (content (ms' ! i)))"
  unfolding same_shape_def by (metis (no_types, lifting) length_map nth_map prod.inject)

lemma message_ext: "role m = role m' \<Longrightarrow> content m = content m' \<Longrightarrow> m = (m' :: message)"
  by (cases m; cases m') simp

lemma prune_blockwise:
  "prune_tool_results to_json to_text ms w =
     (prune_reference to_json to_text ms w,
      result_bytes ms - result_bytes (prune_reference to_json to_text ms w))"
proof -
  let ?ms = "fst (prune_tool_results to_json to_text ms w)"
  note blocks = prune_blocks [where ms = ms and to_json = to_json and to_text = to_text and w = w]
  have nth: "length ms = length ?ms" "i < length ms \<Longrightarrow> role (ms ! i) = role (?ms ! i)"
    "i < length ms \<Longrightarrow> length (content (ms ! i)) = length (content (?ms ! i))" for i
    using same_shape_nth [OF blocks(1)] by auto
  have "?ms = prune_reference to_json to_text ms w"
  proof (rule nth_equalityI)
    show "length ?ms = length (prune_reference to_json to_text ms w)"
      using nth(1) by (simp add: prune_reference_def)
    fix i assume "i < length ?ms"
    then have i: "i < length ms" using nth(1) by simp
    have "content (?ms ! i) = map (\<lambda>b. pruned_block to_json to_text ms w (i, b))
        [0..<length (content (ms ! i))]"
      using blocks(2) i nth(3) [OF i]
      by (intro nth_equalityI) (auto simp: positions_def block_at_def)
    then show "?ms ! i = prune_reference to_json to_text ms w ! i"
      using i nth(2) [OF i] by (intro message_ext) (simp_all add: prune_reference_def)
  qed
  then show ?thesis using blocks(3) by (metis diff_add_inverse prod.collapse)
qed

text \<open>
  C22. The prune rewrites each block on its own and its byte count is exact: the session it leaves
  is the session with every block replaced by what \<open>pruned_block\<close> says, and the number it returns
  is the number of bytes by which the tool results have shrunk.
\<close>

theorem prune_is_blockwise:
  "prune_tool_results to_json to_text ms w =
     (prune_reference to_json to_text ms w,
      result_bytes ms - result_bytes (prune_reference to_json to_text ms w))"
  by (rule prune_blockwise)

section \<open>The newest copy\<close>

lemma latest_by_key_last:
  "latest_by_key cs k =
     (if \<exists>c\<in>set cs. pc_key c = k
      then Some (pc_message (last (filter (\<lambda>c. pc_key c = k) cs))) else None)"
proof -
  have "fold (\<lambda>c M. M(pc_key c \<mapsto> pc_message c)) cs M k =
     (if \<exists>c\<in>set cs. pc_key c = k
      then Some (pc_message (last (filter (\<lambda>c. pc_key c = k) cs))) else M k)" for M
    by (induction cs arbitrary: M) (auto simp: filter_empty_conv)
  then show ?thesis by (simp add: latest_by_key_def)
qed

lemma sorted_constant: "\<forall>x\<in>set xs. x = n \<Longrightarrow> sorted (xs :: nat list)"
  by (induction xs) auto

lemma sorted_le_last: "sorted (xs :: nat list) \<Longrightarrow> x \<in> set xs \<Longrightarrow> x \<le> last xs"
  by (induction xs) (auto split: if_splits)

lemma candidates_sorted: "sorted (map pc_message (prune_candidates uses ms cutoff))"
proof (induction cutoff)
  case (Suc n)
  have "prune_candidates uses ms (Suc n) = prune_candidates uses ms n @ message_candidates uses ms n"
    by (simp add: prune_candidates_def)
  moreover have "pc_message c \<le> n" if "c \<in> set (prune_candidates uses ms n)" for c
    using candidate_at(2) [OF that] by (simp add: position_def)
  moreover have eq: "pc_message c = n" if "c \<in> set (message_candidates uses ms n)" for c
    using that by (auto simp: message_candidates_def set_map_filter_iff position_def
        dest!: block_candidate_position)
  moreover have "sorted (map pc_message (message_candidates uses ms n))"
    using eq by (intro sorted_constant [of _ n]) auto
  ultimately show ?case using Suc by (auto simp: sorted_append)
qed (simp add: prune_candidates_def)

text \<open>
  When a tool call has more than one result outside the protected window, the prune leaves a
  newest one as it was: some candidate of that call has the largest message index among them, and
  its block is unchanged.
\<close>

theorem newest_copy_survives:
  assumes "cs = prune_candidates (collect_tool_uses to_json to_text ms) ms (length ms - w)"
    and "c \<in> set cs" and "1 < count_by_key cs (pc_key c)"
  shows "\<exists>d\<in>set cs. pc_key d = pc_key c \<and>
    (\<forall>e\<in>set cs. pc_key e = pc_key c \<longrightarrow> pc_message e \<le> pc_message d) \<and>
    block_at (fst (prune_tool_results to_json to_text ms w)) (position d) = block_at ms (position d)"
proof -
  define ds where "ds = filter (\<lambda>d. pc_key d = pc_key c) cs"
  define d where "d = last ds"
  have "ds \<noteq> []" using assms(2) by (auto simp: ds_def filter_empty_conv)
  then have d: "d \<in> set cs" "pc_key d = pc_key c"
    using last_in_set [of ds] by (auto simp: d_def ds_def)
  have "sorted (map pc_message ds)"
    unfolding ds_def using candidates_sorted assms(1) by (metis sorted_filter)
  then have "\<forall>e\<in>set ds. pc_message e \<le> pc_message d"
    using sorted_le_last [of "map pc_message ds"] \<open>ds \<noteq> []\<close> by (auto simp: d_def last_map)
  then have max: "\<forall>e\<in>set cs. pc_key e = pc_key c \<longrightarrow> pc_message e \<le> pc_message d"
    by (auto simp: ds_def)
  have "\<not> prunes cs d"
    using assms(2,3) d by (auto simp: prunes_def latest_by_key_last d_def ds_def)
  moreover have "position d \<in> positions ms"
    using candidates_positions [of "length ms - w" ms] d(1) assms(1) by auto
  moreover note candidate_at [OF d(1) [unfolded assms(1)]]
  ultimately have "block_at (fst (prune_tool_results to_json to_text ms w)) (position d) =
      block_at ms (position d)"
    unfolding prune_blocks(2) [OF \<open>position d \<in> positions ms\<close>] pruned_block_def Let_def
    by (simp flip: assms(1))
  with max show ?thesis using d by blast
qed

text \<open>Two reads of one file.\<close>

definition read_twice :: "message list" where
  "read_twice =
     [\<lparr>role = ''assistant'', content = [ToolUse ''a'' ''read_file'' JNull None]\<rparr>,
      \<lparr>role = ''user'', content = [ToolResult ''a'' ''old'' None None]\<rparr>,
      \<lparr>role = ''assistant'', content = [ToolUse ''b'' ''read_file'' JNull None]\<rparr>,
      \<lparr>role = ''user'', content = [ToolResult ''b'' ''new'' None None]\<rparr>]"

definition read_candidate :: "nat \<Rightarrow> prune_candidate" where
  "read_candidate i =
     \<lparr>pc_message = i, pc_block = 0, pc_key = ''read_file:'', pc_tool = ''read_file'', pc_args = [],
      pc_len = 3\<rparr>"

definition read_candidates :: "prune_candidate list" where
  "read_candidates =
     prune_candidates (collect_tool_uses (\<lambda>v. None) (\<lambda>v. []) read_twice) read_twice
       (length read_twice - 0)"

theorem newest_copy_survives_witness:
  "\<exists>d\<in>set read_candidates. pc_key d = ''read_file:'' \<and>
     (\<forall>e\<in>set read_candidates. pc_key e = ''read_file:'' \<longrightarrow> pc_message e \<le> pc_message d) \<and>
     block_at (fst (prune_tool_results (\<lambda>v. None) (\<lambda>v. []) read_twice 0)) (position d) =
       block_at read_twice (position d)"
proof -
  have c: "read_candidates = [read_candidate 1, read_candidate 3]" by code_simp
  have "read_candidate 1 \<in> set read_candidates" by (simp add: c)
  moreover have "1 < count_by_key read_candidates (pc_key (read_candidate 1))"
    by (simp add: c count_by_key_def read_candidate_def)
  ultimately show ?thesis
    using newest_copy_survives [OF read_candidates_def, of "read_candidate 1"]
    by (simp add: read_candidate_def)
qed

end
