(* ===== verification/Error_Taxonomy.thy ===== *)
theory Error_Taxonomy
  imports Model_Catalog Outer_Policy
begin

text \<open>
  Categories, envelopes and the retry policy of errors (\<open>crates/core/src/error_taxonomy.rs\<close>).
  \<open>u\<close> is the Unicode table of \<open>to_lowercase\<close>. The wire body of an envelope is JSON built by
  \<open>serde_json\<close> and is left out.
\<close>

section \<open>Categories and envelopes\<close>

datatype error_severity = SevInfo | SevWarning | SevError | SevCritical
datatype error_retry_policy = NetworkRetryable | NotRetryable

record error_envelope =
  ee_category :: error_category
  ee_severity :: error_severity
  ee_recoverable :: bool
  ee_code :: string
  ee_message :: string
  ee_hint :: "string option"

fun category_label :: "error_category \<Rightarrow> string" where
  "category_label Network = ''network''"
| "category_label Authentication = ''authentication''"
| "category_label Authorization = ''authorization''"
| "category_label RateLimit = ''rate_limit''"
| "category_label ErrTimeout = ''timeout''"
| "category_label InvalidInput = ''invalid_input''"
| "category_label Parse = ''parse''"
| "category_label ErrTool = ''tool''"
| "category_label ErrState = ''state''"
| "category_label Internal = ''internal''"

fun severity_label :: "error_severity \<Rightarrow> string" where
  "severity_label SevInfo = ''info''"
| "severity_label SevWarning = ''warning''"
| "severity_label SevError = ''error''"
| "severity_label SevCritical = ''critical''"

definition envelope_display :: "error_envelope \<Rightarrow> string" where
  "envelope_display e =
     ''['' @ severity_label (ee_severity e) @ ''] '' @ ee_code e @ '': '' @ ee_message e"

definition is_category_network_retryable :: "error_category \<Rightarrow> bool" where
  "is_category_network_retryable c \<longleftrightarrow>
     c = Network \<or> c = ErrTimeout \<or> c = RateLimit \<or> c = Internal"

definition retry_policy :: "error_category \<Rightarrow> error_retry_policy" where
  "retry_policy c = (if is_category_network_retryable c then NetworkRetryable else NotRetryable)"

fun retry_policy_label :: "error_retry_policy \<Rightarrow> string" where
  "retry_policy_label NetworkRetryable = ''network_retryable''"
| "retry_policy_label NotRetryable = ''not_retryable''"

text \<open>The dash in the hint for invalid input is the UTF-8 sequence of U+2014.\<close>

fun user_hint_for_category :: "error_category \<Rightarrow> string" where
  "user_hint_for_category Network = ''Check your network or proxy, then retry the message.''"
| "user_hint_for_category ErrTimeout =
     ''The request timed out; retry or reduce context with /compact.''"
| "user_hint_for_category RateLimit = ''Wait briefly and retry, or switch to a lighter model.''"
| "user_hint_for_category InvalidInput =
     ''Fix model/thinking settings or compact context '' @ [CHR 0xE2, CHR 0x80, CHR 0x94] @
     '' this request cannot be retried automatically.''"
| "user_hint_for_category Authentication =
     ''Set a valid API key in DEEPSEEK_API_KEY or ~/.deepseek/config.toml.''"
| "user_hint_for_category Authorization =
     ''This action is not allowed in the current trust or approval mode.''"
| "user_hint_for_category Parse =
     ''The response could not be parsed; retry once or report if it persists.''"
| "user_hint_for_category ErrTool =
     ''Review the tool output in the transcript and adjust the request.''"
| "user_hint_for_category ErrState =
     ''The thread or resource may have ended; refresh or start a new turn.''"
| "user_hint_for_category Internal =
     ''Retry the message; if it persists, check logs or restart the runtime.''"

definition new_envelope ::
  "error_category \<Rightarrow> error_severity \<Rightarrow> bool \<Rightarrow> string \<Rightarrow> string \<Rightarrow> error_envelope" where
  "new_envelope c s r code msg =
     \<lparr>ee_category = c, ee_severity = s, ee_recoverable = r, ee_code = code, ee_message = msg,
      ee_hint = Some (user_hint_for_category c)\<rparr>"

definition is_network_retryable :: "error_envelope \<Rightarrow> bool" where
  "is_network_retryable e \<longleftrightarrow> is_category_network_retryable (ee_category e)"

definition envelope_transient :: "string \<Rightarrow> error_envelope" where
  "envelope_transient msg = new_envelope Internal SevWarning True ''transient'' msg"

definition envelope_fatal :: "string \<Rightarrow> error_envelope" where
  "envelope_fatal msg = new_envelope Internal SevError False ''fatal'' msg"

definition envelope_fatal_auth :: "string \<Rightarrow> error_envelope" where
  "envelope_fatal_auth msg = new_envelope Authentication SevCritical False ''auth_fatal'' msg"

definition envelope_context_overflow :: "string \<Rightarrow> error_envelope" where
  "envelope_context_overflow msg = new_envelope InvalidInput SevError True ''context_overflow'' msg"

definition envelope_network :: "string \<Rightarrow> error_envelope" where
  "envelope_network msg = new_envelope Network SevWarning True ''network_transient'' msg"

definition envelope_tool :: "string \<Rightarrow> error_envelope" where
  "envelope_tool msg = new_envelope ErrTool SevError True ''tool_failed'' msg"

datatype stream_error = Stall u64 | Overflow nat | DurationLimit u64

fun into_envelope :: "stream_error \<Rightarrow> error_envelope" where
  "into_envelope (Stall t) =
     new_envelope ErrTimeout SevWarning True ''stream_stall''
       (''Stream stalled: no data received for '' @ show_nat (unat t) @ ''s, closing stream'')"
| "into_envelope (Overflow n) =
     new_envelope Internal SevError True ''stream_overflow''
       (''Stream exceeded maximum content size of '' @ show_nat n @ '' bytes, closing'')"
| "into_envelope (DurationLimit t) =
     new_envelope ErrTimeout SevError True ''stream_duration_limit''
       (''Stream exceeded maximum duration of '' @ show_nat (unat t) @ ''s, closing'')"

fun stream_error_display :: "stream_error \<Rightarrow> string" where
  "stream_error_display (Stall t) = ''Stream stalled after '' @ show_nat (unat t) @ ''s idle''"
| "stream_error_display (Overflow n) = ''Stream exceeded '' @ show_nat n @ '' bytes limit''"
| "stream_error_display (DurationLimit t) =
     ''Stream exceeded '' @ show_nat (unat t) @ ''s duration limit''"

section \<open>Classifying a message\<close>

definition mentions :: "string list \<Rightarrow> string \<Rightarrow> bool" where
  "mentions markers s \<longleftrightarrow> list_ex (str_contains s) markers"

definition classify_error_message :: "(string \<Rightarrow> string) \<Rightarrow> string \<Rightarrow> error_category" where
  "classify_error_message u message =
     (let lower = to_lowercase u message in
      if mentions [''maximum context length'', ''context length'', ''context_length'',
             ''prompt is too long''] lower \<or>
         (str_contains lower ''requested'' \<and> str_contains lower ''tokens'' \<and>
          str_contains lower ''maximum'') \<or>
         mentions [''context window'', ''reasoning_content'', ''reasoning_effort'',
             ''thinking mode'', ''thinking.type''] lower
      then InvalidInput
      else if mentions [''rate limit'', ''too many requests'', ''429'', ''quota''] lower
      then RateLimit
      else if mentions [''timeout'', ''timed out''] lower then ErrTimeout
      else if mentions [''auth'', ''unauthorized'', ''api key''] lower then Authentication
      else if mentions [''permission'', ''forbidden'', ''denied''] lower then Authorization
      else if mentions [''network'', ''connection'', ''dns'', ''temporarily unavailable'',
             '' 502 '', '' 503 '', '' 504 ''] lower \<or>
         starts_with lower ''502 '' \<or> starts_with lower ''503 '' \<or> starts_with lower ''504 '' \<or>
         ends_with lower '' 502'' \<or> ends_with lower '' 503'' \<or> ends_with lower '' 504'' \<or>
         lower = ''502'' \<or> lower = ''503'' \<or> lower = ''504''
      then Network
      else if mentions [''decision must'', ''expected rfc 3339''] lower \<or>
         starts_with lower ''invalid '' \<or> str_contains lower ''invalid request''
      then InvalidInput
      else if mentions [''parse'', ''syntax'', ''malformed''] lower then Parse
      else if mentions [''not found'', ''unavailable'', ''not available''] lower then ErrState
      else if str_contains lower ''tool'' then ErrTool
      else Internal)"

definition is_stream_failure_retryable :: "(string \<Rightarrow> string) \<Rightarrow> string \<Rightarrow> bool" where
  "is_stream_failure_retryable u message \<longleftrightarrow>
     is_category_network_retryable (classify_error_message u message)"

definition classify_envelope :: "(string \<Rightarrow> string) \<Rightarrow> string \<Rightarrow> bool \<Rightarrow> error_envelope" where
  "classify_envelope u message recoverable =
     (let c = classify_error_message u message;
          s = (if c = Authentication then SevCritical
               else if c = RateLimit \<or> c = ErrTimeout \<or> c = Network then SevWarning
               else if c = InvalidInput \<or> c = Authorization \<or> c = Parse then SevError
               else if recoverable then SevWarning else SevError)
      in new_envelope c s recoverable (category_label c) message)"

section \<open>Properties\<close>

text \<open>Every category of the taxonomy is named by its own label.\<close>

lemma category_label_inject: "category_label c = category_label d \<longleftrightarrow> c = d"
  by (cases c; cases d) simp_all

lemma severity_never_info: "ee_severity (classify_envelope u m r) \<noteq> SevInfo"
  by (simp add: classify_envelope_def new_envelope_def Let_def)

lemma overflow_is_invalid_input:
  assumes "is_ascii m" and "is_context_length_error_message m"
  shows "classify_error_message u m = InvalidInput"
proof -
  let ?l = "to_ascii_lowercase m"
  have "mentions [''maximum context length'', ''context length'', ''context_length'',
             ''prompt is too long''] ?l \<or>
         (str_contains ?l ''requested'' \<and> str_contains ?l ''tokens'' \<and>
          str_contains ?l ''maximum'') \<or>
         mentions [''context window'', ''reasoning_content'', ''reasoning_effort'',
             ''thinking mode'', ''thinking.type''] ?l"
    using assms(2)
    by (simp only: is_context_length_error_message_def Let_def mentions_def list_ex_iff
        list.set ball_simps bex_simps) blast
  then show ?thesis
    using assms(1) unfolding classify_error_message_def Let_def to_lowercase_def by (simp only: if_True)
qed

text \<open>
  A context overflow is never taken for a transient failure: an ASCII error message that the
  engine recognises as a context-length error is classified as invalid input, so neither the
  stream retry nor the compaction retry re-issues the request, whatever else the message mentions.
\<close>

theorem overflow_never_retried:
  assumes "is_ascii message" and "is_context_length_error_message message"
  shows "\<not> is_stream_failure_retryable u message \<and>
    \<not> is_transient_category (classify_error_message u message) \<and>
    ee_severity (classify_envelope u message recoverable) = SevError"
  using overflow_is_invalid_input [OF assms, of u]
  by (simp add: is_stream_failure_retryable_def is_category_network_retryable_def
      is_transient_category_def classify_envelope_def new_envelope_def)

theorem overflow_never_retried_witness:
  "\<not> is_stream_failure_retryable (\<lambda>s. s) ''HTTP 429: maximum context length exceeded'' \<and>
   \<not> is_transient_category (classify_error_message (\<lambda>s. s) ''HTTP 429: maximum context length exceeded'') \<and>
   ee_severity (classify_envelope (\<lambda>s. s) ''HTTP 429: maximum context length exceeded'' True) = SevError"
proof (rule overflow_never_retried)
  show "is_ascii ''HTTP 429: maximum context length exceeded''" by code_simp
  show "is_context_length_error_message ''HTTP 429: maximum context length exceeded''" by code_simp
qed

end

