(* ===== verification/Compaction.thy ===== *)
theory Compaction
  imports Context_Trim Tool_Prune Error_Taxonomy "HOL-Library.Multiset" "HOL-Library.Sublist"
begin

text \<open>
  Compaction of a session (\<open>crates/runtime-server/src/compaction/\<close>: \<open>tokens.rs\<close>, \<open>execute.rs\<close>,
  \<open>messages_layer.rs\<close>, \<open>prompt.rs\<close>) and what the engine does with its result
  (\<open>crates/runtime-server/src/core/engine/cycle_hooks.rs\<close>).

  The record \<open>compaction_env\<close> holds what is outside the model: the answer of the language model to
  the request of an attempt, the text of the anchors file, JSON texts, the uuid and the time of an
  artifact. The report of the cost, the logs and the telemetry of a summary call are left out.
\<close>

section \<open>Whether to compact\<close>

record compaction_config =
  cc_enabled :: bool
  cc_token_threshold :: nat
  cc_model :: string
  cc_cache_summary :: bool
  cc_auto_floor_tokens :: nat
  cc_summary_in_messages :: bool

definition default_compaction_config :: compaction_config where
  "default_compaction_config =
     \<lparr>cc_enabled = True, cc_token_threshold = 800000, cc_model = ''deepseek-chat'',
      cc_cache_summary = True, cc_auto_floor_tokens = 500000, cc_summary_in_messages = True\<rparr>"

definition MIN_SUMMARIZE_MESSAGES :: nat where "MIN_SUMMARIZE_MESSAGES = 6"

text \<open>
  \<open>MessageRequest\<close>, the fields a summary request sets; the others are \<open>None\<close>. The temperature is
  the decimal literal of the code.
\<close>

record message_request =
  mr_model :: string
  mr_messages :: "message list"
  mr_max_tokens :: u32
  mr_system :: "system_prompt option"
  mr_stream :: "bool option"
  mr_temperature :: "string option"

record compaction_env =
  cn_tables :: "string \<Rightarrow> string"
  cn_to_text :: "json \<Rightarrow> string"
  cn_to_json :: "json \<Rightarrow> string option"
  cn_paths :: path_tools
  cn_anchors :: "string option"
  cn_client :: "nat \<Rightarrow> message_request \<Rightarrow> string + content_block list"
  cn_messages_json :: "message list \<Rightarrow> string option"
  cn_uuid :: "nat \<Rightarrow> string"
  cn_now_ms :: "nat \<Rightarrow> int"

definition env_plan ::
  "compaction_env \<Rightarrow> message list \<Rightarrow> nat list option \<Rightarrow> string list option \<Rightarrow>
   compaction_plan" where
  "env_plan env ms pins external_paths =
     plan_compaction (cn_tables env) (cn_to_text env) (cn_paths env) ms KEEP_RECENT_MESSAGES
       pins external_paths"

definition should_compact ::
  "compaction_env \<Rightarrow> message list \<Rightarrow> compaction_config \<Rightarrow> nat list option \<Rightarrow>
   string list option \<Rightarrow> bool" where
  "should_compact env ms cfg pins external_paths =
     (let cost = (\<lambda>m. estimate_tokens_for_message (cn_to_text env) m False) in
      if \<not> cc_enabled cfg then False
      else if cc_auto_floor_tokens cfg > 0 \<and> sum_list (map cost ms) < cc_auto_floor_tokens cfg
      then False
      else
        let plan = env_plan env ms pins external_paths;
            pinned_tokens = sum_list (map (\<lambda>i. cost (ms ! i))
              (filter (\<lambda>i. i \<in> pinned_indices plan) [0..<length ms]));
            token_estimate = sum_list (map (\<lambda>i. cost (ms ! i)) (summarize_indices plan));
            message_count = length (summarize_indices plan);
            effective = cc_token_threshold cfg - pinned_tokens
        in if effective = 0 then message_count \<ge> MIN_SUMMARIZE_MESSAGES
           else if message_count < MIN_SUMMARIZE_MESSAGES then False
           else token_estimate > effective)"

section \<open>The summary request\<close>

definition nl :: string where "nl = [CHR 0x0A]"

record summary_input_limits =
  sl_text_snippet :: nat
  sl_tool_result_snippet :: nat
  sl_input_max :: nat
  sl_input_head :: nat
  sl_input_tail :: nat
  sl_max_tokens :: u32
  sl_word_limit :: nat

definition is_large_summary_model :: "(string \<Rightarrow> string) \<Rightarrow> string \<Rightarrow> bool" where
  "is_large_summary_model u model =
     (case context_window_for_model u model of Some w \<Rightarrow> w \<ge> 500000 | None \<Rightarrow> False)"

definition summary_input_limits_for_model :: "(string \<Rightarrow> string) \<Rightarrow> string \<Rightarrow> summary_input_limits"
  where
  "summary_input_limits_for_model u model =
     (if is_large_summary_model u model then
        \<lparr>sl_text_snippet = 2000, sl_tool_result_snippet = 4000, sl_input_max = 120000,
         sl_input_head = 72000, sl_input_tail = 36000, sl_max_tokens = 2048, sl_word_limit = 900\<rparr>
      else
        \<lparr>sl_text_snippet = 800, sl_tool_result_snippet = 240, sl_input_max = 24000,
         sl_input_head = 14000, sl_input_tail = 6000, sl_max_tokens = 1024, sl_word_limit = 500\<rparr>)"

definition should_use_cache_aligned_summary ::
  "compaction_env \<Rightarrow> string \<Rightarrow> message list \<Rightarrow> bool" where
  "should_use_cache_aligned_summary env model ms =
     (case context_window_for_model (cn_tables env) model of
        None \<Rightarrow> False
      | Some w \<Rightarrow>
          if w < 500000 then False
          else estimate_tokens (cn_to_text env) ms + 512 \<le> unat w * 85 div 100)"

definition summary_instruction :: "nat \<Rightarrow> string" where
  "summary_instruction word_limit =
     ''Summarize the conversation above in a concise but comprehensive way. '' @
     ''Preserve key information, decisions made, exact file paths, commands, '' @
     ''errors, and tool-result facts needed to continue the work. '' @
     ''Tool outputs may be abbreviated only when they are repetitive. '' @
     ''Keep it under '' @ show_nat word_limit @ '' words.''"

definition user_text :: "string \<Rightarrow> message" where
  "user_text txt = \<lparr>role = ''user'', content = [Text txt None]\<rparr>"

definition build_cache_aligned_summary_request ::
  "string \<Rightarrow> message list \<Rightarrow> summary_input_limits \<Rightarrow> message_request" where
  "build_cache_aligned_summary_request model ms limits =
     \<lparr>mr_model = model,
      mr_messages = ms @ [user_text (summary_instruction (sl_word_limit limits))],
      mr_max_tokens = sl_max_tokens limits, mr_system = None, mr_stream = Some False,
      mr_temperature = Some ''0.3''\<rparr>"

fun summary_line :: "summary_input_limits \<Rightarrow> string \<Rightarrow> content_block \<Rightarrow> string" where
  "summary_line limits who (Text txt _) =
     who @ '': '' @ truncate_chars txt (sl_text_snippet limits) @ nl @ nl"
| "summary_line limits who (ToolUse _ name _ _) = who @ '': [Used tool: '' @ name @ '']'' @ nl @ nl"
| "summary_line limits who (ToolResult _ txt _ _) =
     ''Tool result: '' @ truncate_chars txt (sl_tool_result_snippet limits) @ nl @ nl"
| "summary_line limits who _ = []"

definition conversation_text :: "summary_input_limits \<Rightarrow> message list \<Rightarrow> string" where
  "conversation_text limits ms =
     concat (map (\<lambda>m.
        let who = (if role m = ''user'' then ''User'' else ''Assistant'')
        in concat (map (summary_line limits who) (content m))) ms)"

definition omitted_marker :: "nat \<Rightarrow> string" where
  "omitted_marker omitted =
     nl @ nl @ ''[... '' @ show_nat omitted @ '' characters omitted before summary ...]'' @ nl @ nl"

definition limited_conversation :: "summary_input_limits \<Rightarrow> string \<Rightarrow> string" where
  "limited_conversation limits conversation =
     (let chars = char_count conversation in
      if chars > sl_input_max limits then
        let head = truncate_chars conversation (sl_input_head limits);
            tail = tail_chars conversation (sl_input_tail limits);
            omitted = chars - char_count head - char_count tail
        in head @ omitted_marker omitted @ tail
      else conversation)"

definition build_formatted_summary_request ::
  "string \<Rightarrow> message list \<Rightarrow> summary_input_limits \<Rightarrow> message_request" where
  "build_formatted_summary_request model ms limits =
     \<lparr>mr_model = model,
      mr_messages = [user_text (summary_instruction (sl_word_limit limits) @ nl @ nl @ ''---'' @ nl @ nl @
        limited_conversation limits (conversation_text limits ms))],
      mr_max_tokens = sl_max_tokens limits,
      mr_system = Some (SystemText
        ''You are a helpful assistant that creates concise conversation summaries.''),
      mr_stream = Some False, mr_temperature = Some ''0.3''\<rparr>"

definition summary_request ::
  "compaction_env \<Rightarrow> message list \<Rightarrow> string \<Rightarrow> message_request" where
  "summary_request env ms model =
     (let limits = summary_input_limits_for_model (cn_tables env) model in
      if should_use_cache_aligned_summary env model ms
      then build_cache_aligned_summary_request model ms limits
      else build_formatted_summary_request model ms limits)"

section \<open>The texts of a compaction\<close>

definition xml_escape_inline :: "string \<Rightarrow> string" where
  "xml_escape_inline s =
     replace_all ''>'' ''&gt;'' (replace_all ''<'' ''&lt;'' (replace_all ''&'' ''&amp;'' s))"

text \<open>\<open>create_summary\<close>: the texts of the answer of attempt \<open>n\<close>, one per line.\<close>

fun text_of_block :: "content_block \<Rightarrow> string option" where
  "text_of_block (Text txt _) = Some txt"
| "text_of_block _ = None"

definition create_summary :: "compaction_env \<Rightarrow> nat \<Rightarrow> message list \<Rightarrow> string \<Rightarrow> string + string" where
  "create_summary env n ms model =
     (case cn_client env n (summary_request env ms model) of
        Inl err \<Rightarrow> Inl err
      | Inr blocks \<Rightarrow> Inr (join nl (List.map_filter text_of_block blocks)))"

definition push_new :: "string list \<Rightarrow> string \<Rightarrow> string list" where
  "push_new xs x = (if x \<in> set xs then xs else xs @ [x])"

definition extract_path_from_input :: "json \<Rightarrow> string option" where
  "extract_path_from_input input =
     (case find_map (str_field input) [''path'', ''file'', ''file_path'', ''filename''] of
        Some p \<Rightarrow> Some p
      | None \<Rightarrow>
          (case input of
             JObject entries \<Rightarrow>
               find_map (\<lambda>(k, v).
                 case as_str v of
                   Some p \<Rightarrow> if CHR ''/'' \<in> set p \<or> CHR 0x5C \<in> set p \<or> CHR ''.'' \<in> set p
                             then Some p else None
                 | None \<Rightarrow> None) entries
           | _ \<Rightarrow> None))"

fun block_tool :: "content_block \<Rightarrow> string option" where
  "block_tool (ToolUse _ name _ _) = Some name"
| "block_tool _ = None"

fun block_file :: "content_block \<Rightarrow> string option" where
  "block_file (ToolUse _ _ input _) = extract_path_from_input input"
| "block_file _ = None"

fun block_task :: "content_block \<Rightarrow> string option" where
  "block_task (Text txt _) =
     (if str_contains txt ''TODO'' \<or> str_contains txt ''task'' \<or> str_contains txt ''need to''
      then Some (truncate_chars txt 200) else None)"
| "block_task _ = None"

definition shown_path :: "path_tools \<Rightarrow> string \<Rightarrow> string" where
  "shown_path pt file =
     (if pt_workspace pt then (case pt_strip_workspace pt file of Some p \<Rightarrow> p | None \<Rightarrow> file) else file)"

definition extract_workflow_context :: "path_tools \<Rightarrow> message list \<Rightarrow> string" where
  "extract_workflow_context pt ms =
     (let blocks = concat (map content ms);
          files = foldl push_new [] (List.map_filter block_file blocks);
          tools = List.map_filter block_tool blocks;
          tasks = foldl push_new [] (List.map_filter block_task blocks);
          tick = [CHR 0x60];
          context =
            (if files \<noteq> [] then ''**Files Modified/Read:**'' @ nl @
               concat (map (\<lambda>f. ''- '' @ tick @ shown_path pt f @ tick @ nl) files) @ nl else []) @
            (if tools \<noteq> [] then ''**Tools Used:** '' @ join '', '' tools @ nl @ nl else []) @
            (if tasks \<noteq> [] then ''**Tasks/TODOs Identified:**'' @ nl @
               concat (map (\<lambda>t. ''- '' @ t @ nl) tasks) @ nl else [])
      in if context = [] then
           ''No specific workflow context detected. Continue assisting the user with their current task.'' @ nl
         else context)"

text \<open>\<open>str::split\<close> at a non-empty text.\<close>

function split_str :: "string \<Rightarrow> string \<Rightarrow> string list" where
  "split_str sep [] = [[]]"
| "split_str sep (c # cs) =
     (if starts_with (c # cs) sep
      then [] # split_str sep (drop (length sep - 1) cs)
      else (c # hd (split_str sep cs)) # tl (split_str sep cs))"
  by pat_completeness auto
termination by (relation "measure (\<lambda>(_, s). length s)") auto

definition read_workspace_anchors :: "compaction_env \<Rightarrow> string list" where
  "read_workspace_anchors env =
     (if \<not> pt_workspace (cn_paths env) then []
      else case cn_anchors env of
             None \<Rightarrow> []
           | Some txt \<Rightarrow> filter (\<lambda>a. a \<noteq> []) (map trim (split_str (nl @ ''---'' @ nl) txt)))"

definition anchor_summary_section :: "compaction_env \<Rightarrow> string" where
  "anchor_summary_section env =
     (let anchors = read_workspace_anchors env in
      if anchors = [] then []
      else ''## Pinned Facts (User Anchors)'' @ nl @ nl @
           ''The following facts were explicitly anchored by the user with '' @ [CHR 0x60] @ ''/anchor'' @
           [CHR 0x60] @ ''. Preserve them across compaction cycles.'' @ nl @ nl @
           concat (map (\<lambda>a. ''- '' @ a @ nl) anchors) @ nl @ ''---'' @ nl @ nl)"

definition COMPACTED_HISTORY_MARKER :: string where
  "COMPACTED_HISTORY_MARKER = ''[COMPACTED_HISTORY]''"

definition rule_line :: string where "rule_line = nl @ nl @ ''---'' @ nl @ nl"

definition build_compaction_system_pointer :: system_prompt where
  "build_compaction_system_pointer =
     SystemText (COMPACTED_HISTORY_MARKER @
       '': archived conversation summary lives in the message transcript (read-only). '' @
       ''Prefer pinned and recent messages for verbatim detail.'')"

definition build_compacted_history_message :: "string \<Rightarrow> string \<Rightarrow> string \<Rightarrow> bool \<Rightarrow> message" where
  "build_compacted_history_message summary_safe workflow_safe anchors manual =
     user_text (COMPACTED_HISTORY_MARKER @ nl @ nl @
       (if manual then
          ''## Compacted history (manual /compact '' @ [CHR 0xE2, CHR 0x80, CHR 0x94] @
          '' reversible via artifact)''
        else ''## Compacted history (auto compaction)'') @ nl @ nl @ anchors @
       ''<compaction_summary>'' @ nl @ summary_safe @ nl @ ''</compaction_summary>'' @ rule_line @
       ''## Workflow Context'' @ nl @ nl @
       ''<workflow_context>'' @ nl @ workflow_safe @ nl @ ''</workflow_context>'' @ rule_line @
       ''Review this block for prior decisions and paths; continue from pinned messages below.'')"

definition build_legacy_compaction_summary_prompt ::
  "string \<Rightarrow> string \<Rightarrow> string \<Rightarrow> bool \<Rightarrow> system_prompt" where
  "build_legacy_compaction_summary_prompt summary_safe workflow_safe anchors cache_summary =
     SystemBlocks
       [\<lparr>sys_type = ''text'',
         sys_text = anchors @
           ''## '' @ [CHR 0xF0, CHR 0x9F, CHR 0x93, CHR 0x8B] @
           '' Conversation Summary (Auto-Generated)'' @ nl @ nl @
           ''<compaction_summary>'' @ nl @ summary_safe @ nl @ ''</compaction_summary>'' @ rule_line @
           ''## '' @ [CHR 0xF0, CHR 0x9F, CHR 0x94, CHR 0x8D] @ '' Workflow Context'' @ nl @ nl @
           ''<workflow_context>'' @ nl @ workflow_safe @ nl @ ''</workflow_context>'' @ rule_line @
           ''## '' @ [CHR 0xF0, CHR 0x9F, CHR 0x92, CHR 0xA1] @ '' What to Do Next'' @ nl @ nl @
           ''You have just resumed from a context compaction. The conversation above was summarized to save space. '' @
           ''Review the summary and workflow context, then continue helping the user with their task. '' @
           ''If you need more details about the summarized portion, ask the user to clarify.'' @
           rule_line @ ''Pinned messages follow:'',
         sys_cache_control =
           (if cache_summary then Some \<lparr>cache_type = ''ephemeral''\<rparr> else None)\<rparr>]"

section \<open>Compacting\<close>

text \<open>The artifact with the fields the session index does not read.\<close>

record stored_artifact = compaction_artifact +
  ca_session_id :: string
  ca_created_at_ms :: int
  ca_replaced_json :: string
  ca_summary :: string
  ca_original_tokens :: u32

definition replaced_count :: "stored_artifact \<Rightarrow> nat" where
  "replaced_count a = ca_replaced_end a - ca_replaced_start a"

definition covers_index :: "stored_artifact \<Rightarrow> nat \<Rightarrow> bool" where
  "covers_index a idx \<longleftrightarrow> idx \<ge> ca_replaced_start a \<and> idx < ca_replaced_end a"

record compaction_output =
  co_messages :: "message list"
  co_summary_prompt :: "system_prompt option"
  co_summary_message :: "message option"
  co_removed :: "message list"
  co_artifact :: "stored_artifact option"

definition compaction_artifact_of ::
  "compaction_env \<Rightarrow> nat \<Rightarrow> compaction_plan \<Rightarrow> message list \<Rightarrow> string \<Rightarrow> stored_artifact option" where
  "compaction_artifact_of env n plan to_summarize summary =
     (if summarize_indices plan = [] then None
      else Some
        \<lparr>ca_id = cn_uuid env n, ca_replaced_start = hd (summarize_indices plan),
         ca_replaced_end = last (summarize_indices plan) + 1,
         ca_summary_tokens = of_nat (estimate_text_tokens summary),
         ca_session_id = [], ca_created_at_ms = cn_now_ms env n,
         ca_replaced_json = (case cn_messages_json env to_summarize of Some j \<Rightarrow> j | None \<Rightarrow> ''[]''),
         ca_summary = summary,
         ca_original_tokens =
           sum_list (map (\<lambda>m. of_nat (estimate_message (cn_to_text env) m False)) to_summarize)\<rparr>)"

definition nothing_to_compact :: "message list \<Rightarrow> compaction_output" where
  "nothing_to_compact ms =
     \<lparr>co_messages = ms, co_summary_prompt = None, co_summary_message = None, co_removed = [],
      co_artifact = None\<rparr>"

text \<open>\<open>n\<close> is the number of the attempt.\<close>

definition compact_messages ::
  "compaction_env \<Rightarrow> nat \<Rightarrow> message list \<Rightarrow> compaction_config \<Rightarrow> nat list option \<Rightarrow>
   string list option \<Rightarrow> bool \<Rightarrow> string + compaction_output" where
  "compact_messages env n ms cfg pins external_paths manual =
     (if ms = [] then Inr (nothing_to_compact [])
      else
        let plan = env_plan env ms pins external_paths in
        if summarize_indices plan = [] then Inr (nothing_to_compact ms)
        else
          let to_summarize = map (\<lambda>i. ms ! i) (summarize_indices plan) in
          case create_summary env n to_summarize (cc_model cfg) of
            Inl err \<Rightarrow> Inl err
          | Inr summary \<Rightarrow>
              let workflow = extract_workflow_context (cn_paths env) to_summarize;
                  anchors = anchor_summary_section env;
                  summary_safe = xml_escape_inline summary;
                  workflow_safe = xml_escape_inline workflow;
                  layers =
                    (if cc_summary_in_messages cfg then
                       (Some build_compaction_system_pointer,
                        Some (build_compacted_history_message summary_safe workflow_safe anchors manual))
                     else
                       (Some (build_legacy_compaction_summary_prompt summary_safe workflow_safe anchors
                          (cc_cache_summary cfg)), None))
              in Inr
                \<lparr>co_messages = kept_by_plan plan ms, co_summary_prompt = fst layers,
                 co_summary_message = snd layers, co_removed = to_summarize,
                 co_artifact = compaction_artifact_of env n plan to_summarize summary\<rparr>)"

section \<open>Compacting with retries\<close>

definition is_transient_error :: "compaction_env \<Rightarrow> string \<Rightarrow> bool" where
  "is_transient_error env err \<longleftrightarrow>
     classify_error_message (cn_tables env) err \<in> {Network, RateLimit, ErrTimeout}"

definition MAX_RETRIES :: nat where "MAX_RETRIES = 3"
definition BASE_DELAY_MS :: u64 where "BASE_DELAY_MS = 1000"

definition retry_delay :: "nat \<Rightarrow> u64" where
  "retry_delay attempt = BASE_DELAY_MS * push_bit (attempt - 1) 1"

text \<open>
  The loop over the attempts from \<open>n\<close> on, \<open>k\<close> of them left: the delays it sleeps, and the number
  of the attempt that succeeded with its output, or the error it returns.
\<close>

fun compaction_attempts ::
  "(nat \<Rightarrow> string + compaction_output) \<Rightarrow> (string \<Rightarrow> bool) \<Rightarrow> nat \<Rightarrow> nat \<Rightarrow> string option \<Rightarrow>
   u64 list \<times> (string + (nat \<times> compaction_output))" where
  "compaction_attempts attempt transient 0 n last_error =
     ([], Inl (case last_error of Some e \<Rightarrow> e
               | None \<Rightarrow> ''Compaction failed after '' @ show_nat MAX_RETRIES @ '' retries''))"
| "compaction_attempts attempt transient (Suc k) n last_error =
     (let delays = (if n > 0 then [retry_delay n] else []) in
      case attempt n of
        Inr out \<Rightarrow> (delays, Inr (n, out))
      | Inl err \<Rightarrow>
          if \<not> transient err then (delays, Inl err)
          else case compaction_attempts attempt transient k (Suc n) (Some err) of
                 (rest, result) \<Rightarrow> (delays @ rest, result))"

record compaction_result =
  cr_output :: compaction_output
  cr_retries_used :: u32

definition compact_messages_safe ::
  "compaction_env \<Rightarrow> message list \<Rightarrow> compaction_config \<Rightarrow> nat list option \<Rightarrow> string list option \<Rightarrow>
   bool \<Rightarrow> u64 list \<times> (string + compaction_result)" where
  "compact_messages_safe env ms cfg pins external_paths manual =
     (let (pruned, pruned_bytes) =
            prune_tool_results (cn_to_json env) (cn_to_text env) ms KEEP_RECENT_MESSAGES;
          was_over = should_compact env ms cfg pins external_paths;
          now_under = \<not> should_compact env pruned cfg pins external_paths;
          input = (if pruned_bytes > 0 then pruned else ms)
      in if pruned_bytes > 0 \<and> was_over \<and> now_under
         then ([], Inr \<lparr>cr_output = nothing_to_compact pruned, cr_retries_used = 0\<rparr>)
         else
           case compaction_attempts
                  (\<lambda>n. compact_messages env n input cfg pins external_paths manual)
                  (is_transient_error env) MAX_RETRIES 0 None of
             (delays, Inl err) \<Rightarrow> (delays, Inl err)
           | (delays, Inr (n, out)) \<Rightarrow>
               (delays, Inr \<lparr>cr_output = out, cr_retries_used = of_nat n\<rparr>))"

section \<open>The system prompt and the session\<close>

definition text_block :: "string \<Rightarrow> system_block" where
  "text_block txt = \<lparr>sys_type = ''text'', sys_text = txt, sys_cache_control = None\<rparr>"

fun merge_system_prompts :: "system_prompt option \<Rightarrow> system_prompt option \<Rightarrow> system_prompt option" where
  "merge_system_prompts None None = None"
| "merge_system_prompts (Some orig) None = Some orig"
| "merge_system_prompts None (Some added) = Some added"
| "merge_system_prompts (Some (SystemText t)) (Some (SystemBlocks bs)) =
     Some (SystemBlocks (text_block t # bs))"
| "merge_system_prompts (Some (SystemBlocks as)) (Some (SystemBlocks bs)) =
     Some (SystemBlocks (as @ bs))"
| "merge_system_prompts (Some (SystemText t)) (Some (SystemText s)) =
     Some (SystemBlocks [text_block t, text_block s])"
| "merge_system_prompts (Some (SystemBlocks as)) (Some (SystemText s)) =
     Some (SystemBlocks (as @ [text_block s]))"

text \<open>
  The part of a session that a compaction changes. \<open>hash\<close> is the standard hash of a prompt
  and \<open>scratchpad\<close> the pointer that the scratchpad adds, if there is a run.
\<close>

record compacted_session =
  cs_messages :: "message list"
  cs_system_prompt :: "system_prompt option"
  cs_summary_prompt :: "system_prompt option"
  cs_prompt_hash :: "u64 option"

definition merge_summary ::
  "(system_prompt option \<Rightarrow> u64) \<Rightarrow> system_prompt option \<Rightarrow> compacted_session \<Rightarrow> compacted_session" where
  "merge_summary hash summary s =
     (case summary of
        None \<Rightarrow> s
      | Some p \<Rightarrow>
          let merged = merge_system_prompts (cs_system_prompt s) (Some p)
          in s\<lparr>cs_summary_prompt := merge_system_prompts (cs_summary_prompt s) (Some p),
               cs_prompt_hash := Some (hash merged), cs_system_prompt := merged\<rparr>)"

definition merge_compaction_summary ::
  "(system_prompt option \<Rightarrow> u64) \<Rightarrow> system_prompt option \<Rightarrow> system_prompt option \<Rightarrow>
   compacted_session \<Rightarrow> compacted_session" where
  "merge_compaction_summary hash scratchpad summary s =
     merge_summary hash scratchpad (merge_summary hash summary s)"

definition apply_compaction_result ::
  "(system_prompt option \<Rightarrow> u64) \<Rightarrow> system_prompt option \<Rightarrow> compaction_config \<Rightarrow>
   system_prompt option \<Rightarrow> message option \<Rightarrow> compacted_session \<Rightarrow> compacted_session" where
  "apply_compaction_result hash scratchpad cfg summary_prompt summary_message s =
     merge_compaction_summary hash scratchpad summary_prompt
       (case summary_message of
          Some m \<Rightarrow> if cc_summary_in_messages cfg then s\<lparr>cs_messages := m # cs_messages s\<rparr> else s
        | None \<Rightarrow> s)"

definition message_is_compacted_history :: "message \<Rightarrow> bool" where
  "message_is_compacted_history m \<longleftrightarrow>
     list_ex (\<lambda>b. case text_of_block b of
                    Some txt \<Rightarrow> str_contains txt COMPACTED_HISTORY_MARKER | None \<Rightarrow> False) (content m)"

definition extract_compacted_history_text :: "message list \<Rightarrow> string option" where
  "extract_compacted_history_text ms =
     Option.bind
       (List.find (\<lambda>m. role m = ''user'' \<and> message_is_compacted_history m) (rev ms))
       (\<lambda>m. find_map text_of_block (content m))"

section \<open>What a compaction keeps\<close>

lemma plan_indices:
  "pinned_indices (env_plan env ms pins paths) \<inter> set (summarize_indices (env_plan env ms pins paths)) = {}"
  "ms \<noteq> [] \<Longrightarrow> summarize_indices (env_plan env ms pins paths) =
     filter (\<lambda>i. i \<notin> pinned_indices (env_plan env ms pins paths)) [0..<length ms]"
  by (auto simp: env_plan_def plan_compaction_def Let_def)

lemma compact_messages_cases:
  assumes "compact_messages env n ms cfg pins paths manual = Inr out"
  obtains (nothing) "out = nothing_to_compact ms"
  | (summary) answer where "ms \<noteq> []" "summarize_indices (env_plan env ms pins paths) \<noteq> []"
      "create_summary env n (map (\<lambda>i. ms ! i) (summarize_indices (env_plan env ms pins paths)))
         (cc_model cfg) = Inr answer"
      "co_messages out = kept_by_plan (env_plan env ms pins paths) ms"
      "co_removed out = map (\<lambda>i. ms ! i) (summarize_indices (env_plan env ms pins paths))"
      "co_artifact out = compaction_artifact_of env n (env_plan env ms pins paths) (co_removed out) answer"
  using assms
  by (auto simp: compact_messages_def Let_def split: if_splits sum.splits)

lemma map_nth_filter_subseq: "subseq (map (\<lambda>i. xs ! i) (filter P [0..<length xs])) xs"
proof -
  have "subseq (map (\<lambda>i. xs ! i) (filter P [0..<length xs])) (map (\<lambda>i. xs ! i) [0..<length xs])"
    by (intro subseq_map) simp
  then show ?thesis by (simp add: map_nth)
qed

lemma map_nth_filter_partition:
  "mset (map (\<lambda>i. xs ! i) (filter P [0..<length xs])) +
   mset (map (\<lambda>i. xs ! i) (filter (\<lambda>i. \<not> P i) [0..<length xs])) = mset xs"
proof -
  have "mset (map (\<lambda>i. xs ! i) (filter P [0..<length xs])) +
      mset (map (\<lambda>i. xs ! i) (filter (\<lambda>i. \<not> P i) [0..<length xs])) =
      image_mset (\<lambda>i. xs ! i) (mset [0..<length xs])"
    by (subst multiset_partition [of "mset [0..<length xs]" P]) simp
  also have "\<dots> = mset xs" by (metis map_nth mset_map)
  finally show ?thesis .
qed

definition splits_session :: "compaction_output \<Rightarrow> message list \<Rightarrow> bool" where
  "splits_session out ms \<longleftrightarrow>
     subseq (co_messages out) ms \<and> subseq (co_removed out) ms \<and>
     mset (co_messages out) + mset (co_removed out) = mset ms"

lemma compact_messages_splits:
  assumes "compact_messages env n ms cfg pins paths manual = Inr out"
  shows "splits_session out ms"
  using assms
proof (cases rule: compact_messages_cases)
  case nothing
  then show ?thesis by (simp add: splits_session_def nothing_to_compact_def)
next
  case summary
  then show ?thesis
    using plan_indices(2) [OF summary(1), of env pins paths] map_nth_filter_partition
    by (simp add: splits_session_def kept_by_plan_def map_nth_filter_subseq)
qed

lemma attempts_output:
  assumes "compaction_attempts attempt transient k n e = (delays, Inr (m, out))"
  shows "attempt m = Inr out"
  using assms
  by (induction k arbitrary: n e delays)
     (auto simp: Let_def split: sum.splits if_splits prod.splits)

lemma safe_output:
  assumes "snd (compact_messages_safe env ms cfg pins paths manual) = Inr r"
  shows "cr_output r = nothing_to_compact
      (fst (prune_tool_results (cn_to_json env) (cn_to_text env) ms KEEP_RECENT_MESSAGES)) \<or>
    (\<exists>input n.
      (input = ms \<or>
       input = fst (prune_tool_results (cn_to_json env) (cn_to_text env) ms KEEP_RECENT_MESSAGES)) \<and>
      compact_messages env n input cfg pins paths manual = Inr (cr_output r))"
  using assms
  by (force simp: compact_messages_safe_def Let_def split: if_splits prod.splits sum.splits
      dest!: attempts_output)

text \<open>
  A compaction loses no message: when it succeeds, the messages it keeps and those it reports as
  removed are subsequences of the session it worked on, and each message of that session is in exactly
  one of the two. That session is the one it was given or its pruned form.
\<close>

theorem compaction_splits_the_session:
  assumes "snd (compact_messages_safe env ms cfg pins paths manual) = Inr r"
  shows "splits_session (cr_output r) ms \<or>
         splits_session (cr_output r)
           (prune_reference (cn_to_json env) (cn_to_text env) ms KEEP_RECENT_MESSAGES)"
proof -
  note prune = prune_blockwise [of "cn_to_json env" "cn_to_text env" ms KEEP_RECENT_MESSAGES]
  from safe_output [OF assms] show ?thesis
    using compact_messages_splits unfolding prune
    by (auto simp: nothing_to_compact_def splits_session_def)
qed

text \<open>Concrete runs: a workspace without files, and a session with one tool call.\<close>

definition answering_env :: "(nat \<Rightarrow> message_request \<Rightarrow> string + content_block list) \<Rightarrow> compaction_env"
  where
  "answering_env client =
     \<lparr>cn_tables = (\<lambda>s. s), cn_to_text = (\<lambda>v. []), cn_to_json = (\<lambda>v. None), cn_paths = no_paths,
      cn_anchors = None, cn_client = client, cn_messages_json = (\<lambda>ms. None),
      cn_uuid = (\<lambda>n. ''id''), cn_now_ms = (\<lambda>n. 0)\<rparr>"

definition short_session :: "message list" where
  "short_session =
     map user_text [''a'', ''b''] @
     [\<lparr>role = ''assistant'', content = [ToolUse ''x'' ''read_file'' JNull None]\<rparr>,
      \<lparr>role = ''user'', content = [ToolResult ''x'' ''ok'' None None]\<rparr>] @
     map user_text [''c'', ''d'', ''e'']"

lemma short_plan:
  "plan_compaction (\<lambda>s. s) (\<lambda>v. []) no_paths short_session 4 None None =
     \<lparr>pinned_indices = {2, 3, 4, 5, 6}, summarize_indices = [0, 1]\<rparr>"
  by code_simp

lemma short_prune: "prune_tool_results (\<lambda>v. None) (\<lambda>v. []) short_session 4 = (short_session, 0)"
  by code_simp

lemma short_run:
  "compact_messages_safe (answering_env client) short_session cfg None None manual =
     (case compaction_attempts
        (\<lambda>n. compact_messages (answering_env client) n short_session cfg None None manual)
        (is_transient_error (answering_env client)) MAX_RETRIES 0 None of
      (delays, Inl err) \<Rightarrow> (delays, Inl err)
    | (delays, Inr (n, out)) \<Rightarrow> (delays, Inr \<lparr>cr_output = out, cr_retries_used = of_nat n\<rparr>))"
  by (simp add: compact_messages_safe_def answering_env_def short_prune KEEP_RECENT_MESSAGES_def)

lemma short_attempt:
  "compact_messages (answering_env client) n short_session cfg None None manual = Inl err \<longleftrightarrow>
   create_summary (answering_env client) n (map user_text [''a'', ''b'']) (cc_model cfg) = Inl err"
  "create_summary (answering_env client) n (map user_text [''a'', ''b'']) (cc_model cfg) = Inr answer \<Longrightarrow>
   \<exists>out. compact_messages (answering_env client) n short_session cfg None None manual = Inr out \<and>
     co_messages out = drop 2 short_session \<and> co_removed out = take 2 short_session"
proof -
  have plan: "env_plan (answering_env client) short_session None None =
      \<lparr>pinned_indices = {2, 3, 4, 5, 6}, summarize_indices = [0, 1]\<rparr>"
    using short_plan by (simp add: env_plan_def answering_env_def KEEP_RECENT_MESSAGES_def)
  have kept: "kept_by_plan \<lparr>pinned_indices = {2, 3, 4, 5, 6}, summarize_indices = [0, 1]\<rparr> short_session =
      drop 2 short_session"
    by code_simp
  have ms: "short_session \<noteq> []" "short_session ! 0 = user_text ''a''"
    "short_session ! Suc 0 = user_text ''b''"
    "take 2 short_session = [user_text ''a'', user_text ''b'']"
    by (simp_all add: short_session_def numeral_2_eq_2)
  show "compact_messages (answering_env client) n short_session cfg None None manual = Inl err \<longleftrightarrow>
      create_summary (answering_env client) n (map user_text [''a'', ''b'']) (cc_model cfg) = Inl err"
    using ms by (simp add: compact_messages_def Let_def plan split: sum.split)
  assume "create_summary (answering_env client) n (map user_text [''a'', ''b'']) (cc_model cfg) = Inr answer"
  then show "\<exists>out. compact_messages (answering_env client) n short_session cfg None None manual = Inr out \<and>
      co_messages out = drop 2 short_session \<and> co_removed out = take 2 short_session"
    using ms kept by (simp add: compact_messages_def Let_def plan)
qed

lemma short_compacted:
  "\<exists>r. snd (compact_messages_safe (answering_env (\<lambda>n req. Inr [Text ''S'' None])) short_session
      default_compaction_config None None False) = Inr r \<and>
     co_messages (cr_output r) = drop 2 short_session \<and>
     co_removed (cr_output r) = take 2 short_session"
proof -
  have "create_summary (answering_env (\<lambda>n req. Inr [Text ''S'' None])) 0 (map user_text [''a'', ''b''])
      (cc_model default_compaction_config) = Inr (join nl [''S''])"
    by (simp add: create_summary_def answering_env_def List.map_filter_def)
  from short_attempt(2) [OF this, of False] show ?thesis
    by (auto simp: short_run MAX_RETRIES_def numeral_3_eq_3 Let_def)
qed

theorem compaction_splits_the_session_witness:
  "\<exists>r. snd (compact_messages_safe (answering_env (\<lambda>n req. Inr [Text ''S'' None])) short_session
      default_compaction_config None None False) = Inr r \<and>
     (splits_session (cr_output r) short_session \<or>
      splits_session (cr_output r) (prune_reference (\<lambda>v. None) (\<lambda>v. []) short_session 4))"
proof -
  obtain r where r: "snd (compact_messages_safe (answering_env (\<lambda>n req. Inr [Text ''S'' None]))
      short_session default_compaction_config None None False) = Inr r"
    using short_compacted by blast
  from compaction_splits_the_session [OF r] r show ?thesis
    by (auto simp: answering_env_def KEEP_RECENT_MESSAGES_def)
qed

section \<open>Retries\<close>

lemma retry_delays: "retry_delay (Suc 0) = 1000" "retry_delay (Suc (Suc 0)) = 2000"
  by (simp_all add: retry_delay_def BASE_DELAY_MS_def push_bit_eq_mult)

definition retry_law ::
  "(string \<Rightarrow> bool) \<Rightarrow> u64 list \<Rightarrow> string + (nat \<times> compaction_output) \<Rightarrow> bool" where
  "retry_law transient delays result \<longleftrightarrow>
     delays \<in> {[], [1000], [1000, 2000]} \<and>
     (case result of
        Inr (n, out) \<Rightarrow> n = length delays
      | Inl err \<Rightarrow> transient err \<longrightarrow> delays = [1000, 2000])"

lemma attempts_retry_law:
  "retry_law transient (fst (compaction_attempts attempt transient MAX_RETRIES 0 None))
     (snd (compaction_attempts attempt transient MAX_RETRIES 0 None))"
  by (auto simp: retry_law_def MAX_RETRIES_def numeral_3_eq_3 Let_def retry_delays
      split: sum.split)

lemma safe_law:
  "retry_law (is_transient_error env) (fst (compact_messages_safe env ms cfg pins paths manual))
     (map_sum (\<lambda>err. err) (\<lambda>r. (unat (cr_retries_used r), cr_output r))
        (snd (compact_messages_safe env ms cfg pins paths manual)))"
proof -
  let ?input = "if snd (prune_tool_results (cn_to_json env) (cn_to_text env) ms KEEP_RECENT_MESSAGES) > 0
    then fst (prune_tool_results (cn_to_json env) (cn_to_text env) ms KEEP_RECENT_MESSAGES) else ms"
  note law = attempts_retry_law [of "is_transient_error env"
      "\<lambda>n. compact_messages env n ?input cfg pins paths manual"]
  obtain delays result where run: "compaction_attempts
      (\<lambda>n. compact_messages env n ?input cfg pins paths manual) (is_transient_error env) MAX_RETRIES 0 None =
      (delays, result)" by fastforce
  have "retry_law (is_transient_error env) delays result" using law by (simp only: run fst_conv snd_conv)
  moreover have "length delays < 3" using calculation by (auto simp: retry_law_def)
  then have "unat (of_nat (length delays) :: u32) = length delays"
    by (auto simp: numeral_3_eq_3 less_Suc_eq)
  ultimately show ?thesis
    using run unfolding compact_messages_safe_def Let_def
    by (cases result) (auto simp: case_prod_unfold retry_law_def split: sum.splits)
qed

text \<open>
  A compaction makes at most three attempts: it sleeps not at all, one second, or one second and
  then two; the number of retries it reports is the number of sleeps; and it gives up with a transient
  error only after all three attempts.
\<close>

theorem compaction_retries_bounded:
  "case compact_messages_safe env ms cfg pins paths manual of
     (delays, result) \<Rightarrow>
       delays \<in> {[], [1000], [1000, 2000]} \<and>
       (case result of
          Inr r \<Rightarrow> unat (cr_retries_used r) = length delays
        | Inl err \<Rightarrow> is_transient_error env err \<longrightarrow> delays = [1000, 2000])"
  using safe_law [of env ms cfg pins paths manual]
  by (cases "compact_messages_safe env ms cfg pins paths manual")
     (auto simp: retry_law_def split: sum.splits)

lemma failing_run:
  "compact_messages_safe (answering_env (\<lambda>n req. Inl ''timeout'')) short_session
     default_compaction_config None None False = ([1000, 2000], Inl ''timeout'')"
proof -
  have fails: "compact_messages (answering_env (\<lambda>n req. Inl ''timeout'')) n short_session
      default_compaction_config None None False = Inl ''timeout''" for n
    unfolding short_attempt(1) by (simp add: create_summary_def answering_env_def)
  have "classify_error_message (\<lambda>s. s) ''timeout'' = ErrTimeout" by code_simp
  then have "is_transient_error (answering_env (\<lambda>n req. Inl ''timeout'')) ''timeout''"
    by (simp add: is_transient_error_def answering_env_def)
  then show ?thesis
    by (simp add: short_run fails MAX_RETRIES_def numeral_3_eq_3 Let_def retry_delays)
qed

theorem compaction_retries_bounded_witness:
  "case compact_messages_safe (answering_env (\<lambda>n req. Inl ''timeout'')) short_session
     default_compaction_config None None False of
     (delays, result) \<Rightarrow>
       result = Inl ''timeout'' \<and> delays \<in> {[], [1000], [1000, 2000]} \<and>
       (is_transient_error (answering_env (\<lambda>n req. Inl ''timeout'')) ''timeout'' \<longrightarrow>
        delays = [1000, 2000])"
  using compaction_retries_bounded [of "answering_env (\<lambda>n req. Inl ''timeout'')" short_session
      default_compaction_config None None False] failing_run
  by simp

section \<open>Whole pairs\<close>

definition pair_ids :: "message list \<Rightarrow> (string list \<times> string list) list" where
  "pair_ids ms = map (\<lambda>m. (call_ids m, result_ids m)) ms"

lemma summarized_ids:
  "use_id (summarize_result s b) = use_id b" "result_id (summarize_result s b) = result_id b"
  by (cases b; simp)+

lemma map_filter_update: "f y = f (xs ! i) \<Longrightarrow> List.map_filter f (xs[i := y]) = List.map_filter f xs"
  by (induction xs arbitrary: i) (auto simp: List.map_filter_def split: nat.split)

lemma map_list_update_same: "f y = f (xs ! i) \<Longrightarrow> map f (xs[i := y]) = map f xs"
  by (induction xs arbitrary: i) (auto split: nat.split)

lemma update_block_ids: "pair_ids (update_block i b (summarize_result s) ms) = pair_ids ms"
  unfolding pair_ids_def update_block_def
  by (rule map_list_update_same) (simp add: call_ids_def result_ids_def map_filter_update summarized_ids)

lemma prune_ids: "pair_ids (fst (prune_tool_results to_json to_text ms w)) = pair_ids ms"
proof -
  have "pair_ids (fst (prune_loop cs rest ms n)) = pair_ids ms" for cs rest n
    by (induction rest arbitrary: ms n) (simp_all add: Let_def update_block_ids)
  then show ?thesis by (simp add: prune_tool_results_def Let_def)
qed

lemma one_request_pair_ids:
  "one_request_per_answer ms \<longleftrightarrow>
     (\<forall>p\<in>set (pair_ids ms). snd p \<noteq> [] \<longrightarrow>
        fst p = [] \<and>
        (\<exists>c. \<forall>k\<in>set (snd p). \<forall>j<length (pair_ids ms). k \<in> set (fst (pair_ids ms ! j)) \<longrightarrow> j = c))"
  by (simp add: one_request_per_answer_def pair_ids_def cong: conj_cong)

lemma one_request_ids:
  "pair_ids ms = pair_ids ms' \<Longrightarrow> one_request_per_answer ms = one_request_per_answer ms'"
  by (simp add: one_request_pair_ids)

text \<open>
  C21. A compaction that removes messages, in a session where every answer belongs to one request,
  leaves no half of a tool call: an id has a call among the kept messages exactly when it has a result
  among them, pruned or not, and whatever the attempts answered before.
\<close>

theorem compaction_keeps_whole_pairs:
  assumes "one_request_per_answer ms"
    and "snd (compact_messages_safe env ms cfg pins paths manual) = Inr r"
    and "co_removed (cr_output r) \<noteq> []"
  shows "(\<exists>m\<in>set (co_messages (cr_output r)). k \<in> set (call_ids m)) \<longleftrightarrow>
         (\<exists>m\<in>set (co_messages (cr_output r)). k \<in> set (result_ids m))"
proof -
  have "one_request_per_answer
      (fst (prune_tool_results (cn_to_json env) (cn_to_text env) ms KEEP_RECENT_MESSAGES))"
    using assms(1) one_request_ids [OF prune_ids] by blast
  with assms(1) safe_output [OF assms(2)] assms(3)
  obtain input n where input: "one_request_per_answer input"
    "compact_messages env n input cfg pins paths manual = Inr (cr_output r)"
    by (auto simp: nothing_to_compact_def)
  from input(2) show ?thesis
    by (cases rule: compact_messages_cases)
       (use assms(3) plan_whole_pairs [OF input(1)] in
         \<open>auto simp: nothing_to_compact_def env_plan_def\<close>)
qed

lemma short_one_request: "one_request_per_answer short_session"
proof -
  have "pair_ids short_session =
      [([], []), ([], []), ([''x''], []), ([], [''x'']), ([], []), ([], []), ([], [])]"
    by code_simp
  then show ?thesis
    by (auto simp: one_request_pair_ids nth_Cons split: nat.splits intro!: exI [of _ 2])
qed

theorem compaction_keeps_whole_pairs_witness:
  "\<exists>r. snd (compact_messages_safe (answering_env (\<lambda>n req. Inr [Text ''S'' None])) short_session
      default_compaction_config None None False) = Inr r \<and>
     co_messages (cr_output r) = drop 2 short_session \<and>
     ((\<exists>m\<in>set (co_messages (cr_output r)). ''x'' \<in> set (call_ids m)) \<longleftrightarrow>
      (\<exists>m\<in>set (co_messages (cr_output r)). ''x'' \<in> set (result_ids m)))"
proof -
  obtain r where r: "snd (compact_messages_safe (answering_env (\<lambda>n req. Inr [Text ''S'' None]))
      short_session default_compaction_config None None False) = Inr r"
    "co_messages (cr_output r) = drop 2 short_session"
    "co_removed (cr_output r) = take 2 short_session"
    using short_compacted by blast
  have "co_removed (cr_output r) \<noteq> []" by (simp add: r(3) short_session_def)
  from compaction_keeps_whole_pairs [OF short_one_request r(1) this, of "''x''"] r(1,2)
  show ?thesis by blast
qed

section \<open>The artifact\<close>

lemma sorted_hd_le: "sorted (xs :: nat list) \<Longrightarrow> x \<in> set xs \<Longrightarrow> hd xs \<le> x"
  by (cases xs) auto

text \<open>
  What an artifact says it replaced: the number of replaced messages it reports is the number of
  messages the compaction removed plus the number of kept messages whose index the artifact covers,
  so it counts, and covers, every pinned message that lies between two removed ones.
\<close>

theorem artifact_range_covers_pinned:
  assumes "compact_messages env n ms cfg pins paths manual = Inr out" and "co_artifact out = Some a"
  shows "replaced_count a =
    length (co_removed out) +
    card {i \<in> pinned_indices (env_plan env ms pins paths). covers_index a i}"
  using assms(1)
proof (cases rule: compact_messages_cases)
  case nothing
  then show ?thesis using assms(2) by (simp add: nothing_to_compact_def)
next
  case (summary answer)
  let ?plan = "env_plan env ms pins paths"
  let ?is = "summarize_indices ?plan"
  have indices: "?is = filter (\<lambda>i. i \<notin> pinned_indices ?plan) [0..<length ms]"
    by (rule plan_indices(2) [OF summary(1)])
  have sorted: "sorted ?is" "distinct ?is" unfolding indices by (auto intro: sorted_filter [of id, simplified])
  have a: "ca_replaced_start a = hd ?is" "ca_replaced_end a = last ?is + 1"
    using summary(2,6) assms(2) by (auto simp: compaction_artifact_of_def)
  have range: "i \<in> set ?is \<longleftrightarrow> i \<in> {hd ?is..<last ?is + 1} - pinned_indices ?plan" for i
  proof
    assume "i \<in> set ?is"
    then show "i \<in> {hd ?is..<last ?is + 1} - pinned_indices ?plan"
      using sorted(1) summary(2) plan_indices(1) [of env ms pins paths]
      by (auto simp: sorted_hd_le sorted_le_last less_Suc_eq_le)
  next
    assume i: "i \<in> {hd ?is..<last ?is + 1} - pinned_indices ?plan"
    have "last ?is \<in> set ?is" using summary(2) by simp
    then have "last ?is < length ms" unfolding indices by simp
    then show "i \<in> set ?is" using i unfolding indices by auto
  qed
  have "length (co_removed out) = card ({hd ?is..<last ?is + 1} - pinned_indices ?plan)"
    using range sorted(2) summary(5) by (metis distinct_card length_map set_eqI)
  moreover have "card ({hd ?is..<last ?is + 1} - pinned_indices ?plan) +
      card (pinned_indices ?plan \<inter> {hd ?is..<last ?is + 1}) = card {hd ?is..<last ?is + 1}"
    by (metis Int_commute card_Diff_subset_Int card_mono finite_Int finite_atLeastLessThan
        inf_le1 le_add_diff_inverse2)
  moreover have "{i \<in> pinned_indices ?plan. covers_index a i} =
      pinned_indices ?plan \<inter> {hd ?is..<last ?is + 1}"
    by (auto simp: covers_index_def a)
  ultimately show ?thesis by (simp add: a replaced_count_def)
qed

text \<open>A session whose second message is pinned, as it reports a failure.\<close>

definition pinned_session :: "message list" where
  "pinned_session = map user_text [''a'', ''failed'', ''b'', ''c'', ''d'', ''e'', ''f'']"

lemma pinned_plan:
  "env_plan (answering_env client) pinned_session None None =
     \<lparr>pinned_indices = {1, 3, 4, 5, 6}, summarize_indices = [0, 2]\<rparr>"
proof -
  have "plan_compaction (\<lambda>s. s) (\<lambda>v. []) no_paths pinned_session 4 None None =
      \<lparr>pinned_indices = {1, 3, 4, 5, 6}, summarize_indices = [0, 2]\<rparr>"
    by code_simp
  then show ?thesis by (simp add: env_plan_def answering_env_def KEEP_RECENT_MESSAGES_def)
qed

theorem artifact_range_covers_pinned_witness:
  "\<exists>out a. compact_messages (answering_env (\<lambda>n req. Inr [])) 0 pinned_session
      default_compaction_config None None False = Inr out \<and> co_artifact out = Some a \<and>
     length (co_removed out) = 2 \<and> replaced_count a = 3 \<and>
     replaced_count a = length (co_removed out) + card {i \<in> {1, 3, 4, 5, 6}. covers_index a i}"
proof -
  have "create_summary (answering_env (\<lambda>n req. Inr [])) 0 msgs model = Inr (join nl [])" for msgs model
    by (simp add: create_summary_def answering_env_def List.map_filter_def)
  moreover have nonempty: "pinned_session \<noteq> []" by (simp add: pinned_session_def)
  ultimately obtain out a where out: "compact_messages (answering_env (\<lambda>n req. Inr [])) 0 pinned_session
      default_compaction_config None None False = Inr out" "co_artifact out = Some a"
    "length (co_removed out) = 2" "ca_replaced_start a = 0" "ca_replaced_end a = 3"
    by (simp add: compact_messages_def Let_def pinned_plan compaction_artifact_of_def nonempty)
  have three: "replaced_count a = 3" by (simp add: replaced_count_def out)
  have "replaced_count a = length (co_removed out) + card {i \<in> {1, 3, 4, 5, 6}. covers_index a i}"
    using artifact_range_covers_pinned [OF out(1,2)] by (simp only: pinned_plan compaction_plan.simps)
  with out(1-3) three show ?thesis by blast
qed

section \<open>The prompts\<close>

fun prompt_texts :: "system_prompt option \<Rightarrow> string list" where
  "prompt_texts None = []"
| "prompt_texts (Some (SystemText t)) = [t]"
| "prompt_texts (Some (SystemBlocks bs)) = map sys_text bs"

lemma merged_texts [simp]: "prompt_texts (merge_system_prompts a b) = prompt_texts a @ prompt_texts b"
  by (induction a b rule: merge_system_prompts.induct) (auto simp: text_block_def)

lemma merge_summary_texts:
  "prompt_texts (cs_system_prompt (merge_summary hash p s)) =
     prompt_texts (cs_system_prompt s) @ prompt_texts p"
  "prompt_texts (cs_summary_prompt (merge_summary hash p s)) =
     prompt_texts (cs_summary_prompt s) @ prompt_texts p"
  "cs_messages (merge_summary hash p s) = cs_messages s"
  by (auto simp: merge_summary_def Let_def split: option.split)

lemma applied_texts:
  "prompt_texts (cs_system_prompt (apply_compaction_result hash scratchpad cfg p m s)) =
     prompt_texts (cs_system_prompt s) @ prompt_texts p @ prompt_texts scratchpad"
  "prompt_texts (cs_summary_prompt (apply_compaction_result hash scratchpad cfg p m s)) =
     prompt_texts (cs_summary_prompt s) @ prompt_texts p @ prompt_texts scratchpad"
  by (auto simp: apply_compaction_result_def merge_compaction_summary_def merge_summary_texts
      split: option.split)

lemma repeated_append:
  assumes "\<And>s. f (g s) = f s @ xs"
  shows "f ((g ^^ n) s) = f s @ concat (replicate n xs)"
proof (induction n)
  case (Suc n)
  have "concat (replicate n xs) @ xs = xs @ concat (replicate n xs)" by (induction n) auto
  with Suc show ?case by (simp add: assms)
qed simp

text \<open>
  Compactions accumulate in the system prompt: after \<open>n\<close> of them that each return the pointer to
  the archived history, the system prompt and the prompt of summaries have \<open>n\<close> copies of its text
  behind what they had, whatever history messages the compactions inserted. None is replaced.
\<close>

theorem pointer_copies_accumulate:
  "prompt_texts (cs_system_prompt
     ((apply_compaction_result hash None cfg (Some build_compaction_system_pointer) m ^^ n) s)) =
     prompt_texts (cs_system_prompt s) @
     replicate n (hd (prompt_texts (Some build_compaction_system_pointer)))
   \<and> prompt_texts (cs_summary_prompt
     ((apply_compaction_result hash None cfg (Some build_compaction_system_pointer) m ^^ n) s)) =
     prompt_texts (cs_summary_prompt s) @
     replicate n (hd (prompt_texts (Some build_compaction_system_pointer)))"
proof -
  obtain t where t: "prompt_texts (Some build_compaction_system_pointer) = [t]"
    by (simp add: build_compaction_system_pointer_def)
  have copies: "concat (replicate n [x]) = replicate n x" for x :: string by (induction n) auto
  let ?g = "apply_compaction_result hash None cfg (Some build_compaction_system_pointer) m"
  have "prompt_texts (cs_system_prompt ((?g ^^ n) s)) =
      prompt_texts (cs_system_prompt s) @ concat (replicate n [t])"
    by (rule repeated_append [of "\<lambda>s. prompt_texts (cs_system_prompt s)"]) (simp add: applied_texts t)
  moreover have "prompt_texts (cs_summary_prompt ((?g ^^ n) s)) =
      prompt_texts (cs_summary_prompt s) @ concat (replicate n [t])"
    by (rule repeated_append [of "\<lambda>s. prompt_texts (cs_summary_prompt s)"]) (simp add: applied_texts t)
  ultimately show ?thesis by (simp add: copies t)
qed

section \<open>The history message\<close>

lemma find_append:
  "List.find P (xs @ ys) = (case List.find P xs of Some x \<Rightarrow> Some x | None \<Rightarrow> List.find P ys)"
  by (induction xs) auto

lemma applied_messages:
  "cs_messages (apply_compaction_result hash scratchpad cfg p (Some m) s) =
     (if cc_summary_in_messages cfg then m # cs_messages s else cs_messages s)"
  by (simp add: apply_compaction_result_def merge_compaction_summary_def merge_summary_texts)

lemma find_history:
  assumes "x \<in> set ms" "P x"
  shows "List.find P (rev (m # ms)) = List.find P (rev ms)"
proof -
  have "List.find P (rev ms) \<noteq> None" using assms by (auto simp: find_None_iff)
  then show ?thesis by (auto simp: find_append)
qed

text \<open>
  The search for the compacted history returns the oldest one a session still has: once a session has a
  history message, the result of a further compaction, put in front of it, does not change what
  the search finds.
\<close>

theorem older_history_is_found:
  assumes "x \<in> set (cs_messages s)" and "role x = ''user''" and "message_is_compacted_history x"
  shows "extract_compacted_history_text
      (cs_messages (apply_compaction_result hash scratchpad cfg p (Some m) s)) =
    extract_compacted_history_text (cs_messages s)"
  using find_history [of x "cs_messages s"
      "\<lambda>m. role m = ''user'' \<and> message_is_compacted_history m" m] assms
  by (simp add: applied_messages extract_compacted_history_text_def del: rev.simps)

theorem older_history_is_found_witness:
  "extract_compacted_history_text
     (cs_messages (apply_compaction_result (\<lambda>p. 0) None default_compaction_config
        (Some build_compaction_system_pointer)
        (Some (build_compacted_history_message ''new'' [] [] False))
        \<lparr>cs_messages = [build_compacted_history_message ''old'' [] [] False, user_text ''go''],
         cs_system_prompt = None, cs_summary_prompt = None, cs_prompt_hash = None\<rparr>)) =
   extract_compacted_history_text [build_compacted_history_message ''old'' [] [] False, user_text ''go'']
   \<and> build_compacted_history_message ''old'' [] [] False \<noteq>
     build_compacted_history_message ''new'' [] [] False"
proof
  have "message_is_compacted_history (build_compacted_history_message ''old'' [] [] False)"
    by code_simp
  then show "extract_compacted_history_text
     (cs_messages (apply_compaction_result (\<lambda>p. 0) None default_compaction_config
        (Some build_compaction_system_pointer)
        (Some (build_compacted_history_message ''new'' [] [] False))
        \<lparr>cs_messages = [build_compacted_history_message ''old'' [] [] False, user_text ''go''],
         cs_system_prompt = None, cs_summary_prompt = None, cs_prompt_hash = None\<rparr>)) =
   extract_compacted_history_text [build_compacted_history_message ''old'' [] [] False, user_text ''go'']"
    using older_history_is_found
      [of "build_compacted_history_message ''old'' [] [] False"
        "\<lparr>cs_messages = [build_compacted_history_message ''old'' [] [] False, user_text ''go''],
         cs_system_prompt = None, cs_summary_prompt = None, cs_prompt_hash = None\<rparr>"]
    by (simp add: build_compacted_history_message_def user_text_def)
  show "build_compacted_history_message ''old'' [] [] False \<noteq>
     build_compacted_history_message ''new'' [] [] False"
    by (simp add: build_compacted_history_message_def user_text_def)
qed

end
