(* ===== verification/Patch_Parse.thy ===== *)
theory Patch_Parse
  imports Approval_Cache Outer_Policy Model_Catalog
begin

text \<open>
  The unified diffs of the tool \<open>apply_patch\<close>
  (\<open>crates/runtime-server/src/tools/apply_patch.rs\<close>, first half): hunks, files, headers and the
  checks of a patch before it is applied. Line numbers and counts are \<open>usize\<close>, here natural
  numbers; the bound on the lines of a hunk is computed without the overflow of counts near
  \<open>2 ^ 63\<close>.
\<close>

section \<open>Errors of a tool\<close>

text \<open>\<open>ToolError\<close> and its \<open>Display\<close> (\<open>crates/tools/src/lib.rs\<close>).\<close>

datatype tool_error =
    InvalidInput string
  | MissingField string
  | PathEscape string
  | ExecutionFailed string
  | ToolTimeout u64
  | NotAvailable string
  | PermissionDenied string

fun tool_error_display :: "tool_error \<Rightarrow> string" where
  "tool_error_display (InvalidInput m) = ''Failed to validate input: '' @ m"
| "tool_error_display (MissingField f) =
     ''Failed to validate input: missing required field '' @ [CHR 0x27] @ f @ [CHR 0x27]"
| "tool_error_display (PathEscape p) =
     ''Failed to resolve path '' @ [CHR 0x27] @ p @ [CHR 0x27] @ '': path escapes workspace''"
| "tool_error_display (ExecutionFailed m) = ''Failed to execute tool: '' @ m"
| "tool_error_display (ToolTimeout s) =
     ''Failed to execute tool: operation timed out after '' @ show_nat (unat s) @ ''s''"
| "tool_error_display (NotAvailable m) = ''Failed to locate tool: '' @ m"
| "tool_error_display (PermissionDenied m) = ''Failed to authorize tool execution: '' @ m"

section \<open>Hunks\<close>

datatype hunk_line = Context string | Add string | Remove string

record hunk =
  hk_old_start :: nat
  hk_old_count :: nat
  hk_new_start :: nat
  hk_new_count :: nat
  hk_lines :: "hunk_line list"

definition quoted :: "string \<Rightarrow> string" where
  "quoted s = [CHR 0x60] @ s @ [CHR 0x60]"

text \<open>\<open>str::parse::<usize>\<close>, \<open>str::trim_start_matches\<close> of one character.\<close>

definition parse_usize :: "string \<Rightarrow> nat option" where
  "parse_usize s =
     (let ds = (if s \<noteq> [] \<and> hd s = CHR ''+'' then tl s else s) in
      if ds \<noteq> [] \<and> list_all is_ascii_digit ds \<and> digits_value ds < 2 ^ 64
      then Some (digits_value ds) else None)"

definition trim_start_char :: "char \<Rightarrow> string \<Rightarrow> string" where
  "trim_start_char c s = dropWhile (\<lambda>d. d = c) s"

definition parse_range :: "string \<Rightarrow> tool_error + (nat \<times> nat)" where
  "parse_range s =
     (let parts = split_char (CHR '','') s in
      case parse_usize (hd parts) of
        None \<Rightarrow> Inl (InvalidInput (''Invalid line number '' @ quoted (hd parts) @
          '' in hunk header. Use positive integers like '' @ quoted ''12'' @ '' or '' @
          quoted ''12,3'' @ ''.''))
      | Some start \<Rightarrow>
          if length parts > 1 then
            (case parse_usize (parts ! 1) of
               None \<Rightarrow> Inl (InvalidInput (''Invalid line count '' @ quoted (parts ! 1) @
                 '' in hunk header. Use positive integers like '' @ quoted ''3'' @ ''.''))
             | Some n \<Rightarrow> Inr (start, n))
          else Inr (start, 1))"

text \<open>
  The lines of a hunk: at most the given number of steps; the lines that are left. A line of
  the hunk is told by its first character, in the order of the match.
\<close>

fun hunk_body :: "nat \<Rightarrow> string list \<Rightarrow> hunk_line list \<times> string list" where
  "hunk_body 0 ls = ([], ls)"
| "hunk_body (Suc k) [] = ([], [])"
| "hunk_body (Suc k) (l # ls) =
     (if starts_with l ''@@'' then ([], l # ls)
      else if starts_with l ''-'' then
        (case hunk_body k ls of (hs, rest) \<Rightarrow> (Remove (tl l) # hs, rest))
      else if starts_with l ''+'' then
        (case hunk_body k ls of (hs, rest) \<Rightarrow> (Add (tl l) # hs, rest))
      else if starts_with l '' '' \<or> l = [] then
        (case hunk_body k ls of (hs, rest) \<Rightarrow> (Context (if l = [] then [] else tl l) # hs, rest))
      else if starts_with l ''diff '' \<or> starts_with l ''--- '' \<or> starts_with l ''+++ '' then ([], l # ls)
      else if \<not> starts_with l [CHR 0x5C] then
        (case hunk_body k ls of (hs, rest) \<Rightarrow> (Context l # hs, rest))
      else hunk_body k ls)"

lemma hunk_body_shrinks: "length (snd (hunk_body k ls)) \<le> length ls"
proof (induction k arbitrary: ls)
  case (Suc k)
  show ?case
  proof (cases ls)
    case (Cons l t)
    have "length (snd (hunk_body k t)) \<le> Suc (length t)" using Suc by (simp add: le_SucI)
    then show ?thesis by (simp add: Cons case_prod_unfold)
  qed simp
qed simp

text \<open>The number of steps; the arithmetic of \<open>usize\<close> wraps.\<close>

definition hunk_budget :: "nat \<Rightarrow> nat \<Rightarrow> nat" where
  "hunk_budget old_count new_count =
     (let expected = (max old_count new_count + min old_count new_count) mod 2 ^ 64
      in expected * 2 mod 2 ^ 64)"

lemma hunk_budget_small: "2 * (m + n) < 2 ^ 64 \<Longrightarrow> hunk_budget m n = 2 * (m + n)"
  by (simp add: hunk_budget_def Let_def max_def min_def)

lemma hunk_budget_le: "hunk_budget m n \<le> 2 * (m + n)"
proof -
  have "max m n + min m n = m + n" by (simp add: max_def min_def)
  then have "(max m n + min m n) mod 2 ^ 64 \<le> m + n" by (metis mod_less_eq_dividend)
  from mult_le_mono1 [OF this, of 2] show ?thesis
    unfolding hunk_budget_def Let_def by (metis le_trans mod_less_eq_dividend mult.commute)
qed

definition parse_hunk_header :: "string \<Rightarrow> string list \<Rightarrow> tool_error + (hunk \<times> string list)" where
  "parse_hunk_header header ls =
     (let parts = split_whitespace header in
      if length parts < 3 then
        Inl (InvalidInput (''Invalid hunk header: '' @ header @ ''. Expected '' @
          quoted ''@@ -start,count +start,count @@'' @ ''.''))
      else
        case parse_range (trim_start_char (CHR ''-'') (parts ! 1)) of
          Inl e \<Rightarrow> Inl e
        | Inr (old_start, old_count) \<Rightarrow>
            (case parse_range (trim_start_char (CHR ''+'') (parts ! 2)) of
               Inl e \<Rightarrow> Inl e
             | Inr (new_start, new_count) \<Rightarrow>
                 case hunk_body (hunk_budget old_count new_count) ls of
                   (hs, rest) \<Rightarrow>
                     Inr (\<lparr>hk_old_start = old_start, hk_old_count = old_count,
                           hk_new_start = new_start, hk_new_count = new_count, hk_lines = hs\<rparr>, rest)))"

lemma parse_hunk_header_shrinks:
  "parse_hunk_header header ls = Inr (h, rest) \<Longrightarrow> length rest \<le> length ls"
  by (auto simp: parse_hunk_header_def Let_def split: if_splits sum.splits prod.splits)
     (metis hunk_body_shrinks snd_conv)

section \<open>The hunks of one file\<close>

function parse_hunks :: "string list \<Rightarrow> tool_error + hunk list" where
  "parse_hunks [] = Inr []"
| "parse_hunks (l # ls) =
     (if starts_with l ''@@'' then
        (case parse_hunk_header l ls of
           Inl e \<Rightarrow> Inl e
         | Inr (h, rest) \<Rightarrow> (case parse_hunks rest of Inl e \<Rightarrow> Inl e | Inr hs \<Rightarrow> Inr (h # hs)))
      else parse_hunks ls)"
  by pat_completeness auto
termination
  by (relation "measure length") (auto dest: parse_hunk_header_shrinks simp: less_Suc_eq_le)

definition parse_unified_diff :: "string \<Rightarrow> tool_error + hunk list" where
  "parse_unified_diff patch =
     parse_hunks (dropWhile (\<lambda>l. \<not> starts_with l ''@@'') (text_lines patch))"

section \<open>The files of a patch\<close>

record file_patch =
  fp_path :: string
  fp_hunks :: "hunk list"
  fp_delete_after :: bool
  fp_create_if_missing :: bool

definition normalize_diff_path :: "string \<Rightarrow> string option" where
  "normalize_diff_path raw =
     (let r = trim raw in
      if r = [] then None
      else if r = ''/dev/null'' \<or> r = ''dev/null'' then None
      else Some (case strip_prefix r ''a/'' of
             Some p \<Rightarrow> p
           | None \<Rightarrow> (case strip_prefix r ''b/'' of Some p \<Rightarrow> p | None \<Rightarrow> r)))"

definition resolve_diff_paths ::
  "string option \<Rightarrow> string option \<Rightarrow> bool \<Rightarrow> tool_error + (string \<times> bool \<times> bool)" where
  "resolve_diff_paths old_path new_path create_if_missing =
     (let old_norm = Option.bind old_path normalize_diff_path;
          new_norm = Option.bind new_path normalize_diff_path;
          delete_after = new_norm = None;
          create_flag = create_if_missing \<or> old_norm = None
      in case (case new_norm of Some p \<Rightarrow> Some p | None \<Rightarrow> old_norm) of
           None \<Rightarrow> Inl (InvalidInput ''Patch is missing both old and new file paths'')
         | Some path \<Rightarrow> Inr (path, delete_after, create_flag))"

definition flush_file :: "file_patch option \<Rightarrow> file_patch list" where
  "flush_file current = (case current of Some f \<Rightarrow> [f] | None \<Rightarrow> [])"

definition headless_hunk_error :: "string option \<Rightarrow> tool_error" where
  "headless_hunk_error old_path =
     (case old_path of
        Some p \<Rightarrow> InvalidInput (''Patch hunk encountered after '' @ quoted (''--- '' @ p) @
          '' but before a matching '' @ quoted ''+++'' @
          '' header. Each file section must include both headers.'')
      | None \<Rightarrow> InvalidInput (''Patch hunk encountered before any file header. Add '' @
          quoted ''---'' @ ''/'' @ quoted ''+++'' @ '' headers or provide '' @ quoted ''path'' @ ''.''))"

text \<open>The loop, with the file section it is in and the last \<open>---\<close> path.\<close>

function parse_files ::
  "bool \<Rightarrow> file_patch option \<Rightarrow> string option \<Rightarrow> string list \<Rightarrow> tool_error + file_patch list" where
  "parse_files create current old_path [] = Inr (flush_file current)"
| "parse_files create current old_path (l # ls) =
     (if starts_with l ''diff --git '' then
        map_sum id ((@) (flush_file current)) (parse_files create None None ls)
      else case strip_prefix l ''--- '' of
        Some p \<Rightarrow> parse_files create current (Some (trim p)) ls
      | None \<Rightarrow>
          (case strip_prefix l ''+++ '' of
             Some p \<Rightarrow>
               (case resolve_diff_paths old_path (Some (trim p)) create of
                  Inl e \<Rightarrow> Inl e
                | Inr (path, delete_after, create_flag) \<Rightarrow>
                    map_sum id ((@) (flush_file current))
                      (parse_files create
                        (Some \<lparr>fp_path = path, fp_hunks = [], fp_delete_after = delete_after,
                               fp_create_if_missing = create_flag\<rparr>) None ls))
           | None \<Rightarrow>
               if starts_with l ''@@'' then
                 (case current of
                    None \<Rightarrow> Inl (headless_hunk_error old_path)
                  | Some f \<Rightarrow>
                      (case parse_hunk_header l ls of
                         Inl e \<Rightarrow> Inl e
                       | Inr (h, rest) \<Rightarrow>
                           parse_files create (Some (f\<lparr>fp_hunks := fp_hunks f @ [h]\<rparr>)) old_path rest))
               else parse_files create current old_path ls))"
  by pat_completeness auto
termination
  by (relation "measure (\<lambda>(_, _, _, ls). length ls)")
     (auto dest: parse_hunk_header_shrinks simp: less_Suc_eq_le)

definition parse_unified_diff_files :: "string \<Rightarrow> bool \<Rightarrow> tool_error + file_patch list" where
  "parse_unified_diff_files patch create_if_missing =
     parse_files create_if_missing None None (text_lines patch)"

section \<open>The shape of a patch\<close>

record patch_shape =
  sh_has_hunks :: bool
  sh_header_files :: "string list"

definition shape_step :: "patch_shape \<times> string option \<Rightarrow> string \<Rightarrow> patch_shape \<times> string option" where
  "shape_step = (\<lambda>(shape, old_path) l.
     let shape' = (if starts_with l ''@@'' then shape\<lparr>sh_has_hunks := True\<rparr> else shape) in
     case strip_prefix l ''--- '' of
       Some p \<Rightarrow> (shape', normalize_diff_path p)
     | None \<Rightarrow>
         (case strip_prefix l ''+++ '' of
            Some p \<Rightarrow>
              ((case (case normalize_diff_path p of Some n \<Rightarrow> Some n | None \<Rightarrow> old_path) of
                  Some path \<Rightarrow>
                    if path \<in> set (sh_header_files shape') then shape'
                    else shape'\<lparr>sh_header_files := sh_header_files shape' @ [path]\<rparr>
                | None \<Rightarrow> shape'), None)
          | None \<Rightarrow> (shape', old_path)))"

definition inspect_patch_shape :: "string \<Rightarrow> patch_shape" where
  "inspect_patch_shape patch =
     fst (foldl shape_step (\<lparr>sh_has_hunks = False, sh_header_files = []\<rparr>, None) (text_lines patch))"

definition FILE_LIST_LIMIT :: nat where "FILE_LIST_LIMIT = 6"

definition format_file_list :: "string list \<Rightarrow> string" where
  "format_file_list files =
     (if files = [] then ''<none>''
      else
        let shown = take FILE_LIST_LIMIT files;
            remaining = length files - length shown
        in join '', '' (shown @
             (if remaining > 0 then [''... (+'' @ show_nat remaining @ '' more)''] else [])))"

definition validate_patch_shape :: "patch_shape \<Rightarrow> string option \<Rightarrow> tool_error + unit" where
  "validate_patch_shape shape path_override =
     (if \<not> sh_has_hunks shape then
        Inl (InvalidInput (''Patch must include at least one hunk header ('' @
          quoted ''@@ -start,count +start,count @@'' @ '').''))
      else if path_override \<noteq> None \<and> length (sh_header_files shape) > 1 then
        Inl (InvalidInput (''Patch references multiple files ('' @
          format_file_list (sh_header_files shape) @ '') but '' @ quoted ''path'' @
          '' was provided. Remove '' @ quoted ''path'' @
          '' to apply a multi-file patch, or provide a single-file patch.''))
      else if path_override = None \<and> length (sh_header_files shape) = 0 then
        Inl (InvalidInput (''Patch contains hunks but no file headers ('' @ quoted ''---'' @ ''/'' @
          quoted ''+++'' @ ''). Provide '' @ quoted ''path'' @ '' or add headers.''))
      else Inr ())"

definition diff_header_mismatch :: "string \<Rightarrow> patch_shape \<Rightarrow> string option" where
  "diff_header_mismatch path_override shape =
     (case sh_header_files shape of
        [header_path] \<Rightarrow>
          let override_norm =
            (case normalize_diff_path path_override of Some p \<Rightarrow> p | None \<Rightarrow> path_override)
          in if override_norm = header_path then None
             else Some (''Note: patch headers reference '' @ quoted header_path @ '' but '' @
               quoted ''path'' @ '' overrides to '' @ quoted override_norm @ ''.'')
      | _ \<Rightarrow> None)"

section \<open>Printing a patch\<close>

text \<open>The canonical text of a patch, as \<open>git diff\<close> writes it.\<close>

definition show_range :: "nat \<Rightarrow> nat \<Rightarrow> string" where
  "show_range start n = show_nat start @ '','' @ show_nat n"

definition show_hunk_header :: "hunk \<Rightarrow> string" where
  "show_hunk_header h =
     join '' '' [''@@'', CHR ''-'' # show_range (hk_old_start h) (hk_old_count h),
       CHR ''+'' # show_range (hk_new_start h) (hk_new_count h), ''@@'']"

fun show_hunk_line :: "hunk_line \<Rightarrow> string" where
  "show_hunk_line (Context s) = CHR '' '' # s"
| "show_hunk_line (Add s) = CHR ''+'' # s"
| "show_hunk_line (Remove s) = CHR ''-'' # s"

fun line_text :: "hunk_line \<Rightarrow> string" where
  "line_text (Context s) = s"
| "line_text (Add s) = s"
| "line_text (Remove s) = s"

definition show_hunk :: "hunk \<Rightarrow> string list" where
  "show_hunk h = show_hunk_header h # map show_hunk_line (hk_lines h)"

definition show_file_patch :: "file_patch \<Rightarrow> string list" where
  "show_file_patch f =
     [''diff --git a/'' @ fp_path f @ '' b/'' @ fp_path f,
      ''--- '' @ (if fp_create_if_missing f then ''/dev/null'' else ''a/'' @ fp_path f),
      ''+++ '' @ (if fp_delete_after f then ''/dev/null'' else ''b/'' @ fp_path f)] @
     concat (map show_hunk (fp_hunks f))"

definition unlines :: "string list \<Rightarrow> string" where
  "unlines ls = concat (map (\<lambda>l. l @ [CHR 0x0A]) ls)"

text \<open>What can be printed: no line breaks in a line, counts that the lines of a hunk fit in.\<close>

definition plain_line :: "string \<Rightarrow> bool" where
  "plain_line l \<longleftrightarrow> CHR 0x0A \<notin> set l \<and> (l = [] \<or> last l \<noteq> CHR 0x0D)"

definition proper_hunk :: "hunk \<Rightarrow> bool" where
  "proper_hunk h \<longleftrightarrow>
     hk_old_start h < 2 ^ 64 \<and> hk_new_start h < 2 ^ 63 \<and>
     2 * (hk_old_count h + hk_new_count h) < 2 ^ 64 \<and> length (hk_lines h) \<le> 2 * (hk_old_count h + hk_new_count h) \<and>
     list_all (\<lambda>l. plain_line (line_text l)) (hk_lines h)"

definition proper_file_patch :: "file_patch \<Rightarrow> bool" where
  "proper_file_patch f \<longleftrightarrow>
     trim (''a/'' @ fp_path f) = ''a/'' @ fp_path f \<and> trim (''b/'' @ fp_path f) = ''b/'' @ fp_path f \<and>
     plain_line (fp_path f) \<and>
     \<not> (fp_create_if_missing f \<and> fp_delete_after f) \<and> list_all proper_hunk (fp_hunks f)"

section \<open>Numbers and headers\<close>

lemma digit_chars: "m < 10 \<Longrightarrow> is_ascii_digit (char_of (48 + m)) \<and> of_char (char_of (48 + m) :: char) - 48 = m"
  for m :: nat
  by (simp add: is_ascii_digit_def of_char_of)

lemma digits_value_snoc: "digits_value (ds @ [c]) = 10 * digits_value ds + (of_char c - 48)"
  by (simp add: digits_value_def)

lemma show_nat_digits:
  "list_all is_ascii_digit (show_nat n) \<and> digits_value (show_nat n) = n \<and> show_nat n \<noteq> []"
proof (induction n rule: show_nat.induct)
  case (1 n)
  show ?case
  proof (cases "n < 10")
    case True
    then show ?thesis
      using digit_chars [of n] by (simp add: show_nat.simps [of n] digits_value_def)
  next
    case False
    then show ?thesis
      using 1 digit_chars [of "n mod 10"]
      by (simp add: show_nat.simps [of n] digits_value_snoc)
  qed
qed

lemma digits_bounds: "is_ascii_digit c \<Longrightarrow> 48 \<le> (of_char c :: nat) \<and> (of_char c :: nat) \<le> 57"
  by (simp add: is_ascii_digit_def)

lemma not_digits [simp]:
  "\<not> is_ascii_digit CHR ''+''" "\<not> is_ascii_digit CHR '',''" "\<not> is_ascii_digit CHR ''-''"
  by (simp_all add: is_ascii_digit_def)

lemma show_nat_chars: "c \<in> set (show_nat n) \<Longrightarrow> is_ascii_digit c"
  using show_nat_digits [of n] by (simp add: list_all_iff)

lemma parse_shown_nat: "n < 2 ^ 64 \<Longrightarrow> parse_usize (show_nat n) = Some n"
proof -
  assume n: "n < 2 ^ 64"
  have "hd (show_nat n) \<noteq> CHR ''+''"
    using show_nat_chars [of "hd (show_nat n)" n] show_nat_digits [of n] by auto
  then show ?thesis
    using show_nat_digits [of n] n by (simp add: parse_usize_def Let_def)
qed

lemma parse_shown_range:
  assumes "a < 2 ^ 64" and "n < 2 ^ 64"
  shows "parse_range (show_range a n) = Inr (a, n)"
proof -
  have "show_range a n = join [CHR '',''] [show_nat a, show_nat n]" by (simp add: show_range_def)
  moreover have "CHR '','' \<notin> set (show_nat k)" for k by (metis show_nat_chars not_digits(2))
  ultimately have "split_char (CHR '','') (show_range a n) = [show_nat a, show_nat n]"
    using split_join [of "[show_nat a, show_nat n]" "CHR '',''"] by simp
  then show ?thesis
    using parse_shown_nat [OF assms(1)] parse_shown_nat [OF assms(2)] by (simp add: parse_range_def)
qed

lemma visible_white_free:
  assumes "\<forall>c\<in>set w. 33 \<le> (of_char c :: nat) \<and> (of_char c :: nat) < 127"
  shows "white_free w"
proof -
  have "list_all (\<lambda>v. v \<noteq> [] \<and> ((of_char (hd v) :: nat) < 33 \<or> 127 \<le> (of_char (hd v) :: nat)))
      white_space_seqs"
    by (simp add: white_space_seqs_def)
  moreover have "hd v \<in> set w" if "v \<noteq> []" "str_contains w v" for v
    using that by (cases v) (auto simp: str_contains_iff)
  ultimately show ?thesis
    using assms by (fastforce simp: white_free_def list_all_iff)
qed

lemma range_visible: "c \<in> set (show_range a n) \<Longrightarrow> 33 \<le> (of_char c :: nat) \<and> (of_char c :: nat) < 127"
  using digits_bounds show_nat_chars by (fastforce simp: show_range_def)

lemma header_words:
  "split_whitespace (show_hunk_header h) =
     [''@@'', CHR ''-'' # show_range (hk_old_start h) (hk_old_count h),
       CHR ''+'' # show_range (hk_new_start h) (hk_new_count h), ''@@'']"
  unfolding show_hunk_header_def
  by (rule split_join_words) (auto intro!: visible_white_free dest: range_visible)

lemma range_head: "dropWhile (\<lambda>d. d = c) (show_range a n) = show_range a n" if "\<not> is_ascii_digit c"
proof -
  have "hd (show_range a n) \<noteq> c" "show_range a n \<noteq> []"
    using that show_nat_chars [of "hd (show_nat a)" a] show_nat_digits [of a]
    by (auto simp: show_range_def)
  then show ?thesis by (cases "show_range a n") auto
qed

lemma trim_shown_range:
  "trim_start_char (CHR ''-'') (CHR ''-'' # show_range a n) = show_range a n"
  "trim_start_char (CHR ''+'') (CHR ''+'' # show_range a n) = show_range a n"
  by (simp_all add: trim_start_char_def range_head)

section \<open>Reading what was printed\<close>

lemma starts_simps [simp]:
  "starts_with (c # cs) (d # ds) \<longleftrightarrow> c = d \<and> starts_with cs ds"
  "starts_with s []"
  "\<not> starts_with [] (d # ds)"
  by (auto simp: starts_with_def)

text \<open>Where the lines of a hunk end: at a header, at a \<open>diff\<close> line, or with the patch.\<close>

definition ends_hunk :: "string list \<Rightarrow> bool" where
  "ends_hunk rest \<longleftrightarrow>
     rest = [] \<or> starts_with (hd rest) ''@@'' \<or> starts_with (hd rest) ''diff ''"

lemma hunk_body_end: "ends_hunk rest \<Longrightarrow> hunk_body k rest = ([], rest)"
proof (cases k; cases rest)
  fix j l t
  assume "ends_hunk rest" "k = Suc j" "rest = l # t"
  moreover from this have "\<not> starts_with l ''-''" "\<not> starts_with l ''+''" "\<not> starts_with l '' ''" "l \<noteq> []"
    by (auto simp: ends_hunk_def starts_with_iff)
  ultimately show "hunk_body k rest = ([], rest)" by (auto simp: ends_hunk_def)
qed auto

lemma hunk_body_shown:
  assumes "length hs \<le> k" and "ends_hunk rest"
  shows "hunk_body k (map show_hunk_line hs @ rest) = (hs, rest)"
  using assms(1)
proof (induction hs arbitrary: k)
  case Nil
  then show ?case by (simp add: hunk_body_end assms(2))
next
  case (Cons h hs)
  then obtain j where "k = Suc j" "length hs \<le> j" by (cases k) auto
  with Cons show ?case by (cases h) auto
qed

lemma parse_shown_hunk:
  assumes "proper_hunk h" and "ends_hunk rest"
  shows "parse_hunk_header (show_hunk_header h) (map show_hunk_line (hk_lines h) @ rest) = Inr (h, rest)"
proof -
  have "length (hk_lines h) \<le> hunk_budget (hk_old_count h) (hk_new_count h)"
    using assms(1) by (simp add: proper_hunk_def hunk_budget_small)
  from hunk_body_shown [OF this assms(2)] show ?thesis
    using assms(1)
    by (simp add: parse_hunk_header_def header_words trim_shown_range parse_shown_range
        proper_hunk_def Let_def)
qed

lemma header_starts: "starts_with (show_hunk_header h) ''@@''"
  by (simp add: show_hunk_header_def)

lemma shown_hunks_end:
  "ends_hunk rest \<Longrightarrow> ends_hunk (concat (map show_hunk hs) @ rest)"
  by (cases hs) (auto simp: show_hunk_def ends_hunk_def header_starts)

lemma parse_shown_hunks:
  "list_all proper_hunk hs \<Longrightarrow> parse_hunks (concat (map show_hunk hs)) = Inr hs"
proof (induction hs)
  case (Cons h hs)
  have "ends_hunk (concat (map show_hunk hs))"
    using shown_hunks_end [of "[]" hs] by (simp add: ends_hunk_def)
  from parse_shown_hunk [OF _ this, of h] Cons show ?case
    by (simp add: show_hunk_def [of h] header_starts)
qed simp

text \<open>Lines of a text.\<close>

lemma split_unlines:
  "\<forall>l\<in>set ls. CHR 0x0A \<notin> set l \<Longrightarrow> split_char (CHR 0x0A) (unlines ls) = ls @ [[]]"
proof (induction ls)
  case (Cons l ls)
  have single: "split_char d w = [w]" if "d \<notin> set w" for d and w :: string
    using that by (induction w) auto
  from Cons split_char_append_sep [of "CHR 0x0A" l "unlines ls"] show ?case
    by (simp add: unlines_def single)
qed (simp add: unlines_def)

lemma lines_unlines: "list_all plain_line ls \<Longrightarrow> text_lines (unlines ls) = ls"
proof -
  assume ls: "list_all plain_line ls"
  have "map strip_cr ls = ls"
    by (rule map_idI) (use ls in \<open>auto simp: list_all_iff plain_line_def strip_cr_def\<close>)
  with ls split_unlines [of ls] show ?thesis
    by (simp add: text_lines_def Let_def list_all_iff plain_line_def butlast_append)
qed

section \<open>The round trip\<close>

lemma plain_header: "plain_line (show_hunk_header h)"
proof -
  have "32 \<le> (of_char c :: nat)" if "c \<in> set (show_hunk_header h)" for c
    using that range_visible by (fastforce simp: show_hunk_header_def)
  then have "CHR 0x0A \<notin> set (show_hunk_header h)" "CHR 0x0D \<notin> set (show_hunk_header h)"
    by force+
  then show ?thesis unfolding plain_line_def by (metis last_in_set)
qed

lemma plain_shown_line: "plain_line (line_text l) \<Longrightarrow> plain_line (show_hunk_line l)"
  by (cases l) (auto simp: plain_line_def)

lemma plain_shown_hunk: "proper_hunk h \<Longrightarrow> list_all plain_line (show_hunk h)"
  by (auto simp: show_hunk_def proper_hunk_def plain_header list_all_iff plain_shown_line)

lemma plain_shown_file: "proper_file_patch f \<Longrightarrow> list_all plain_line (show_file_patch f)"
  using plain_shown_hunk
  by (auto simp: show_file_patch_def proper_file_patch_def list_all_iff plain_line_def)

lemma shown_paths:
  assumes "proper_file_patch f"
  shows "resolve_diff_paths
      (Some (trim (if fp_create_if_missing f then ''/dev/null'' else ''a/'' @ fp_path f)))
      (Some (trim (if fp_delete_after f then ''/dev/null'' else ''b/'' @ fp_path f))) False =
    Inr (fp_path f, fp_delete_after f, fp_create_if_missing f)"
proof -
  have null: "trim ''/dev/null'' = ''/dev/null''" by (rule trim_fixed) (simp_all add: trim_eval bit_0)
  then have "normalize_diff_path ''/dev/null'' = None" by (simp add: normalize_diff_path_def)
  moreover have "normalize_diff_path (''a/'' @ fp_path f) = Some (fp_path f)"
    "normalize_diff_path (''b/'' @ fp_path f) = Some (fp_path f)"
    using assms
    by (auto simp: proper_file_patch_def normalize_diff_path_def strip_prefix_def Let_def)
  ultimately show ?thesis
    using assms null by (auto simp: resolve_diff_paths_def proper_file_patch_def)
qed

lemma append_nothing [simp]: "map_sum id ((@) []) r = r"
  by (cases r) auto

lemma parse_shown_hunks_of_file:
  assumes "list_all proper_hunk hs" and "ends_hunk rest"
  shows "parse_files c (Some f) None (concat (map show_hunk hs) @ rest) =
    parse_files c (Some (f\<lparr>fp_hunks := fp_hunks f @ hs\<rparr>)) None rest"
  using assms(1)
proof (induction hs arbitrary: f)
  case (Cons h hs)
  have "ends_hunk (concat (map show_hunk hs) @ rest)" by (rule shown_hunks_end [OF assms(2)])
  from parse_shown_hunk [OF _ this, of h] Cons
  have step: "parse_hunk_header (show_hunk_header h)
      (map show_hunk_line (hk_lines h) @ concat (map show_hunk hs) @ rest) =
      Inr (h, concat (map show_hunk hs) @ rest)" by simp
  have "\<not> starts_with (show_hunk_header h) ''diff --git ''"
    "strip_prefix (show_hunk_header h) ''--- '' = None"
    "strip_prefix (show_hunk_header h) ''+++ '' = None"
    by (simp_all add: show_hunk_header_def strip_prefix_def)
  with Cons step header_starts show ?case
    by (simp add: show_hunk_def [of h])
qed simp

lemma parse_shown_files:
  assumes "list_all proper_file_patch fs"
  shows "parse_files False cur None (concat (map show_file_patch fs)) = Inr (flush_file cur @ fs)"
  using assms
proof (induction fs arbitrary: cur)
  case Nil
  then show ?case by simp
next
  case (Cons f fs)
  let ?rest = "concat (map show_file_patch fs)"
  have rest: "ends_hunk ?rest" by (cases fs) (auto simp: ends_hunk_def show_file_patch_def)
  have f: "proper_file_patch f" and hs: "list_all proper_hunk (fp_hunks f)"
    using Cons.prems by (auto simp: proper_file_patch_def)
  have fields: "\<lparr>fp_path = fp_path f, fp_hunks = fp_hunks f, fp_delete_after = fp_delete_after f,
      fp_create_if_missing = fp_create_if_missing f\<rparr> = f" by simp
  have "parse_files False None (Some (trim (if fp_create_if_missing f then ''/dev/null'' else ''a/'' @ fp_path f)))
      ((''+++ '' @ (if fp_delete_after f then ''/dev/null'' else ''b/'' @ fp_path f)) #
        concat (map show_hunk (fp_hunks f)) @ ?rest) = Inr (f # fs)"
    using shown_paths [OF f] parse_shown_hunks_of_file [OF hs rest] Cons
    by (simp add: strip_prefix_def flush_file_def)
  then show ?case
    by (simp add: show_file_patch_def [of f] strip_prefix_def flush_file_def)
qed

lemma parse_shown_patch:
  assumes "list_all proper_file_patch fs"
  shows "parse_unified_diff_files (unlines (concat (map show_file_patch fs))) False = Inr fs"
proof -
  have "list_all plain_line (concat (map show_file_patch fs))"
    using assms plain_shown_file by (auto simp: list_all_iff)
  then show ?thesis
    using parse_shown_files [OF assms, of None]
    by (simp add: parse_unified_diff_files_def lines_unlines flush_file_def)
qed


text \<open>A patch of two files: a change and a creation.\<close>

definition change_hunk :: hunk where
  "change_hunk =
     \<lparr>hk_old_start = 1, hk_old_count = 2, hk_new_start = 1, hk_new_count = 2,
      hk_lines = [Context ''one'', Remove ''two'', Add ''three'']\<rparr>"

definition creation_hunk :: hunk where
  "creation_hunk =
     \<lparr>hk_old_start = 0, hk_old_count = 0, hk_new_start = 1, hk_new_count = 1, hk_lines = [Add ''x'']\<rparr>"

definition sample_patch :: "file_patch list" where
  "sample_patch =
     [\<lparr>fp_path = ''a.txt'', fp_hunks = [change_hunk], fp_delete_after = False,
       fp_create_if_missing = False\<rparr>,
      \<lparr>fp_path = ''b.txt'', fp_hunks = [creation_hunk], fp_delete_after = False,
       fp_create_if_missing = True\<rparr>]"

lemma sample_paths:
  "trim ''a/a.txt'' = ''a/a.txt''" "trim ''b/a.txt'' = ''b/a.txt''"
  "trim ''a/b.txt'' = ''a/b.txt''" "trim ''b/b.txt'' = ''b/b.txt''"
  by (rule trim_fixed; simp add: trim_eval bit_0)+

lemma sample_proper: "list_all proper_file_patch sample_patch"
  using sample_paths
  by (simp add: sample_patch_def proper_file_patch_def proper_hunk_def change_hunk_def
      creation_hunk_def plain_line_def)


section \<open>Sections without a \<open>diff --git\<close> line\<close>

definition plain_section :: "string \<Rightarrow> hunk \<Rightarrow> string list" where
  "plain_section p h = [''--- a/'' @ p, ''+++ b/'' @ p] @ show_hunk h"

text \<open>
  A multi-file patch whose sections are told apart by their \<open>---\<close> and \<open>+++\<close> lines alone, as plain
  \<open>diff -u\<close> writes it, is read as a patch of the first file: the loop over a hunk does not stop at the
  counts of its header, takes the next file's header for a removed and an added line, and the next
  file's hunk becomes a second hunk of the first file.
\<close>

theorem sections_without_git_line_merge:
  assumes "proper_file_patch \<lparr>fp_path = p, fp_hunks = [h, g], fp_delete_after = False,
      fp_create_if_missing = False\<rparr>"
    and "plain_line q" and "length (hk_lines h) + 2 \<le> 2 * (hk_old_count h + hk_new_count h)"
  shows "parse_unified_diff_files (unlines (plain_section p h @ plain_section q g)) False =
    Inr [\<lparr>fp_path = p,
          fp_hunks = [h\<lparr>hk_lines := hk_lines h @ [Remove (''-- a/'' @ q), Add (''++ b/'' @ q)]\<rparr>, g],
          fp_delete_after = False, fp_create_if_missing = False\<rparr>]"
proof -
  let ?h = "h\<lparr>hk_lines := hk_lines h @ [Remove (''-- a/'' @ q), Add (''++ b/'' @ q)]\<rparr>"
  let ?f = "\<lparr>fp_path = p, fp_hunks = [?h, g], fp_delete_after = False, fp_create_if_missing = False\<rparr>"
  have lines: "plain_section p h @ plain_section q g = tl (show_file_patch ?f)"
    by (simp add: plain_section_def show_file_patch_def show_hunk_def show_hunk_header_def)
  have proper: "proper_file_patch ?f"
    using assms by (auto simp: proper_file_patch_def proper_hunk_def plain_line_def)
  have "list_all plain_line (tl (show_file_patch ?f))"
    using plain_shown_file [OF proper] by (cases "show_file_patch ?f") auto
  moreover have "parse_files False None None (tl (show_file_patch ?f)) = Inr [?f]"
    using parse_shown_files [of "[?f]" None] proper
    by (simp add: show_file_patch_def flush_file_def)
  ultimately show ?thesis
    unfolding lines by (simp add: parse_unified_diff_files_def lines_unlines)
qed

theorem sections_without_git_line_merge_witness:
  "parse_unified_diff_files
      (unlines (plain_section ''a.txt'' change_hunk @ plain_section ''b.txt'' change_hunk)) False =
    Inr [\<lparr>fp_path = ''a.txt'',
          fp_hunks = [change_hunk\<lparr>hk_lines := hk_lines change_hunk @
             [Remove ''-- a/b.txt'', Add ''++ b/b.txt'']\<rparr>, change_hunk],
          fp_delete_after = False, fp_create_if_missing = False\<rparr>]"
proof -
  have "proper_file_patch \<lparr>fp_path = ''a.txt'', fp_hunks = [change_hunk, change_hunk],
      fp_delete_after = False, fp_create_if_missing = False\<rparr>"
    using sample_paths
    by (simp add: proper_file_patch_def proper_hunk_def change_hunk_def plain_line_def)
  moreover have "plain_line ''b.txt''" by (simp add: plain_line_def)
  moreover have "length (hk_lines change_hunk) + 2 \<le>
      2 * (hk_old_count change_hunk + hk_new_count change_hunk)"
    by (simp add: change_hunk_def)
  ultimately show ?thesis using sections_without_git_line_merge by simp
qed

section \<open>What a parsed patch looks like\<close>

text \<open>
  The shape of a parsed section, whatever the text it was read from: a path without a line break, and
  hunks whose numbers fit \<open>usize\<close>, with at most twice the announced lines, none with a line break.
\<close>

definition shaped_hunk :: "hunk \<Rightarrow> bool" where
  "shaped_hunk h \<longleftrightarrow>
     hk_old_start h < 2 ^ 64 \<and> hk_old_count h < 2 ^ 64 \<and> hk_new_start h < 2 ^ 64 \<and>
     hk_new_count h < 2 ^ 64 \<and> length (hk_lines h) \<le> 2 * (hk_old_count h + hk_new_count h) \<and>
     list_all (\<lambda>l. CHR 0x0A \<notin> set (line_text l)) (hk_lines h)"

definition shaped_section :: "file_patch \<Rightarrow> bool" where
  "shaped_section f \<longleftrightarrow> CHR 0x0A \<notin> set (fp_path f) \<and> list_all shaped_hunk (fp_hunks f)"

definition broken_free :: "string list \<Rightarrow> bool" where
  "broken_free ls \<longleftrightarrow> list_all (\<lambda>l. CHR 0x0A \<notin> set l) ls"

lemma broken_free_Cons [simp]:
  "broken_free [] \<and> (broken_free (l # ls) \<longleftrightarrow> CHR 0x0A \<notin> set l \<and> broken_free ls)"
  by (simp add: broken_free_def)

lemma split_char_ne: "split_char d s \<noteq> []"
  by (induction s) auto

lemma split_char_free: "p \<in> set (split_char d s) \<Longrightarrow> d \<notin> set p"
proof (induction s arbitrary: p)
  case (Cons c s)
  have "hd (split_char d s) \<in> set (split_char d s)" "set (tl (split_char d s)) \<subseteq> set (split_char d s)"
    using split_char_ne by (auto simp: list.set_sel(2))
  with Cons show ?case by (auto split: if_splits)
qed simp

lemma strip_cr_set: "c \<in> set (strip_cr s) \<Longrightarrow> c \<in> set s"
  by (auto simp: strip_cr_def dest: in_set_butlastD split: if_splits)

lemma text_lines_free: "broken_free (text_lines s)"
proof -
  let ?ls = "split_char (CHR 0x0A) s"
  have "CHR 0x0A \<notin> set (last ?ls)" using split_char_free split_char_ne by (metis last_in_set)
  moreover have "CHR 0x0A \<notin> set (strip_cr l)" if "l \<in> set (butlast ?ls)" for l
    using split_char_free [of l "CHR 0x0A" s] in_set_butlastD [OF that] strip_cr_set by blast
  ultimately show ?thesis by (auto simp: broken_free_def text_lines_def Let_def list_all_iff)
qed

lemma hunk_body_shape:
  "broken_free ls \<Longrightarrow>
    length (fst (hunk_body k ls)) \<le> k \<and> broken_free (snd (hunk_body k ls)) \<and>
    list_all (\<lambda>l. CHR 0x0A \<notin> set (line_text l)) (fst (hunk_body k ls))"
proof (induction k arbitrary: ls)
  case (Suc k)
  show ?case
  proof (cases ls)
    case (Cons l t)
    have t: "CHR 0x0A \<notin> set (tl l)" "CHR 0x0A \<notin> set l" "broken_free t"
      using Suc.prems Cons by (cases l; simp)+
    show ?thesis using Suc.IH [OF t(3)] t by (simp add: Cons case_prod_unfold le_SucI)
  qed (simp add: broken_free_def)
qed simp

lemma parse_usize_fits: "parse_usize s = Some n \<Longrightarrow> n < 2 ^ 64"
  by (auto simp: parse_usize_def Let_def split: if_splits)

lemma parse_range_fits: "parse_range s = Inr (m, n) \<Longrightarrow> m < 2 ^ 64 \<and> n < 2 ^ 64"
  by (auto simp: parse_range_def Let_def parse_usize_fits dest!: parse_usize_fits split: option.splits if_splits)

lemma parse_hunk_header_shape:
  assumes "parse_hunk_header header ls = Inr (h, rest)" and "broken_free ls"
  shows "shaped_hunk h \<and> broken_free rest"
proof -
  obtain a m b n where r: "parse_range (trim_start_char (CHR ''-'') (split_whitespace header ! 1)) = Inr (a, m)"
    "parse_range (trim_start_char (CHR ''+'') (split_whitespace header ! 2)) = Inr (b, n)"
    "h = \<lparr>hk_old_start = a, hk_old_count = m, hk_new_start = b, hk_new_count = n,
       hk_lines = fst (hunk_body (hunk_budget m n) ls)\<rparr>" "rest = snd (hunk_body (hunk_budget m n) ls)"
    using assms(1)
    by (auto simp: parse_hunk_header_def Let_def split: if_splits sum.splits prod.splits)
  show ?thesis
    using hunk_body_shape [OF assms(2), of "hunk_budget m n"] hunk_budget_le [of m n]
      parse_range_fits [OF r(1)] parse_range_fits [OF r(2)]
    by (simp add: r(3,4) shaped_hunk_def)
qed

lemma trim_start_set: "c \<in> set (trim_start ws s) \<Longrightarrow> c \<in> set s"
proof (induction ws s rule: trim_start.induct)
  case (1 seqs s)
  then show ?case
    by (subst (asm) (2) trim_start.simps) (auto split: option.splits dest: in_set_dropD)
qed

lemma trim_set: "c \<in> set (trim s) \<Longrightarrow> c \<in> set s"
  by (auto simp: trim_def dest!: trim_start_set)

lemma strip_prefix_set: "strip_prefix s p = Some r \<Longrightarrow> c \<in> set r \<Longrightarrow> c \<in> set s"
  by (auto simp: strip_prefix_def split: if_splits dest: in_set_dropD)

lemma normalize_set: "normalize_diff_path s = Some r \<Longrightarrow> c \<in> set r \<Longrightarrow> c \<in> set s"
  by (auto simp: normalize_diff_path_def Let_def split: if_splits option.splits
      dest: strip_prefix_set trim_set)

lemma resolve_set:
  assumes "resolve_diff_paths old new create = Inr (p, d, e)" and "c \<in> set p"
  shows "(\<exists>s. old = Some s \<and> c \<in> set s) \<or> (\<exists>s. new = Some s \<and> c \<in> set s)"
  using assms normalize_set
  by (auto simp: resolve_diff_paths_def Let_def bind_eq_Some_conv split: option.splits)

lemma map_sum_Inr: "map_sum id g x = Inr r \<Longrightarrow> \<exists>y. x = Inr y \<and> r = g y"
  by (cases x) auto

lemma parse_files_shape:
  assumes "parse_files create current old_path ls = Inr fps" and "broken_free ls"
    and "list_all shaped_section (flush_file current)"
    and "\<forall>p. old_path = Some p \<longrightarrow> CHR 0x0A \<notin> set p"
  shows "list_all shaped_section fps"
  using assms
proof (induction create current old_path ls arbitrary: fps rule: parse_files.induct)
  case (2 create current old_path l ls)
  have free: "CHR 0x0A \<notin> set l" "broken_free ls" using "2.prems"(2) by simp_all
  have trimmed: "CHR 0x0A \<notin> set (trim p)" if "strip_prefix l q = Some p" for p q
    using free(1) that strip_prefix_set trim_set by metis
  show ?case
  proof (cases "starts_with l ''diff --git ''")
    case True
    then obtain r where "parse_files create None None ls = Inr r" "fps = flush_file current @ r"
      using "2.prems"(1) by (auto dest: map_sum_Inr)
    then show ?thesis using "2.IH"(1) [OF True _ free(2)] "2.prems"(3) by (simp add: flush_file_def)
  next
    case git: False
    show ?thesis
    proof (cases "strip_prefix l ''--- ''")
      case (Some p)
      then show ?thesis
        using "2.IH"(5) [OF git Some _ free(2)] "2.prems"(1,3) git trimmed [OF Some] by simp
    next
      case minus: None
      show ?thesis
      proof (cases "strip_prefix l ''+++ ''")
        case (Some p)
        obtain path d e where path: "resolve_diff_paths old_path (Some (trim p)) create = Inr (path, d, e)"
          using "2.prems"(1) git minus Some by (auto split: sum.splits)
        let ?f = "\<lparr>fp_path = path, fp_hunks = [], fp_delete_after = d, fp_create_if_missing = e\<rparr>"
        obtain r where r: "parse_files create (Some ?f) None ls = Inr r" "fps = flush_file current @ r"
          using "2.prems"(1) git minus Some path by (auto dest: map_sum_Inr)
        have "CHR 0x0A \<notin> set path"
          using resolve_set [OF path] trimmed [OF Some] "2.prems"(4) by blast
        then have "list_all shaped_section (flush_file (Some ?f))"
          by (simp add: flush_file_def shaped_section_def)
        then show ?thesis
          using "2.IH"(4) [OF git minus Some path refl refl r(1) free(2)] r(2) "2.prems"(3) by simp
      next
        case plus: None
        show ?thesis
        proof (cases "starts_with l ''@@''")
          case True
          obtain f where f: "current = Some f"
            using "2.prems"(1) git minus plus True by (cases current) auto
          obtain h rest where h: "parse_hunk_header l ls = Inr (h, rest)"
            using "2.prems"(1) git minus plus True f by (auto split: sum.splits)
          note shape = parse_hunk_header_shape [OF h free(2)]
          have "list_all shaped_section (flush_file (Some (f\<lparr>fp_hunks := fp_hunks f @ [h]\<rparr>)))"
            using "2.prems"(3) shape by (simp add: f flush_file_def shaped_section_def)
          then show ?thesis
            using "2.IH"(2) [OF git minus plus True f h refl] "2.prems"(1,4) git minus plus True f h shape
            by simp
        next
          case False
          then show ?thesis
            using "2.IH"(3) [OF git minus plus False _ free(2)] "2.prems"(1,3,4) git minus plus by simp
        qed
      qed
    qed
  qed
qed simp

text \<open>
  C35. Whatever text is given as a patch, a section that is parsed from it is well formed: its path
  holds no line break, its line numbers and counts fit 64 bits, and each of its hunks has at most
  twice the lines its header announces, none with a line break in it.
\<close>

theorem parsed_sections_well_formed:
  assumes "parse_unified_diff_files patch create_if_missing = Inr fps"
  shows "list_all shaped_section fps"
  using assms unfolding parse_unified_diff_files_def
  by (rule parse_files_shape) (simp_all add: text_lines_free flush_file_def)

theorem parsed_sections_well_formed_witness:
  "parse_unified_diff_files (unlines (concat (map show_file_patch sample_patch))) False =
     Inr sample_patch \<and> list_all shaped_section sample_patch"
proof -
  have parsed: "parse_unified_diff_files (unlines (concat (map show_file_patch sample_patch))) False =
      Inr sample_patch"
    by (rule parse_shown_patch [OF sample_proper])
  with parsed_sections_well_formed [OF this] show ?thesis by blast
qed

end
