(* ===== verification/Browser_Policy.thy ===== *)
theory Browser_Policy
  imports Patch_Parse "HOL-Library.Sublist"
begin

text \<open>
  Navigation of the in-app browser: the shared URL policy (\<open>crates/browser-policy/src/lib.rs\<close>), the
  approval of an agent's navigation (\<open>tools/policy_bridge.rs\<close>, \<open>tools/browser_session.rs\<close>,
  \<open>tools/browser.rs\<close> of the runtime server), and the side of the desktop that opens the page
  (\<open>crates/desktop/src/browser/mod.rs\<close>, \<open>nav_actor.rs\<close>).

  The URL library and \<open>canonicalize\<close> are the fields of \<open>url_env\<close>. An error of the policy keeps its code
  and the arguments of its message; the (Chinese) wording is left out. Web views, history and the
  files of the preferences are left out.
\<close>

section \<open>Hosts\<close>

datatype nav_actor = Human | Agent

definition drop_brackets :: "string \<Rightarrow> string" where
  "drop_brackets s =
     (let bracket = (\<lambda>c. c = CHR ''['' \<or> c = CHR '']'') in
      rev (dropWhile bracket (rev (dropWhile bracket s))))"

definition normalize_browser_host :: "string \<Rightarrow> string" where
  "normalize_browser_host host = to_ascii_lowercase (drop_brackets (trim host))"

definition is_loopback_host :: "string \<Rightarrow> bool" where
  "is_loopback_host host \<longleftrightarrow> normalize_browser_host host \<in> {''127.0.0.1'', ''localhost'', ''::1''}"

definition is_private_or_link_local_host :: "string \<Rightarrow> bool" where
  "is_private_or_link_local_host host \<longleftrightarrow>
     (if starts_with host ''10.'' \<or> starts_with host ''192.168.'' \<or> starts_with host ''169.254.'' \<or>
         starts_with host ''fc'' \<or> starts_with host ''fd'' \<or> starts_with host ''fe80:''
      then True
      else case strip_prefix host ''172.'' of
        None \<Rightarrow> False
      | Some rest \<Rightarrow>
          CHR ''.'' \<in> set rest \<and>
          (case parse_usize (takeWhile (\<lambda>c. c \<noteq> CHR ''.'') rest) of
             Some n \<Rightarrow> n < 256 \<and> 16 \<le> n \<and> n \<le> 31
           | None \<Rightarrow> False))"

definition agent_external_https_host :: "string \<Rightarrow> string option" where
  "agent_external_https_host raw =
     (let trimmed = trim raw in
      if \<not> starts_with (to_ascii_lowercase trimmed) ''https://'' then None
      else
        let hostport = takeWhile (\<lambda>c. c \<notin> {CHR ''/'', CHR ''?'', CHR ''#''}) (drop 8 trimmed);
            unopened = dropWhile (\<lambda>c. c = CHR ''['') (trim hostport);
            unclosed = rev (dropWhile (\<lambda>c. c = CHR '']'') (rev unopened));
            host = to_ascii_lowercase (takeWhile (\<lambda>c. c \<noteq> CHR '':'') unclosed)
        in if host = [] \<or> is_loopback_host host then None else Some host)"

definition agent_navigate_needs_external_approval ::
  "string \<Rightarrow> string list \<Rightarrow> bool \<Rightarrow> string option" where
  "agent_navigate_needs_external_approval raw allowlist yolo =
     (case agent_external_https_host raw of
        None \<Rightarrow> None
      | Some host \<Rightarrow>
          if yolo then None
          else if list_ex (\<lambda>h. normalize_browser_host h = host) allowlist then None
          else Some host)"

section \<open>Validation\<close>

record url =
  u_text :: string
  u_scheme :: string
  u_host :: "string option"

type_synonym policy_error = "string \<times> string list"

record url_env =
  ue_parse :: "string \<Rightarrow> string + url"
  ue_file_path :: "url \<Rightarrow> string option"
  ue_canonicalize :: "string \<Rightarrow> string + string list"
  ue_from_path :: "string list \<Rightarrow> url option"
  ue_now :: nat
  ue_webview_error :: "url \<Rightarrow> policy_error option"

record nav_opts =
  no_allowlist :: "string list"
  no_allow_private_lan :: bool
  no_workspace_root :: "string option"

text \<open>A canonical path is the list of its components; \<open>Path::starts_with\<close> compares components.\<close>

definition path_within :: "string list \<Rightarrow> string list \<Rightarrow> bool" where
  "path_within path root \<longleftrightarrow> prefix root path"

definition validate_file_url :: "url_env \<Rightarrow> url \<Rightarrow> nav_opts \<Rightarrow> policy_error + url" where
  "validate_file_url env url opts =
     (case no_workspace_root opts of
        None \<Rightarrow> Inl (''file_needs_workspace'', [])
      | Some ws \<Rightarrow>
          (case ue_file_path env url of
             None \<Rightarrow> Inl (''file_invalid'', [])
           | Some path \<Rightarrow>
               (case ue_canonicalize env path of
                  Inl e \<Rightarrow> Inl (''file_missing'', [path, e])
                | Inr file_canon \<Rightarrow>
                    (case ue_canonicalize env ws of
                       Inl e \<Rightarrow> Inl (''workspace_invalid'', [ws, e])
                     | Inr ws_canon \<Rightarrow>
                         if \<not> path_within file_canon ws_canon
                         then Inl (''file_escape'', [join ''/'' file_canon, join ''/'' ws_canon])
                         else case ue_from_path env file_canon of
                           None \<Rightarrow> Inl (''file_invalid'', [join ''/'' file_canon])
                         | Some u \<Rightarrow> Inr u))))"

definition host_of_url :: "url \<Rightarrow> string" where
  "host_of_url u = (case u_host u of Some h \<Rightarrow> normalize_browser_host h | None \<Rightarrow> [])"

text \<open>The part of the validation behind the scheme: an \<open>http\<close> or \<open>https\<close> URL.\<close>

definition validate_web_url :: "url \<Rightarrow> string \<Rightarrow> nav_actor \<Rightarrow> nav_opts \<Rightarrow> policy_error + url" where
  "validate_web_url url scheme actor opts =
     (let host = host_of_url url in
      if host = [] then Inl (''missing_host'', [])
      else if is_loopback_host host then Inr url
      else if host = ''0.0.0.0'' then Inl (''host_forbidden'', [])
      else if is_private_or_link_local_host host then
        (if \<not> no_allow_private_lan opts then Inl (''lan_forbidden'', [host]) else Inr url)
      else if scheme = ''http'' then Inl (''cleartext_forbidden'', [])
      else case actor of
        Human \<Rightarrow> Inr url
      | Agent \<Rightarrow>
          if list_ex (\<lambda>h. normalize_browser_host h = host) (no_allowlist opts) then Inr url
          else Inl (''agent_external_needs_ask'', [host]))"

definition validate_navigation_with ::
  "url_env \<Rightarrow> string \<Rightarrow> nav_actor \<Rightarrow> nav_opts \<Rightarrow> policy_error + url" where
  "validate_navigation_with env raw actor opts =
     (let trimmed = trim raw in
      if trimmed = [] then Inl (''empty_url'', [])
      else case ue_parse env trimmed of
        Inl e \<Rightarrow> Inl (''invalid_url'', [e])
      | Inr url \<Rightarrow>
          let scheme = to_ascii_lowercase (u_scheme url) in
          if scheme = ''http'' \<or> scheme = ''https'' then validate_web_url url scheme actor opts
          else if scheme = ''about'' \<and> eq_ignore_ascii_case (u_text url) ''about:blank'' then Inr url
          else if scheme = ''file'' then validate_file_url env url opts
          else if scheme \<in> {''javascript'', ''data'', ''vbscript''} then Inl (''scheme_forbidden'', [scheme])
          else Inl (''scheme_unknown'', [scheme]))"

definition security_kind :: "url_env \<Rightarrow> string \<Rightarrow> string" where
  "security_kind env url_str =
     (let trimmed = trim url_str in
      if trimmed = [] \<or> eq_ignore_ascii_case trimmed ''about:blank'' then ''blank''
      else case ue_parse env trimmed of
        Inl _ \<Rightarrow> ''unknown''
      | Inr u \<Rightarrow>
          if u_scheme u = ''file'' then ''file''
          else if u_scheme u = ''about'' then ''blank''
          else
            let host = (case u_host u of Some h \<Rightarrow> h | None \<Rightarrow> []) in
            if host = [] then ''blank'' else if is_loopback_host host then ''loopback'' else ''external'')"

section \<open>The chain of an agent's page loads\<close>

text \<open>\<open>nav_actor.rs\<close>; an \<open>Instant\<close> is a number of milliseconds.\<close>

definition AGENT_NAV_GRACE_MS :: nat where "AGENT_NAV_GRACE_MS = 3000"

record nav_chain =
  nc_actor :: nav_actor
  nc_inflight :: u32
  nc_grace_until :: "nat option"

definition human_chain :: nav_chain where
  "human_chain = \<lparr>nc_actor = Human, nc_inflight = 0, nc_grace_until = None\<rparr>"

definition begin_agent :: "nat \<Rightarrow> nav_chain \<Rightarrow> nav_chain" where
  "begin_agent now c = c\<lparr>nc_actor := Agent, nc_grace_until := Some (now + AGENT_NAV_GRACE_MS)\<rparr>"

definition begin_human :: "nav_chain \<Rightarrow> nav_chain" where
  "begin_human c = human_chain"

definition on_page_started :: "nav_chain \<Rightarrow> nav_chain" where
  "on_page_started c =
     (if nc_actor c = Agent
      then c\<lparr>nc_inflight := sat_add (nc_inflight c) 1, nc_grace_until := None\<rparr> else c)"

definition on_page_finished :: "nat \<Rightarrow> nav_chain \<Rightarrow> nav_chain" where
  "on_page_finished now c =
     (if nc_actor c = Agent \<and> nc_inflight c > 0 then
        (let c' = c\<lparr>nc_inflight := nc_inflight c - 1\<rparr> in
         if nc_inflight c' = 0 then c'\<lparr>nc_grace_until := Some (now + AGENT_NAV_GRACE_MS)\<rparr> else c')
      else c)"

definition effective_actor :: "nat \<Rightarrow> nav_chain \<Rightarrow> nav_actor" where
  "effective_actor now c =
     (if nc_actor c = Human then Human
      else if nc_inflight c > 0 then Agent
      else case nc_grace_until c of
        Some until \<Rightarrow> if now < until then Agent else Human
      | None \<Rightarrow> Human)"

definition expire_if_needed :: "nat \<Rightarrow> nav_chain \<Rightarrow> nav_chain \<times> nav_actor" where
  "expire_if_needed now c =
     (let effective = effective_actor now c in
      (if nc_actor c = Agent \<and> effective = Human then human_chain else c, effective))"

section \<open>The page\<close>

text \<open>
  \<open>HostRecord\<close>: whether the web view is still being made, the policy chain, the history with its
  position, and whether a page is loading.
\<close>

record page_record =
  pr_creating :: bool
  pr_chain :: nav_chain
  pr_history :: "string list"
  pr_history_idx :: nat
  pr_loading :: bool

definition push_history :: "string \<Rightarrow> page_record \<Rightarrow> page_record" where
  "push_history raw rec =
     (let url = trim raw in
      if url = [] then rec
      else if pr_history_idx rec < length (pr_history rec) \<and> pr_history rec ! pr_history_idx rec = url then rec
      else
        let kept = (if pr_history rec \<noteq> [] \<and> pr_history_idx rec + 1 < length (pr_history rec)
                    then take (pr_history_idx rec + 1) (pr_history rec) else pr_history rec)
        in rec\<lparr>pr_history := kept @ [url], pr_history_idx := length (kept @ [url]) - 1\<rparr>)"

definition apply_page_load :: "nat \<Rightarrow> bool \<Rightarrow> bool \<Rightarrow> string \<Rightarrow> page_record \<Rightarrow> page_record" where
  "apply_page_load now started finished url rec =
     (let rec1 = rec\<lparr>pr_loading := \<not> finished\<rparr>;
          rec2 = (if started then rec1\<lparr>pr_chain := on_page_started (pr_chain rec1)\<rparr> else rec1) in
      if finished then
        (let rec3 = rec2\<lparr>pr_chain := on_page_finished now (pr_chain rec2)\<rparr> in
         if url \<noteq> [] then push_history url rec3 else rec3)
      else rec2)"

section \<open>An agent's navigation\<close>

text \<open>
  The two processes: the preferences they share, the session hosts of the sidecar and those of the
  desktop. Sets are lists: only membership is asked.
\<close>

record browser_state =
  bs_persistent :: "string list"
  bs_yolo :: bool
  bs_lan :: bool
  bs_root :: "string option"
  bs_sidecar :: "string list"
  bs_desktop :: "string list"
  bs_page :: "page_record option"

definition remember_session_host :: "string \<Rightarrow> browser_state \<Rightarrow> browser_state" where
  "remember_session_host host s =
     (let h = normalize_browser_host host in
      if h = [] then s else s\<lparr>bs_sidecar := List.insert h (bs_sidecar s)\<rparr>)"

definition session_host_allowed :: "browser_state \<Rightarrow> string \<Rightarrow> bool" where
  "session_host_allowed s host \<longleftrightarrow> normalize_browser_host host \<in> set (bs_sidecar s)"

definition merged_allowlist :: "browser_state \<Rightarrow> string list" where
  "merged_allowlist s =
     filter (\<lambda>h. h \<noteq> []) (map normalize_browser_host (bs_persistent s)) @ bs_sidecar s"

definition browser_navigate_needs_external_ask :: "browser_state \<Rightarrow> string \<Rightarrow> string option" where
  "browser_navigate_needs_external_ask s raw =
     (case agent_external_https_host raw of
        None \<Rightarrow> None
      | Some host \<Rightarrow>
          if bs_yolo s then None
          else if session_host_allowed s host then None
          else agent_navigate_needs_external_approval raw (merged_allowlist s) False)"

definition allow_host_session :: "string \<Rightarrow> browser_state \<Rightarrow> policy_error + browser_state" where
  "allow_host_session host s =
     (let h = normalize_browser_host host in
      if h = [] then Inl (''no_host'', [])
      else if is_loopback_host h then Inr s
      else Inr (s\<lparr>bs_desktop := List.insert h (bs_desktop s)\<rparr>))"

definition effective_allowlist :: "browser_state \<Rightarrow> string list" where
  "effective_allowlist s = bs_persistent s @ bs_desktop s"

text \<open>
  The desktop's part: a navigation that was validated begins a chain, goes into the history and to the
  web view, and the host in the text of its URL joins the session hosts.
\<close>

definition nav_opts_of :: "browser_state \<Rightarrow> nav_opts" where
  "nav_opts_of s =
     \<lparr>no_allowlist = effective_allowlist s, no_allow_private_lan = bs_lan s, no_workspace_root = bs_root s\<rparr>"

definition agent_navigate :: "url_env \<Rightarrow> browser_state \<Rightarrow> string \<Rightarrow> browser_state \<times> (policy_error + url)" where
  "agent_navigate env s raw =
     (case validate_navigation_with env raw Agent (nav_opts_of s) of
        Inl e \<Rightarrow> (s, Inl e)
      | Inr u \<Rightarrow>
          (case bs_page s of
             None \<Rightarrow> (s, Inl (''browser_host_missing'', []))
           | Some rec \<Rightarrow>
               if pr_creating rec then (s, Inl (''browser_creating'', []))
               else
                 let rec1 = push_history (u_text u) (rec\<lparr>pr_chain := begin_agent (ue_now env) (pr_chain rec)\<rparr>);
                     s1 = s\<lparr>bs_page := Some (rec1\<lparr>pr_loading := True\<rparr>)\<rparr>
                 in case ue_webview_error env u of
                   Some e \<Rightarrow> (s1, Inl e)
                 | None \<Rightarrow>
                     ((case agent_external_https_host (u_text u) of
                         None \<Rightarrow> s1
                       | Some host \<Rightarrow> (case allow_host_session host s1 of Inl _ \<Rightarrow> s1 | Inr s2 \<Rightarrow> s2)),
                      Inr u)))"

text \<open>The gate every navigation of the page itself goes through, and a page opened in place of a new window.\<close>

definition gate_navigation :: "url_env \<Rightarrow> browser_state \<Rightarrow> string \<Rightarrow> browser_state \<times> bool" where
  "gate_navigation env s url_str =
     (if eq_ignore_ascii_case url_str ''about:blank'' then (s, True)
      else
        case (case bs_page s of
                Some rec \<Rightarrow>
                  (case expire_if_needed (ue_now env) (pr_chain rec) of
                     (c, actor) \<Rightarrow> (s\<lparr>bs_page := Some (rec\<lparr>pr_chain := c\<rparr>)\<rparr>, actor))
              | None \<Rightarrow> (s, Human)) of
          (s1, actor) \<Rightarrow>
            (case validate_navigation_with env url_str actor (nav_opts_of s1) of
               Inr _ \<Rightarrow> (s1, True)
             | Inl _ \<Rightarrow> (s1, False)))"

definition navigate_host_url :: "url_env \<Rightarrow> browser_state \<Rightarrow> url \<Rightarrow> browser_state \<times> (policy_error + unit)" where
  "navigate_host_url env s u =
     (case bs_page s of
        None \<Rightarrow> (s, Inl (''browser_host_missing'', []))
      | Some rec \<Rightarrow>
          if pr_creating rec then (s, Inl (''browser_creating'', []))
          else
            (s\<lparr>bs_page := Some ((push_history (u_text u) rec)\<lparr>pr_loading := True\<rparr>)\<rparr>,
             case ue_webview_error env u of Some e \<Rightarrow> Inl e | None \<Rightarrow> Inr ()))"

text \<open>The tool, once it runs.\<close>

definition execute_browser_navigate ::
  "url_env \<Rightarrow> browser_state \<Rightarrow> string \<Rightarrow> browser_state \<times> (policy_error + url)" where
  "execute_browser_navigate env s raw =
     (case (case agent_external_https_host raw of
              None \<Rightarrow> Inr s
            | Some ext_host \<Rightarrow> allow_host_session ext_host s) of
        Inl e \<Rightarrow> (s, Inl e)
      | Inr s1 \<Rightarrow>
          (case agent_navigate env s1 raw of
             (s2, Inl e) \<Rightarrow> (s2, Inl e)
           | (s2, Inr u) \<Rightarrow>
               ((case agent_external_https_host raw of
                   None \<Rightarrow> s2
                 | Some ext_host \<Rightarrow> remember_session_host ext_host s2), Inr u)))"

section \<open>Browsing\<close>

text \<open>
  Runs of the tool: the state, the hosts on the cards the user approved, the URLs that were opened. A
  call that needs a card runs only when the user approves it. Between the calls the page record changes
  as it will: pages load, the user browses.
\<close>

inductive browsing :: "url_env \<Rightarrow> browser_state \<Rightarrow> browser_state \<Rightarrow> string set \<Rightarrow> url list \<Rightarrow> bool"
  for env s0 where
  start: "browsing env s0 s0 {} []"
| opens: "browsing env s0 s cards vs \<Longrightarrow> execute_browser_navigate env s raw = (s', Inr u) \<Longrightarrow>
    browsing env s0 s' (set_option (browser_navigate_needs_external_ask s raw) \<union> cards) (u # vs)"
| fails: "browsing env s0 s cards vs \<Longrightarrow> execute_browser_navigate env s raw = (s', Inl e) \<Longrightarrow>
    browsing env s0 s' (set_option (browser_navigate_needs_external_ask s raw) \<union> cards) vs"
| page: "browsing env s0 s cards vs \<Longrightarrow> browsing env s0 (s\<lparr>bs_page := p\<rparr>) cards vs"

text \<open>A host names another when some number of normalisations leads from one to the other.\<close>

definition names_host :: "string \<Rightarrow> string \<Rightarrow> bool" where
  "names_host a h \<longleftrightarrow> (\<exists>n. (normalize_browser_host ^^ n) a = h)"

lemma names_self: "names_host a a"
  unfolding names_host_def by (rule exI [of _ 0]) simp

lemma names_normal: "names_host a h \<Longrightarrow> names_host a (normalize_browser_host h)"
  unfolding names_host_def by (metis funpow.simps(2) comp_apply)

definition web_url :: "url \<Rightarrow> bool" where
  "web_url u \<longleftrightarrow> to_ascii_lowercase (u_scheme u) = ''http'' \<or> to_ascii_lowercase (u_scheme u) = ''https''"

text \<open>
  What the run relies on: the text of a parsed URL has no external host of its own; it is the host of the
  text it was parsed from, or the host of the URL. The text of a file URL has none.
\<close>

definition faithful_text :: "url_env \<Rightarrow> bool" where
  "faithful_text env \<longleftrightarrow>
     (\<forall>raw u h. ue_parse env (trim raw) = Inr u \<longrightarrow> agent_external_https_host (u_text u) = Some h \<longrightarrow>
        agent_external_https_host raw = Some h \<or> web_url u \<and> host_of_url u = h) \<and>
     (\<forall>p u. ue_from_path env p = Some u \<longrightarrow> agent_external_https_host (u_text u) = None \<and> \<not> web_url u)"

text \<open>An agent opens a web page of an external host only by https and from the allow list.\<close>

lemma agent_web_url:
  assumes "validate_web_url u scheme Agent opts = Inr u'" and "\<not> no_allow_private_lan opts"
  shows "u' = u \<and> (is_loopback_host (host_of_url u) \<or>
    scheme \<noteq> ''http'' \<and> (\<exists>h \<in> set (no_allowlist opts). normalize_browser_host h = host_of_url u))"
  using assms
  by (auto simp: validate_web_url_def Let_def list_ex_iff split: if_splits)

definition permitted :: "browser_state \<Rightarrow> string set \<Rightarrow> string \<Rightarrow> bool" where
  "permitted s0 cards h \<longleftrightarrow> (\<exists>a \<in> set (bs_persistent s0) \<union> cards. names_host a h)"

lemma permitted_normal: "permitted s0 cards h \<Longrightarrow> permitted s0 cards (normalize_browser_host h)"
  unfolding permitted_def using names_normal by blast

lemma permitted_more: "permitted s0 cards h \<Longrightarrow> permitted s0 (extra \<union> cards) h"
  unfolding permitted_def by blast

definition lists_permitted :: "browser_state \<Rightarrow> browser_state \<Rightarrow> string set \<Rightarrow> bool" where
  "lists_permitted s0 s cards \<longleftrightarrow>
     bs_persistent s = bs_persistent s0 \<and> bs_yolo s = bs_yolo s0 \<and> bs_lan s = bs_lan s0 \<and>
     (\<forall>h \<in> set (bs_sidecar s) \<union> set (bs_desktop s). permitted s0 cards h)"

lemma allow_host_permitted:
  assumes "allow_host_session h s = Inr s'" and "lists_permitted s0 s cards"
    and "permitted s0 cards (normalize_browser_host h)"
  shows "lists_permitted s0 s' cards"
  using assms by (auto simp: allow_host_session_def lists_permitted_def Let_def split: if_splits)

lemma remember_permitted:
  assumes "lists_permitted s0 s cards" and "permitted s0 cards (normalize_browser_host h)"
  shows "lists_permitted s0 (remember_session_host h s) cards"
  using assms by (auto simp: remember_session_host_def lists_permitted_def Let_def)

lemma asked_or_permitted:
  assumes "agent_external_https_host raw = Some ext" and "lists_permitted s0 s cards" and "\<not> bs_yolo s0"
  shows "permitted s0 (set_option (browser_navigate_needs_external_ask s raw) \<union> cards) (normalize_browser_host ext)"
proof (cases "browser_navigate_needs_external_ask s raw")
  case (Some h)
  then have "h = ext"
    using assms(1) by (auto simp: browser_navigate_needs_external_ask_def
        agent_navigate_needs_external_approval_def split: if_splits)
  with Some show ?thesis
    unfolding permitted_def using names_normal [OF names_self, of ext] by auto
next
  case None
  have persistent: "bs_persistent s = bs_persistent s0" "\<not> bs_yolo s" using assms(2,3) by (auto simp: lists_permitted_def)
  from None assms(1) consider "normalize_browser_host ext \<in> set (bs_sidecar s)"
    | h where "h \<in> set (merged_allowlist s)" "normalize_browser_host h = ext"
    using persistent(2)
    by (auto simp: browser_navigate_needs_external_ask_def session_host_allowed_def
        agent_navigate_needs_external_approval_def list_ex_iff split: if_splits)
  then have "permitted s0 cards (normalize_browser_host ext)"
  proof cases
    case 1
    with assms(2) show ?thesis by (auto simp: lists_permitted_def)
  next
    case 2
    then consider "h \<in> set (bs_sidecar s)" | p where "p \<in> set (bs_persistent s0)" "h = normalize_browser_host p"
      using persistent(1) by (auto simp: merged_allowlist_def)
    then have "permitted s0 cards h"
    proof cases
      case 1
      with assms(2) show ?thesis by (auto simp: lists_permitted_def)
    next
      case (2 p)
      then show ?thesis unfolding permitted_def using names_normal [OF names_self, of p] by blast
    qed
    with 2(2) show ?thesis using permitted_normal by blast
  qed
  then show ?thesis by (rule permitted_more)
qed

lemma validated_agent:
  assumes "validate_navigation_with env raw Agent opts = Inr u" and "\<not> no_allow_private_lan opts"
  shows "(\<exists>p. ue_from_path env p = Some u) \<or>
    ue_parse env (trim raw) = Inr u \<and>
    (\<not> web_url u \<or> is_loopback_host (host_of_url u) \<or>
     (\<exists>h \<in> set (no_allowlist opts). normalize_browser_host h = host_of_url u))"
  using assms
  by (auto simp: validate_navigation_with_def web_url_def validate_file_url_def Let_def
      split: if_splits sum.splits option.splits dest: agent_web_url)

lemma external_not_loopback: "agent_external_https_host raw = Some h \<Longrightarrow> \<not> is_loopback_host h"
  by (auto simp: agent_external_https_host_def Let_def split: if_splits)

lemma permitted_page: "lists_permitted s0 s cards \<Longrightarrow> lists_permitted s0 (s\<lparr>bs_page := p\<rparr>) cards"
  by (simp add: lists_permitted_def)

lemma agent_navigate_failed:
  "agent_navigate env s raw = (s', Inl e) \<Longrightarrow> lists_permitted s0 s cards \<Longrightarrow> lists_permitted s0 s' cards"
  by (auto simp: agent_navigate_def Let_def permitted_page split: sum.splits option.splits if_splits)

lemma agent_navigate_permitted:
  assumes run: "agent_navigate env s raw = (s', Inr u)" and lists: "lists_permitted s0 s cards"
    and lan: "\<not> bs_lan s0" and env: "faithful_text env"
    and ext: "\<And>h. agent_external_https_host raw = Some h \<Longrightarrow> permitted s0 cards (normalize_browser_host h)"
  shows "lists_permitted s0 s' cards \<and>
    (web_url u \<longrightarrow> is_loopback_host (host_of_url u) \<or> permitted s0 cards (host_of_url u))"
proof -
  have v: "validate_navigation_with env raw Agent (nav_opts_of s) = Inr u"
    using run by (auto simp: agent_navigate_def Let_def split: sum.splits option.splits if_splits)
  have "\<not> no_allow_private_lan (nav_opts_of s)" using lists lan by (simp add: lists_permitted_def nav_opts_of_def)
  note parsed = validated_agent [OF v this]
  have effective: "permitted s0 cards (normalize_browser_host h)" if "h \<in> set (effective_allowlist s)" for h
  proof -
    have "h \<in> set (bs_persistent s0) \<or> h \<in> set (bs_desktop s)"
      using that lists by (auto simp: effective_allowlist_def lists_permitted_def)
    then have "permitted s0 cards h"
      using lists names_self by (auto simp: lists_permitted_def permitted_def)
    then show ?thesis by (rule permitted_normal)
  qed
  have visited: "web_url u \<longrightarrow> is_loopback_host (host_of_url u) \<or> permitted s0 cards (host_of_url u)"
  proof
    assume "web_url u"
    with parsed env have "is_loopback_host (host_of_url u) \<or>
        (\<exists>h \<in> set (effective_allowlist s). normalize_browser_host h = host_of_url u)"
      by (auto simp: faithful_text_def nav_opts_of_def)
    then show "is_loopback_host (host_of_url u) \<or> permitted s0 cards (host_of_url u)"
      by (metis effective)
  qed
  have "permitted s0 cards (normalize_browser_host h)" if "agent_external_https_host (u_text u) = Some h" for h
  proof -
    have "ue_parse env (trim raw) = Inr u" using parsed env that by (auto simp: faithful_text_def)
    then have "agent_external_https_host raw = Some h \<or> web_url u \<and> host_of_url u = h"
      using env that by (simp add: faithful_text_def)
    then show ?thesis
      using ext visited external_not_loopback [OF that] permitted_normal by auto
  qed
  then have "lists_permitted s0 s' cards"
    using run lists v allow_host_permitted permitted_page
    by (auto simp: agent_navigate_def Let_def split: option.splits sum.splits if_splits)
  with visited show ?thesis by blast
qed

lemma execute_permitted:
  assumes run: "execute_browser_navigate env s raw = (s', r)" and lists: "lists_permitted s0 s cards"
    and lan: "\<not> bs_lan s0" and env: "faithful_text env" and yolo: "\<not> bs_yolo s0"
  defines "cards' \<equiv> set_option (browser_navigate_needs_external_ask s raw) \<union> cards"
  shows "lists_permitted s0 s' cards' \<and>
    (\<forall>u. r = Inr u \<longrightarrow> web_url u \<longrightarrow> is_loopback_host (host_of_url u) \<or> permitted s0 cards' (host_of_url u))"
proof -
  have ext: "permitted s0 cards' (normalize_browser_host h)" if "agent_external_https_host raw = Some h" for h
    using asked_or_permitted [OF that lists yolo] by (simp add: cards'_def)
  have lists': "lists_permitted s0 s cards'"
    using lists permitted_more by (auto simp: lists_permitted_def cards'_def)
  define seeded where "seeded = (case agent_external_https_host raw of
      None \<Rightarrow> Inr s | Some ext_host \<Rightarrow> allow_host_session ext_host s)"
  show ?thesis
  proof (cases seeded)
    case (Inl e)
    with run lists' show ?thesis by (auto simp: execute_browser_navigate_def seeded_def)
  next
    case (Inr s1)
    have lists1: "lists_permitted s0 s1 cards'"
      using Inr lists' ext allow_host_permitted by (auto simp: seeded_def split: option.splits)
    obtain s2 r2 where nav: "agent_navigate env s1 raw = (s2, r2)" by fastforce
    show ?thesis
    proof (cases r2)
      case (Inl e)
      then have "lists_permitted s0 s2 cards'" using nav lists1 agent_navigate_failed by blast
      with run Inr Inl nav show ?thesis by (auto simp: execute_browser_navigate_def seeded_def)
    next
      case (Inr u)
      note opened = agent_navigate_permitted [OF nav [unfolded Inr] lists1 lan env ext]
      have "s' = (case agent_external_https_host raw of None \<Rightarrow> s2 | Some h \<Rightarrow> remember_session_host h s2)"
        "r = Inr u"
        using run \<open>seeded = Inr s1\<close> nav Inr
        by (auto simp: execute_browser_navigate_def seeded_def)
      then show ?thesis
        using opened ext remember_permitted by (auto split: option.splits)
    qed
  qed
qed


section \<open>A page nobody approved\<close>

text \<open>
  A URL library that drops line breaks, as the URL standard asks, and keeps the user name of a URL in its
  text.
\<close>

definition split_host :: string where
  "split_host = ''al'' @ [CHR 0x0A] @ ''lowed.com''"

definition good_url :: url where
  "good_url = \<lparr>u_text = ''https://allowed.com:x@good.com/'', u_scheme = ''https'', u_host = Some ''good.com''\<rparr>"

definition allowed_url :: url where
  "allowed_url = \<lparr>u_text = ''https://good.com:x@allowed.com/'', u_scheme = ''https'', u_host = Some ''allowed.com''\<rparr>"

definition standard_env :: url_env where
  "standard_env =
     \<lparr>ue_parse = (\<lambda>raw. if raw = ''https://'' @ split_host @ '':x@good.com/'' then Inr good_url
        else if raw = u_text allowed_url then Inr allowed_url else Inl ''not a URL''),
      ue_file_path = (\<lambda>u. None), ue_canonicalize = (\<lambda>p. Inl ''missing''), ue_from_path = (\<lambda>p. None),
      ue_now = 0, ue_webview_error = (\<lambda>u. None)\<rparr>"

definition new_page :: page_record where
  "new_page = \<lparr>pr_creating = False, pr_chain = human_chain, pr_history = [], pr_history_idx = 0, pr_loading = False\<rparr>"

definition one_preference :: browser_state where
  "one_preference =
     \<lparr>bs_persistent = [''good.com''], bs_yolo = False, bs_lan = False, bs_root = None, bs_sidecar = [], bs_desktop = [],
      bs_page = Some new_page\<rparr>"

lemma sample_trims:
  "trim ''good.com'' = ''good.com''" "trim ''allowed.com'' = ''allowed.com''" "trim split_host = split_host"
  "trim (''https://'' @ split_host @ '':x@good.com/'') = ''https://'' @ split_host @ '':x@good.com/''"
  "trim ''https://allowed.com:x@good.com/'' = ''https://allowed.com:x@good.com/''"
  "trim ''https://good.com:x@allowed.com/'' = ''https://good.com:x@allowed.com/''"
  "trim (split_host @ '':x@good.com'') = split_host @ '':x@good.com''"
  "trim ''allowed.com:x@good.com'' = ''allowed.com:x@good.com''"
  "trim ''good.com:x@allowed.com'' = ''good.com:x@allowed.com''"
  by (rule trim_fixed; simp add: split_host_def trim_eval bit_0)+

lemma sample_normal_hosts:
  "normalize_browser_host ''good.com'' = ''good.com''" "normalize_browser_host ''allowed.com'' = ''allowed.com''"
  "normalize_browser_host split_host = split_host"
  by (simp_all add: normalize_browser_host_def sample_trims)
     (simp_all add: drop_brackets_def split_host_def to_ascii_lowercase_def ascii_lower_char_def Let_def)

lemma sample_external:
  "agent_external_https_host (''https://'' @ split_host @ '':x@good.com/'') = Some split_host"
  "agent_external_https_host ''https://allowed.com:x@good.com/'' = Some ''allowed.com''"
  "agent_external_https_host ''https://good.com:x@allowed.com/'' = Some ''good.com''"
proof -
  have loopback: "\<not> is_loopback_host split_host" "\<not> is_loopback_host ''allowed.com''" "\<not> is_loopback_host ''good.com''"
    unfolding is_loopback_host_def sample_normal_hosts by (simp_all add: split_host_def)
  note eval = agent_external_https_host_def starts_with_def to_ascii_lowercase_def ascii_lower_char_def Let_def
  show "agent_external_https_host ''https://allowed.com:x@good.com/'' = Some ''allowed.com''"
    "agent_external_https_host ''https://good.com:x@allowed.com/'' = Some ''good.com''"
    using loopback by (simp_all add: eval sample_trims)
  show "agent_external_https_host (''https://'' @ split_host @ '':x@good.com/'') = Some split_host"
    using loopback(1) sample_trims(4,7) by (simp add: eval split_host_def)
qed

lemma names_fixed: "normalize_browser_host a = a \<Longrightarrow> names_host a h \<longleftrightarrow> h = a"
proof -
  assume a: "normalize_browser_host a = a"
  have "(normalize_browser_host ^^ n) a = a" for n by (induction n) (simp_all add: a)
  then show ?thesis by (auto simp: names_host_def)
qed

lemma sample_hosts_external:
  "\<not> is_loopback_host split_host" "\<not> is_loopback_host ''allowed.com''" "\<not> is_loopback_host ''good.com''"
  "\<not> is_private_or_link_local_host ''allowed.com''" "\<not> is_private_or_link_local_host ''good.com''"
  unfolding is_loopback_host_def sample_normal_hosts
  by (simp_all add: split_host_def is_private_or_link_local_host_def starts_with_def strip_prefix_def)

lemma sample_valid:
  "validate_navigation_with standard_env (''https://'' @ split_host @ '':x@good.com/'') Agent opts =
     (if list_ex (\<lambda>h. normalize_browser_host h = ''good.com'') (no_allowlist opts) then Inr good_url
      else Inl (''agent_external_needs_ask'', [''good.com'']))"
  "validate_navigation_with standard_env ''https://good.com:x@allowed.com/'' Agent opts =
     (if list_ex (\<lambda>h. normalize_browser_host h = ''allowed.com'') (no_allowlist opts) then Inr allowed_url
      else Inl (''agent_external_needs_ask'', [''allowed.com'']))"
proof -
  have https: "to_ascii_lowercase ''https'' = ''https''" by (simp add: to_ascii_lowercase_def ascii_lower_char_def)
  show "validate_navigation_with standard_env (''https://'' @ split_host @ '':x@good.com/'') Agent opts =
     (if list_ex (\<lambda>h. normalize_browser_host h = ''good.com'') (no_allowlist opts) then Inr good_url
      else Inl (''agent_external_needs_ask'', [''good.com'']))"
    unfolding validate_navigation_with_def sample_trims(4)
    using sample_hosts_external
    by (simp add: standard_env_def good_url_def https validate_web_url_def host_of_url_def sample_normal_hosts)
  show "validate_navigation_with standard_env ''https://good.com:x@allowed.com/'' Agent opts =
     (if list_ex (\<lambda>h. normalize_browser_host h = ''allowed.com'') (no_allowlist opts) then Inr allowed_url
      else Inl (''agent_external_needs_ask'', [''allowed.com'']))"
    using sample_hosts_external
    by (simp add: validate_navigation_with_def sample_trims standard_env_def allowed_url_def https validate_web_url_def
        host_of_url_def sample_normal_hosts split_host_def)
qed

lemma sample_allow:
  "allow_host_session split_host s = Inr (s\<lparr>bs_desktop := List.insert split_host (bs_desktop s)\<rparr>)"
  "allow_host_session ''allowed.com'' s = Inr (s\<lparr>bs_desktop := List.insert ''allowed.com'' (bs_desktop s)\<rparr>)"
  "allow_host_session ''good.com'' s = Inr (s\<lparr>bs_desktop := List.insert ''good.com'' (bs_desktop s)\<rparr>)"
  "remember_session_host split_host s = s\<lparr>bs_sidecar := List.insert split_host (bs_sidecar s)\<rparr>"
  "remember_session_host ''good.com'' s = s\<lparr>bs_sidecar := List.insert ''good.com'' (bs_sidecar s)\<rparr>"
proof -
  have "split_host \<noteq> []" by (simp add: split_host_def)
  then show
    "allow_host_session split_host s = Inr (s\<lparr>bs_desktop := List.insert split_host (bs_desktop s)\<rparr>)"
    "allow_host_session ''allowed.com'' s = Inr (s\<lparr>bs_desktop := List.insert ''allowed.com'' (bs_desktop s)\<rparr>)"
    "allow_host_session ''good.com'' s = Inr (s\<lparr>bs_desktop := List.insert ''good.com'' (bs_desktop s)\<rparr>)"
    "remember_session_host split_host s = s\<lparr>bs_sidecar := List.insert split_host (bs_sidecar s)\<rparr>"
    "remember_session_host ''good.com'' s = s\<lparr>bs_sidecar := List.insert ''good.com'' (bs_sidecar s)\<rparr>"
    by (simp_all add: allow_host_session_def remember_session_host_def sample_normal_hosts sample_hosts_external)
qed

text \<open>The states between the calls, for any page record that is not being made.\<close>

definition after_one :: "page_record \<Rightarrow> browser_state" where
  "after_one p = one_preference\<lparr>bs_sidecar := [split_host], bs_desktop := [''allowed.com'', split_host], bs_page := Some p\<rparr>"

definition after_two :: "page_record \<Rightarrow> browser_state" where
  "after_two p = one_preference\<lparr>bs_sidecar := [''good.com'', split_host],
     bs_desktop := [''good.com'', ''allowed.com'', split_host], bs_page := Some p\<rparr>"

lemma push_history_creating: "pr_creating (push_history h p) = pr_creating p"
  by (simp add: push_history_def Let_def)

lemma sample_calls:
  "\<exists>p. \<not> pr_creating p \<and>
     execute_browser_navigate standard_env one_preference (''https://'' @ split_host @ '':x@good.com/'') =
     (after_one p, Inr good_url)"
  "\<not> pr_creating p \<Longrightarrow> \<exists>q.
     execute_browser_navigate standard_env (after_one p) (u_text allowed_url) = (after_two q, Inr allowed_url)"
proof -
  have texts: "u_text good_url = ''https://allowed.com:x@good.com/''"
    "u_text allowed_url = ''https://good.com:x@allowed.com/''" by (simp_all add: good_url_def allowed_url_def)
  have ne: "''allowed.com'' \<noteq> split_host" "''good.com'' \<noteq> split_host" by (simp_all add: split_host_def)
  note call = execute_browser_navigate_def agent_navigate_def
  note state = nav_opts_of_def effective_allowlist_def one_preference_def
  have env: "ue_webview_error standard_env = (\<lambda>u. None)" by (simp add: standard_env_def)
  show "\<exists>p. \<not> pr_creating p \<and>
     execute_browser_navigate standard_env one_preference (''https://'' @ split_host @ '':x@good.com/'') =
     (after_one p, Inr good_url)"
    unfolding call sample_external(1) sample_valid(1)
    using ne by (simp add: state sample_normal_hosts sample_allow texts sample_external after_one_def
        new_page_def env Let_def push_history_creating)
  show "\<not> pr_creating p \<Longrightarrow> \<exists>q.
     execute_browser_navigate standard_env (after_one p) (u_text allowed_url) = (after_two q, Inr allowed_url)"
    unfolding call texts sample_external(3) sample_valid(2)
    using ne by (simp add: state sample_normal_hosts sample_allow texts sample_external after_one_def
        after_two_def env Let_def push_history_creating)
qed

lemma sample_asks:
  "browser_navigate_needs_external_ask one_preference (''https://'' @ split_host @ '':x@good.com/'') = Some split_host"
  "browser_navigate_needs_external_ask (after_one p) (u_text allowed_url) = None"
proof -
  have "''good.com'' \<noteq> split_host" by (simp add: split_host_def)
  then show
  "browser_navigate_needs_external_ask one_preference (''https://'' @ split_host @ '':x@good.com/'') = Some split_host"
  "browser_navigate_needs_external_ask (after_one p) (u_text allowed_url) = None"
    unfolding browser_navigate_needs_external_ask_def agent_navigate_needs_external_approval_def sample_external(1)
    by (simp_all add: allowed_url_def sample_external one_preference_def session_host_allowed_def merged_allowlist_def
        sample_normal_hosts after_one_def)
qed

text \<open>A run with one card: the user approves the page of a host that is in no preference.\<close>

definition plain_url :: url where
  "plain_url = \<lparr>u_text = ''https://good.com/'', u_scheme = ''https'', u_host = Some ''good.com''\<rparr>"

definition plain_browser_env :: url_env where
  "plain_browser_env =
     \<lparr>ue_parse = (\<lambda>raw. if raw = u_text plain_url then Inr plain_url else Inl ''not a URL''),
      ue_file_path = (\<lambda>u. None), ue_canonicalize = (\<lambda>p. Inl ''missing''), ue_from_path = (\<lambda>p. None),
      ue_now = 0, ue_webview_error = (\<lambda>u. None)\<rparr>"

definition no_preference :: browser_state where
  "no_preference =
     \<lparr>bs_persistent = [], bs_yolo = False, bs_lan = False, bs_root = None, bs_sidecar = [], bs_desktop = [],
      bs_page = Some new_page\<rparr>"

lemma plain_external: "agent_external_https_host ''https://good.com/'' = Some ''good.com''"
proof -
  have "trim ''https://good.com/'' = ''https://good.com/''" by (rule trim_fixed; simp add: trim_eval bit_0)
  then show ?thesis
    using sample_hosts_external(3)
    by (simp add: agent_external_https_host_def starts_with_def to_ascii_lowercase_def ascii_lower_char_def Let_def sample_trims)
qed

lemma plain_faithful: "faithful_text plain_browser_env"
  using plain_external
  by (auto simp: faithful_text_def plain_browser_env_def plain_url_def host_of_url_def sample_normal_hosts web_url_def
      to_ascii_lowercase_def ascii_lower_char_def split: if_splits)

lemma plain_call:
  "\<exists>s. execute_browser_navigate plain_browser_env no_preference ''https://good.com/'' = (s, Inr plain_url)"
proof -
  have "trim ''https://good.com/'' = ''https://good.com/''" by (rule trim_fixed; simp add: trim_eval bit_0)
  moreover have "to_ascii_lowercase ''https'' = ''https''" by (simp add: to_ascii_lowercase_def ascii_lower_char_def)
  ultimately show ?thesis
    using sample_hosts_external(3,5)
    by (simp add: execute_browser_navigate_def agent_navigate_def plain_external sample_allow
        validate_navigation_with_def plain_browser_env_def plain_url_def validate_web_url_def host_of_url_def
        sample_normal_hosts effective_allowlist_def no_preference_def nav_opts_of_def new_page_def
        push_history_creating Let_def)
qed

lemma plain_asks: "browser_navigate_needs_external_ask no_preference ''https://good.com/'' = Some ''good.com''"
  by (simp add: browser_navigate_needs_external_ask_def agent_navigate_needs_external_approval_def plain_external
      no_preference_def session_host_allowed_def merged_allowlist_def)

lemma plain_run: "\<exists>s. browsing plain_browser_env no_preference s {''good.com''} [plain_url]"
proof -
  obtain s where "execute_browser_navigate plain_browser_env no_preference ''https://good.com/'' = (s, Inr plain_url)"
    using plain_call by blast
  from browsing.opens [OF browsing.start this, unfolded plain_asks] show ?thesis by auto
qed


text \<open>
  With a URL library that drops line breaks and keeps user names, as the URL standard has it, the
  approval can be passed by: after one approved card, for a host with a line break in it, the desktop
  has a session host of its own making, and the next call opens a page on it without a card, though it
  is in no preference and was on no card.
\<close>

theorem page_opened_without_approval:
  "\<exists>s. browsing standard_env one_preference s {split_host} [allowed_url, good_url] \<and>
     \<not> (\<exists>a \<in> set (bs_persistent one_preference) \<union> {split_host}. names_host a (host_of_url allowed_url))"
proof -
  obtain p where p: "\<not> pr_creating p"
    "execute_browser_navigate standard_env one_preference (''https://'' @ split_host @ '':x@good.com/'') =
     (after_one p, Inr good_url)"
    using sample_calls(1) by blast
  have one: "browsing standard_env one_preference (after_one p) {split_host} [good_url]"
    using browsing.opens [OF browsing.start p(2), unfolded sample_asks(1)] by simp
  obtain q where q: "execute_browser_navigate standard_env (after_one p) (u_text allowed_url) =
      (after_two q, Inr allowed_url)"
    using sample_calls(2) [OF p(1)] by blast
  have "browsing standard_env one_preference (after_two q) {split_host} [allowed_url, good_url]"
    using browsing.opens [OF one q, unfolded sample_asks(2)] by simp
  moreover have "host_of_url allowed_url = ''allowed.com''"
    by (simp add: host_of_url_def allowed_url_def sample_normal_hosts)
  moreover have "''allowed.com'' \<noteq> split_host" by (simp add: split_host_def)
  ultimately show ?thesis
    by (intro exI conjI) (auto simp: one_preference_def names_fixed sample_normal_hosts)
qed

section \<open>Hosts that only look private\<close>

text \<open>
  A name is taken for an address: every host whose name begins with the letters fc or fd, or with
  the digits of a private range and a dot, is refused as a host of the local network, for the user
  as well as for an agent, whatever is in the allow list, unless private networks are allowed.
\<close>

theorem private_looking_name_refused:
  assumes "ue_parse env (trim raw) = Inr u" and "trim raw \<noteq> []" and "to_ascii_lowercase (u_scheme u) = ''https''"
    and "u_host u = Some (pre @ rest)" and "normalize_browser_host (pre @ rest) = pre @ rest"
    and "pre \<in> {''fc'', ''fd'', ''10.'', ''192.168.'', ''169.254.''}" and "\<not> no_allow_private_lan opts"
  shows "validate_navigation_with env raw actor opts = Inl (''lan_forbidden'', [pre @ rest])"
proof -
  have host: "host_of_url u = pre @ rest" using assms(4,5) by (simp add: host_of_url_def)
  have "pre @ rest \<noteq> []" "pre @ rest \<noteq> ''0.0.0.0''" using assms(6) by auto
  moreover have "is_private_or_link_local_host (pre @ rest)"
    using assms(6) by (auto simp: is_private_or_link_local_host_def starts_with_def)
  moreover have "\<not> is_loopback_host (pre @ rest)"
    using assms(6) unfolding is_loopback_host_def assms(5) by auto
  ultimately show ?thesis
    using assms(1-3,7) by (simp add: validate_navigation_with_def validate_web_url_def host Let_def)
qed

text \<open>The deposit insurance of the United States.\<close>

definition fdic_url :: url where
  "fdic_url = \<lparr>u_text = ''https://fdic.gov/'', u_scheme = ''https'', u_host = Some ''fdic.gov''\<rparr>"

definition fdic_env :: url_env where
  "fdic_env = standard_env\<lparr>ue_parse := (\<lambda>raw. Inr fdic_url)\<rparr>"

lemma fdic_trims: "trim ''https://fdic.gov/'' = ''https://fdic.gov/''" "trim ''fdic.gov'' = ''fdic.gov''"
  by (rule trim_fixed; simp add: trim_eval bit_0)+

lemma fdic_normal: "normalize_browser_host ''fdic.gov'' = ''fdic.gov''"
  by (simp add: normalize_browser_host_def fdic_trims)
     (simp add: drop_brackets_def to_ascii_lowercase_def ascii_lower_char_def Let_def)

theorem private_looking_name_refused_witness:
  "validate_navigation_with fdic_env ''https://fdic.gov/'' Human
     \<lparr>no_allowlist = [''fdic.gov''], no_allow_private_lan = False, no_workspace_root = None\<rparr> =
   Inl (''lan_forbidden'', [''fdic.gov''])"
  using private_looking_name_refused [of fdic_env "''https://fdic.gov/''" fdic_url "''fd''" "''ic.gov''"
      "\<lparr>no_allowlist = [''fdic.gov''], no_allow_private_lan = False, no_workspace_root = None\<rparr>" Human]
  by (simp add: fdic_env_def fdic_url_def fdic_trims fdic_normal to_ascii_lowercase_def ascii_lower_char_def)

section \<open>How long a chain keeps the agent's policy\<close>

text \<open>What happens to the chain after an agent's call: pages start and finish at given times.\<close>

datatype nav_event = Page_Started nat | Page_Finished nat | Polled nat

fun nav_time :: "nav_event \<Rightarrow> nat" where
  "nav_time (Page_Started t) = t"
| "nav_time (Page_Finished t) = t"
| "nav_time (Polled t) = t"

fun nav_step :: "nav_chain \<Rightarrow> nav_event \<Rightarrow> nav_chain" where
  "nav_step c (Page_Started t) = on_page_started c"
| "nav_step c (Page_Finished t) = on_page_finished t c"
| "nav_step c (Polled t) = fst (expire_if_needed t c)"

text \<open>
  A chain with a number of loads, last quiet at a given time, is never idle for the grace period when it
  is looked at.
\<close>

fun never_idle :: "nat \<Rightarrow> nat \<Rightarrow> nav_event list \<Rightarrow> nat \<Rightarrow> bool" where
  "never_idle quiet loads [] now \<longleftrightarrow> loads > 0 \<or> now < quiet + AGENT_NAV_GRACE_MS"
| "never_idle quiet loads (Page_Started t # es) now \<longleftrightarrow> never_idle quiet (Suc loads) es now"
| "never_idle quiet loads (Page_Finished t # es) now \<longleftrightarrow>
     never_idle (if loads = 1 then t else quiet) (loads - 1) es now"
| "never_idle quiet loads (Polled t # es) now \<longleftrightarrow>
     (loads > 0 \<or> t < quiet + AGENT_NAV_GRACE_MS) \<and> never_idle quiet loads es now"

definition chain_at :: "nat \<Rightarrow> nat \<Rightarrow> nav_chain \<Rightarrow> bool" where
  "chain_at quiet loads c \<longleftrightarrow> nc_actor c = Agent \<and> unat (nc_inflight c) = loads \<and>
     (loads = 0 \<longrightarrow> nc_grace_until c = Some (quiet + AGENT_NAV_GRACE_MS))"

lemma chain_at_effective:
  assumes "chain_at quiet loads c"
  shows "effective_actor now c = Agent \<longleftrightarrow> loads > 0 \<or> now < quiet + AGENT_NAV_GRACE_MS"
  using assms unat_gt_0 [of "nc_inflight c"] by (auto simp: chain_at_def effective_actor_def word_gt_0 split: if_splits)

lemma chain_at_started:
  assumes "chain_at quiet loads c" and "Suc loads < 2 ^ 32"
  shows "chain_at quiet (Suc loads) (on_page_started c)"
proof -
  have "unat (sat_add (nc_inflight c) 1) = Suc loads"
    using assms by (simp add: chain_at_def unat_sat_add)
  with assms(1) show ?thesis by (simp add: chain_at_def on_page_started_def)
qed

lemma chain_at_finished:
  assumes "chain_at quiet loads c"
  shows "chain_at (if loads = 1 then t else quiet) (loads - 1) (on_page_finished t c)"
proof (cases "nc_inflight c = 0")
  case True
  with assms show ?thesis by (auto simp: chain_at_def on_page_finished_def)
next
  case False
  then have "unat (nc_inflight c - 1) = loads - 1" "loads > 0"
    using assms by (auto simp: chain_at_def unat_minus_one unat_gt_0)
  moreover from this have "nc_inflight c - 1 = 0 \<longleftrightarrow> loads = 1"
    by (metis One_nat_def Suc_pred unat_eq_zero diff_Suc_1)
  ultimately show ?thesis
    using assms False by (simp add: chain_at_def on_page_finished_def Let_def word_gt_0)
qed

lemma chain_at_polled:
  assumes "chain_at quiet loads c" and "loads > 0 \<or> t < quiet + AGENT_NAV_GRACE_MS"
  shows "fst (expire_if_needed t c) = c"
  using assms chain_at_effective [OF assms(1), of t] by (simp add: expire_if_needed_def Let_def)

lemma chain_at_run:
  assumes "chain_at quiet loads c" and "loads + length es < 2 ^ 32" and "never_idle quiet loads es now"
  shows "effective_actor now (foldl nav_step c es) = Agent"
  using assms
proof (induction es arbitrary: quiet loads c)
  case Nil
  then show ?case by (simp add: chain_at_effective)
next
  case (Cons e es)
  show ?case
  proof (cases e)
    case (Page_Started t)
    with Cons.IH [OF chain_at_started [OF Cons.prems(1)]] Cons.prems show ?thesis by simp
  next
    case (Page_Finished t)
    with Cons.IH [OF chain_at_finished [OF Cons.prems(1)]] Cons.prems show ?thesis by simp
  next
    case (Polled t)
    with Cons.IH [OF Cons.prems(1)] Cons.prems chain_at_polled [OF Cons.prems(1)] show ?thesis by simp
  qed
qed

text \<open>
  The policy of an agent outlives its call: it holds as long as some page is loading or the last one
  finished less than three seconds ago. Fewer than 2 to the 32 pages load.
\<close>

lemma agent_policy_lasts:
  assumes "never_idle called (unat (nc_inflight c)) es now" and "unat (nc_inflight c) + length es < 2 ^ 32"
  shows "effective_actor now (foldl nav_step (begin_agent called c) es) = Agent"
  using chain_at_run [OF _ assms(2,1), of "begin_agent called c"]
  by (simp add: chain_at_def begin_agent_def)

text \<open>
  From an agent's call on, through redirects and delayed navigations, every web page the gate lets
  through is on a loopback host, or it is opened by https and its host is in the allow list, as long
  as some page is loading or the last one finished less than three seconds ago.
\<close>

theorem agent_pages_stay_checked:
  assumes "never_idle called (unat (nc_inflight c)) es (ue_now env)"
    and "unat (nc_inflight c) + length es < 2 ^ 32"
    and "bs_page s = Some rec" and "pr_chain rec = foldl nav_step (begin_agent called c) es"
    and "gate_navigation env s raw = (s', True)" and "\<not> eq_ignore_ascii_case raw ''about:blank''"
    and "ue_parse env (trim raw) = Inr u" and "web_url u" and "\<not> bs_lan s"
  shows "is_loopback_host (host_of_url u) \<or>
    to_ascii_lowercase (u_scheme u) = ''https'' \<and>
    (\<exists>h \<in> set (effective_allowlist s). normalize_browser_host h = host_of_url u)"
proof -
  have "effective_actor (ue_now env) (pr_chain rec) = Agent"
    using agent_policy_lasts [OF assms(1,2)] assms(4) by simp
  then have gate: "expire_if_needed (ue_now env) (pr_chain rec) = (pr_chain rec, Agent)"
    by (simp add: expire_if_needed_def Let_def)
  have same: "nav_opts_of (s\<lparr>bs_page := p\<rparr>) = nav_opts_of s" for p
    by (simp add: nav_opts_of_def effective_allowlist_def)
  obtain v where "validate_navigation_with env raw Agent (nav_opts_of s) = Inr v"
    using assms(3,5,6) gate by (auto simp: gate_navigation_def same split: sum.splits)
  with assms(7,8) have "validate_web_url u (to_ascii_lowercase (u_scheme u)) Agent (nav_opts_of s) = Inr v"
    by (auto simp: validate_navigation_with_def web_url_def Let_def split: if_splits)
  from agent_web_url [OF this] show ?thesis
    using assms(8,9) by (auto simp: web_url_def nav_opts_of_def)
qed

theorem agent_pages_stay_checked_witness:
  "is_loopback_host (host_of_url plain_url) \<or>
    to_ascii_lowercase (u_scheme plain_url) = ''https'' \<and>
    (\<exists>h \<in> set [''good.com'']. normalize_browser_host h = host_of_url plain_url)"
proof -
  let ?es = "[Page_Started 1200, Page_Started 3000, Page_Finished 5000, Polled 6000, Page_Finished 7000, Polled 8000]"
  let ?page = "new_page\<lparr>pr_chain := foldl nav_step (begin_agent 1000 human_chain) ?es\<rparr>"
  let ?s = "no_preference\<lparr>bs_persistent := [''good.com''], bs_page := Some ?page\<rparr>"
  let ?env = "plain_browser_env\<lparr>ue_now := 9500\<rparr>"
  have "trim ''https://good.com/'' = ''https://good.com/''" by (rule trim_fixed; simp add: trim_eval bit_0)
  moreover have "to_ascii_lowercase ''https'' = ''https''" by (simp add: to_ascii_lowercase_def ascii_lower_char_def)
  moreover have idle: "never_idle 1000 (unat (nc_inflight human_chain)) ?es 9500"
    by (simp add: human_chain_def AGENT_NAV_GRACE_MS_def)
  moreover have few: "unat (nc_inflight human_chain) + length ?es < 2 ^ 32" by (simp add: human_chain_def)
  moreover note agent_policy_lasts [OF idle few]
  ultimately have gate: "gate_navigation ?env ?s ''https://good.com/'' = (?s, True)"
    using sample_hosts_external(3,5)
    by (simp add: gate_navigation_def expire_if_needed_def Let_def eq_ignore_ascii_case_def
        validate_navigation_with_def plain_browser_env_def plain_url_def validate_web_url_def host_of_url_def
        sample_normal_hosts effective_allowlist_def no_preference_def nav_opts_of_def)
  have raw: "\<not> eq_ignore_ascii_case ''https://good.com/'' ''about:blank''"
    by (simp add: eq_ignore_ascii_case_def to_ascii_lowercase_def)
  have parsed: "ue_parse ?env (trim ''https://good.com/'') = Inr plain_url"
    using \<open>trim _ = _\<close> by (simp add: plain_browser_env_def plain_url_def)
  have web: "web_url plain_url"
    by (simp add: web_url_def plain_url_def to_ascii_lowercase_def ascii_lower_char_def)
  show ?thesis
    using agent_pages_stay_checked [OF _ few _ _ gate raw parsed web, where called = 1000 and rec = ?page] idle
    by (simp add: effective_allowlist_def no_preference_def plain_browser_env_def)
qed

end
