(* ===== verification/Patch_Apply.thy ===== *)
theory Patch_Apply
  imports Patch_Parse Message_Tokens
begin

text \<open>
  Applying hunks to the lines of a file
  (\<open>crates/runtime-server/src/tools/apply_patch.rs\<close>): the fuzzy search for the place of a hunk, the
  splice, the running offset between hunks, and the messages of a failure. Offsets are \<open>isize\<close>,
  here integers.
\<close>

section \<open>One hunk\<close>

text \<open>\<open>str::trim_end\<close>.\<close>

definition trim_end :: "string \<Rightarrow> string" where
  "trim_end s = rev (trim_start (map rev white_space_seqs) (rev s))"

fun old_line :: "hunk_line \<Rightarrow> string option" where
  "old_line (Context s) = Some s"
| "old_line (Remove s) = Some s"
| "old_line (Add s) = None"

fun new_line :: "hunk_line \<Rightarrow> string option" where
  "new_line (Context s) = Some s"
| "new_line (Add s) = Some s"
| "new_line (Remove s) = None"

definition hunk_old :: "hunk \<Rightarrow> string list" where
  "hunk_old h = List.map_filter old_line (hk_lines h)"

definition hunk_new :: "hunk \<Rightarrow> string list" where
  "hunk_new h = List.map_filter new_line (hk_lines h)"

definition matches_at_position :: "string list \<Rightarrow> string list \<Rightarrow> nat \<Rightarrow> bool" where
  "matches_at_position ls olds pos \<longleftrightarrow>
     \<not> pos + length olds > length ls \<and>
     list_all (\<lambda>i. trim_end (ls ! (pos + i)) = trim_end (olds ! i)) [0..<length olds]"

text \<open>The cast to \<open>isize\<close> and its addition, which wrap.\<close>

definition as_isize :: "int \<Rightarrow> int" where
  "as_isize i = (i + 2 ^ 63) mod 2 ^ 64 - 2 ^ 63"

lemma as_isize_small: "0 \<le> i \<Longrightarrow> i < 2 ^ 63 \<Longrightarrow> as_isize i = i"
  by (simp add: as_isize_def)

definition start_index :: "hunk \<Rightarrow> int \<Rightarrow> nat" where
  "start_index h offset =
     nat (max (as_isize (int (if hk_old_start h > 0 then hk_old_start h - 1 else 0) + offset)) 0)"

definition search_range :: "nat \<Rightarrow> nat \<Rightarrow> nat \<Rightarrow> nat list" where
  "search_range len start fuzz =
     (if fuzz = 0 then [start] else [start - fuzz..<min (start + fuzz) len + 1])"

text \<open>The pairs of a fuzz and a position, in the order of the two loops.\<close>

definition search_order :: "nat \<Rightarrow> nat \<Rightarrow> nat \<Rightarrow> (nat \<times> nat) list" where
  "search_order len start max_fuzz =
     concat (map (\<lambda>fuzz. map (\<lambda>pos. (fuzz, pos)) (search_range len start fuzz)) [0..<max_fuzz + 1])"

definition splice :: "string list \<Rightarrow> nat \<Rightarrow> nat \<Rightarrow> string list \<Rightarrow> string list" where
  "splice ls pos end_pos news = take pos ls @ news @ drop end_pos ls"

record no_match =
  nm_expected_line :: nat
  nm_adjusted_line :: nat
  nm_offset :: int

text \<open>The lines, the fuzz and the offset after the hunk.\<close>

definition apply_hunk ::
  "string list \<Rightarrow> hunk \<Rightarrow> nat \<Rightarrow> int \<Rightarrow> no_match + (string list \<times> nat \<times> int)" where
  "apply_hunk ls h max_fuzz offset =
     (let olds = hunk_old h;
          news = hunk_new h;
          start = start_index h offset;
          delta = int (length news) - int (length olds)
      in case List.find (\<lambda>(fuzz, pos). matches_at_position ls olds pos)
                (search_order (length ls) start max_fuzz) of
           Some (fuzz, pos) \<Rightarrow> Inr (splice ls pos (pos + length olds) news, fuzz, offset + delta)
         | None \<Rightarrow>
             if olds = [] \<and> (ls = [] \<or> start \<ge> length ls)
             then Inr (ls @ news, 0, offset + int (length news))
             else Inl \<lparr>nm_expected_line = hk_old_start h, nm_adjusted_line = start + 1,
                       nm_offset = offset\<rparr>)"

section \<open>All hunks of a file\<close>

record hunk_apply_stats =
  ha_hunks_applied :: nat
  ha_fuzz_used :: nat
  ha_hunks_with_fuzz :: nat

definition HUNK_PREVIEW_LINES :: nat where "HUNK_PREVIEW_LINES = 4"
definition SNIPPET_RADIUS :: nat where "SNIPPET_RADIUS = 2"

fun preview_line :: "hunk_line \<Rightarrow> string option" where
  "preview_line (Context s) = Some (''   '' @ s)"
| "preview_line (Remove s) = Some (''  -'' @ s)"
| "preview_line (Add s) = None"

definition preview_expected_lines :: "hunk \<Rightarrow> nat \<Rightarrow> string list" where
  "preview_expected_lines h limit =
     (let preview = take limit (List.map_filter preview_line (hk_lines h)) in
      if preview = [] then [''  <no context lines in hunk>''] else preview)"

definition pad_left :: "nat \<Rightarrow> string \<Rightarrow> string" where
  "pad_left n s = replicate (n - length s) (CHR '' '') @ s"

definition snippet_around :: "string list \<Rightarrow> nat \<Rightarrow> nat \<Rightarrow> string list" where
  "snippet_around ls line_1_based radius =
     (if ls = [] then [''  <empty file>'']
      else
        let center = min (line_1_based - 1) (length ls - 1);
            start = center - radius;
            last_idx = min (center + radius) (length ls - 1)
        in map (\<lambda>i. ''  '' @ pad_left 4 (show_nat (i + 1)) @ '': '' @ ls ! i) [start..<last_idx + 1])"

definition show_signed :: "int \<Rightarrow> string" where
  "show_signed i = (if i < 0 then ''-'' else ''+'') @ show_nat (nat \<bar>i\<bar>)"

definition nl1 :: string where "nl1 = [CHR 0x0A]"

definition format_hunk_no_match_error :: "string list \<Rightarrow> hunk \<Rightarrow> no_match \<Rightarrow> nat \<Rightarrow> string" where
  "format_hunk_no_match_error ls h err max_fuzz =
     ''could not find matching context near line '' @ show_nat (nm_expected_line err) @
     '' (searched around line '' @ show_nat (nm_adjusted_line err) @ '' with offset '' @
     show_signed (nm_offset err) @ '' and fuzz up to '' @ show_nat max_fuzz @
     ''). Expected context preview:'' @ nl1 @ join nl1 (preview_expected_lines h HUNK_PREVIEW_LINES) @
     nl1 @ ''File snippet near line '' @ show_nat (nm_adjusted_line err) @ '':'' @ nl1 @
     join nl1 (snippet_around ls (nm_adjusted_line err) SNIPPET_RADIUS) @ nl1 @
     ''Hints: ensure the patch matches the current file contents, increase '' @ quoted ''fuzz'' @
     '', or regenerate the patch.''"

text \<open>The loop over the hunks from number \<open>idx\<close> on, \<open>hunk_count\<close> in all.\<close>

fun apply_hunks_from ::
  "string \<Rightarrow> nat \<Rightarrow> nat \<Rightarrow> nat \<Rightarrow> int \<Rightarrow> hunk_apply_stats \<Rightarrow> string list \<Rightarrow> hunk list \<Rightarrow>
   tool_error + (string list \<times> hunk_apply_stats)" where
  "apply_hunks_from label hunk_count fuzz idx offset stats ls [] = Inr (ls, stats)"
| "apply_hunks_from label hunk_count fuzz idx offset stats ls (h # hs) =
     (case apply_hunk ls h fuzz offset of
        Inr (ls', used, offset') \<Rightarrow>
          apply_hunks_from label hunk_count fuzz (idx + 1) offset'
            \<lparr>ha_hunks_applied = ha_hunks_applied stats + 1, ha_fuzz_used = ha_fuzz_used stats + used,
             ha_hunks_with_fuzz = ha_hunks_with_fuzz stats + (if used > 0 then 1 else 0)\<rparr> ls' hs
      | Inl err \<Rightarrow>
          Inl (ExecutionFailed (''Failed to apply hunk '' @ show_nat (idx + 1) @ ''/'' @ show_nat hunk_count @
            '' for '' @ quoted label @ '': '' @ format_hunk_no_match_error ls h err fuzz)))"

definition no_hunks_applied :: hunk_apply_stats where
  "no_hunks_applied = \<lparr>ha_hunks_applied = 0, ha_fuzz_used = 0, ha_hunks_with_fuzz = 0\<rparr>"

definition apply_hunks_to_lines ::
  "string list \<Rightarrow> hunk list \<Rightarrow> nat \<Rightarrow> string \<Rightarrow> tool_error + (string list \<times> hunk_apply_stats)" where
  "apply_hunks_to_lines ls hunks fuzz file_label =
     apply_hunks_from file_label (length hunks) fuzz 0 0 no_hunks_applied ls hunks"

section \<open>Where a hunk lands\<close>

lemma matches_within: "matches_at_position ls olds pos \<Longrightarrow> pos + length olds \<le> length ls"
  by (simp add: matches_at_position_def)

lemma search_range_iff:
  "fuzz > 0 \<Longrightarrow> pos \<in> set (search_range len start fuzz) \<longleftrightarrow>
    \<bar>int pos - int start\<bar> \<le> int fuzz \<and> pos \<le> len"
  by (auto simp: search_range_def)

lemma find_after: "List.find P (xs @ ys) = (case List.find P xs of Some x \<Rightarrow> Some x | None \<Rightarrow> List.find P ys)"
  by (induction xs) auto

lemma find_pairs:
  "List.find (\<lambda>(fuzz, pos). M pos) (map (\<lambda>pos. (c, pos)) xs) = map_option (Pair c) (List.find M xs)"
  by (induction xs) auto

lemma find_upt:
  "List.find P [a..<b] = Some i \<longleftrightarrow> a \<le> i \<and> i < b \<and> P i \<and> (\<forall>j. a \<le> j \<and> j < i \<longrightarrow> \<not> P j)"
proof -
  have "List.find P [a..<b] = Some i \<longleftrightarrow>
      (\<exists>k<b - a. P (a + k) \<and> i = a + k \<and> (\<forall>j<k. \<not> P (a + j)))"
    by (auto simp: find_Some_iff)
  also have "\<dots> \<longleftrightarrow> a \<le> i \<and> i < b \<and> P i \<and> (\<forall>j. a \<le> j \<and> j < i \<longrightarrow> \<not> P j)"
  proof
    assume "\<exists>k<b - a. P (a + k) \<and> i = a + k \<and> (\<forall>j<k. \<not> P (a + j))"
    then obtain k where k: "k < b - a" "P (a + k)" "i = a + k" "\<forall>j<k. \<not> P (a + j)" by blast
    have "\<not> P j" if "a \<le> j" "j < i" for j
      using k(3,4) that by (metis le_add_diff_inverse nat_add_left_cancel_less)
    with k show "a \<le> i \<and> i < b \<and> P i \<and> (\<forall>j. a \<le> j \<and> j < i \<longrightarrow> \<not> P j)" by auto
  next
    assume i: "a \<le> i \<and> i < b \<and> P i \<and> (\<forall>j. a \<le> j \<and> j < i \<longrightarrow> \<not> P j)"
    then show "\<exists>k<b - a. P (a + k) \<and> i = a + k \<and> (\<forall>j<k. \<not> P (a + j))"
      by (intro exI [of _ "i - a"]) auto
  qed
  finally show ?thesis .
qed

text \<open>\<open>p\<close> is no nearer to the start than \<open>pos\<close>; among two at one distance the lower one counts.\<close>

definition no_nearer :: "nat \<Rightarrow> nat \<Rightarrow> nat \<Rightarrow> bool" where
  "no_nearer start pos p \<longleftrightarrow>
     \<bar>int pos - int start\<bar> < \<bar>int p - int start\<bar> \<or>
     \<bar>int pos - int start\<bar> = \<bar>int p - int start\<bar> \<and> pos \<le> p"

lemma search_order_Suc:
  "search_order len start (Suc m) =
     search_order len start m @ map (\<lambda>pos. (Suc m, pos)) (search_range len start (Suc m))"
  by (simp add: search_order_def)

lemma search_finds_nearest:
  assumes M: "\<And>p. M p \<Longrightarrow> p \<le> len"
  shows "case List.find (\<lambda>(fuzz, pos). M pos) (search_order len start m) of
      Some (fuzz, pos) \<Rightarrow> M pos \<and> int fuzz = \<bar>int pos - int start\<bar> \<and> fuzz \<le> m \<and>
        (\<forall>p. M p \<longrightarrow> no_nearer start pos p)
    | None \<Rightarrow> \<forall>p. M p \<longrightarrow> int m < \<bar>int p - int start\<bar>"
proof (induction m)
  case 0
  then show ?case
    by (auto simp: search_order_def search_range_def no_nearer_def split: if_splits)
next
  case (Suc m)
  show ?case
  proof (cases "List.find (\<lambda>(fuzz, pos). M pos) (search_order len start m)")
    case (Some fp)
    then show ?thesis
      using Suc by (cases fp) (simp add: search_order_Suc find_after)
  next
    case None
    then have far: "\<forall>p. M p \<longrightarrow> int m < \<bar>int p - int start\<bar>" using Suc by simp
    show ?thesis
    proof (cases "List.find M (search_range len start (Suc m))")
      case None': None
      have "int (Suc m) < \<bar>int p - int start\<bar>" if "M p" for p
      proof -
        have "p \<notin> set (search_range len start (Suc m))"
          using None' that by (auto simp: find_None_iff)
        then show ?thesis using M [OF that] by (auto simp: search_range_iff)
      qed
      then show ?thesis
        using None None' by (simp add: search_order_Suc find_after find_pairs)
    next
      case (Some pos)
      have "search_range len start (Suc m) = [start - Suc m..<min (start + Suc m) len + 1]"
        unfolding search_range_def by (rule if_not_P) simp
      then have pos: "start - Suc m \<le> pos" "pos < min (start + Suc m) len + 1" "M pos"
        "\<forall>j. start - Suc m \<le> j \<and> j < pos \<longrightarrow> \<not> M j"
        using Some find_upt [of M "start - Suc m" "min (start + Suc m) len + 1" pos] by metis+
      then have d: "\<bar>int pos - int start\<bar> = int (Suc m)" using far by auto
      have "no_nearer start pos p" if "M p" for p
      proof (cases "\<bar>int p - int start\<bar> = int (Suc m)")
        case True
        then have "start - Suc m \<le> p" by auto
        then have "pos \<le> p" using pos(4) that by (meson not_le)
        then show ?thesis using True d by (simp add: no_nearer_def)
      next
        case False
        have "int m < \<bar>int p - int start\<bar>" using far that by blast
        with False d show ?thesis by (simp add: no_nearer_def)
      qed
      with pos(3) d show ?thesis
        using None Some by (simp add: search_order_Suc find_after find_pairs)
    qed
  qed
qed

text \<open>
  Where a hunk lands. A hunk replaces a block of lines that equals its old lines up to trailing
  white space, and nothing else in the file changes; the block is the nearest one to the expected line
  (the upper of two at one distance), no farther than the fuzz allows, and the fuzz reported is its
  distance. Only a hunk without old lines behind the end of the file is appended instead. When the
  hunk fails, no such block exists.
\<close>

theorem hunk_lands_nearest:
  "case apply_hunk ls h max_fuzz offset of
     Inr (ls', fuzz, offset') \<Rightarrow>
       offset' = offset + int (length (hunk_new h)) - int (length (hunk_old h)) \<and>
       ((\<exists>pos. matches_at_position ls (hunk_old h) pos \<and>
           \<not> (\<exists>p. matches_at_position ls (hunk_old h) p \<and> \<not> no_nearer (start_index h offset) pos p) \<and>
           int fuzz = \<bar>int pos - int (start_index h offset)\<bar> \<and> fuzz \<le> max_fuzz \<and>
           ls' = take pos ls @ hunk_new h @ drop (pos + length (hunk_old h)) ls) \<or>
        (hunk_old h = [] \<and> length ls + max_fuzz < start_index h offset \<and> fuzz = 0 \<and>
           ls' = ls @ hunk_new h))
   | Inl err \<Rightarrow>
       \<not> (\<exists>p. matches_at_position ls (hunk_old h) p \<and>
           \<bar>int p - int (start_index h offset)\<bar> \<le> int max_fuzz)"
proof -
  let ?M = "matches_at_position ls (hunk_old h)"
  let ?start = "start_index h offset"
  have bound: "p \<le> length ls" if "?M p" for p using matches_within [OF that] by simp
  note found = search_finds_nearest
    [where M = ?M and len = "length ls" and start = ?start and m = max_fuzz, OF bound]
  show ?thesis
  proof (cases "List.find (\<lambda>(fuzz, pos). ?M pos) (search_order (length ls) ?start max_fuzz)")
    case (Some fp)
    obtain fuzz pos where fp: "fp = (fuzz, pos)" by (cases fp)
    have near: "?M pos" "int fuzz = \<bar>int pos - int ?start\<bar>" "fuzz \<le> max_fuzz"
      "\<not> (\<exists>p. ?M p \<and> \<not> no_nearer ?start pos p)"
      using found Some fp by auto
    have "apply_hunk ls h max_fuzz offset = Inr (splice ls pos (pos + length (hunk_old h)) (hunk_new h),
        fuzz, offset + (int (length (hunk_new h)) - int (length (hunk_old h))))"
      using Some fp by (simp add: apply_hunk_def Let_def)
    then show ?thesis
      using near by (simp only: sum.case prod.case splice_def) (intro conjI disjI1 exI [of _ pos]; simp)
  next
    case None
    then have far: "\<forall>p. ?M p \<longrightarrow> int max_fuzz < \<bar>int p - int ?start\<bar>" using found by simp
    show ?thesis
    proof (cases "hunk_old h = [] \<and> (ls = [] \<or> ?start \<ge> length ls)")
      case True
      then have "?M (length ls)" by (simp add: matches_at_position_def)
      then have "int max_fuzz < \<bar>int (length ls) - int ?start\<bar>" using far by blast
      with True have "length ls + max_fuzz < ?start" by auto
      with True None show ?thesis by (simp add: apply_hunk_def Let_def)
    next
      case False
      have "\<not> (\<exists>p. ?M p \<and> \<bar>int p - int ?start\<bar> \<le> int max_fuzz)" using far by (meson not_le)
      moreover have "apply_hunk ls h max_fuzz offset = Inl \<lparr>nm_expected_line = hk_old_start h,
          nm_adjusted_line = ?start + 1, nm_offset = offset\<rparr>"
        using None False by (simp add: apply_hunk_def Let_def)
      ultimately show ?thesis by simp
    qed
  qed
qed

section \<open>Exact patches\<close>

text \<open>
  An edit script: parts of a text that stay (gaps), each followed by the lines of a hunk, and the
  texts before and after the edit.
\<close>

type_synonym edit_script = "(string list \<times> hunk_line list) list"

definition text_before :: "edit_script \<Rightarrow> string list \<Rightarrow> string list" where
  "text_before segs rest =
     concat (map (\<lambda>(gap, hs). gap @ List.map_filter old_line hs) segs) @ rest"

definition text_after :: "edit_script \<Rightarrow> string list \<Rightarrow> string list" where
  "text_after segs rest =
     concat (map (\<lambda>(gap, hs). gap @ List.map_filter new_line hs) segs) @ rest"

text \<open>The hunks of a script, with the line numbers of a diff that starts behind \<open>a\<close> and \<open>b\<close> lines.\<close>

fun script_hunks :: "nat \<Rightarrow> nat \<Rightarrow> edit_script \<Rightarrow> hunk list" where
  "script_hunks a b [] = []"
| "script_hunks a b ((gap, hs) # segs) =
     \<lparr>hk_old_start = a + length gap + 1, hk_old_count = length (List.map_filter old_line hs),
      hk_new_start = b + length gap + 1, hk_new_count = length (List.map_filter new_line hs),
      hk_lines = hs\<rparr> #
     script_hunks (a + length gap + length (List.map_filter old_line hs))
       (b + length gap + length (List.map_filter new_line hs)) segs"

lemma search_order_first: "\<exists>rest. search_order len start m = (0, start) # rest"
  by (simp add: search_order_def search_range_def upt_conv_Cons del: upt_Suc)

lemma apply_hunk_at_start:
  assumes "matches_at_position ls (hunk_old h) (start_index h offset)"
  shows "apply_hunk ls h max_fuzz offset =
    Inr (splice ls (start_index h offset) (start_index h offset + length (hunk_old h)) (hunk_new h), 0,
      offset + (int (length (hunk_new h)) - int (length (hunk_old h))))"
proof -
  obtain rest where "search_order (length ls) (start_index h offset) max_fuzz =
      (0, start_index h offset) # rest"
    using search_order_first by blast
  then show ?thesis using assms by (simp add: apply_hunk_def Let_def)
qed

lemma matches_block: "matches_at_position (xs @ olds @ ys) olds (length xs)"
  by (auto simp: matches_at_position_def list_all_iff nth_append)

lemma script_applies:
  assumes "\<forall>(gap, hs)\<in>set segs. List.map_filter old_line hs \<noteq> []"
    and "list_all proper_hunk (script_hunks a (length done_lines) segs)"
  shows "apply_hunks_from label hunk_count fuzz idx (int (length done_lines) - int a)
      stats (done_lines @ text_before segs rest) (script_hunks a (length done_lines) segs) =
    Inr (done_lines @ text_after segs rest,
      stats\<lparr>ha_hunks_applied := ha_hunks_applied stats + length segs\<rparr>)"
  using assms
proof (induction segs arbitrary: a idx stats done_lines)
  case Nil
  then show ?case by (simp add: text_before_def text_after_def)
next
  case (Cons seg segs)
  obtain gap hs where seg: "seg = (gap, hs)" by (cases seg)
  let ?o = "List.map_filter old_line hs" and ?n = "List.map_filter new_line hs"
  let ?h = "\<lparr>hk_old_start = a + length gap + 1, hk_old_count = length ?o,
      hk_new_start = length done_lines + length gap + 1, hk_new_count = length ?n, hk_lines = hs\<rparr>"
  let ?off = "int (length done_lines) - int a"
  have old: "hunk_old ?h = ?o" "hunk_new ?h = ?n" by (simp_all add: hunk_old_def hunk_new_def)
  have "int (length done_lines + length gap) < 2 ^ 63"
    using Cons.prems(2) by (simp add: seg proper_hunk_def)
  then have start: "start_index ?h ?off = length (done_lines @ gap)"
    by (simp add: start_index_def as_isize_small)
  have whole: "done_lines @ text_before (seg # segs) rest =
      (done_lines @ gap) @ ?o @ text_before segs rest"
    by (simp add: seg text_before_def)
  have "apply_hunk (done_lines @ text_before (seg # segs) rest) ?h fuzz ?off =
      Inr ((done_lines @ gap @ ?n) @ text_before segs rest, 0,
        int (length (done_lines @ gap @ ?n)) - int (a + length gap + length ?o))"
    using apply_hunk_at_start [of "done_lines @ text_before (seg # segs) rest" ?h ?off fuzz]
      matches_block [of "done_lines @ gap" ?o "text_before segs rest"]
    unfolding old start whole by (simp add: splice_def)
  moreover have "done_lines @ text_after (seg # segs) rest =
      (done_lines @ gap @ ?n) @ text_after segs rest"
    by (simp add: seg text_after_def)
  ultimately show ?case
    using Cons.IH [where done_lines = "done_lines @ gap @ ?n" and a = "a + length gap + length ?o"
          and idx = "idx + 1"] Cons.prems
    by (simp add: seg add.assoc)
qed

text \<open>
  C34. A diff takes the text it was made from to the text it was made for: when the hunks of an edit script,
  printed as the body of a unified diff, are parsed and applied to the text before the edit, the
  result is the text after it, without fuzz, for every bound on the fuzz. The hunks must be
  printable and each must have an old line.
\<close>

theorem diff_then_patch:
  assumes "\<forall>(gap, hs)\<in>set segs. List.map_filter old_line hs \<noteq> []"
    and "list_all proper_hunk (script_hunks 0 0 segs)"
  shows "\<exists>hunks. parse_unified_diff (unlines (concat (map show_hunk (script_hunks 0 0 segs)))) = Inr hunks \<and>
    apply_hunks_to_lines (text_before segs rest) hunks fuzz label =
      Inr (text_after segs rest,
        \<lparr>ha_hunks_applied = length segs, ha_fuzz_used = 0, ha_hunks_with_fuzz = 0\<rparr>)"
proof -
  let ?hs = "script_hunks 0 0 segs"
  have lines: "text_lines (unlines (concat (map show_hunk ?hs))) = concat (map show_hunk ?hs)"
    using assms(2) plain_shown_hunk by (intro lines_unlines) (auto simp: list_all_iff)
  moreover have "dropWhile (\<lambda>l. \<not> starts_with l ''@@'') (concat (map show_hunk ?hs)) =
      concat (map show_hunk ?hs)"
    by (cases ?hs) (simp_all add: show_hunk_def header_starts)
  ultimately have "parse_unified_diff (unlines (concat (map show_hunk ?hs))) = Inr ?hs"
    using parse_shown_hunks [OF assms(2)] by (simp add: parse_unified_diff_def)
  then show ?thesis
    using script_applies [OF assms(1), of 0 "[]" label "length ?hs" fuzz 0 no_hunks_applied rest] assms(2)
    by (simp add: apply_hunks_to_lines_def no_hunks_applied_def)
qed

definition sample_script :: edit_script where
  "sample_script =
     [([''a''], [Context ''b'', Remove ''c'', Add ''C'']), ([''d'', ''e''], [Remove ''f'', Context ''g'', Add ''h''])]"

theorem diff_then_patch_witness:
  "\<exists>hunks. parse_unified_diff (unlines (concat (map show_hunk (script_hunks 0 0 sample_script)))) = Inr hunks \<and>
     apply_hunks_to_lines [''a'', ''b'', ''c'', ''d'', ''e'', ''f'', ''g''] hunks 3 ''file'' =
       Inr ([''a'', ''b'', ''C'', ''d'', ''e'', ''g'', ''h''],
         \<lparr>ha_hunks_applied = 2, ha_fuzz_used = 0, ha_hunks_with_fuzz = 0\<rparr>)"
proof -
  have "\<forall>(gap, hs)\<in>set sample_script. List.map_filter old_line hs \<noteq> []"
    by (simp add: sample_script_def List.map_filter_def)
  moreover have "list_all proper_hunk (script_hunks 0 0 sample_script)"
    by (simp add: sample_script_def proper_hunk_def plain_line_def List.map_filter_def)
  moreover have "text_before sample_script [] = [''a'', ''b'', ''c'', ''d'', ''e'', ''f'', ''g'']"
    "text_after sample_script [] = [''a'', ''b'', ''C'', ''d'', ''e'', ''g'', ''h'']"
    by (simp_all add: sample_script_def text_before_def text_after_def List.map_filter_def)
  moreover have "length sample_script = 2" by (simp add: sample_script_def)
  ultimately show ?thesis
    using diff_then_patch [of sample_script "[]" 3 "''file''"] by metis
qed

section \<open>Hunks without old lines, and white space\<close>

text \<open>
  A hunk that only inserts lands one line too early. In a unified diff the start of an empty old
  range is the line after which the new lines go; the code puts them before that line.
\<close>

theorem insertion_before_its_line:
  assumes "hunk_old h = []" and "hk_old_start h = Suc k" and "k \<le> length ls" and "k < 2 ^ 63"
  shows "apply_hunk ls h max_fuzz 0 =
    Inr (take k ls @ hunk_new h @ drop k ls, 0, int (length (hunk_new h)))"
proof -
  have start: "start_index h 0 = k" using assms(4) by (simp add: start_index_def as_isize_small assms(2))
  have "matches_at_position ls (hunk_old h) (start_index h 0)"
    using assms(1,3) by (simp add: matches_at_position_def start)
  from apply_hunk_at_start [OF this, of max_fuzz] show ?thesis
    using assms(1) by (simp add: splice_def start)
qed

definition insertion_hunk :: hunk where
  "insertion_hunk =
     \<lparr>hk_old_start = 1, hk_old_count = 0, hk_new_start = 2, hk_new_count = 1, hk_lines = [Add ''new'']\<rparr>"

theorem insertion_before_its_line_witness:
  "apply_hunk [''one'', ''two''] insertion_hunk 3 0 = Inr ([''new'', ''one'', ''two''], 0, 1)"
  using insertion_before_its_line [of insertion_hunk 0 "[''one'', ''two'']" 3]
  by (simp add: insertion_hunk_def hunk_old_def hunk_new_def List.map_filter_def)

text \<open>A context line of a hunk replaces the line of the file, trailing white space and all.\<close>

lemma context_replaces_line:
  "apply_hunk [''x '', ''y'']
     \<lparr>hk_old_start = 1, hk_old_count = 2, hk_new_start = 1, hk_new_count = 1,
      hk_lines = [Context ''x'', Remove ''y'']\<rparr> 0 0 = Inr ([''x''], 0, -1)"
proof -
  have trims: "trim_end ''x '' = ''x''" "trim_end ''x'' = ''x''" 
    by (simp_all add: trim_end_def trim_start.simps [of _ "'' x''"] trim_start.simps [of _ "''x''"]
        white_space_seqs_def starts_with_def char_of_def bit_0)
  have "matches_at_position [''x '', ''y''] [''x'', ''y''] 0"
    by (simp add: matches_at_position_def trims)
  then show ?thesis
    using apply_hunk_at_start [of "[''x '', ''y'']"
        "\<lparr>hk_old_start = 1, hk_old_count = 2, hk_new_start = 1, hk_new_count = 1,
          hk_lines = [Context ''x'', Remove ''y'']\<rparr>" 0 0]
    by (simp add: hunk_old_def hunk_new_def List.map_filter_def start_index_def as_isize_def splice_def)
qed

end
