(* ===== verification/Patch_Files.thy ===== *)
theory Patch_Files
  imports Patch_Apply
begin

text \<open>
  The tool \<open>apply_patch\<close> on files (\<open>crates/runtime-server/src/tools/apply_patch.rs\<close>): planning the
  writes of a patch or of a list of changes, writing them with a rollback, and the call itself; and
  the encodings of text files it keeps (\<open>tools/file/mod.rs\<close>, \<open>write.rs\<close>, \<open>read.rs\<close>).

  A file system is a map from paths to bytes. \<open>patch_env\<close> holds the resolution of a path in the
  workspace, the errors of the system (a file that cannot be read, the write or removal number
  \<open>n\<close> of a call, the creation of the directory it writes into, the restore of a path in a rollback),
  and the decoders and encoders of \<open>encoding_rs\<close>. Directories are not files of the map; the JSON of
  the result and the diagnostics block are left out.
\<close>

section \<open>Encodings\<close>

record patch_env =
  pe_resolve :: "string \<Rightarrow> tool_error + string"
  pe_unreadable :: "string \<Rightarrow> tool_error option"
  pe_fails :: "nat \<Rightarrow> tool_error option"
  pe_mkdir_fails :: "nat \<Rightarrow> tool_error option"
  pe_restore_fails :: "string \<Rightarrow> bool"
  pe_for_bom :: "string \<Rightarrow> (string \<times> nat) option"
  pe_decode_as :: "string \<Rightarrow> string \<Rightarrow> string \<times> bool"
  pe_encode_as :: "string \<Rightarrow> string \<Rightarrow> string"

text \<open>\<open>std::str::from_utf8\<close>.\<close>

definition in_range :: "char \<Rightarrow> nat \<Rightarrow> nat \<Rightarrow> bool" where
  "in_range c a b \<longleftrightarrow> a \<le> (of_char c :: nat) \<and> (of_char c :: nat) \<le> b"

fun continuations :: "nat \<Rightarrow> string \<Rightarrow> string option" where
  "continuations 0 cs = Some cs"
| "continuations (Suc n) [] = None"
| "continuations (Suc n) (c # cs) = (if in_range c 128 191 then continuations n cs else None)"

text \<open>What follows the character that begins a text, when it is well formed.\<close>

fun after_char :: "string \<Rightarrow> string option" where
  "after_char [] = None"
| "after_char (c # cs) =
     (if in_range c 0 127 then Some cs
      else if in_range c 194 223 then continuations 1 cs
      else case cs of
        [] \<Rightarrow> None
      | d # ds \<Rightarrow>
          if in_range c 224 224 \<and> in_range d 160 191 \<or> in_range c 237 237 \<and> in_range d 128 159 \<or>
             (in_range c 225 236 \<or> in_range c 238 239) \<and> in_range d 128 191
          then continuations 1 ds
          else if in_range c 240 240 \<and> in_range d 144 191 \<or> in_range c 244 244 \<and> in_range d 128 143 \<or>
             in_range c 241 243 \<and> in_range d 128 191
          then continuations 2 ds
          else None)"

lemma continuations_shrinks: "continuations n cs = Some r \<Longrightarrow> length r \<le> length cs"
  by (induction n cs rule: continuations.induct) (auto split: if_splits)

lemma after_char_shrinks: "after_char s = Some r \<Longrightarrow> length r < length s"
  by (cases s) (auto split: if_splits list.splits dest!: continuations_shrinks)

function valid_utf8 :: "string \<Rightarrow> bool" where
  "valid_utf8 s = (s = [] \<or> (case after_char s of Some r \<Rightarrow> valid_utf8 r | None \<Rightarrow> False))"
  by pat_completeness auto
termination by (relation "measure length") (auto dest: after_char_shrinks)

declare valid_utf8.simps [simp del]

definition detect_and_decode :: "patch_env \<Rightarrow> string \<Rightarrow> string \<times> string \<times> string" where
  "detect_and_decode env bytes =
     (if bytes = [] then ([], ''utf-8'', ''empty'')
      else case pe_for_bom env bytes of
        Some (name, bom_len) \<Rightarrow>
          (fst (pe_decode_as env name (drop bom_len bytes)), to_ascii_lowercase name, ''bom'')
      | None \<Rightarrow>
          if valid_utf8 bytes then (bytes, ''utf-8'', ''default'')
          else case pe_decode_as env ''gb18030'' bytes of
            (txt', had_errors) \<Rightarrow>
              if \<not> had_errors then (txt', ''gb18030'', ''fallback'')
              else (fst (pe_decode_as env ''windows-1252'' bytes),
                    ''windows-1252 (gb18030 had errors)'', ''fallback''))"

definition utf16_units :: "nat \<Rightarrow> nat list" where
  "utf16_units cp =
     (if cp < 65536 then [cp]
      else [0xD800 + (cp - 65536) div 1024, 0xDC00 + (cp - 65536) mod 1024])"

definition encode_utf16 :: "string \<Rightarrow> bool \<Rightarrow> bool \<Rightarrow> string" where
  "encode_utf16 s little_endian had_bom =
     (if had_bom then (if little_endian then [CHR 0xFF, CHR 0xFE] else [CHR 0xFE, CHR 0xFF]) else []) @
     concat (map (\<lambda>unit.
        if little_endian then [char_of (unit mod 256), char_of (unit div 256)]
        else [char_of (unit div 256), char_of (unit mod 256)])
       (concat (map (utf16_units \<circ> code_point) (text_chars s))))"

definition encode_text :: "patch_env \<Rightarrow> string \<Rightarrow> string \<Rightarrow> bool \<Rightarrow> string" where
  "encode_text env s label had_bom =
     (let norm = to_ascii_lowercase (trim label) in
      if norm = ''utf-8'' then (if had_bom then [CHR 0xEF, CHR 0xBB, CHR 0xBF] @ s else s)
      else if norm = ''utf-16le'' then encode_utf16 s True had_bom
      else if norm = ''utf-16be'' then encode_utf16 s False had_bom
      else if norm = ''gb18030'' then pe_encode_as env ''gb18030'' s
      else if starts_with norm ''windows-1252'' then pe_encode_as env ''windows-1252'' s
      else s)"

definition line_ending_of :: "string \<Rightarrow> string" where
  "line_ending_of s =
     (if str_contains s [CHR 0x0D, CHR 0x0A] then [CHR 0x0D, CHR 0x0A] else [CHR 0x0A])"

definition normalize_line_endings :: "string \<Rightarrow> string \<Rightarrow> string" where
  "normalize_line_endings s file_le =
     (if file_le = [CHR 0x0D, CHR 0x0A]
      then replace_all [CHR 0x0A] [CHR 0x0D, CHR 0x0A] (replace_all [CHR 0x0D, CHR 0x0A] [CHR 0x0A] s)
      else s)"

section \<open>Planned writes\<close>

type_synonym files = "string \<rightharpoonup> string"

record decoded_file =
  df_text :: string
  df_label :: string
  df_had_bom :: bool

text \<open>\<open>read_decoded_for_edit\<close> when the path exists.\<close>

definition read_if_exists :: "patch_env \<Rightarrow> files \<Rightarrow> string \<Rightarrow> tool_error + decoded_file option" where
  "read_if_exists env fs path =
     (case fs path of
        None \<Rightarrow> Inr None
      | Some bytes \<Rightarrow>
          (case pe_unreadable env path of
             Some e \<Rightarrow> Inl e
           | None \<Rightarrow>
               (case detect_and_decode env bytes of
                  (t, label, via) \<Rightarrow>
                    Inr (Some \<lparr>df_text = t, df_label = label, df_had_bom = (via = ''bom'')\<rparr>))))"

record pending_write =
  pw_path :: string
  pw_content :: "string option"
  pw_original :: "string option"
  pw_encoding :: string
  pw_had_bom :: bool

record patch_stats =
  ps_files_applied :: nat
  ps_files_total :: nat
  ps_hunks_applied :: nat
  ps_hunks_total :: nat
  ps_fuzz_used :: nat
  ps_hunks_with_fuzz :: nat

record file_summary =
  fs_path :: string
  fs_hunks :: nat
  fs_hunks_applied :: nat
  fs_fuzz_used :: nat
  fs_hunks_with_fuzz :: nat
  fs_created :: bool
  fs_deleted :: bool

record patch_stats_ext =
  px_stats :: patch_stats
  px_touched_files :: "string list"
  px_file_summaries :: "file_summary list"
  px_header_path_mismatch :: "string option"

definition default_patch_stats :: patch_stats_ext where
  "default_patch_stats =
     \<lparr>px_stats = \<lparr>ps_files_applied = 0, ps_files_total = 0, ps_hunks_applied = 0, ps_hunks_total = 0,
        ps_fuzz_used = 0, ps_hunks_with_fuzz = 0\<rparr>,
      px_touched_files = [], px_file_summaries = [], px_header_path_mismatch = None\<rparr>"

definition push_unique :: "string list \<Rightarrow> string \<Rightarrow> string list" where
  "push_unique target v = (if v \<in> set target then target else target @ [v])"

definition write_of ::
  "string \<Rightarrow> string option \<Rightarrow> decoded_file option \<Rightarrow> pending_write" where
  "write_of path body decoded =
     \<lparr>pw_path = path, pw_content = body, pw_original = map_option df_text decoded,
      pw_encoding = (case decoded of Some d \<Rightarrow> df_label d | None \<Rightarrow> ''utf-8''),
      pw_had_bom = (case decoded of Some d \<Rightarrow> df_had_bom d | None \<Rightarrow> False)\<rparr>"

text \<open>One entry of \<open>changes\<close>.\<close>

definition plan_change ::
  "patch_env \<Rightarrow> files \<Rightarrow> json \<Rightarrow> tool_error + (pending_write \<times> file_summary)" where
  "plan_change env fs change =
     (case str_field change ''path'' of
        None \<Rightarrow> Inl (MissingField ''changes[].path'')
      | Some path \<Rightarrow>
          (case str_field change ''content'' of
             None \<Rightarrow> Inl (MissingField ''changes[].content'')
           | Some body \<Rightarrow>
               (case pe_resolve env path of
                  Inl e \<Rightarrow> Inl e
                | Inr resolved \<Rightarrow>
                    (case read_if_exists env fs resolved of
                       Inl e \<Rightarrow> Inl e
                     | Inr decoded \<Rightarrow>
                         let content_out =
                           (case decoded of
                              Some d \<Rightarrow> normalize_line_endings body (line_ending_of (df_text d))
                            | None \<Rightarrow> body)
                         in Inr (write_of resolved (Some content_out) decoded,
                              \<lparr>fs_path = path, fs_hunks = 0, fs_hunks_applied = 0, fs_fuzz_used = 0,
                               fs_hunks_with_fuzz = 0, fs_created = (decoded = None),
                               fs_deleted = False\<rparr>)))))"

definition count_file :: "file_summary \<Rightarrow> patch_stats_ext \<Rightarrow> patch_stats_ext" where
  "count_file sm x =
     x\<lparr>px_stats := (px_stats x)\<lparr>ps_files_applied := ps_files_applied (px_stats x) + 1,
         ps_hunks_applied := ps_hunks_applied (px_stats x) + fs_hunks_applied sm,
         ps_hunks_total := ps_hunks_total (px_stats x) + fs_hunks sm,
         ps_fuzz_used := ps_fuzz_used (px_stats x) + fs_fuzz_used sm,
         ps_hunks_with_fuzz := ps_hunks_with_fuzz (px_stats x) + fs_hunks_with_fuzz sm\<rparr>,
       px_touched_files := push_unique (px_touched_files x) (fs_path sm),
       px_file_summaries := px_file_summaries x @ [sm]\<rparr>"

text \<open>Planning entry after entry: the first error ends it.\<close>

fun plan_all ::
  "('a \<Rightarrow> tool_error + (pending_write \<times> file_summary)) \<Rightarrow> 'a list \<Rightarrow> patch_stats_ext \<Rightarrow>
   tool_error + (pending_write list \<times> patch_stats_ext)" where
  "plan_all plan [] x = Inr ([], x)"
| "plan_all plan (f # rest) x =
     (case plan f of
        Inl e \<Rightarrow> Inl e
      | Inr (w, sm) \<Rightarrow>
          (case plan_all plan rest (count_file sm x) of
             Inl e \<Rightarrow> Inl e
           | Inr (ws, x') \<Rightarrow> Inr (w # ws, x')))"

definition with_total :: "nat \<Rightarrow> patch_stats_ext" where
  "with_total n =
     default_patch_stats\<lparr>px_stats := (px_stats default_patch_stats)\<lparr>ps_files_total := n\<rparr>\<rparr>"

definition build_pending_writes_from_changes ::
  "patch_env \<Rightarrow> files \<Rightarrow> json \<Rightarrow> tool_error + (pending_write list \<times> patch_stats_ext)" where
  "build_pending_writes_from_changes env fs changes_value =
     (case as_array changes_value of
        None \<Rightarrow> Inl (InvalidInput (quoted ''changes'' @
          '' must be an array of objects like {path, content}''))
      | Some changes \<Rightarrow>
          if changes = [] then Inl (InvalidInput (quoted ''changes'' @ '' cannot be empty''))
          else plan_all (plan_change env fs) changes (with_total (length changes)))"

text \<open>The new text of a file: its lines joined, a final line break kept, its line endings kept.\<close>

definition patched_text :: "string option \<Rightarrow> string list \<Rightarrow> string" where
  "patched_text original ls =
     (let base = (case original of Some t \<Rightarrow> t | None \<Rightarrow> []);
          had_trailing_newline =
            (case original of Some t \<Rightarrow> t \<noteq> [] \<and> last t = CHR 0x0A | None \<Rightarrow> True);
          joined = join [CHR 0x0A] ls;
          closed = (if had_trailing_newline \<and> joined \<noteq> [] then joined @ [CHR 0x0A] else joined)
      in normalize_line_endings closed (line_ending_of base))"

text \<open>One file section of a patch.\<close>

definition plan_file_patch ::
  "patch_env \<Rightarrow> files \<Rightarrow> nat \<Rightarrow> file_patch \<Rightarrow> tool_error + (pending_write \<times> file_summary)" where
  "plan_file_patch env fs fuzz f =
     (if fp_hunks f = [] then
        Inl (InvalidInput (''Patch section for '' @ quoted (fp_path f) @ '' has no hunks ('' @
          quoted ''@@ ... @@'' @ '').''))
      else case pe_resolve env (fp_path f) of
        Inl e \<Rightarrow> Inl e
      | Inr resolved \<Rightarrow>
          (case read_if_exists env fs resolved of
             Inl e \<Rightarrow> Inl e
           | Inr decoded \<Rightarrow>
               let original = map_option df_text decoded in
               if original = None \<and> \<not> fp_create_if_missing f then
                 Inl (ExecutionFailed (''File '' @ quoted (fp_path f) @ '' does not exist at '' @
                   quoted resolved @
                   ''. Set create_if_missing=true for new files or include headers for file creation.''))
               else if fp_delete_after f \<and> original = None then
                 Inl (ExecutionFailed (''File '' @ quoted (fp_path f) @ '' does not exist at '' @
                   quoted resolved @ '' to delete.''))
               else
                 let base = (case original of Some t \<Rightarrow> t | None \<Rightarrow> []) in
                 case apply_hunks_to_lines (text_lines base) (fp_hunks f) fuzz (fp_path f) of
                   Inl e \<Rightarrow> Inl e
                 | Inr (ls, st) \<Rightarrow>
                     Inr (write_of resolved
                            (if fp_delete_after f then None else Some (patched_text original ls)) decoded,
                          \<lparr>fs_path = fp_path f, fs_hunks = length (fp_hunks f),
                           fs_hunks_applied = ha_hunks_applied st, fs_fuzz_used = ha_fuzz_used st,
                           fs_hunks_with_fuzz = ha_hunks_with_fuzz st,
                           fs_created = (original = None \<and> \<not> fp_delete_after f),
                           fs_deleted = fp_delete_after f\<rparr>)))"

definition build_pending_writes_from_patches ::
  "patch_env \<Rightarrow> files \<Rightarrow> file_patch list \<Rightarrow> nat \<Rightarrow>
   tool_error + (pending_write list \<times> patch_stats_ext)" where
  "build_pending_writes_from_patches env fs file_patches fuzz =
     plan_all (plan_file_patch env fs fuzz) file_patches (with_total (length file_patches))"

section \<open>Writing, with a rollback\<close>

definition restore_write :: "patch_env \<Rightarrow> pending_write \<Rightarrow> files \<Rightarrow> files" where
  "restore_write env w fs =
     (if pe_restore_fails env (pw_path w) then fs
      else case pw_original w of
        Some body \<Rightarrow> fs(pw_path w \<mapsto> encode_text env body (pw_encoding w) (pw_had_bom w))
      | None \<Rightarrow> fs(pw_path w := None))"

text \<open>\<open>rollback_pending_writes\<close>: the writes done so far, the last one first.\<close>

definition rollback_pending_writes :: "patch_env \<Rightarrow> pending_write list \<Rightarrow> files \<Rightarrow> files" where
  "rollback_pending_writes env applied fs = fold (restore_write env) (rev applied) fs"

definition perform_write :: "patch_env \<Rightarrow> nat \<Rightarrow> pending_write \<Rightarrow> files \<Rightarrow> tool_error + files" where
  "perform_write env n w fs =
     (case pw_content w of
        Some body \<Rightarrow>
          (case pe_fails env n of
             Some e \<Rightarrow> Inl e
           | None \<Rightarrow>
               Inr (fs(pw_path w \<mapsto> encode_text env body (pw_encoding w) (pw_had_bom w))))
      | None \<Rightarrow>
          if fs (pw_path w) \<noteq> None then
            (case pe_fails env n of Some e \<Rightarrow> Inl e | None \<Rightarrow> Inr (fs(pw_path w := None)))
          else Inr fs)"

text \<open>The directory of a file that is written; its error leaves the function at once.\<close>

definition create_parent :: "patch_env \<Rightarrow> nat \<Rightarrow> pending_write \<Rightarrow> tool_error option" where
  "create_parent env n w = (if pw_content w = None then None else pe_mkdir_fails env n)"

fun write_from ::
  "patch_env \<Rightarrow> pending_write list \<Rightarrow> pending_write list \<Rightarrow> files \<Rightarrow> files \<times> tool_error option" where
  "write_from env applied [] fs = (fs, None)"
| "write_from env applied (w # ws) fs =
     (case create_parent env (length applied) w of
        Some e \<Rightarrow> (fs, Some e)
      | None \<Rightarrow>
          (case perform_write env (length applied) w fs of
             Inl e \<Rightarrow> (rollback_pending_writes env applied fs, Some e)
           | Inr fs' \<Rightarrow> write_from env (applied @ [w]) ws fs'))"

definition apply_pending_writes ::
  "patch_env \<Rightarrow> pending_write list \<Rightarrow> files \<Rightarrow> files \<times> tool_error option" where
  "apply_pending_writes env pending fs = write_from env [] pending fs"

section \<open>The call\<close>

definition DEFAULT_FUZZ :: nat where "DEFAULT_FUZZ = 3"
definition MAX_FUZZ :: nat where "MAX_FUZZ = 50"

text \<open>\<open>Value::as_u64\<close>, \<open>Value::as_bool\<close> of a field with a default, and \<open>required_str\<close>.\<close>

definition optional_u64 :: "json \<Rightarrow> string \<Rightarrow> nat \<Rightarrow> nat" where
  "optional_u64 input field_name d =
     (case json_get input field_name of
        Some (JNumber s) \<Rightarrow>
          if s \<noteq> [] \<and> list_all is_ascii_digit s \<and> digits_value s < 2 ^ 64 then digits_value s else d
      | _ \<Rightarrow> d)"

definition optional_bool :: "json \<Rightarrow> string \<Rightarrow> bool \<Rightarrow> bool" where
  "optional_bool input field_name d =
     (case json_get input field_name of Some (JBool b) \<Rightarrow> b | _ \<Rightarrow> d)"

definition required_str :: "json \<Rightarrow> string \<Rightarrow> tool_error + string" where
  "required_str input field_name =
     (case str_field input field_name of
        Some s \<Rightarrow> Inr s
      | None \<Rightarrow>
          let provided = (case input of JObject kvs \<Rightarrow> map fst kvs | _ \<Rightarrow> []) in
          if provided = [] then Inl (MissingField field_name)
          else Inl (InvalidInput (''missing required field '' @ [CHR 0x27] @ field_name @ [CHR 0x27] @
            ''. Input provided: '' @ join '', '' provided)))"

definition build_summary_message :: "patch_stats_ext \<Rightarrow> string" where
  "build_summary_message x =
     (let s = px_stats x in
      join '' ''
        ([if ps_hunks_total s > 0
          then ''Applied '' @ show_nat (ps_hunks_applied s) @ ''/'' @ show_nat (ps_hunks_total s) @
            '' hunks across '' @ show_nat (ps_files_applied s) @ '' file(s).''
          else ''Applied '' @ show_nat (ps_files_applied s) @ '' file change(s).''] @
         (if px_touched_files x \<noteq> [] then [''Files: '' @ format_file_list (px_touched_files x) @ ''.''] else []) @
         (if ps_fuzz_used s > 0
          then [''Fuzz used on '' @ show_nat (ps_hunks_with_fuzz s) @ '' hunk(s) (total fuzz: '' @
            show_nat (ps_fuzz_used s) @ '').''] else []) @
         (case px_header_path_mismatch x of Some note \<Rightarrow> [note] | None \<Rightarrow> [])))"

record patch_result =
  pr_stats :: patch_stats
  pr_touched_files :: "string list"
  pr_file_summaries :: "file_summary list"
  pr_message :: string

definition patch_result_of :: "patch_stats_ext \<Rightarrow> patch_result" where
  "patch_result_of x =
     \<lparr>pr_stats = px_stats x, pr_touched_files = px_touched_files x,
      pr_file_summaries = px_file_summaries x, pr_message = build_summary_message x\<rparr>"

text \<open>The sections of a patch, before a file is read.\<close>

definition patch_sections ::
  "string \<Rightarrow> string option \<Rightarrow> bool \<Rightarrow> tool_error + (file_patch list \<times> string option)" where
  "patch_sections patch path_override create_if_missing =
     (let shape = inspect_patch_shape patch in
      case validate_patch_shape shape path_override of
        Inl e \<Rightarrow> Inl e
      | Inr _ \<Rightarrow>
          (case path_override of
             Some path \<Rightarrow>
               (case parse_unified_diff patch of
                  Inl e \<Rightarrow> Inl e
                | Inr hunks \<Rightarrow>
                    if hunks = [] then
                      Inl (InvalidInput (''Patch did not contain any hunks ('' @ quoted ''@@ ... @@'' @
                        ''). Provide a unified diff hunk.''))
                    else Inr ([\<lparr>fp_path = path, fp_hunks = hunks, fp_delete_after = False,
                                fp_create_if_missing = create_if_missing\<rparr>],
                              diff_header_mismatch path shape))
           | None \<Rightarrow>
               (case parse_unified_diff_files patch create_if_missing of
                  Inl e \<Rightarrow> Inl e
                | Inr fps \<Rightarrow>
                    if fps = [] then
                      Inl (InvalidInput (''No valid file patches found. Ensure the patch includes '' @
                        quoted ''---'' @ ''/'' @ quoted ''+++'' @ '' headers or provide '' @
                        quoted ''path'' @ ''.''))
                    else Inr (fps, None))))"

definition write_plan ::
  "patch_env \<Rightarrow> pending_write list \<Rightarrow> patch_stats_ext \<Rightarrow> files \<Rightarrow>
   files \<times> (tool_error + patch_result)" where
  "write_plan env pending x fs =
     (case apply_pending_writes env pending fs of
        (fs', Some e) \<Rightarrow> (fs', Inl e)
      | (fs', None) \<Rightarrow> (fs', Inr (patch_result_of x)))"

definition execute_apply_patch ::
  "patch_env \<Rightarrow> files \<Rightarrow> json \<Rightarrow> files \<times> (tool_error + patch_result)" where
  "execute_apply_patch env fs input =
     (let fuzz = min (optional_u64 input ''fuzz'' DEFAULT_FUZZ) MAX_FUZZ;
          create_if_missing = optional_bool input ''create_if_missing'' False
      in case json_get input ''changes'' of
           Some changes_value \<Rightarrow>
             (case build_pending_writes_from_changes env fs changes_value of
                Inl e \<Rightarrow> (fs, Inl e)
              | Inr (pending, x) \<Rightarrow> write_plan env pending x fs)
         | None \<Rightarrow>
             (case required_str input ''patch'' of
                Inl e \<Rightarrow> (fs, Inl e)
              | Inr patch \<Rightarrow>
                  (case patch_sections patch (str_field input ''path'') create_if_missing of
                     Inl e \<Rightarrow> (fs, Inl e)
                   | Inr (file_patches, mismatch_note) \<Rightarrow>
                       (case build_pending_writes_from_patches env fs file_patches fuzz of
                          Inl e \<Rightarrow> (fs, Inl e)
                        | Inr (pending, x) \<Rightarrow>
                            write_plan env pending
                              (if px_header_path_mismatch x = None
                               then x\<lparr>px_header_path_mismatch := mismatch_note\<rparr> else x) fs))))"

section \<open>All or nothing\<close>

text \<open>
  A file whose encoding the tool keeps: writing back what was read gives the same bytes.
\<close>

definition keeps_encoding :: "patch_env \<Rightarrow> string \<Rightarrow> bool" where
  "keeps_encoding env bytes \<longleftrightarrow>
     (case detect_and_decode env bytes of (t, label, via) \<Rightarrow>
        encode_text env t label (via = ''bom'') = bytes)"

lemma utf8_label: "to_ascii_lowercase (trim ''utf-8'') = ''utf-8''"
proof -
  have "trim ''utf-8'' = ''utf-8''" by (rule trim_fixed) (simp_all add: trim_eval bit_0)
  then show ?thesis by (simp add: text_eval)
qed

lemma utf8_keeps_encoding:
  "pe_for_bom env bytes = None \<Longrightarrow> valid_utf8 bytes \<Longrightarrow> keeps_encoding env bytes"
  by (simp add: keeps_encoding_def detect_and_decode_def encode_text_def utf8_label)

text \<open>What a planned write remembers of the file it replaces.\<close>

definition remembers :: "patch_env \<Rightarrow> files \<Rightarrow> pending_write \<Rightarrow> bool" where
  "remembers env fs w \<longleftrightarrow>
     fs (pw_path w) = map_option (\<lambda>t. encode_text env t (pw_encoding w) (pw_had_bom w)) (pw_original w)"

lemma read_remembers:
  assumes "read_if_exists env fs path = Inr decoded" and "\<forall>p bytes. fs p = Some bytes \<longrightarrow> keeps_encoding env bytes"
  shows "remembers env fs (write_of path body decoded)"
  using assms
  by (auto simp: read_if_exists_def remembers_def write_of_def keeps_encoding_def
      split: option.splits prod.splits)

lemma plan_change_remembers:
  "plan_change env fs change = Inr (w, sm) \<Longrightarrow>
    \<forall>p bytes. fs p = Some bytes \<longrightarrow> keeps_encoding env bytes \<Longrightarrow> remembers env fs w"
  by (auto simp: plan_change_def Let_def split: option.splits sum.splits intro: read_remembers)

lemma plan_file_patch_remembers:
  "plan_file_patch env fs fuzz f = Inr (w, sm) \<Longrightarrow>
    \<forall>p bytes. fs p = Some bytes \<longrightarrow> keeps_encoding env bytes \<Longrightarrow> remembers env fs w"
  by (auto simp: plan_file_patch_def Let_def split: option.splits sum.splits if_splits prod.splits
      intro: read_remembers)

lemma plan_all_Cons:
  assumes "plan_all plan (g # gs) x = Inr (ws, x')"
  obtains v sm vs where "plan g = Inr (v, sm)" "plan_all plan gs (count_file sm x) = Inr (vs, x')"
    "ws = v # vs"
  using assms by (auto split: sum.splits prod.splits)

lemma plan_all_each:
  "plan_all plan gs x = Inr (ws, x') \<Longrightarrow> w \<in> set ws \<Longrightarrow> \<exists>g\<in>set gs. \<exists>sm. plan g = Inr (w, sm)"
proof (induction gs arbitrary: x ws)
  case (Cons g gs)
  from Cons.prems(1) show ?case
    by (rule plan_all_Cons) (use Cons in \<open>auto\<close>)
qed simp

lemma rollback_restores:
  assumes "\<forall>w\<in>set ws. remembers env fs0 w" and "\<forall>p. \<not> pe_restore_fails env p"
  shows "fold (restore_write env) ws fs p = (if p \<in> pw_path ` set ws then fs0 p else fs p)"
  using assms(1)
proof (induction ws arbitrary: fs)
  case (Cons w ws)
  have "restore_write env w fs p = (if p = pw_path w then fs0 p else fs p)"
    using Cons.prems assms(2) by (auto simp: restore_write_def remembers_def split: option.splits)
  with Cons show ?case by auto
qed simp

lemma perform_elsewhere:
  "perform_write env n w fs = Inr fs' \<Longrightarrow> p \<noteq> pw_path w \<Longrightarrow> fs' p = fs p"
  by (auto simp: perform_write_def split: option.splits if_splits)

lemma failed_writes:
  assumes "write_from env applied ws fs = (fs', Some e)"
    and "\<forall>w\<in>set (applied @ ws). remembers env fs0 w" and "\<forall>p. \<not> pe_restore_fails env p"
    and "\<forall>n. pe_mkdir_fails env n = None"
    and "\<forall>p. p \<notin> pw_path ` set applied \<longrightarrow> fs p = fs0 p"
  shows "fs' = fs0"
  using assms(1,2,5)
proof (induction ws arbitrary: applied fs)
  case (Cons w ws)
  have dirs: "create_parent env (length applied) w = None" using assms(4) by (simp add: create_parent_def)
  show ?case
  proof (cases "perform_write env (length applied) w fs")
    case (Inl err)
    then have "fs' = rollback_pending_writes env applied fs" using Cons.prems(1) dirs by simp
    moreover have "\<forall>w\<in>set (rev applied). remembers env fs0 w" using Cons.prems(2) by simp
    ultimately show ?thesis
      using rollback_restores [OF _ assms(3), of "rev applied" fs0 fs] Cons.prems(3)
      by (auto simp: rollback_pending_writes_def fun_eq_iff)
  next
    case (Inr fs1)
    have "\<forall>p. p \<notin> pw_path ` set (applied @ [w]) \<longrightarrow> fs1 p = fs0 p"
      using Cons.prems(3) perform_elsewhere [OF Inr] by auto
    then show ?thesis
      using Cons.IH [of "applied @ [w]" fs1] Cons.prems(1,2) Inr dirs by simp
  qed
qed simp

lemma failed_plan:
  assumes "write_plan env pending x fs = (fs', Inl e)" and "\<forall>w\<in>set pending. remembers env fs w"
    and "\<forall>p. \<not> pe_restore_fails env p" and "\<forall>n. pe_mkdir_fails env n = None"
  shows "fs' = fs"
  using assms failed_writes [of env "[]" pending fs fs' e fs]
  by (auto simp: write_plan_def apply_pending_writes_def split: prod.splits option.splits)

text \<open>
  C32. A failed call changes nothing: when \<open>apply_patch\<close> returns an error, of whatever step and after any
  number of files already written, every file has the bytes it had before the call, given that
  the files keep their encoding, that no directory has to be created in vain and that the rollback's
  own writes succeed.
\<close>

theorem failed_patch_changes_nothing:
  assumes "\<forall>p bytes. fs p = Some bytes \<longrightarrow> keeps_encoding env bytes"
    and "\<forall>p. \<not> pe_restore_fails env p" and "\<forall>n. pe_mkdir_fails env n = None"
    and "execute_apply_patch env fs input = (fs', Inl e)"
  shows "fs' = fs"
proof -
  have changes: "fs' = fs" if "build_pending_writes_from_changes env fs v = Inr (pending, x)"
    "write_plan env pending x fs = (fs', Inl e)" for v pending x
  proof -
    have "\<forall>w\<in>set pending. remembers env fs w"
      using that(1) plan_change_remembers [OF _ assms(1)]
      by (auto simp: build_pending_writes_from_changes_def split: option.splits if_splits
          dest: plan_all_each)
    from failed_plan [OF that(2) this assms(2,3)] show ?thesis .
  qed
  have patches: "fs' = fs" if "build_pending_writes_from_patches env fs fps fuzz = Inr (pending, x)"
    "write_plan env pending x' fs = (fs', Inl e)" for fps fuzz pending x x'
  proof -
    have "\<forall>w\<in>set pending. remembers env fs w"
      using that(1) plan_file_patch_remembers [OF _ assms(1)]
      by (auto simp: build_pending_writes_from_patches_def dest: plan_all_each)
    from failed_plan [OF that(2) this assms(2,3)] show ?thesis .
  qed
  show ?thesis
    using assms(4) unfolding execute_apply_patch_def Let_def
    by (auto split: option.splits sum.splits prod.splits dest: changes patches)
qed

section \<open>Failures that are not rolled back, and two sections of one file\<close>

lemma write_from_append:
  "write_from env applied (ws @ vs) fs =
     (case write_from env applied ws fs of
        (fs', Some e) \<Rightarrow> (fs', Some e)
      | (fs', None) \<Rightarrow> write_from env (applied @ ws) vs fs')"
  by (induction ws arbitrary: applied fs) (auto split: sum.splits option.splits)

text \<open>
  A directory that cannot be created leaves a patch half applied: when the writes before an entry
  succeed and the directory of the entry cannot be created, the call ends with that error and the
  earlier files keep their new content; they are not rolled back.
\<close>

theorem directory_failure_keeps_writes:
  assumes "apply_pending_writes env ws fs = (fs', None)"
    and "pw_content w \<noteq> None" and "pe_mkdir_fails env (length ws) = Some e"
  shows "apply_pending_writes env (ws @ w # vs) fs = (fs', Some e)"
  using assms by (auto simp: apply_pending_writes_def write_from_append create_parent_def)

lemma plan_all_append:
  "plan_all plan (gs @ hs) x = Inr (ws, x') \<Longrightarrow>
    \<exists>us vs x1. ws = us @ vs \<and> plan_all plan gs x = Inr (us, x1) \<and> plan_all plan hs x1 = Inr (vs, x')"
proof (induction gs arbitrary: x ws)
  case (Cons g gs)
  from Cons.prems show ?case
    unfolding append_Cons
  proof (rule plan_all_Cons)
    fix v sm vs
    assume g: "plan g = Inr (v, sm)" "plan_all plan (gs @ hs) (count_file sm x) = Inr (vs, x')"
      "ws = v # vs"
    from Cons.IH [OF g(2)] obtain us vs1 x1 where "vs = us @ vs1"
      "plan_all plan gs (count_file sm x) = Inr (us, x1)" "plan_all plan hs x1 = Inr (vs1, x')"
      by blast
    with g show ?thesis
      by (intro exI [of _ "v # us"] exI [of _ vs1] exI [of _ x1]) simp
  qed
qed simp

text \<open>
  The last section of a patch for a file decides its content alone. When a patch is planned and all its
  writes succeed, the file of the last section holds what that section makes of the file as it
  was before the call: what an earlier section of the same file changed is lost, although the
  report counts its hunks as applied.
\<close>

theorem last_section_decides:
  assumes "build_pending_writes_from_patches env fs (fps @ [f]) fuzz = Inr (pending, x)"
    and "apply_pending_writes env pending fs = (fs', None)"
  shows "\<exists>w sm. plan_file_patch env fs fuzz f = Inr (w, sm) \<and>
    fs' (pw_path w) = map_option (\<lambda>t. encode_text env t (pw_encoding w) (pw_had_bom w)) (pw_content w)"
proof -
  obtain us vs x1 where p: "pending = us @ vs"
    "plan_all (plan_file_patch env fs fuzz) [f] x1 = Inr (vs, x)"
    using plan_all_append [OF assms(1) [unfolded build_pending_writes_from_patches_def]] by blast
  then obtain w sm where w: "plan_file_patch env fs fuzz f = Inr (w, sm)" "vs = [w]"
    by (auto split: sum.splits prod.splits)
  then obtain fs1 n where "perform_write env n w fs1 = Inr fs'"
    using assms(2) p(1) by (auto simp: apply_pending_writes_def write_from_append
        split: prod.splits option.splits sum.splits)
  then have "fs' (pw_path w) =
      map_option (\<lambda>t. encode_text env t (pw_encoding w) (pw_had_bom w)) (pw_content w)"
    by (auto simp: perform_write_def split: option.splits if_splits)
  with w(1) show ?thesis by blast
qed

section \<open>Concrete calls\<close>

text \<open>A system without errors, except for the write number \<open>n\<close>.\<close>

definition plain_env :: "nat option \<Rightarrow> patch_env" where
  "plain_env failing =
     \<lparr>pe_resolve = (\<lambda>p. Inr p), pe_unreadable = (\<lambda>p. None),
      pe_fails = (\<lambda>n. if failing = Some n then Some (ExecutionFailed ''disk full'') else None),
      pe_mkdir_fails = (\<lambda>n. None), pe_restore_fails = (\<lambda>p. False), pe_for_bom = (\<lambda>b. None), pe_decode_as = (\<lambda>l b. (b, False)),
      pe_encode_as = (\<lambda>l b. b)\<rparr>"

definition two_files :: files where
  "two_files = [''f'' \<mapsto> ''one'', ''g'' \<mapsto> ''two'']"

definition two_changes :: json where
  "two_changes =
     JObject [(''changes'', JArray
       [JObject [(''path'', JString ''f''), (''content'', JString ''1'')],
        JObject [(''path'', JString ''new''), (''content'', JString ''2'')],
        JObject [(''path'', JString ''g''), (''content'', JString ''3'')]])]"

lemma two_files_kept: "\<forall>p bytes. two_files p = Some bytes \<longrightarrow> keeps_encoding (plain_env n) bytes"
proof -
  have "valid_utf8 ''one''" "valid_utf8 ''two''" by code_simp+
  then show ?thesis
    by (auto simp: two_files_def plain_env_def intro: utf8_keeps_encoding split: if_splits)
qed

lemma plain_read:
  "read_if_exists (plain_env n) fs p =
     (case fs p of
        None \<Rightarrow> Inr None
      | Some bytes \<Rightarrow> if valid_utf8 bytes
          then Inr (Some \<lparr>df_text = bytes, df_label = ''utf-8'', df_had_bom = False\<rparr>)
          else read_if_exists (plain_env n) fs p)"
  by (auto simp: read_if_exists_def plain_env_def detect_and_decode_def split: option.split)

lemma plain_resolve [simp]: "pe_resolve (plain_env m) p = Inr p"
  and plain_fails [simp]: "pe_fails (plain_env m) n =
    (if m = Some n then Some (ExecutionFailed ''disk full'') else None)"
  and plain_mkdir [simp]: "pe_mkdir_fails (plain_env m) n = None"
  by (simp_all add: plain_env_def)

lemma plain_encode: "encode_text env s ''utf-8'' False = s"
  by (simp add: encode_text_def utf8_label)

lemma sample_texts: "valid_utf8 ''one''" "valid_utf8 ''two''" "valid_utf8 (''a'' @ [CHR 0x0A] @ ''b'')"
  by code_simp+

theorem failed_patch_changes_nothing_witness:
  "execute_apply_patch (plain_env (Some 2)) two_files two_changes =
     (two_files, Inl (ExecutionFailed ''disk full''))"
proof -
  have "snd (execute_apply_patch (plain_env (Some 2)) two_files two_changes) =
      Inl (ExecutionFailed ''disk full'')"
    by (simp add: execute_apply_patch_def two_changes_def build_pending_writes_from_changes_def
        plan_change_def plain_read two_files_def sample_texts str_field_def write_of_def
        line_ending_of_def normalize_line_endings_def write_plan_def apply_pending_writes_def
        perform_write_def create_parent_def)
  then obtain fs where run: "execute_apply_patch (plain_env (Some 2)) two_files two_changes =
      (fs, Inl (ExecutionFailed ''disk full''))"
    by (metis prod.collapse)
  have "\<forall>p. \<not> pe_restore_fails (plain_env (Some 2)) p" "\<forall>n. pe_mkdir_fails (plain_env (Some 2)) n = None"
    by (simp_all add: plain_env_def)
  from failed_patch_changes_nothing [OF two_files_kept this run] run show ?thesis by simp
qed

theorem directory_failure_keeps_writes_witness:
  "apply_pending_writes ((plain_env None)\<lparr>pe_mkdir_fails := (\<lambda>n. if n = 1 then Some (ExecutionFailed ''read-only'') else None)\<rparr>)
     [write_of ''f'' (Some ''1'') None, write_of ''d/g'' (Some ''2'') None] two_files =
   (two_files(''f'' \<mapsto> ''1''), Some (ExecutionFailed ''read-only''))"
  by (rule directory_failure_keeps_writes [where ws = "[w]" and vs = "[]" for w, simplified])
     (simp_all add: apply_pending_writes_def create_parent_def perform_write_def write_of_def plain_encode
       plain_env_def)

text \<open>Two sections that change different lines of one file.\<close>

definition line_change :: "nat \<Rightarrow> string \<Rightarrow> string \<Rightarrow> file_patch" where
  "line_change n before after =
     \<lparr>fp_path = ''f'',
      fp_hunks = [\<lparr>hk_old_start = n, hk_old_count = 1, hk_new_start = n, hk_new_count = 1,
        hk_lines = [Remove before, Add after]\<rparr>],
      fp_delete_after = False, fp_create_if_missing = False\<rparr>"

definition two_lines :: files where
  "two_lines = [''f'' \<mapsto> ''a'' @ [CHR 0x0A] @ ''b'']"

definition both_lines :: "file_patch list" where
  "both_lines = [line_change 1 ''a'' ''A'', line_change 2 ''b'' ''B'']"

lemma line_changes:
  "apply_hunks_to_lines [''a'', ''b''] (fp_hunks (line_change 1 ''a'' ''A'')) 3 ''f'' =
     Inr ([''A'', ''b''], \<lparr>ha_hunks_applied = 1, ha_fuzz_used = 0, ha_hunks_with_fuzz = 0\<rparr>)"
  "apply_hunks_to_lines [''a'', ''b''] (fp_hunks (line_change 2 ''b'' ''B'')) 3 ''f'' =
     Inr ([''a'', ''B''], \<lparr>ha_hunks_applied = 1, ha_fuzz_used = 0, ha_hunks_with_fuzz = 0\<rparr>)"
  "text_lines (''a'' @ [CHR 0x0A] @ ''b'') = [''a'', ''b'']"
  by (simp_all add: apply_hunks_to_lines_def line_change_def apply_hunk_at_start hunk_old_def hunk_new_def
      List.map_filter_def start_index_def as_isize_def matches_at_position_def splice_def no_hunks_applied_def
      text_lines_def strip_cr_def)

definition planned_line :: "string \<Rightarrow> pending_write" where
  "planned_line new =
     \<lparr>pw_path = ''f'', pw_content = Some new, pw_original = Some (''a'' @ [CHR 0x0A] @ ''b''),
      pw_encoding = ''utf-8'', pw_had_bom = False\<rparr>"

lemma plan_line_changes:
  "\<exists>sm. plan_file_patch (plain_env None) two_lines 3 (line_change 1 ''a'' ''A'') =
     Inr (planned_line (''A'' @ [CHR 0x0A] @ ''b''), sm) \<and> fs_hunks_applied sm = 1"
  "\<exists>sm. plan_file_patch (plain_env None) two_lines 3 (line_change 2 ''b'' ''B'') =
     Inr (planned_line (''a'' @ [CHR 0x0A] @ ''B''), sm) \<and> fs_hunks_applied sm = 1"
proof -
  have path: "fp_path (line_change n old new) = ''f''" "fp_hunks (line_change n old new) \<noteq> []"
    "\<not> fp_delete_after (line_change n old new)" for n old new
    by (simp_all add: line_change_def)
  have new: "patched_text (Some (''a'' @ [CHR 0x0A] @ ''b'')) [''A'', ''b''] = ''A'' @ [CHR 0x0A] @ ''b''"
    "patched_text (Some (''a'' @ [CHR 0x0A] @ ''b'')) [''a'', ''B''] = ''a'' @ [CHR 0x0A] @ ''B''"
    by code_simp+
  have "read_if_exists (plain_env None) two_lines ''f'' = Inr (Some
      \<lparr>df_text = ''a'' @ [CHR 0x0A] @ ''b'', df_label = ''utf-8'', df_had_bom = False\<rparr>)"
    using plain_read [of None two_lines "''f''"] sample_texts(3) by (simp add: two_lines_def)
  then show
    "\<exists>sm. plan_file_patch (plain_env None) two_lines 3 (line_change 1 ''a'' ''A'') =
       Inr (planned_line (''A'' @ [CHR 0x0A] @ ''b''), sm) \<and> fs_hunks_applied sm = 1"
    "\<exists>sm. plan_file_patch (plain_env None) two_lines 3 (line_change 2 ''b'' ''B'') =
       Inr (planned_line (''a'' @ [CHR 0x0A] @ ''B''), sm) \<and> fs_hunks_applied sm = 1"
    using line_changes new
    by (simp_all add: plan_file_patch_def path write_of_def planned_line_def)
qed

theorem last_section_decides_witness:
  "\<exists>pending x. build_pending_writes_from_patches (plain_env None) two_lines both_lines 3 = Inr (pending, x) \<and>
     ps_hunks_applied (px_stats x) = 2 \<and>
     fst (apply_pending_writes (plain_env None) pending two_lines) ''f'' =
       Some (''a'' @ [CHR 0x0A] @ ''B'')"
proof -
  obtain sm1 where one: "plan_file_patch (plain_env None) two_lines 3 (line_change 1 ''a'' ''A'') =
      Inr (planned_line (''A'' @ [CHR 0x0A] @ ''b''), sm1)" "fs_hunks_applied sm1 = 1"
    using plan_line_changes(1) by blast
  obtain sm2 where two: "plan_file_patch (plain_env None) two_lines 3 (line_change 2 ''b'' ''B'') =
      Inr (planned_line (''a'' @ [CHR 0x0A] @ ''B''), sm2)" "fs_hunks_applied sm2 = 1"
    using plan_line_changes(2) by blast
  define x where "x = count_file sm2 (count_file sm1 (with_total 2))"
  define pending where "pending = map planned_line [''A'' @ [CHR 0x0A] @ ''b'', ''a'' @ [CHR 0x0A] @ ''B'']"
  have plan: "build_pending_writes_from_patches (plain_env None) two_lines
      ([line_change 1 ''a'' ''A''] @ [line_change 2 ''b'' ''B'']) 3 = Inr (pending, x)"
    using one two by (simp add: build_pending_writes_from_patches_def pending_def x_def numeral_2_eq_2)
  obtain fs' where run: "apply_pending_writes (plain_env None) pending two_lines = (fs', None)"
    by (simp add: apply_pending_writes_def pending_def create_parent_def perform_write_def planned_line_def)
  have "fs' ''f'' = Some (''a'' @ [CHR 0x0A] @ ''B'')"
    using last_section_decides [OF plan run] two by (simp add: planned_line_def plain_encode)
  moreover have "ps_hunks_applied (px_stats x) = 2"
    by (simp add: x_def count_file_def with_total_def default_patch_stats_def one(2) two(2))
  ultimately show ?thesis
    using plan run by (intro exI [of _ pending] exI [of _ x]) (simp add: both_lines_def)
qed

end
