(* ===== verification/Tool_Policy.thy ===== *)
theory Tool_Policy
  imports Browser_Policy Patch_Files Tool_Scheduler Loop_Guard Message_Tokens
begin

text \<open>
  What a planned tool call may do without being asked for: the manifests and the policy engine of
  \<open>crates/tools/src/tool_manifest.rs\<close> and \<open>policy_engine.rs\<close>, the default methods of a tool
  (\<open>tools/spec.rs\<close>), the names of the MCP tools (\<open>dispatch.rs\<close>), and the resolution of a call's
  approval in \<open>tools/policy_bridge.rs\<close>, with the text of its approval card.

  A registry is a map from names to tools; of a tool the policy sees the answers of its methods. The
  counters of the shadow mode are left out: nothing but a log line reads them.
\<close>

section \<open>Manifests\<close>

datatype tool_capability =
  ReadOnly | WritesFiles | ExecutesCode | UsesNetwork | Sandboxable | RequiresApproval

datatype approval_requirement = ApprovalAuto | ApprovalSuggest | ApprovalRequired

datatype footprint_provenance = BuiltIn | UserConfig | McpSelfDeclared

datatype spawn_class = SpawnNone | SpawnSandboxed | SpawnPrivileged

record resource_set =
  rs_workspace_read :: bool
  rs_network_read :: bool
  rs_workspace_write :: bool
  rs_network_write :: bool

definition default_resource_set :: resource_set where
  "default_resource_set =
     \<lparr>rs_workspace_read = False, rs_network_read = False, rs_workspace_write = False, rs_network_write = False\<rparr>"

definition resources_empty :: "resource_set \<Rightarrow> bool" where
  "resources_empty r \<longleftrightarrow> \<not> rs_workspace_write r \<and> \<not> rs_network_write r"

record footprint =
  fp_reads :: resource_set
  fp_writes :: resource_set
  fp_spawns :: spawn_class

definition writes_workspace_state :: "footprint \<Rightarrow> bool" where
  "writes_workspace_state f \<longleftrightarrow> rs_workspace_write (fp_writes f)"

record tool_manifest =
  tm_name :: string
  tm_footprint :: footprint
  tm_provenance :: footprint_provenance

definition derive_conservative_footprint :: "tool_capability list \<Rightarrow> bool \<Rightarrow> footprint" where
  "derive_conservative_footprint caps unified_writes_state =
     (let read_only = ReadOnly \<in> set caps;
          writes_files = WritesFiles \<in> set caps;
          executes = ExecutesCode \<in> set caps;
          network = UsesNetwork \<in> set caps
      in
      \<lparr>fp_reads = default_resource_set
         \<lparr>rs_workspace_read := read_only \<or> writes_files \<or> executes \<or> \<not> network, rs_network_read := network\<rparr>,
       fp_writes = default_resource_set
         \<lparr>rs_workspace_write := unified_writes_state \<or> writes_files \<or> executes,
          rs_network_write := network \<and> \<not> read_only\<rparr>,
       fp_spawns = (if executes then SpawnSandboxed else SpawnNone)\<rparr>)"

definition derive_conservative ::
  "string \<Rightarrow> tool_capability list \<Rightarrow> bool \<Rightarrow> footprint_provenance \<Rightarrow> tool_manifest" where
  "derive_conservative name caps unified_writes_state provenance =
     \<lparr>tm_name = name, tm_footprint = derive_conservative_footprint caps unified_writes_state,
      tm_provenance = provenance\<rparr>"

section \<open>The policy engine\<close>

datatype policy_session_mode = PolicyAgent | PolicyPlan | PolicyYolo

datatype approval_need = NeedAuto | NeedAsk | NeedDeny

datatype sandbox_class = NoSandbox | Sandboxed | Strict

datatype parallel_resource_key = ReadOnlyBatch

record tool_policy_decision =
  pd_approval :: approval_need
  pd_sandbox :: sandbox_class
  pd_parallel_key :: "parallel_resource_key option"
  pd_read_only :: bool

record policy_plan_meta =
  pm_approval_required :: bool
  pm_read_only :: bool
  pm_supports_parallel :: bool

record policy_input =
  pi_session_mode :: policy_session_mode
  pi_manifest :: tool_manifest
  pi_legacy_approval :: approval_requirement
  pi_supports_parallel_hint :: bool
  pi_trust_mode :: bool

definition plan_meta :: "tool_policy_decision \<Rightarrow> policy_plan_meta" where
  "plan_meta d =
     \<lparr>pm_approval_required = (pd_approval d \<noteq> NeedAuto), pm_read_only = pd_read_only d,
      pm_supports_parallel = (pd_parallel_key d \<noteq> None)\<rparr>"

definition effective_footprint :: "tool_manifest \<Rightarrow> footprint" where
  "effective_footprint m =
     (case tm_provenance m of
        McpSelfDeclared \<Rightarrow>
          if resources_empty (fp_writes (tm_footprint m))
          then (tm_footprint m)\<lparr>fp_writes := default_resource_set
                 \<lparr>rs_workspace_write := True, rs_network_write := True\<rparr>\<rparr>
          else tm_footprint m
      | _ \<Rightarrow> tm_footprint m)"

definition decide_approval :: "policy_input \<Rightarrow> footprint \<Rightarrow> approval_need" where
  "decide_approval i f =
     (if pi_trust_mode i \<or> pi_session_mode i = PolicyYolo then NeedAuto
      else case tm_provenance (pi_manifest i) of
        McpSelfDeclared \<Rightarrow> NeedAsk
      | _ \<Rightarrow>
          (case pi_legacy_approval i of
             ApprovalAuto \<Rightarrow>
               if resources_empty (fp_writes f) \<and> fp_spawns f = SpawnNone then NeedAuto else NeedAsk
           | _ \<Rightarrow> NeedAsk))"

definition decide_sandbox :: "footprint \<Rightarrow> footprint_provenance \<Rightarrow> sandbox_class" where
  "decide_sandbox f provenance =
     (if provenance = McpSelfDeclared then Strict
      else case fp_spawns f of
        SpawnPrivileged \<Rightarrow> Strict
      | SpawnSandboxed \<Rightarrow> Sandboxed
      | SpawnNone \<Rightarrow> if \<not> resources_empty (fp_writes f) then Strict else NoSandbox)"

definition decide_read_only :: "footprint \<Rightarrow> footprint_provenance \<Rightarrow> bool" where
  "decide_read_only f provenance \<longleftrightarrow>
     provenance \<noteq> McpSelfDeclared \<and> resources_empty (fp_writes f) \<and> fp_spawns f = SpawnNone"

definition decide_parallel_key ::
  "policy_input \<Rightarrow> footprint \<Rightarrow> approval_need \<Rightarrow> parallel_resource_key option" where
  "decide_parallel_key i f approval =
     (if tm_provenance (pi_manifest i) = McpSelfDeclared then None
      else if approval \<noteq> NeedAuto then None
      else if \<not> resources_empty (fp_writes f) \<or> fp_spawns f \<noteq> SpawnNone then None
      else if \<not> pi_supports_parallel_hint i then None
      else Some ReadOnlyBatch)"

definition decide_tool :: "policy_input \<Rightarrow> tool_policy_decision" where
  "decide_tool i =
     (let f = effective_footprint (pi_manifest i);
          approval = decide_approval i f
      in \<lparr>pd_approval = approval,
          pd_sandbox = decide_sandbox f (tm_provenance (pi_manifest i)),
          pd_parallel_key = decide_parallel_key i f approval,
          pd_read_only = decide_read_only f (tm_provenance (pi_manifest i))\<rparr>)"

section \<open>Tools\<close>

text \<open>What the methods of a registered tool answer, and the answers a tool has by default.\<close>

record tool_spec =
  ts_description :: string
  ts_approval_requirement :: approval_requirement
  ts_is_read_only :: bool
  ts_supports_parallel :: bool
  ts_manifest :: tool_manifest

type_synonym registry = "string \<rightharpoonup> tool_spec"

definition default_approval_requirement :: "tool_capability list \<Rightarrow> approval_requirement" where
  "default_approval_requirement caps =
     (if ExecutesCode \<in> set caps then ApprovalRequired
      else if WritesFiles \<in> set caps then ApprovalSuggest
      else ApprovalAuto)"

definition default_is_read_only :: "tool_capability list \<Rightarrow> bool" where
  "default_is_read_only caps \<longleftrightarrow>
     ReadOnly \<in> set caps \<and> WritesFiles \<notin> set caps \<and> ExecutesCode \<notin> set caps"

definition default_manifest :: "string \<Rightarrow> tool_capability list \<Rightarrow> tool_manifest" where
  "default_manifest name caps = derive_conservative name caps (tool_writes_state name) BuiltIn"

definition is_mcp_tool_name :: "string \<Rightarrow> bool" where
  "is_mcp_tool_name name \<longleftrightarrow>
     starts_with name ''mcp_'' \<or>
     name \<in> {''list_mcp_resources'', ''list_mcp_resource_templates'', ''read_mcp_resource''}"

definition mcp_tool_is_parallel_safe :: "string \<Rightarrow> bool" where
  "mcp_tool_is_parallel_safe name \<longleftrightarrow>
     name \<in> {''list_mcp_resources'', ''list_mcp_resource_templates'', ''mcp_read_resource'',
             ''read_mcp_resource'', ''mcp_get_prompt''}"

definition mcp_tool_is_read_only :: "string \<Rightarrow> bool" where
  "mcp_tool_is_read_only name \<longleftrightarrow>
     name \<in> {''list_mcp_resources'', ''list_mcp_resource_templates'', ''mcp_read_resource'',
             ''read_mcp_resource'', ''mcp_get_prompt''}"

definition in_quotes :: "string \<Rightarrow> string" where
  "in_quotes s = [CHR 0x27] @ s @ [CHR 0x27]"

definition mcp_tool_approval_description :: "string \<Rightarrow> string" where
  "mcp_tool_approval_description name =
     (if mcp_tool_is_read_only name then ''Read-only MCP tool '' @ in_quotes name
      else ''MCP tool '' @ in_quotes name @ '' may have side effects'')"

definition is_first_party_mcp_surface_tool :: "string \<Rightarrow> bool" where
  "is_first_party_mcp_surface_tool name \<longleftrightarrow>
     name \<in> {''list_mcp_resources'', ''list_mcp_resource_templates'', ''read_mcp_resource'',
             ''mcp_read_resource'', ''mcp_get_prompt''}"

definition CODE_EXECUTION_TOOL_NAME :: string where
  "CODE_EXECUTION_TOOL_NAME = ''code_execution''"

definition is_tool_search_tool :: "string \<Rightarrow> bool" where
  "is_tool_search_tool name \<longleftrightarrow> name \<in> {''tool_search_tool_regex'', ''tool_search_tool_bm25''}"

section \<open>The approval of a call\<close>

text \<open>What the resolution reads besides the call: configuration, mode, registry, browser preferences.\<close>

datatype tools_policy_mode = PolicyLegacy | PolicyShadow | PolicyEngine

definition parse_policy_mode :: "string option \<Rightarrow> tools_policy_mode" where
  "parse_policy_mode value =
     (case map_option (\<lambda>v. to_ascii_lowercase (trim v)) value of
        Some v \<Rightarrow>
          if v = ''legacy'' then PolicyLegacy else if v = ''shadow'' then PolicyShadow else PolicyEngine
      | None \<Rightarrow> PolicyEngine)"

record policy_context =
  pc_policy_mode :: tools_policy_mode
  pc_turn_mode :: turn_loop_mode
  pc_trust_mode :: bool
  pc_registry :: "registry option"
  pc_browser :: browser_state
  pc_yolo_variable :: "string option"
  pc_lower :: "string \<Rightarrow> string"

definition find_tool :: "policy_context \<Rightarrow> string \<Rightarrow> tool_spec option" where
  "find_tool c name = Option.bind (pc_registry c) (\<lambda>r. r name)"

definition session_mode_from_turn :: "turn_loop_mode \<Rightarrow> policy_session_mode" where
  "session_mode_from_turn m =
     (case m of turn_loop_mode.Agent \<Rightarrow> PolicyAgent | turn_loop_mode.Plan \<Rightarrow> PolicyPlan
      | turn_loop_mode.Yolo \<Rightarrow> PolicyYolo)"

definition browser_yolo_enabled :: "policy_context \<Rightarrow> bool" where
  "browser_yolo_enabled c \<longleftrightarrow>
     (case map_option trim (pc_yolo_variable c) of
        Some v \<Rightarrow> v \<in> {''1'', ''true'', ''TRUE'', ''yes''}
      | None \<Rightarrow> False) \<or> bs_yolo (pc_browser c)"

definition is_browser_write_tool :: "string \<Rightarrow> bool" where
  "is_browser_write_tool name \<longleftrightarrow>
     name \<in> {''browser_click'', ''browser_type'', ''browser_scroll'', ''browser_start_preview''}"

definition navigate_ask :: "policy_context \<Rightarrow> json \<Rightarrow> string option" where
  "navigate_ask c input = Option.bind (str_field input ''url'') (browser_navigate_needs_external_ask (pc_browser c))"

subsection \<open>The text of the card\<close>

definition exec_shell_approval_description :: "(string \<Rightarrow> string) \<Rightarrow> json \<Rightarrow> string" where
  "exec_shell_approval_description u input =
     (let command = trim (case str_field input ''command'' of Some s \<Rightarrow> s | None \<Rightarrow> []) in
      if command = [] then ''Execute a shell command in the workspace''
      else
        (case git_push_approval_banner u command of
           Some banner \<Rightarrow> banner @ [CHR 0x0A, CHR 0x0A] | None \<Rightarrow> []) @ command)"

text \<open>The first lines of a text, trimmed, on one line; and the description of an edit.\<close>

definition preview_lines :: "nat \<Rightarrow> string \<Rightarrow> string" where
  "preview_lines n s = join '' | '' (map trim (take n (text_lines s)))"

definition angle_quoted :: "string \<Rightarrow> string" where
  "angle_quoted s = [CHR 0xC2, CHR 0xAB] @ s @ [CHR 0xC2, CHR 0xBB]"

definition build_edit_file_approval_desc :: "json \<Rightarrow> string" where
  "build_edit_file_approval_desc input =
     (let field = (\<lambda>key d. case str_field input key of Some s \<Rightarrow> s | None \<Rightarrow> d);
          path = field ''path'' ''?'';
          op = field ''operation'' ''search_replace''
      in
      if op = ''delete_lines'' then
        (let start = optional_u64 input ''start_line'' 0;
             last_line = optional_u64 input ''end_line'' 0;
             count = (if start > 0 \<and> last_line \<ge> start then last_line - start + 1 else 0)
         in [CHR 0xE2, CHR 0x9A, CHR 0xA0, CHR 0xEF, CHR 0xB8, CHR 0x8F] @ '' DELETE '' @ show_nat count @
            '' line(s) (lines '' @ show_nat start @ [CHR 0xE2, CHR 0x80, CHR 0x93] @ show_nat last_line @
            '') in '' @ path)
      else if op = ''insert_after'' then
        (let after = optional_u64 input ''after_line'' 0;
             inserted = field ''text'' [];
             extra = (if length (text_lines inserted) > 3 then [CHR 0xE2, CHR 0x80, CHR 0xA6] else []);
             pos = (if after = 0 then ''beginning'' else ''after line '' @ show_nat after)
         in ''Insert text at '' @ pos @ '' in '' @ path @ '': '' @ angle_quoted (preview_lines 3 inserted @ extra))
      else if op = ''replace_line'' then
        ''Replace line '' @ show_nat (optional_u64 input ''line'' 0) @ '' in '' @ path @ '' with: '' @
          angle_quoted (preview_lines 2 (field ''text'' []))
      else
        ''Search/replace in '' @ path @ '': '' @ angle_quoted (preview_lines 2 (field ''search'' ''?'')) @
          [CHR 0x20, CHR 0xE2, CHR 0x86, CHR 0x92, CHR 0x20] @ angle_quoted (preview_lines 2 (field ''replace'' ''?'')))"

text \<open>\<open>splitn(3, ':')\<close>: the third part is the rest.\<close>

definition describe_stable_browser_ref :: "string \<Rightarrow> string" where
  "describe_stable_browser_ref r =
     (case split_char (CHR '':'') r of
        part # slug # n # ns \<Rightarrow>
          (let nth = join '':'' (n # ns) in
           if part = [] \<or> slug = [] \<or> (case parse_usize nth of Some k \<Rightarrow> k \<ge> 2 ^ 32 | None \<Rightarrow> True)
           then ''ref='' @ r
           else part @ '' '' @ (if slug = ''anon'' then ''(unnamed)'' else [CHR 0x22] @ slug @ [CHR 0x22]) @
             '' (#'' @ nth @ '', ref='' @ r @ '')'')
      | _ \<Rightarrow> ''ref='' @ r)"

definition open_external_text :: "string \<Rightarrow> string" where
  "open_external_text host = ''Browser: open external site '' @ host @ '' (session allowlist)''"

definition browser_write_approval_description :: "string \<Rightarrow> json \<Rightarrow> string" where
  "browser_write_approval_description tool input =
     (let target = describe_stable_browser_ref (case str_field input ''ref'' of Some r \<Rightarrow> r | None \<Rightarrow> ''?'') in
      if tool = ''browser_click'' then ''Browser: click '' @ target
      else if tool = ''browser_type'' then
        ''Browser: type into '' @ target @ '' ('' @
          show_nat (case str_field input ''text'' of Some s \<Rightarrow> char_count s | None \<Rightarrow> 0) @ '' chars)''
      else if tool = ''browser_scroll'' then
        ''Browser: scroll '' @ (case str_field input ''direction'' of Some d \<Rightarrow> d | None \<Rightarrow> ''down'') @
          '' ('' @ target @ '')''
      else if tool = ''browser_start_preview'' then
        ''Browser: start '' @ quoted ''.zagens/preview.json'' @ '' server and open URL''
      else if tool = ''browser_navigate'' then
        (let url = (case str_field input ''url'' of Some u \<Rightarrow> u | None \<Rightarrow> ''?'') in
         case agent_external_https_host url of
           Some host \<Rightarrow> open_external_text host
         | None \<Rightarrow> ''Browser: navigate to '' @ url)
      else ''Browser: '' @ tool)"

definition code_execution_text :: string where
  "code_execution_text = ''Run model-provided Python code in local execution sandbox''"

definition build_approval_description :: "policy_context \<Rightarrow> string \<Rightarrow> json \<Rightarrow> string" where
  "build_approval_description c tool input =
     (if is_mcp_tool_name tool then mcp_tool_approval_description tool
      else if tool \<in> {''browser_click'', ''browser_type'', ''browser_scroll'', ''browser_start_preview'',
                      ''browser_navigate''} then browser_write_approval_description tool input
      else if tool = ''exec_shell'' then exec_shell_approval_description (pc_lower c) input
      else case find_tool c tool of
        Some spec \<Rightarrow> if tool = ''edit_file'' then build_edit_file_approval_desc input else ts_description spec
      | None \<Rightarrow>
          if tool = CODE_EXECUTION_TOOL_NAME then code_execution_text
          else if is_tool_search_tool tool then ''Search tool catalog''
          else [])"

subsection \<open>The flags\<close>

record tool_plan_approval_meta =
  am_approval_required :: bool
  am_approval_description :: string
  am_supports_parallel :: bool
  am_read_only :: bool

text \<open>The last two corrections, common to both paths.\<close>

definition browser_corrections ::
  "policy_context \<Rightarrow> string \<Rightarrow> json \<Rightarrow> tool_plan_approval_meta \<Rightarrow> tool_plan_approval_meta" where
  "browser_corrections c tool input meta =
     (let meta1 = (if is_browser_write_tool tool \<and> \<not> browser_yolo_enabled c
                   then meta\<lparr>am_approval_required := True\<rparr> else meta) in
      if tool = ''browser_navigate'' then
        (case navigate_ask c input of
           Some host \<Rightarrow> meta1\<lparr>am_approval_required := True,
             am_approval_description := open_external_text host, am_read_only := False\<rparr>
         | None \<Rightarrow> meta1)
      else meta1)"

definition legacy_tool_plan_approval_meta :: "policy_context \<Rightarrow> string \<Rightarrow> json \<Rightarrow> tool_plan_approval_meta" where
  "legacy_tool_plan_approval_meta c tool input =
     (if is_mcp_tool_name tool then
        \<lparr>am_approval_required = (\<not> mcp_tool_is_read_only tool),
         am_approval_description = mcp_tool_approval_description tool,
         am_supports_parallel = mcp_tool_is_parallel_safe tool, am_read_only = mcp_tool_is_read_only tool\<rparr>
      else case find_tool c tool of
        Some spec \<Rightarrow>
          browser_corrections c tool input
            \<lparr>am_approval_required = (ts_approval_requirement spec \<noteq> ApprovalAuto),
             am_approval_description =
               (if tool = ''edit_file'' then build_edit_file_approval_desc input
                else if is_browser_write_tool tool then browser_write_approval_description tool input
                else ts_description spec),
             am_supports_parallel = ts_supports_parallel spec, am_read_only = ts_is_read_only spec\<rparr>
      | None \<Rightarrow>
          if tool = CODE_EXECUTION_TOOL_NAME then
            \<lparr>am_approval_required = True, am_approval_description = code_execution_text,
             am_supports_parallel = False, am_read_only = False\<rparr>
          else if is_tool_search_tool tool then
            \<lparr>am_approval_required = False, am_approval_description = ''Search tool catalog'',
             am_supports_parallel = False, am_read_only = True\<rparr>
          else
            \<lparr>am_approval_required = False, am_approval_description = [],
             am_supports_parallel = False, am_read_only = False\<rparr>)"

definition build_policy_input :: "policy_context \<Rightarrow> string \<Rightarrow> policy_input" where
  "build_policy_input c tool =
     (let inp = (\<lambda>manifest legacy hint.
        \<lparr>pi_session_mode = session_mode_from_turn (pc_turn_mode c), pi_manifest = manifest,
         pi_legacy_approval = legacy, pi_supports_parallel_hint = hint, pi_trust_mode = pc_trust_mode c\<rparr>) in
      if is_mcp_tool_name tool then
        (if is_first_party_mcp_surface_tool tool then
           inp (derive_conservative tool [ReadOnly] False BuiltIn) ApprovalAuto (mcp_tool_is_parallel_safe tool)
         else
           inp (case find_tool c tool of
                  Some spec \<Rightarrow> ts_manifest spec
                | None \<Rightarrow> derive_conservative tool [UsesNetwork, RequiresApproval] False McpSelfDeclared)
             ApprovalRequired False)
      else case find_tool c tool of
        Some spec \<Rightarrow> inp (ts_manifest spec) (ts_approval_requirement spec) (ts_supports_parallel spec)
      | None \<Rightarrow>
          if tool = CODE_EXECUTION_TOOL_NAME then
            inp (derive_conservative tool [ExecutesCode] True BuiltIn) ApprovalRequired False
          else if is_tool_search_tool tool then
            inp (derive_conservative tool [ReadOnly] False BuiltIn) ApprovalAuto False
          else inp (derive_conservative tool [] False BuiltIn) ApprovalAuto False)"

definition engine_plan_meta :: "policy_context \<Rightarrow> string \<Rightarrow> policy_plan_meta" where
  "engine_plan_meta c tool = plan_meta (decide_tool (build_policy_input c tool))"

definition apply_engine_meta :: "string \<Rightarrow> policy_plan_meta \<Rightarrow> tool_plan_approval_meta" where
  "apply_engine_meta description engine =
     \<lparr>am_approval_required = pm_approval_required engine, am_approval_description = description,
      am_supports_parallel = pm_supports_parallel engine, am_read_only = pm_read_only engine\<rparr>"

definition resolve_tool_plan_approval_meta :: "policy_context \<Rightarrow> string \<Rightarrow> json \<Rightarrow> tool_plan_approval_meta" where
  "resolve_tool_plan_approval_meta c tool input =
     (if pc_policy_mode c = PolicyLegacy then legacy_tool_plan_approval_meta c tool input
      else browser_corrections c tool input
        (apply_engine_meta (build_approval_description c tool input) (engine_plan_meta c tool)))"

section \<open>Who is asked\<close>

definition trusting :: "policy_context \<Rightarrow> bool" where
  "trusting c \<longleftrightarrow> pc_trust_mode c \<or> pc_turn_mode c = turn_loop_mode.Yolo"

lemma trusting_input:
  "pi_trust_mode (build_policy_input c tool) \<or> pi_session_mode (build_policy_input c tool) = PolicyYolo \<longleftrightarrow>
     trusting c"
  by (auto simp: build_policy_input_def Let_def trusting_def session_mode_from_turn_def
      split: option.splits turn_loop_mode.splits)

text \<open>
  C9. A tool of an MCP server always asks: with the policy engine its calls need an approval unless the
  session is trusted or in Yolo mode, whatever its manifest says of itself, and they never run in
  parallel with others.
\<close>

theorem mcp_server_tools_ask:
  assumes "is_mcp_tool_name tool" and "\<not> is_first_party_mcp_surface_tool tool"
    and "pc_policy_mode c \<noteq> PolicyLegacy"
  shows "(am_approval_required (resolve_tool_plan_approval_meta c tool input) \<longleftrightarrow> \<not> trusting c) \<and>
    \<not> am_supports_parallel (resolve_tool_plan_approval_meta c tool input)"
proof -
  define i where "i = build_policy_input c tool"
  have input: "pi_legacy_approval i = ApprovalRequired" "\<not> pi_supports_parallel_hint i"
    using assms(1,2) by (simp_all add: i_def build_policy_input_def Let_def)
  then have "pd_approval (decide_tool i) \<noteq> NeedAuto \<longleftrightarrow> \<not> trusting c"
    using trusting_input [of c tool]
    by (auto simp: decide_tool_def decide_approval_def Let_def i_def split: footprint_provenance.splits)
  moreover have "pd_parallel_key (decide_tool i) = None"
    using input(2) by (simp add: decide_tool_def decide_parallel_key_def Let_def)
  moreover have "\<not> is_browser_write_tool tool" "tool \<noteq> ''browser_navigate''"
    using assms(1) by (auto simp: is_mcp_tool_name_def is_browser_write_tool_def starts_with_def)
  ultimately show ?thesis
    using assms(3) by (simp add: resolve_tool_plan_approval_meta_def browser_corrections_def
        apply_engine_meta_def engine_plan_meta_def plan_meta_def i_def)
qed

theorem mcp_server_tools_ask_witness:
  "\<exists>c. pc_policy_mode c = PolicyEngine \<and>
     am_approval_required (resolve_tool_plan_approval_meta c ''mcp_files_read'' JNull)"
proof -
  let ?c = "\<lparr>pc_policy_mode = PolicyEngine, pc_turn_mode = turn_loop_mode.Agent, pc_trust_mode = False,
    pc_registry = None, pc_browser = one_preference, pc_yolo_variable = None, pc_lower = (\<lambda>s. s)\<rparr>"
  have "am_approval_required (resolve_tool_plan_approval_meta ?c ''mcp_files_read'' JNull)"
    using mcp_server_tools_ask [of "''mcp_files_read''" ?c JNull]
    by (simp add: is_mcp_tool_name_def is_first_party_mcp_surface_tool_def starts_with_def trusting_def)
  then show ?thesis by (intro exI [of _ ?c]) simp
qed

text \<open>What runs in parallel reads only, and was not asked for.\<close>

lemma parallel_calls_unasked:
  assumes "am_supports_parallel (resolve_tool_plan_approval_meta c tool input)"
    and "pc_policy_mode c \<noteq> PolicyLegacy"
    and "\<not> is_browser_write_tool tool" and "tool \<noteq> ''browser_navigate''"
  shows "\<not> am_approval_required (resolve_tool_plan_approval_meta c tool input) \<and>
    am_read_only (resolve_tool_plan_approval_meta c tool input)"
  using assms
  by (auto simp: resolve_tool_plan_approval_meta_def browser_corrections_def apply_engine_meta_def
      engine_plan_meta_def plan_meta_def decide_tool_def decide_parallel_key_def decide_read_only_def Let_def
      split: if_splits)

text \<open>What the capabilities of a tool with a default manifest must not say for its calls to go unasked.\<close>

definition harmless :: "string \<Rightarrow> tool_capability list \<Rightarrow> bool" where
  "harmless tool caps \<longleftrightarrow>
     WritesFiles \<notin> set caps \<and> ExecutesCode \<notin> set caps \<and> (UsesNetwork \<in> set caps \<longrightarrow> ReadOnly \<in> set caps) \<and>
     \<not> tool_writes_state tool"

lemma default_manifest_harmless:
  "resources_empty (fp_writes (tm_footprint (default_manifest tool caps))) \<and>
   fp_spawns (tm_footprint (default_manifest tool caps)) = SpawnNone \<longleftrightarrow> harmless tool caps"
  by (auto simp: default_manifest_def derive_conservative_def derive_conservative_footprint_def
      default_resource_set_def resources_empty_def harmless_def Let_def)

text \<open>
  C8. Exactly who is asked. With the policy engine, in a session that is neither trusted nor in Yolo mode,
  a registered tool with the default manifest runs unasked exactly when it is registered as such, its
  capabilities are harmless, it does not act on the browser, and it does not open an external page.
\<close>

theorem unasked_iff:
  assumes "find_tool c tool = Some spec" and "ts_manifest spec = default_manifest tool caps"
    and "\<not> is_mcp_tool_name tool" and "pc_policy_mode c \<noteq> PolicyLegacy" and "\<not> trusting c"
  shows "\<not> am_approval_required (resolve_tool_plan_approval_meta c tool input) \<longleftrightarrow>
    ts_approval_requirement spec = ApprovalAuto \<and> harmless tool caps \<and>
    (is_browser_write_tool tool \<longrightarrow> browser_yolo_enabled c) \<and>
    (tool = ''browser_navigate'' \<longrightarrow> navigate_ask c input = None)"
proof -
  define i where "i = build_policy_input c tool"
  have input: "pi_manifest i = default_manifest tool caps" "pi_legacy_approval i = ts_approval_requirement spec"
    using assms(1-3) by (simp_all add: i_def build_policy_input_def Let_def)
  have built_in: "tm_provenance (default_manifest tool caps) = BuiltIn"
    by (simp add: default_manifest_def derive_conservative_def)
  have "pd_approval (decide_tool i) = NeedAuto \<longleftrightarrow> ts_approval_requirement spec = ApprovalAuto \<and> harmless tool caps"
    using assms(5) trusting_input [of c tool] default_manifest_harmless [of tool caps] input built_in
    by (auto simp: decide_tool_def decide_approval_def effective_footprint_def Let_def i_def
        split: approval_requirement.splits)
  moreover have "\<not> (is_browser_write_tool tool \<and> tool = ''browser_navigate'')"
    by (auto simp: is_browser_write_tool_def)
  ultimately show ?thesis
    using assms(4) by (auto simp: resolve_tool_plan_approval_meta_def browser_corrections_def Let_def
        apply_engine_meta_def engine_plan_meta_def plan_meta_def i_def split: option.splits)
qed

text \<open>
  The tool \<open>browser_navigate\<close> as it is registered; it is documented to open loopback pages without asking.
\<close>

definition browser_navigate_spec :: tool_spec where
  "browser_navigate_spec =
     \<lparr>ts_description = ''Navigate the Zagens desktop Browser pane to a URL.'', ts_approval_requirement = ApprovalAuto,
      ts_is_read_only = default_is_read_only [UsesNetwork, RequiresApproval], ts_supports_parallel = False,
      ts_manifest = default_manifest ''browser_navigate'' [UsesNetwork, RequiresApproval]\<rparr>"

definition navigate_context :: policy_context where
  "navigate_context =
     \<lparr>pc_policy_mode = PolicyEngine, pc_turn_mode = turn_loop_mode.Agent, pc_trust_mode = False,
      pc_registry = Some [''browser_navigate'' \<mapsto> browser_navigate_spec], pc_browser = one_preference,
      pc_yolo_variable = None, pc_lower = (\<lambda>s. s)\<rparr>"

theorem unasked_iff_witness:
  "am_approval_required (resolve_tool_plan_approval_meta navigate_context ''browser_navigate''
     (JObject [(''url'', JString ''http://127.0.0.1:5173/'')]))"
  using unasked_iff [of navigate_context "''browser_navigate''" browser_navigate_spec
      "[UsesNetwork, RequiresApproval]" "JObject [(''url'', JString ''http://127.0.0.1:5173/'')]"]
  by (simp add: navigate_context_def find_tool_def browser_navigate_spec_def is_mcp_tool_name_def
      starts_with_def trusting_def harmless_def)

end
