(* ===== verification/Tool_Execution.thy ===== *)
theory Tool_Execution
  imports Tool_Policy
begin

text \<open>
  How the plans of a step are run: \<open>turn_loop/tool_plans_exec.rs\<close> with its two kinds of batches, the
  approval handshake (\<open>approval.rs\<close>, \<open>approval_ops.rs\<close>), \<open>multi_tool_use.parallel\<close>
  (\<open>tool_execution/parallel.rs\<close>, \<open>dispatch.rs\<close>) and the dispatch of one tool (\<open>exec.rs\<close>, \<open>port.rs\<close>).

  Tools, hooks, the stage gate, the interpreter of Python, the search of the catalog and the user
  are fields of \<open>exec_env\<close>; what they answer may depend on how many tools ran before. Cancellation is
  asked by number of the check. A task of a parallel batch counts as run from its creation. The state keeps what the code changes, and a log of what was done,
  which the code writes as audit lines and events. Locks, spill-over of long results, hooks after
  a call and status events are left out.
\<close>

section \<open>Results, plans, decisions\<close>

record tool_result =
  to_content :: string
  to_success :: bool
  to_metadata :: "json option"

definition result_success :: "string \<Rightarrow> tool_result" where
  "result_success body = \<lparr>to_content = body, to_success = True, to_metadata = None\<rparr>"

text \<open>\<open>ToolExecutionPlan\<close>: the fields of the scheduler, and those of the execution.\<close>

record tool_plan = tool_execution_plan +
  xp_caller :: "tool_caller option"
  xp_approval_description :: string
  xp_blocked_error :: "tool_error option"
  xp_guard_result :: "tool_result option"

record exec_outcome =
  oc_index :: nat
  oc_id :: string
  oc_name :: string
  oc_input :: json
  oc_result :: "tool_error + tool_result"

datatype sandbox_policy =
  DangerFullAccess
| SandboxReadOnly
| ExternalSandbox bool
| SandboxWorkspaceWrite "string list" bool bool bool

datatype approval_decision =
  DecisionApproved string "string option" bool
| DecisionDenied string
| DecisionRetry string sandbox_policy

datatype approval_result =
  ResultApproved "string option" bool
| ResultDenied
| ResultRetry sandbox_policy

datatype v3_approval =
  V3Approved
| V3Denied
| V3Retry sandbox_policy
| V3Error tool_error

text \<open>What can happen while the engine waits for an approval; the channel is closed at the end of the list.\<close>

datatype await_event = AwaitCancelled | AwaitTimedOut | Decided approval_decision

text \<open>
  The log: a tool ran (with the identity of its call, its name, its input and an elevated policy), Python
  ran, the catalog was searched, the user was asked for input, an approval card was shown, the
  workspace was saved.
\<close>

datatype exec_event =
  Ran string string json "sandbox_policy option"
| RanPython string json
| Searched string
| AskedUser string
| AskedApproval string string string approval_key
| SavedWorkspace string
| StageBlocked string

record exec_env =
  ee_url_tools :: url_tools
  ee_lower :: "string \<Rightarrow> string"
  ee_sandbox_enforced :: bool
  ee_scheduler :: tools_scheduler_mode
  ee_uses_v3 :: bool
  ee_replay_only :: bool
  ee_cancelled :: "nat \<Rightarrow> bool"
  ee_unfinished :: "nat \<Rightarrow> nat set"
  ee_stage_gate :: "string \<Rightarrow> string option"
  ee_before_hook :: "nat \<Rightarrow> string \<Rightarrow> json \<Rightarrow> string + json option"
  ee_registry :: "registry option"
  ee_mcp_pool :: bool
  ee_ensure_pool :: "tool_error option"
  ee_mcp :: "nat \<Rightarrow> string \<Rightarrow> json \<Rightarrow> tool_error + tool_result"
  ee_tool :: "nat \<Rightarrow> string \<Rightarrow> json \<Rightarrow> sandbox_policy option \<Rightarrow> tool_error + tool_result"
  ee_python :: "nat \<Rightarrow> json \<Rightarrow> tool_error + tool_result"
  ee_search :: "string \<Rightarrow> json \<Rightarrow> (tool_error + tool_result) \<times> string list"
  ee_user_input :: "nat \<Rightarrow> json \<Rightarrow> tool_error + tool_result"
  ee_parallel_json :: "(string \<times> (tool_error + tool_result)) list \<Rightarrow> tool_error + tool_result"

record exec_state =
  es_checks :: nat
  es_runs :: nat
  es_cache :: approval_cache
  es_approvals :: "string \<rightharpoonup> v3_approval"
  es_inbox :: "await_event list"
  es_active_tools :: "string set"
  es_log :: "exec_event list"

definition note_event :: "exec_event \<Rightarrow> exec_state \<Rightarrow> exec_state" where
  "note_event e s = s\<lparr>es_log := es_log s @ [e]\<rparr>"

definition is_cancelled :: "exec_env \<Rightarrow> exec_state \<Rightarrow> exec_state \<times> bool" where
  "is_cancelled env s = (s\<lparr>es_checks := es_checks s + 1\<rparr>, ee_cancelled env (es_checks s))"

section \<open>The approval handshake\<close>

fun await_tool_approval ::
  "string \<Rightarrow> approval_cache \<Rightarrow> await_event list \<Rightarrow>
   approval_cache \<times> await_event list \<times> (tool_error + approval_result)" where
  "await_tool_approval tool_id cache [] = (cache, [], Inl (ExecutionFailed ''Approval channel closed''))"
| "await_tool_approval tool_id cache (AwaitCancelled # es) =
     (cache, es, Inl (ExecutionFailed ''Request cancelled while awaiting approval''))"
| "await_tool_approval tool_id cache (AwaitTimedOut # es) =
     (cache, es, Inl (ExecutionFailed (''Timed out waiting for approval on tool '' @ quoted tool_id)))"
| "await_tool_approval tool_id cache (Decided (DecisionApproved i cache_key remember) # es) =
     (if i = tool_id then
        ((case cache_key of
            Some key \<Rightarrow> if remember then cache_insert cache key True else cache
          | None \<Rightarrow> cache),
         es, Inr (ResultApproved cache_key remember))
      else await_tool_approval tool_id cache es)"
| "await_tool_approval tool_id cache (Decided (DecisionDenied i) # es) =
     (if i = tool_id then (cache, es, Inr ResultDenied) else await_tool_approval tool_id cache es)"
| "await_tool_approval tool_id cache (Decided (DecisionRetry i policy) # es) =
     (if i = tool_id then (cache, es, Inr (ResultRetry policy)) else await_tool_approval tool_id cache es)"

definition cache_hit :: "exec_env \<Rightarrow> exec_state \<Rightarrow> string \<Rightarrow> json \<Rightarrow> bool" where
  "cache_hit env s tool input \<longleftrightarrow> approval_cache_hit (ee_url_tools env) (es_cache s) tool input"

definition ask_approval ::
  "exec_env \<Rightarrow> exec_state \<Rightarrow> string \<Rightarrow> string \<Rightarrow> json \<Rightarrow> string \<Rightarrow> exec_state \<times> (tool_error + approval_result)" where
  "ask_approval env s call_id tool input description =
     (let s1 = note_event (AskedApproval call_id tool description
                 (build_approval_key (ee_url_tools env) tool input)) s in
      case await_tool_approval call_id (es_cache s1) (es_inbox s1) of
        (cache, inbox, r) \<Rightarrow> (s1\<lparr>es_cache := cache, es_inbox := inbox\<rparr>, r))"

text \<open>\<open>run_request_approval_effect\<close>: the outcome is kept for the batch.\<close>

definition request_approval ::
  "exec_env \<Rightarrow> exec_state \<Rightarrow> string \<Rightarrow> string \<Rightarrow> json \<Rightarrow> string \<Rightarrow> exec_state \<times> v3_approval" where
  "request_approval env s call_id tool input description =
     (case (if ee_replay_only env then (s, V3Approved)
            else if cache_hit env s tool input then (s, V3Approved)
            else
              (case ask_approval env s call_id tool input description of
                 (s1, Inr (ResultApproved _ _)) \<Rightarrow> (s1, V3Approved)
               | (s1, Inr ResultDenied) \<Rightarrow> (s1, V3Denied)
               | (s1, Inr (ResultRetry policy)) \<Rightarrow> (s1, V3Retry policy)
               | (s1, Inl e) \<Rightarrow> (s1, V3Error e))) of
        (s2, outcome) \<Rightarrow> (s2\<lparr>es_approvals := (es_approvals s2)(call_id \<mapsto> outcome)\<rparr>, outcome))"

text \<open>
  The decision before a sequential call: an error that takes the place of the result, and an
  elevated policy.
\<close>

definition denied_by_user :: "string \<Rightarrow> tool_error" where
  "denied_by_user tool = PermissionDenied (''Tool '' @ in_quotes tool @ '' denied by user'')"

definition approval_of_plan ::
  "exec_env \<Rightarrow> exec_state \<Rightarrow> tool_plan \<Rightarrow> exec_state \<times> (tool_error + sandbox_policy option)" where
  "approval_of_plan env s plan =
     (let tool = xp_name plan; input = xp_input plan in
      if \<not> xp_approval_required plan then (s, Inr None)
      else if cache_hit env s tool input then (s, Inr None)
      else if ee_uses_v3 env then
        (s, case es_approvals s (xp_id plan) of
              Some V3Approved \<Rightarrow> Inr None
            | Some V3Denied \<Rightarrow> Inl (denied_by_user tool)
            | Some (V3Retry policy) \<Rightarrow> Inr (if ee_registry env = None then None else Some policy)
            | Some (V3Error e) \<Rightarrow> Inl e
            | None \<Rightarrow> Inl (PermissionDenied (''Tool '' @ in_quotes tool @
                '' blocked: approval required but no decision was recorded'')))
      else
        (case ask_approval env s (xp_id plan) tool input (xp_approval_description plan) of
           (s1, Inr (ResultApproved _ _)) \<Rightarrow> (s1, Inr None)
         | (s1, Inr ResultDenied) \<Rightarrow> (s1, Inl (denied_by_user tool))
         | (s1, Inr (ResultRetry policy)) \<Rightarrow> (s1, Inr (if ee_registry env = None then None else Some policy))
         | (s1, Inl e) \<Rightarrow> (s1, Inl e)))"

section \<open>Running one tool\<close>

definition not_registered :: "string \<Rightarrow> tool_error" where
  "not_registered tool = NotAvailable (''tool '' @ in_quotes tool @ '' is not registered'')"

definition execute_plan ::
  "exec_env \<Rightarrow> exec_state \<Rightarrow> string \<Rightarrow> string \<Rightarrow> json \<Rightarrow> sandbox_policy option \<Rightarrow>
   exec_state \<times> (tool_error + tool_result)" where
  "execute_plan env s call_id tool input policy =
     (if is_mcp_tool_name tool then
        (if ee_mcp_pool env then
           (note_event (Ran call_id tool input policy) (s\<lparr>es_runs := es_runs s + 1\<rparr>),
            ee_mcp env (es_runs s) tool input)
         else (s, Inl (not_registered tool)))
      else if ee_registry env = None then (s, Inl (not_registered tool))
      else
        (note_event (Ran call_id tool input policy) (s\<lparr>es_runs := es_runs s + 1\<rparr>),
         ee_tool env (es_runs s) tool input policy))"

definition outcome_of :: "tool_plan \<Rightarrow> json \<Rightarrow> tool_error + tool_result \<Rightarrow> exec_outcome" where
  "outcome_of plan input r =
     \<lparr>oc_index = xp_index plan, oc_id = xp_id plan, oc_name = xp_name plan, oc_input = input, oc_result = r\<rparr>"

definition cancelled_tool_outcome :: "tool_plan \<Rightarrow> exec_outcome" where
  "cancelled_tool_outcome plan =
     outcome_of plan (xp_input plan) (Inl (ExecutionFailed ''Request cancelled while executing tools''))"

definition maybe_block_tool :: "exec_env \<Rightarrow> exec_state \<Rightarrow> string \<Rightarrow> exec_state \<times> tool_error option" where
  "maybe_block_tool env s tool =
     (case ee_stage_gate env tool of
        None \<Rightarrow> (s, None)
      | Some message \<Rightarrow> (note_event (StageBlocked tool) s, Some (ExecutionFailed message)))"

section \<open>A parallel batch\<close>

text \<open>The start of one plan; the flag says that it is a running task, whose result comes later.\<close>

definition start_parallel :: "exec_env \<Rightarrow> exec_state \<Rightarrow> tool_plan \<Rightarrow> exec_state \<times> exec_outcome \<times> bool" where
  "start_parallel env s plan =
     (case xp_guard_result plan of
        Some r \<Rightarrow> (s, outcome_of plan (xp_input plan) (Inr r), False)
      | None \<Rightarrow>
          (case xp_blocked_error plan of
             Some e \<Rightarrow> (s, outcome_of plan (xp_input plan) (Inl e), False)
           | None \<Rightarrow>
               (case maybe_block_tool env s (xp_name plan) of
                  (s1, Some e) \<Rightarrow> (s1, outcome_of plan (xp_input plan) (Inl e), False)
                | (s1, None) \<Rightarrow>
                    (case ee_before_hook env (es_runs s1) (xp_name plan) (xp_input plan) of
                       Inl blocked \<Rightarrow>
                         (s1, outcome_of plan (xp_input plan) (Inl (ExecutionFailed blocked)), False)
                     | Inr updated \<Rightarrow>
                         (let effective = (case updated of Some v \<Rightarrow> v | None \<Rightarrow> xp_input plan) in
                          case execute_plan env s1 (xp_id plan) (xp_name plan) effective None of
                            (s2, r) \<Rightarrow> (s2, outcome_of plan effective r, True))))))"

fun start_all_parallel :: "exec_env \<Rightarrow> exec_state \<Rightarrow> tool_plan list \<Rightarrow> exec_state \<times> (exec_outcome \<times> bool) list" where
  "start_all_parallel env s [] = (s, [])"
| "start_all_parallel env s (plan # plans) =
     (case is_cancelled env s of
        (s1, True) \<Rightarrow> (s1, [])
      | (s1, False) \<Rightarrow>
          (case start_parallel env s1 plan of
             (s2, o1) \<Rightarrow>
               (case start_all_parallel env s2 plans of (s3, os) \<Rightarrow> (s3, o1 # os))))"

text \<open>When the turn was cancelled, tasks that had not finished and plans that were not started count as cancelled.\<close>

definition run_parallel :: "exec_env \<Rightarrow> exec_state \<Rightarrow> tool_plan list \<Rightarrow> exec_state \<times> exec_outcome list" where
  "run_parallel env s plans =
     (case start_all_parallel env s plans of
        (s1, started) \<Rightarrow>
          (case is_cancelled env s1 of
             (s2, False) \<Rightarrow> (s2, map fst started)
           | (s2, True) \<Rightarrow>
               (s2, map (\<lambda>(i, plan).
                      if i < length started \<and> (snd (started ! i) \<longrightarrow> i \<notin> ee_unfinished env (es_checks s1))
                      then fst (started ! i) else cancelled_tool_outcome plan)
                    (enumerate 0 plans))))"

section \<open>A sequential batch\<close>

definition MULTI_TOOL_PARALLEL_NAME :: string where
  "MULTI_TOOL_PARALLEL_NAME = ''multi_tool_use.parallel''"

definition REQUEST_USER_INPUT_NAME :: string where
  "REQUEST_USER_INPUT_NAME = ''request_user_input''"

definition normalize_parallel_tool_name :: "string \<Rightarrow> string" where
  "normalize_parallel_tool_name raw =
     (let name = trim raw in
      case find_map (\<lambda>prefix. strip_prefix name prefix) [''functions.'', ''tools.'', ''tool.''] of
        Some stripped \<Rightarrow> stripped
      | None \<Rightarrow> name)"

definition first_field :: "json \<Rightarrow> string list \<Rightarrow> json option" where
  "first_field item keys = find_map (json_get item) keys"

fun parallel_calls_from :: "json list \<Rightarrow> tool_error + (string \<times> json) list" where
  "parallel_calls_from [] = Inr []"
| "parallel_calls_from (item # items) =
     (case Option.bind (first_field item [''recipient_name'', ''tool_name'', ''name'', ''tool'']) as_str of
        None \<Rightarrow> Inl (MissingField ''recipient_name'')
      | Some name \<Rightarrow>
          (let params = (case first_field item [''parameters'', ''input'', ''args'', ''arguments''] of
                           Some v \<Rightarrow> v | None \<Rightarrow> JObject []) in
           map_sum id (\<lambda>calls. (normalize_parallel_tool_name name, params) # calls) (parallel_calls_from items)))"

definition parse_parallel_tool_calls :: "json \<Rightarrow> tool_error + (string \<times> json) list" where
  "parse_parallel_tool_calls input =
     (case Option.bind (json_get input ''tool_uses'') as_array of
        None \<Rightarrow> Inl (MissingField ''tool_uses'')
      | Some [] \<Rightarrow> Inl (InvalidInput ''multi_tool_use.parallel requires at least one tool call'')
      | Some items \<Rightarrow> parallel_calls_from items)"

text \<open>Why a call may not be part of a parallel call.\<close>

definition parallel_call_error :: "exec_env \<Rightarrow> string \<Rightarrow> tool_error option" where
  "parallel_call_error env tool =
     (if tool = MULTI_TOOL_PARALLEL_NAME then
        Some (InvalidInput ''multi_tool_use.parallel cannot call itself'')
      else if is_mcp_tool_name tool then
        (if mcp_tool_is_parallel_safe tool then None
         else Some (InvalidInput (''Tool '' @ in_quotes tool @ '' is an MCP tool and cannot run in parallel. '' @
           ''Allowed MCP tools: list_mcp_resources, list_mcp_resource_templates, '' @
           ''mcp_read_resource, read_mcp_resource, mcp_get_prompt.'')))
      else
        (case Option.bind (ee_registry env) (\<lambda>r. r tool) of
           None \<Rightarrow> Some (not_registered tool)
         | Some spec \<Rightarrow>
             if \<not> ts_is_read_only spec then
               Some (InvalidInput (''Tool '' @ in_quotes tool @ '' is not read-only and cannot run in parallel''))
             else if ts_approval_requirement spec \<noteq> ApprovalAuto then
               Some (InvalidInput (''Tool '' @ in_quotes tool @ '' requires approval and cannot run in parallel''))
             else if \<not> ts_supports_parallel spec then
               Some (InvalidInput (''Tool '' @ in_quotes tool @ '' does not support parallel execution''))
             else None))"

fun run_parallel_calls ::
  "exec_env \<Rightarrow> exec_state \<Rightarrow> string \<Rightarrow> (string \<times> json) list \<Rightarrow>
   exec_state \<times> (string \<times> (tool_error + tool_result)) list" where
  "run_parallel_calls env s call_id [] = (s, [])"
| "run_parallel_calls env s call_id ((tool, input) # calls) =
     (case execute_plan env s call_id tool input None of
        (s1, r) \<Rightarrow>
          (case run_parallel_calls env s1 call_id calls of (s2, rs) \<Rightarrow> (s2, (tool, r) # rs)))"

text \<open>The tasks of a parallel call start only when all calls have passed.\<close>

definition execute_parallel_tool ::
  "exec_env \<Rightarrow> exec_state \<Rightarrow> string \<Rightarrow> json \<Rightarrow> exec_state \<times> (tool_error + tool_result)" where
  "execute_parallel_tool env s call_id input =
     (case parse_parallel_tool_calls input of
        Inl e \<Rightarrow> (s, Inl e)
      | Inr calls \<Rightarrow>
          (let needs_pool = list_ex (\<lambda>(tool, _). is_mcp_tool_name tool) calls in
           case (if needs_pool then ee_ensure_pool env else None) of
             Some e \<Rightarrow> (s, Inl e)
           | None \<Rightarrow>
               if ee_registry env = None then
                 (s, Inl (NotAvailable ''tool registry unavailable for multi_tool_use.parallel''))
               else
                 (case find_map (\<lambda>(tool, _). parallel_call_error env tool) calls of
                    Some e \<Rightarrow> (s, Inl e)
                  | None \<Rightarrow>
                      (case run_parallel_calls (env\<lparr>ee_mcp_pool := needs_pool\<rparr>) s call_id calls of
                         (s1, rs) \<Rightarrow> (s1, ee_parallel_json env rs)))))"

definition edits_files :: "string \<Rightarrow> bool" where
  "edits_files tool \<longleftrightarrow> tool \<in> {''write_file'', ''edit_file'', ''apply_patch''}"

text \<open>A call that needs no special treatment: approval, snapshot, hook, run.\<close>

definition run_plain :: "exec_env \<Rightarrow> exec_state \<Rightarrow> tool_plan \<Rightarrow> exec_state \<times> exec_outcome" where
  "run_plain env s plan =
     (case approval_of_plan env s plan of
        (s1, approval) \<Rightarrow>
          (let s2 = (if \<not> isl approval \<and> edits_files (xp_name plan)
                     then note_event (SavedWorkspace (xp_id plan)) s1 else s1) in
           case ee_before_hook env (es_runs s2) (xp_name plan) (xp_input plan) of
             Inl blocked \<Rightarrow> (s2, outcome_of plan (xp_input plan) (Inl (ExecutionFailed blocked)))
           | Inr updated \<Rightarrow>
               (let effective = (case updated of Some v \<Rightarrow> v | None \<Rightarrow> xp_input plan) in
                case approval of
                  Inl e \<Rightarrow> (s2, outcome_of plan effective (Inl e))
                | Inr policy \<Rightarrow>
                    (case execute_plan env s2 (xp_id plan) (xp_name plan) effective policy of
                       (s3, r) \<Rightarrow> (s3, outcome_of plan effective r)))))"

definition run_sequential_plan :: "exec_env \<Rightarrow> exec_state \<Rightarrow> tool_plan \<Rightarrow> exec_state \<times> exec_outcome" where
  "run_sequential_plan env s plan =
     (let tool = xp_name plan; input = xp_input plan in
      case maybe_block_tool env s tool of
        (s1, Some e) \<Rightarrow> (s1, outcome_of plan input (Inl e))
      | (s1, None) \<Rightarrow>
          (case xp_guard_result plan of
             Some r \<Rightarrow> (s1, outcome_of plan input (Inr r))
           | None \<Rightarrow>
               (case xp_blocked_error plan of
                  Some e \<Rightarrow> (s1, outcome_of plan input (Inl e))
                | None \<Rightarrow>
                    if tool = MULTI_TOOL_PARALLEL_NAME then
                      (case execute_parallel_tool env s1 (xp_id plan) input of
                         (s2, r) \<Rightarrow> (s2, outcome_of plan input r))
                    else if tool = CODE_EXECUTION_TOOL_NAME then
                      (note_event (RanPython (xp_id plan) input) (s1\<lparr>es_runs := es_runs s1 + 1\<rparr>),
                       outcome_of plan input (ee_python env (es_runs s1) input))
                    else if is_tool_search_tool tool then
                      (case ee_search env tool input of
                         (r, discovered) \<Rightarrow>
                           (note_event (Searched (xp_id plan))
                              (s1\<lparr>es_active_tools := es_active_tools s1 \<union> set discovered\<rparr>),
                            outcome_of plan input r))
                    else if tool = REQUEST_USER_INPUT_NAME then
                      (note_event (AskedUser (xp_id plan)) (s1\<lparr>es_runs := es_runs s1 + 1\<rparr>),
                       outcome_of plan input (ee_user_input env (es_runs s1) input))
                    else run_plain env s1 plan)))"

fun run_sequential :: "exec_env \<Rightarrow> exec_state \<Rightarrow> tool_plan list \<Rightarrow> exec_state \<times> exec_outcome list" where
  "run_sequential env s [] = (s, [])"
| "run_sequential env s (plan # plans) =
     (case is_cancelled env s of
        (s1, True) \<Rightarrow> (s1, map cancelled_tool_outcome (plan # plans))
      | (s1, False) \<Rightarrow>
          (case run_sequential_plan env s1 plan of
             (s2, o1) \<Rightarrow> (case run_sequential env s2 plans of (s3, os) \<Rightarrow> (s3, o1 # os))))"

section \<open>All plans of a step\<close>

definition scheduled :: "tool_plan list \<Rightarrow> tool_execution_plan list" where
  "scheduled plans = map tool_execution_plan.truncate plans"

definition execute_tool_plans_batch ::
  "exec_env \<Rightarrow> exec_state \<Rightarrow> tool_plan list \<Rightarrow> bool option \<Rightarrow> exec_state \<times> exec_outcome list" where
  "execute_tool_plans_batch env s plans parallel_override =
     (if (case parallel_override of Some b \<Rightarrow> b | None \<Rightarrow> should_parallelize_tool_batch (scheduled plans))
      then run_parallel env s plans else run_sequential env s plans)"

definition store_outcomes :: "(nat \<rightharpoonup> exec_outcome) \<Rightarrow> exec_outcome list \<Rightarrow> (nat \<rightharpoonup> exec_outcome)" where
  "store_outcomes m os = foldl (\<lambda>m o1. m(oc_index o1 \<mapsto> o1)) m os"

text \<open>The subgroups of a group, up to a cancellation; \<open>None\<close> when an index is out of range.\<close>

fun run_subgroups ::
  "exec_env \<Rightarrow> tool_plan list \<Rightarrow> exec_state \<Rightarrow> (nat \<rightharpoonup> exec_outcome) \<Rightarrow> nat list list \<Rightarrow>
   (exec_state \<times> (nat \<rightharpoonup> exec_outcome)) option" where
  "run_subgroups env plans s m [] = Some (s, m)"
| "run_subgroups env plans s m (subgroup # subgroups) =
     (case is_cancelled env s of
        (s1, True) \<Rightarrow> Some (s1, m)
      | (s1, False) \<Rightarrow>
          if list_ex (\<lambda>i. length plans \<le> i) subgroup then None
          else
            let parallel_override =
              (if uses_dag_groups (ee_scheduler env)
               then Some (wave_parallel_allowed (ee_lower env) (ee_sandbox_enforced env) (scheduled plans) subgroup)
               else None)
            in case execute_tool_plans_batch env s1 (map ((!) plans) subgroup) parallel_override of
              (s2, os) \<Rightarrow> run_subgroups env plans s2 (store_outcomes m os) subgroups)"

fun run_groups ::
  "exec_env \<Rightarrow> tool_plan list \<Rightarrow> exec_state \<Rightarrow> (nat \<rightharpoonup> exec_outcome) \<Rightarrow> nat list list \<Rightarrow>
   (exec_state \<times> (nat \<rightharpoonup> exec_outcome)) option" where
  "run_groups env plans s m [] = Some (s, m)"
| "run_groups env plans s m (grp # groups) =
     (case is_cancelled env s of
        (s1, True) \<Rightarrow> Some (s1, m)
      | (s1, False) \<Rightarrow>
          (case (if uses_dag_groups (ee_scheduler env)
                 then split_wave_execution_subgroups (ee_lower env) (ee_sandbox_enforced env) (scheduled plans) grp
                 else Some [grp]) of
             None \<Rightarrow> None
           | Some subgroups \<Rightarrow>
               (case run_subgroups env plans s1 m subgroups of
                  None \<Rightarrow> None
                | Some (s2, m') \<Rightarrow> run_groups env plans s2 m' groups)))"

definition execute_tool_plans ::
  "exec_env \<Rightarrow> exec_state \<Rightarrow> scheduler_shadow_stats \<Rightarrow> tool_plan list \<Rightarrow> (exec_state \<times> exec_outcome list) option" where
  "execute_tool_plans env s st plans =
     (case resolve_execution_groups (ee_lower env) (ee_sandbox_enforced env) (ee_scheduler env) (scheduled plans) st of
        None \<Rightarrow> None
      | Some (groups, _) \<Rightarrow>
          map_option (\<lambda>(s1, m). (s1, map (\<lambda>(i, plan).
              case m i of Some o1 \<Rightarrow> o1 | None \<Rightarrow> cancelled_tool_outcome plan) (enumerate 0 plans)))
            (run_groups env plans s Map.empty groups))"

section \<open>Every call is answered\<close>

definition answers :: "exec_outcome \<Rightarrow> tool_plan \<Rightarrow> bool" where
  "answers o1 plan \<longleftrightarrow> oc_index o1 = xp_index plan \<and> oc_id o1 = xp_id plan \<and> oc_name o1 = xp_name plan"

lemma outcome_answers [simp]: "answers (outcome_of plan input r) plan"
  by (simp add: answers_def outcome_of_def)

lemma cancelled_answers [simp]: "answers (cancelled_tool_outcome plan) plan"
  by (simp add: cancelled_tool_outcome_def)

lemma start_parallel_answers: "answers (fst (snd (start_parallel env s plan))) plan"
  by (simp add: start_parallel_def Let_def split: option.split sum.split prod.split)

lemma start_all_answers:
  "\<exists>n. list_all2 (\<lambda>o1 plan. answers (fst o1) plan) (snd (start_all_parallel env s plans)) (take n plans)"
proof (induction plans arbitrary: s)
  case (Cons plan plans)
  obtain s1 c where c: "is_cancelled env s = (s1, c)" by fastforce
  obtain s2 o1 where o1: "start_parallel env s1 plan = (s2, o1)" by (metis surj_pair)
  obtain s3 os where os: "start_all_parallel env s2 plans = (s3, os)" by fastforce
  show ?case
  proof (cases c)
    case True
    then show ?thesis using c by (intro exI [of _ 0]) simp
  next
    case False
    from Cons.IH [of s2] os obtain n where
      "list_all2 (\<lambda>o1 plan. answers (fst o1) plan) os (take n plans)" by auto
    then show ?thesis
      using False c o1 os start_parallel_answers [of env s1 plan] by (intro exI [of _ "Suc n"]) simp
  qed
qed simp

definition answer_some :: "exec_outcome list \<Rightarrow> tool_plan list \<Rightarrow> bool" where
  "answer_some os plans \<longleftrightarrow> (\<forall>o1 \<in> set os. \<exists>plan \<in> set plans. answers o1 plan)"

lemma run_parallel_answers: "answer_some (snd (run_parallel env s plans)) plans"
proof -
  obtain s1 started where started: "start_all_parallel env s plans = (s1, started)" by fastforce
  then obtain n where n: "list_all2 (\<lambda>o1 plan. answers (fst o1) plan) started (take n plans)"
    using start_all_answers [of env s plans] by auto
  have one: "i < length started \<Longrightarrow> i < length plans \<and> answers (fst (started ! i)) (plans ! i)" for i
    using list_all2_nthD [OF n, of i] list_all2_lengthD [OF n] by simp
  have "answers (fst o1) plan \<Longrightarrow> o1 \<in> set started \<Longrightarrow> plan \<in> set (take n plans) \<Longrightarrow> \<exists>p \<in> set plans. answers (fst o1) p"
    for o1 plan by (auto dest: in_set_takeD)
  then have "\<forall>o1 \<in> set started. \<exists>p \<in> set plans. answers (fst o1) p"
    using one by (metis in_set_conv_nth)
  then show ?thesis
    using one started
    by (auto simp: answer_some_def run_parallel_def in_set_enumerate_eq split: prod.split bool.split)
      (metis cancelled_answers nth_mem)+
qed

lemma run_plain_answers: "answers (snd (run_plain env s plan)) plan"
  by (simp add: run_plain_def Let_def split: option.split sum.split prod.split)

lemma run_sequential_plan_answers: "answers (snd (run_sequential_plan env s plan)) plan"
  by (simp add: run_sequential_plan_def Let_def run_plain_answers split: option.split prod.split)

lemma run_sequential_answers: "answer_some (snd (run_sequential env s plans)) plans"
proof (induction plans arbitrary: s)
  case (Cons plan plans)
  show ?case
    using Cons.IH run_sequential_plan_answers [of env _ plan]
    by (auto simp: answer_some_def split: prod.split bool.split)
      (metis cancelled_answers snd_conv)+
qed (simp add: answer_some_def)

lemma batch_answers: "answer_some (snd (execute_tool_plans_batch env s plans override)) plans"
  by (simp add: execute_tool_plans_batch_def run_parallel_answers run_sequential_answers)

lemma scheduled_fields [simp]:
  "length (scheduled plans) = length plans"
  "i < length plans \<Longrightarrow> xp_index (scheduled plans ! i) = xp_index (plans ! i)"
  "i < length plans \<Longrightarrow> xp_approval_required (scheduled plans ! i) = xp_approval_required (plans ! i)"
  by (simp_all add: scheduled_def tool_execution_plan.defs)

lemma numbered_index:
  assumes "numbered (scheduled plans)" and "i < length plans"
  shows "xp_index (plans ! i) = i"
proof -
  have "map xp_index (scheduled plans) ! i = i" using assms by (simp add: numbered_def)
  then show ?thesis using assms(2) by simp
qed

definition slots_ok :: "tool_plan list \<Rightarrow> (nat \<rightharpoonup> exec_outcome) \<Rightarrow> bool" where
  "slots_ok plans m \<longleftrightarrow> (\<forall>i o1. m i = Some o1 \<longrightarrow> i < length plans \<and> answers o1 (plans ! i))"

lemma store_slots:
  assumes "numbered (scheduled plans)" and "slots_ok plans m" and "answer_some os plans"
  shows "slots_ok plans (store_outcomes m os)"
  using assms(2,3)
proof (induction os arbitrary: m)
  case Nil
  then show ?case by (simp add: store_outcomes_def)
next
  case (Cons o1 os)
  from Cons.prems(2) obtain i where i: "i < length plans" "answers o1 (plans ! i)"
    by (auto simp: answer_some_def in_set_conv_nth)
  then have "oc_index o1 = i" using numbered_index [OF assms(1)] by (simp add: answers_def)
  with i Cons.prems(1) have "slots_ok plans (m(oc_index o1 \<mapsto> o1))" by (auto simp: slots_ok_def)
  moreover have "answer_some os plans" using Cons.prems(2) by (simp add: answer_some_def)
  ultimately have "slots_ok plans (store_outcomes (m(oc_index o1 \<mapsto> o1)) os)" by (rule Cons.IH)
  then show ?case by (simp add: store_outcomes_def)
qed

lemma subgroup_answers:
  assumes "\<not> list_ex (\<lambda>i. length plans \<le> i) subgroup"
    and "answer_some os (map ((!) plans) subgroup)"
  shows "answer_some os plans"
  using assms by (fastforce simp: answer_some_def list_ex_iff not_le)

lemma subgroups_slots:
  assumes "numbered (scheduled plans)" and "slots_ok plans m"
    and "\<forall>g \<in> set gs. \<forall>i \<in> set g. i < length plans"
  shows "\<exists>s' m'. run_subgroups env plans s m gs = Some (s', m') \<and> slots_ok plans m'"
  using assms(2,3)
proof (induction gs arbitrary: s m)
  case (Cons g gs)
  obtain s1 c where c: "is_cancelled env s = (s1, c)" by fastforce
  have inside: "\<not> list_ex (\<lambda>i. length plans \<le> i) g" using Cons.prems(2) by (auto simp: list_ex_iff not_le)
  define override where "override = (if uses_dag_groups (ee_scheduler env)
    then Some (wave_parallel_allowed (ee_lower env) (ee_sandbox_enforced env) (scheduled plans) g) else None)"
  obtain s2 os where os: "execute_tool_plans_batch env s1 (map ((!) plans) g) override = (s2, os)" by fastforce
  have "answer_some os plans"
    using subgroup_answers [OF inside] batch_answers [of env s1 "map ((!) plans) g" override] os by simp
  from store_slots [OF assms(1) Cons.prems(1) this] Cons.IH [of "store_outcomes m os" s2] Cons.prems(2)
  have "\<exists>s' m'. run_subgroups env plans s2 (store_outcomes m os) gs = Some (s', m') \<and> slots_ok plans m'"
    by simp
  then show ?case
    using c os inside Cons.prems(1) by (cases c) (simp_all add: override_def Let_def)
qed simp

text \<open>The groups of the scheduler: their members are in range, and so are those of their subgroups.\<close>

lemma groups_in_range:
  assumes "numbered ps"
  shows "\<exists>groups st'. resolve_execution_groups u e mode ps st = Some (groups, st') \<and>
    (\<forall>g \<in> set groups. g \<noteq> [] \<and> (\<forall>i \<in> set g. i < length ps))"
proof -
  have legacy: "\<forall>g \<in> set (legacy_execution_groups ps). g \<noteq> [] \<and> (\<forall>i \<in> set g. i < length ps)"
    by (auto simp: legacy_execution_groups_def)
  have "dag_execution_groups u e ps = build_execution_waves (map (dag_plan_view_of u e) ps)"
    using assms by (cases ps rule: remdups_adj.cases)
      (simp_all add: dag_execution_groups_def build_execution_waves_def)
  moreover have "indexed (map (dag_plan_view_of u e) ps)"
    using assms by (simp add: indexed_def numbered_def comp_def)
  ultimately obtain ws where ws: "dag_execution_groups u e ps = Some ws"
      "mset (concat ws) = mset [0..<length ps]" "\<forall>w \<in> set ws. w \<noteq> [] \<and> sorted w"
    using waves_correct by (metis length_map)
  have "set (concat ws) = {..<length ps}"
    using arg_cong [OF ws(2), of set_mset] by auto
  then have "\<forall>g \<in> set ws. g \<noteq> [] \<and> (\<forall>i \<in> set g. i < length ps)" using ws(3) by auto
  with legacy ws(1) show ?thesis by (cases mode) auto
qed

lemma subgroups_in_range:
  assumes "g \<noteq> []" and "\<forall>i \<in> set g. i < length plans"
  shows "\<exists>gs. split_wave_execution_subgroups u e (scheduled plans) g = Some gs \<and>
    (\<forall>h \<in> set gs. \<forall>i \<in> set h. i < length plans)"
proof -
  from split_wave_correct [of g "scheduled plans" u e] assms obtain gs where
    gs: "split_wave_execution_subgroups u e (scheduled plans) g = Some gs" "mset (concat gs) = mset g"
    by auto
  have "set (concat gs) = set g" using arg_cong [OF gs(2), of set_mset] by simp
  with gs(1) assms(2) show ?thesis by auto
qed

lemma groups_slots:
  assumes "numbered (scheduled plans)" and "slots_ok plans m"
    and "\<forall>g \<in> set groups. g \<noteq> [] \<and> (\<forall>i \<in> set g. i < length plans)"
  shows "\<exists>s' m'. run_groups env plans s m groups = Some (s', m') \<and> slots_ok plans m'"
  using assms(2,3)
proof (induction groups arbitrary: s m)
  case (Cons g groups)
  obtain s1 c where c: "is_cancelled env s = (s1, c)" by fastforce
  obtain gs where gs: "(if uses_dag_groups (ee_scheduler env)
      then split_wave_execution_subgroups (ee_lower env) (ee_sandbox_enforced env) (scheduled plans) g
      else Some [g]) = Some gs" "\<forall>h \<in> set gs. \<forall>i \<in> set h. i < length plans"
  proof (cases "uses_dag_groups (ee_scheduler env)")
    case True
    have "g \<noteq> []" "\<forall>i \<in> set g. i < length plans" using Cons.prems(2) by simp_all
    from subgroups_in_range [OF this, of "ee_lower env" "ee_sandbox_enforced env"] True that
    show thesis by (metis (no_types, lifting))
  next
    case False
    with that [of "[g]"] Cons.prems(2) show thesis by simp
  qed
  obtain s2 m2 where m2: "run_subgroups env plans s1 m gs = Some (s2, m2)" "slots_ok plans m2"
    using subgroups_slots [OF assms(1) Cons.prems(1) gs(2)] by blast
  from Cons.IH [OF m2(2)] Cons.prems(2)
  have "\<exists>s' m'. run_groups env plans s2 m2 groups = Some (s', m') \<and> slots_ok plans m'" by simp
  then show ?case using c gs(1) m2(1) Cons.prems(1) by (cases c) simp_all
qed simp

lemma all_answered:
  assumes "numbered (scheduled plans)"
  shows "\<exists>s' os. execute_tool_plans env s st plans = Some (s', os) \<and>
    map oc_id os = map xp_id plans \<and> map oc_name os = map xp_name plans \<and>
    map oc_index os = [0..<length plans]"
proof -
  obtain groups st' where groups:
      "resolve_execution_groups (ee_lower env) (ee_sandbox_enforced env) (ee_scheduler env) (scheduled plans) st =
        Some (groups, st')"
      "\<forall>g \<in> set groups. g \<noteq> [] \<and> (\<forall>i \<in> set g. i < length plans)"
    using groups_in_range [OF assms, of "ee_lower env" "ee_sandbox_enforced env" "ee_scheduler env" st]
    unfolding scheduled_fields(1) by blast
  obtain s' m where m: "run_groups env plans s Map.empty groups = Some (s', m)" "slots_ok plans m"
    using groups_slots [OF assms _ groups(2), of Map.empty env s] by (auto simp: slots_ok_def)
  define os where "os = map (\<lambda>(i, plan).
      case m i of Some o1 \<Rightarrow> o1 | None \<Rightarrow> cancelled_tool_outcome plan) (enumerate 0 plans)"
  have len: "length os = length plans" by (simp add: os_def)
  have "answers (os ! i) (plans ! i)" if "i < length plans" for i
    using that m(2) by (auto simp: os_def nth_enumerate_eq slots_ok_def split: option.split)
  then have "map oc_id os = map xp_id plans" "map oc_name os = map xp_name plans"
    "map oc_index os = [0..<length plans]"
    using len numbered_index [OF assms]
    by (auto intro!: nth_equalityI simp: answers_def)
  moreover have "execute_tool_plans env s st plans = Some (s', os)"
    by (simp add: execute_tool_plans_def groups(1) m(1) os_def)
  ultimately show ?thesis by blast
qed

text \<open>
  Every call of a step is answered once, in order. For numbered plans the execution does not panic, and
  it returns one outcome for each plan, with the plan's identity and name, in the order of the plans,
  whatever the tools do, whichever scheduler is configured, and at whatever point the turn is
  cancelled.
\<close>

theorem every_call_answered:
  assumes "numbered (scheduled plans)"
  shows "\<exists>s' os. execute_tool_plans env s st plans = Some (s', os) \<and>
    map oc_id os = map xp_id plans \<and> map oc_name os = map xp_name plans \<and>
    map oc_index os = [0..<length plans]"
  using assms by (rule all_answered)

section \<open>What runs was allowed\<close>

text \<open>
  A key is remembered in a state when the session cache approves it, or a pending decision of the user
  puts it there. The user consented to a call when its key is remembered, or its approval is kept, or is
  pending; a retry with another policy counts.
\<close>

definition remembered :: "exec_state \<Rightarrow> approval_key \<Rightarrow> bool" where
  "remembered s key \<longleftrightarrow>
     es_cache s key = Some True \<or> (\<exists>i. Decided (DecisionApproved i (Some key) True) \<in> set (es_inbox s))"

definition consented :: "exec_env \<Rightarrow> exec_state \<Rightarrow> tool_plan \<Rightarrow> bool" where
  "consented env s plan \<longleftrightarrow>
     remembered s (build_approval_key (ee_url_tools env) (xp_name plan) (xp_input plan)) \<or>
     es_approvals s (xp_id plan) = Some V3Approved \<or>
     (\<exists>policy. es_approvals s (xp_id plan) = Some (V3Retry policy)) \<or>
     (\<exists>key r. Decided (DecisionApproved (xp_id plan) key r) \<in> set (es_inbox s)) \<or>
     (\<exists>policy. Decided (DecisionRetry (xp_id plan) policy) \<in> set (es_inbox s))"

text \<open>What may be in the log of a step: a tool runs for a plan of the step that nothing held back.\<close>

fun event_allowed :: "exec_env \<Rightarrow> exec_state \<Rightarrow> tool_plan list \<Rightarrow> exec_event \<Rightarrow> bool" where
  "event_allowed env s plans (Ran call_id tool input policy) \<longleftrightarrow>
     (\<exists>plan \<in> set plans. xp_id plan = call_id \<and> xp_guard_result plan = None \<and> xp_blocked_error plan = None \<and>
        ee_stage_gate env (xp_name plan) = None \<and>
        (tool = xp_name plan \<and> (xp_approval_required plan \<longrightarrow> consented env s plan) \<or>
         xp_name plan = MULTI_TOOL_PARALLEL_NAME \<and> parallel_call_error env tool = None))"
| "event_allowed env s plans e \<longleftrightarrow> True"

text \<open>A state has nothing that an earlier one did not have.\<close>

definition no_new_consent :: "exec_state \<Rightarrow> exec_state \<Rightarrow> bool" where
  "no_new_consent s0 s \<longleftrightarrow>
     (\<forall>key. remembered s key \<longrightarrow> remembered s0 key) \<and> set (es_inbox s) \<subseteq> set (es_inbox s0) \<and>
     es_approvals s = es_approvals s0"

lemma consented_mono: "no_new_consent s0 s \<Longrightarrow> consented env s plan \<Longrightarrow> consented env s0 plan"
  unfolding no_new_consent_def consented_def by auto

definition safe_step :: "exec_env \<Rightarrow> exec_state \<Rightarrow> tool_plan list \<Rightarrow> exec_state \<Rightarrow> exec_state \<Rightarrow> bool" where
  "safe_step env s0 plans s s' \<longleftrightarrow>
     (no_new_consent s0 s \<longrightarrow> no_new_consent s0 s' \<and>
        (\<exists>new. es_log s' = es_log s @ new \<and> list_all (event_allowed env s0 plans) new))"

lemma safe_refl [simp]: "safe_step env s0 plans s s"
  by (simp add: safe_step_def)

lemma safe_trans [trans]:
  "safe_step env s0 plans s s' \<Longrightarrow> safe_step env s0 plans s' s'' \<Longrightarrow> safe_step env s0 plans s s''"
  by (fastforce simp: safe_step_def)

lemma safe_step_more: "safe_step env s0 plans s s' \<Longrightarrow> set plans \<subseteq> set more_plans \<Longrightarrow> safe_step env s0 more_plans s s'"
proof -
  assume sub: "set plans \<subseteq> set more_plans"
  have "event_allowed env s0 plans e \<Longrightarrow> event_allowed env s0 more_plans e" for e
    using sub by (cases e) auto
  moreover assume "safe_step env s0 plans s s'"
  ultimately show ?thesis by (fastforce simp: safe_step_def list_all_iff)
qed

lemma safe_event: "event_allowed env s0 plans e \<Longrightarrow> safe_step env s0 plans s (note_event e s)"
  by (simp add: safe_step_def note_event_def no_new_consent_def remembered_def)

lemma safe_fields [simp]:
  "safe_step env s0 plans s (s'\<lparr>es_checks := n\<rparr>) \<longleftrightarrow> safe_step env s0 plans s s'"
  "safe_step env s0 plans s (s'\<lparr>es_runs := n\<rparr>) \<longleftrightarrow> safe_step env s0 plans s s'"
  "safe_step env s0 plans s (s'\<lparr>es_active_tools := A\<rparr>) \<longleftrightarrow> safe_step env s0 plans s s'"
  "safe_step env s0 plans s (note_event e (s'\<lparr>es_runs := n\<rparr>)) \<longleftrightarrow> safe_step env s0 plans s (note_event e s')"
  "safe_step env s0 plans s (note_event e (s'\<lparr>es_active_tools := A\<rparr>)) \<longleftrightarrow> safe_step env s0 plans s (note_event e s')"
  by (simp_all add: safe_step_def note_event_def no_new_consent_def remembered_def)

lemma safe_cancelled: "is_cancelled env s = (s1, c) \<Longrightarrow> safe_step env' s0 plans s s1"
  by (auto simp: is_cancelled_def)

lemma awaited:
  "await_tool_approval call_id cache es = (cache', es', r) \<Longrightarrow>
     set es' \<subseteq> set es \<and>
     (\<forall>key. cache' key = Some True \<longrightarrow>
        cache key = Some True \<or> (\<exists>i. Decided (DecisionApproved i (Some key) True) \<in> set es)) \<and>
     (\<forall>key b. r = Inr (ResultApproved key b) \<longrightarrow> Decided (DecisionApproved call_id key b) \<in> set es) \<and>
     (\<forall>policy. r = Inr (ResultRetry policy) \<longrightarrow> Decided (DecisionRetry call_id policy) \<in> set es)"
  by (induction call_id cache es rule: await_tool_approval.induct)
     (auto simp: cache_insert_def split: if_splits option.splits)

lemma safe_ask:
  assumes "ask_approval env s call_id tool input description = (s', r)"
  shows "safe_step env s0 plans s s'"
    and "\<And>key b. r = Inr (ResultApproved key b) \<Longrightarrow> Decided (DecisionApproved call_id key b) \<in> set (es_inbox s)"
    and "\<And>policy. r = Inr (ResultRetry policy) \<Longrightarrow> Decided (DecisionRetry call_id policy) \<in> set (es_inbox s)"
proof -
  obtain cache inbox where a: "await_tool_approval call_id (es_cache s) (es_inbox s) = (cache, inbox, r)"
    and s': "s' = note_event (AskedApproval call_id tool description
        (build_approval_key (ee_url_tools env) tool input)) s\<lparr>es_cache := cache, es_inbox := inbox\<rparr>"
    using assms by (auto simp: ask_approval_def note_event_def split: prod.splits)
  note w = awaited [OF a]
  show "safe_step env s0 plans s s'"
    using w by (fastforce simp: s' safe_step_def note_event_def no_new_consent_def remembered_def)
  show "\<And>key b. r = Inr (ResultApproved key b) \<Longrightarrow> Decided (DecisionApproved call_id key b) \<in> set (es_inbox s)"
    and "\<And>policy. r = Inr (ResultRetry policy) \<Longrightarrow> Decided (DecisionRetry call_id policy) \<in> set (es_inbox s)"
    using w by auto
qed

lemma safe_approval:
  assumes "approval_of_plan env s plan = (s', r)"
  shows "safe_step env s0 plans s s'"
    and "\<not> isl r \<Longrightarrow> xp_approval_required plan \<Longrightarrow> consented env s plan"
proof -
  let ?key = "build_approval_key (ee_url_tools env) (xp_name plan) (xp_input plan)"
  have hit: "cache_hit env s (xp_name plan) (xp_input plan) \<Longrightarrow> remembered s ?key"
    by (auto simp: cache_hit_def approval_cache_hit_def cache_check_def remembered_def
        split: option.splits if_splits)
  show "safe_step env s0 plans s s'"
    using assms safe_ask(1)
    by (auto simp: approval_of_plan_def Let_def split: if_splits prod.splits sum.splits approval_result.splits)
  show "consented env s plan" if "\<not> isl r" "xp_approval_required plan"
    using assms that hit safe_ask(2,3)
    by (fastforce simp: approval_of_plan_def consented_def Let_def
        split: if_splits prod.splits sum.splits approval_result.splits option.splits v3_approval.splits)
qed

lemma safe_stepI: "(no_new_consent s0 s \<Longrightarrow> safe_step env s0 plans s s') \<Longrightarrow> safe_step env s0 plans s s'"
  by (auto simp: safe_step_def)

lemma safe_execute:
  assumes "event_allowed env s0 plans (Ran call_id tool input policy)"
  shows "safe_step env s0 plans s (fst (execute_plan env' s call_id tool input policy))"
  using safe_event [OF assms] by (simp add: execute_plan_def)

lemma safe_stage: "maybe_block_tool env s tool = (s', b) \<Longrightarrow> safe_step env s0 plans s s'"
  by (auto simp: maybe_block_tool_def intro: safe_event split: option.splits)

lemma stage_open: "maybe_block_tool env s tool = (s', None) \<Longrightarrow> ee_stage_gate env tool = None"
  by (auto simp: maybe_block_tool_def split: option.splits)

lemma safe_start_parallel:
  assumes "plan \<in> set plans" and "\<not> xp_approval_required plan"
  shows "safe_step env s0 plans s (fst (start_parallel env s plan))"
proof (cases "xp_guard_result plan = None \<and> xp_blocked_error plan = None")
  case True
  obtain s1 b where b: "maybe_block_tool env s (xp_name plan) = (s1, b)" by fastforce
  have s1: "safe_step env s0 plans s s1" using safe_stage [OF b] .
  show ?thesis
  proof (cases b)
    case (Some e)
    with True b s1 show ?thesis by (simp add: start_parallel_def)
  next
    case None
    note gate = stage_open [OF b [unfolded None]]
    have "event_allowed env s0 plans (Ran (xp_id plan) (xp_name plan) input policy)" for input policy
      using assms True gate by auto
    then have "safe_step env s0 plans s (fst (execute_plan env s1 (xp_id plan) (xp_name plan) input policy))"
      for input policy using safe_trans [OF s1 safe_execute] by blast
    with True b None s1 show ?thesis
      by (auto simp: start_parallel_def Let_def case_prod_beta split: sum.split)
  qed
qed (auto simp: start_parallel_def split: option.split)

lemma safe_start_all:
  assumes "\<forall>plan \<in> set ps. plan \<in> set plans \<and> \<not> xp_approval_required plan"
  shows "safe_step env s0 plans s (fst (start_all_parallel env s ps))"
  using assms
proof (induction ps arbitrary: s)
  case (Cons plan ps)
  obtain s1 c where c: "is_cancelled env s = (s1, c)" by fastforce
  have first: "safe_step env s0 plans s1 (fst (start_parallel env s1 plan))"
    using Cons.prems safe_start_parallel by simp
  have rest: "safe_step env s0 plans s2 (fst (start_all_parallel env s2 ps))" for s2
    using Cons by simp
  show ?case
    using c safe_cancelled [OF c] safe_trans [OF safe_trans [OF safe_cancelled [OF c] first] rest]
    by (cases c) (simp_all add: case_prod_beta)
qed simp

lemma safe_run_parallel:
  assumes "\<forall>plan \<in> set ps. plan \<in> set plans \<and> \<not> xp_approval_required plan"
  shows "safe_step env s0 plans s (fst (run_parallel env s ps))"
  using safe_start_all [OF assms, of env s0 s]
  by (auto simp: run_parallel_def is_cancelled_def split: prod.split bool.split)

lemma safe_parallel_calls:
  assumes "plan \<in> set plans" and "xp_guard_result plan = None" and "xp_blocked_error plan = None"
    and "ee_stage_gate env (xp_name plan) = None" and "xp_name plan = MULTI_TOOL_PARALLEL_NAME"
    and "\<forall>(tool, input) \<in> set calls. parallel_call_error env tool = None"
  shows "safe_step env s0 plans s (fst (run_parallel_calls env' s (xp_id plan) calls))"
  using assms(6)
proof (induction calls arbitrary: s)
  case (Cons call calls)
  obtain tool input where call: "call = (tool, input)" by fastforce
  have "event_allowed env s0 plans (Ran (xp_id plan) tool input None)"
    using assms(1-5) Cons.prems call by auto
  from safe_execute [OF this] have first:
    "safe_step env s0 plans s (fst (execute_plan env' s (xp_id plan) tool input None))" .
  have "safe_step env s0 plans s2 (fst (run_parallel_calls env' s2 (xp_id plan) calls))" for s2
    using Cons by simp
  from safe_trans [OF first this] show ?case by (simp add: call case_prod_beta)
qed simp

lemma no_call_error:
  "find_map (\<lambda>(tool, _). parallel_call_error env tool) calls = None \<Longrightarrow>
     \<forall>(tool, input) \<in> set calls. parallel_call_error env tool = None"
  by (induction calls) (auto split: option.splits)

lemma safe_parallel_tool:
  assumes "plan \<in> set plans" and "xp_guard_result plan = None" and "xp_blocked_error plan = None"
    and "ee_stage_gate env (xp_name plan) = None" and "xp_name plan = MULTI_TOOL_PARALLEL_NAME"
  shows "safe_step env s0 plans s (fst (execute_parallel_tool env s (xp_id plan) input))"
  using safe_parallel_calls [OF assms no_call_error]
  by (auto simp: execute_parallel_tool_def Let_def case_prod_beta split: sum.split option.split)

lemma safe_plain:
  assumes "plan \<in> set plans" and "xp_guard_result plan = None" and "xp_blocked_error plan = None"
    and "ee_stage_gate env (xp_name plan) = None"
  shows "safe_step env s0 plans s (fst (run_plain env s plan))"
proof (rule safe_stepI)
  assume now: "no_new_consent s0 s"
  obtain s1 approval where a: "approval_of_plan env s plan = (s1, approval)" by fastforce
  have consent: "\<not> isl approval \<Longrightarrow> xp_approval_required plan \<Longrightarrow> consented env s0 plan"
    using safe_approval(2) [OF a] consented_mono [OF now] by blast
  define s2 where "s2 = (if \<not> isl approval \<and> edits_files (xp_name plan)
    then note_event (SavedWorkspace (xp_id plan)) s1 else s1)"
  have s2: "safe_step env s0 plans s s2"
    using safe_trans [OF safe_approval(1) [OF a] safe_event] safe_approval(1) [OF a] by (simp add: s2_def)
  have "safe_step env s0 plans s (fst (execute_plan env s2 (xp_id plan) (xp_name plan) input policy))"
    if "\<not> isl approval" for input policy
  proof -
    have "event_allowed env s0 plans (Ran (xp_id plan) (xp_name plan) input policy)"
      using assms consent [OF that] by auto
    from safe_trans [OF s2 safe_execute [OF this]] show ?thesis .
  qed
  note run = this
  show "safe_step env s0 plans s (fst (run_plain env s plan))"
  proof (cases "ee_before_hook env (es_runs s2) (xp_name plan) (xp_input plan)")
    case (Inl blocked)
    then have "fst (run_plain env s plan) = s2" unfolding run_plain_def a s2_def by (simp add: Let_def)
    with s2 show ?thesis by simp
  next
    case (Inr updated)
    define effective where "effective = (case updated of Some v \<Rightarrow> v | None \<Rightarrow> xp_input plan)"
    have "fst (run_plain env s plan) = (case approval of
        Inl e \<Rightarrow> s2 | Inr policy \<Rightarrow> fst (execute_plan env s2 (xp_id plan) (xp_name plan) effective policy))"
      using Inr unfolding run_plain_def a s2_def effective_def
      by (cases approval; cases "edits_files (xp_name plan)") (simp_all add: Let_def case_prod_beta)
    with s2 run show ?thesis by (cases approval) simp_all
  qed
qed

lemma safe_sequential_plan:
  assumes "plan \<in> set plans"
  shows "safe_step env s0 plans s (fst (run_sequential_plan env s plan))"
proof -
  obtain s1 b where b: "maybe_block_tool env s (xp_name plan) = (s1, b)" by fastforce
  have s1: "safe_step env s0 plans s s1" using safe_stage [OF b] .
  show ?thesis
  proof (cases "b = None \<and> xp_guard_result plan = None \<and> xp_blocked_error plan = None")
    case True
    then have gate: "ee_stage_gate env (xp_name plan) = None" using stage_open b by blast
    have event: "event_allowed env s0 plans e \<Longrightarrow> safe_step env s0 plans s (note_event e s1)" for e
      using safe_trans [OF s1 safe_event] .
    have many: "xp_name plan = MULTI_TOOL_PARALLEL_NAME \<Longrightarrow>
        safe_step env s0 plans s (fst (execute_parallel_tool env s1 (xp_id plan) (xp_input plan)))"
      using safe_trans [OF s1 safe_parallel_tool] assms True gate by blast
    have plain: "safe_step env s0 plans s (fst (run_plain env s1 plan))"
      using safe_trans [OF s1 safe_plain] assms True gate by blast
    have "maybe_block_tool env s (xp_name plan) = (s1, None)" using True b by simp
    then have "fst (run_sequential_plan env s plan) =
      (if xp_name plan = MULTI_TOOL_PARALLEL_NAME then fst (execute_parallel_tool env s1 (xp_id plan) (xp_input plan))
       else if xp_name plan = CODE_EXECUTION_TOOL_NAME
       then note_event (RanPython (xp_id plan) (xp_input plan)) (s1\<lparr>es_runs := es_runs s1 + 1\<rparr>)
       else if is_tool_search_tool (xp_name plan)
       then note_event (Searched (xp_id plan))
         (s1\<lparr>es_active_tools := es_active_tools s1 \<union> set (snd (ee_search env (xp_name plan) (xp_input plan)))\<rparr>)
       else if xp_name plan = REQUEST_USER_INPUT_NAME
       then note_event (AskedUser (xp_id plan)) (s1\<lparr>es_runs := es_runs s1 + 1\<rparr>)
       else fst (run_plain env s1 plan))"
      using True unfolding run_sequential_plan_def Let_def
      by (simp add: if_distrib [of fst] case_prod_beta cong: if_cong)
    then show ?thesis using event many plain by (auto split: if_splits)
  next
    case False
    with b s1 show ?thesis by (cases b) (auto simp: run_sequential_plan_def Let_def split: option.split)
  qed
qed

lemma safe_sequential:
  assumes "set ps \<subseteq> set plans"
  shows "safe_step env s0 plans s (fst (run_sequential env s ps))"
  using assms
proof (induction ps arbitrary: s)
  case (Cons plan ps)
  obtain s1 c where c: "is_cancelled env s = (s1, c)" by fastforce
  have first: "safe_step env s0 plans s1 (fst (run_sequential_plan env s1 plan))"
    using Cons.prems safe_sequential_plan by simp
  have rest: "safe_step env s0 plans s2 (fst (run_sequential env s2 ps))" for s2
    using Cons by simp
  show ?case
    using c safe_cancelled [OF c] safe_trans [OF safe_trans [OF safe_cancelled [OF c] first] rest]
    by (cases c) (simp_all add: case_prod_beta)
qed simp

lemma safe_batch:
  assumes "set ps \<subseteq> set plans"
    and "override = Some True \<Longrightarrow> \<forall>plan \<in> set ps. \<not> xp_approval_required plan"
  shows "safe_step env s0 plans s (fst (execute_tool_plans_batch env s ps override))"
proof (cases "case override of Some b \<Rightarrow> b | None \<Rightarrow> should_parallelize_tool_batch (scheduled ps)")
  case True
  have "\<forall>plan \<in> set ps. \<not> xp_approval_required plan"
  proof (cases override)
    case None
    with True show ?thesis
      by (auto simp: should_parallelize_tool_batch_def scheduled_def list_all_iff tool_execution_plan.defs)
  qed (use True assms(2) in auto)
  then have "safe_step env s0 plans s (fst (run_parallel env s ps))"
    using assms(1) by (intro safe_run_parallel) auto
  with True show ?thesis by (simp add: execute_tool_plans_batch_def)
next
  case False
  then show ?thesis using safe_sequential [OF assms(1)] by (auto simp: execute_tool_plans_batch_def)
qed

lemma allowed_wave:
  assumes "numbered (scheduled plans)" and "\<forall>i \<in> set g. i < length plans"
    and "wave_parallel_allowed u e (scheduled plans) g" and "i \<in> set g"
  shows "\<not> xp_approval_required (plans ! i)"
proof -
  let ?views = "List.map_filter (\<lambda>i. if i < length (scheduled plans)
      then Some (dag_plan_view_of u e (scheduled plans ! i)) else None) g"
  from assms(3,4) obtain p where p: "List.find (\<lambda>p. dv_index p = i) ?views = Some p" "dv_parallel_eligible p"
    by (auto simp: wave_parallel_allowed_def wave_parallel_eligible_def list_all_iff Let_def
        split: if_splits option.splits)
  from p(1) have "p \<in> set ?views" and index: "dv_index p = i"
    by (auto simp: find_Some_iff intro: nth_mem)
  then obtain j where j: "j < length plans" "p = dag_plan_view_of u e (scheduled plans ! j)"
    by (auto simp: List.map_filter_def split: if_splits)
  then have "j = i"
    using index numbered_index [OF assms(1) j(1)] by (simp add: dag_plan_view_of_def Let_def case_prod_beta)
  with j p(2) show ?thesis by (auto simp: dag_plan_view_of_def Let_def case_prod_beta)
qed

lemma safe_subgroups:
  assumes "numbered (scheduled plans)"
  shows "run_subgroups env plans s m gs = Some (s', m') \<Longrightarrow> safe_step env s0 plans s s'"
proof (induction gs arbitrary: s m)
  case (Cons g gs)
  obtain s1 c where c: "is_cancelled env s = (s1, c)" by fastforce
  have s1: "safe_step env s0 plans s s1" using safe_cancelled [OF c] .
  show ?case
  proof (cases c)
    case True
    with c s1 Cons.prems show ?thesis by simp
  next
    case False
    define override where "override = (if uses_dag_groups (ee_scheduler env)
      then Some (wave_parallel_allowed (ee_lower env) (ee_sandbox_enforced env) (scheduled plans) g) else None)"
    obtain s2 os where os: "execute_tool_plans_batch env s1 (map ((!) plans) g) override = (s2, os)" by fastforce
    from Cons.prems False c os have inside: "\<forall>i \<in> set g. i < length plans"
      and rest: "run_subgroups env plans s2 (store_outcomes m os) gs = Some (s', m')"
      by (auto simp: override_def list_ex_iff not_le Let_def split: if_splits)
    have "\<forall>plan \<in> set (map ((!) plans) g). \<not> xp_approval_required plan" if "override = Some True"
      using that allowed_wave [OF assms inside] by (auto simp: override_def split: if_splits)
    moreover have "set (map ((!) plans) g) \<subseteq> set plans" using inside by auto
    ultimately have "safe_step env s0 plans s1 s2" using safe_batch os by (metis fst_conv)
    from safe_trans [OF safe_trans [OF s1 this] Cons.IH [OF rest]] show ?thesis .
  qed
qed simp

lemma safe_groups:
  assumes "numbered (scheduled plans)"
  shows "run_groups env plans s m groups = Some (s', m') \<Longrightarrow> safe_step env s0 plans s s'"
proof (induction groups arbitrary: s m)
  case (Cons g groups)
  obtain s1 c where c: "is_cancelled env s = (s1, c)" by fastforce
  have s1: "safe_step env s0 plans s s1" using safe_cancelled [OF c] .
  show ?case
  proof (cases c)
    case True
    with c s1 Cons.prems show ?thesis by simp
  next
    case False
    with Cons.prems c obtain gs s2 m2 where gs: "run_subgroups env plans s1 m gs = Some (s2, m2)"
      and rest: "run_groups env plans s2 m2 groups = Some (s', m')"
      by (auto split: option.splits)
    from safe_trans [OF safe_trans [OF s1 safe_subgroups [OF assms gs]] Cons.IH [OF rest]] show ?thesis .
  qed
qed simp

lemma runs_allowed:
  assumes "numbered (scheduled plans)" and "execute_tool_plans env s st plans = Some (s', os)"
    and "Ran call_id tool input policy \<in> set (drop (length (es_log s)) (es_log s'))"
  shows "\<exists>plan \<in> set plans. xp_id plan = call_id \<and> xp_guard_result plan = None \<and> xp_blocked_error plan = None \<and>
    ee_stage_gate env (xp_name plan) = None \<and>
    (tool = xp_name plan \<and> (xp_approval_required plan \<longrightarrow> consented env s plan) \<or>
     xp_name plan = MULTI_TOOL_PARALLEL_NAME \<and> parallel_call_error env tool = None)"
proof -
  from assms(2) obtain groups m where "run_groups env plans s Map.empty groups = Some (s', m)"
    by (auto simp: execute_tool_plans_def split: option.splits)
  from safe_groups [OF assms(1) this, of s] obtain new where
    new: "es_log s' = es_log s @ new" "list_all (event_allowed env s plans) new"
    by (auto simp: safe_step_def no_new_consent_def)
  from new(1) assms(3) have "Ran call_id tool input policy \<in> set new" by simp
  with new(2) have "event_allowed env s plans (Ran call_id tool input policy)" unfolding list_all_iff by blast
  then show ?thesis by (simp only: event_allowed.simps)
qed

text \<open>
  No tool runs against the policy. In every execution of numbered plans, under every scheduler and
  at whatever point it is cancelled, a tool runs only for a plan of the step that is not blocked, not
  answered by the loop guard and not closed by the stage gate; and either it is the tool of the plan, and the
  user consented if the plan requires approval, or it is a call within \<open>multi_tool_use.parallel\<close> that is
  read-only, needs no approval and supports parallel execution, or is a resource read of an MCP
  server. The workspace is saved, Python runs and cards are shown outside of this statement.
\<close>

theorem no_unapproved_run:
  assumes "numbered (scheduled plans)" and "execute_tool_plans env s st plans = Some (s', os)"
    and "Ran call_id tool input policy \<in> set (drop (length (es_log s)) (es_log s'))"
  shows "\<exists>plan \<in> set plans. xp_id plan = call_id \<and> xp_guard_result plan = None \<and> xp_blocked_error plan = None \<and>
    ee_stage_gate env (xp_name plan) = None \<and>
    (tool = xp_name plan \<and> (xp_approval_required plan \<longrightarrow> consented env s plan) \<or>
     xp_name plan = MULTI_TOOL_PARALLEL_NAME \<and> parallel_call_error env tool = None)"
  using assms by (rule runs_allowed)


section \<open>Samples\<close>

text \<open>An environment whose tools all succeed, a plan, and a state with one recorded decision.\<close>

definition sample_env :: "(nat \<Rightarrow> bool) \<Rightarrow> exec_env" where
  "sample_env cancelled =
     \<lparr>ee_url_tools = \<lparr>url_host = (\<lambda>_. None), hash_paths = concat\<rparr>, ee_lower = (\<lambda>s. s),
      ee_sandbox_enforced = False, ee_scheduler = SchedDag, ee_uses_v3 = True, ee_replay_only = False,
      ee_cancelled = cancelled, ee_unfinished = (\<lambda>_. {}), ee_stage_gate = (\<lambda>_. None),
      ee_before_hook = (\<lambda>_ _ _. Inr None), ee_registry = Some Map.empty, ee_mcp_pool = False,
      ee_ensure_pool = None, ee_mcp = (\<lambda>_ _ _. Inr (result_success [])),
      ee_tool = (\<lambda>_ _ _ _. Inr (result_success ''written'')), ee_python = (\<lambda>_ _. Inr (result_success ''42'')),
      ee_search = (\<lambda>_ _. (Inr (result_success []), [])), ee_user_input = (\<lambda>_ _. Inr (result_success [])),
      ee_parallel_json = (\<lambda>_. Inr (result_success []))\<rparr>"

definition sample_plan :: "nat \<Rightarrow> string \<Rightarrow> string \<Rightarrow> tool_plan" where
  "sample_plan i call_id tool =
     \<lparr>xp_index = i, xp_id = call_id, xp_name = tool, xp_input = JNull, xp_interactive = False,
      xp_approval_required = True, xp_supports_parallel = False, xp_read_only = False, xp_caller = None,
      xp_approval_description = [], xp_blocked_error = None, xp_guard_result = None\<rparr>"

definition sample_state :: "v3_approval \<Rightarrow> exec_state" where
  "sample_state decision =
     \<lparr>es_checks = 0, es_runs = 0, es_cache = Map.empty, es_approvals = [''c1'' \<mapsto> decision], es_inbox = [],
      es_active_tools = {}, es_log = []\<rparr>"

definition no_shadow_stats :: scheduler_shadow_stats where
  "no_shadow_stats = \<lparr>sh_comparisons = 0, sh_diffs = 0\<rparr>"

lemma sample_fields:
  "ee_scheduler (sample_env cn) = SchedDag" "ee_uses_v3 (sample_env cn) = True"
  "ee_cancelled (sample_env cn) = cn" "ee_stage_gate (sample_env cn) = (\<lambda>_. None)"
  "ee_before_hook (sample_env cn) = (\<lambda>_ _ _. Inr None)" "ee_registry (sample_env cn) = Some Map.empty"
  "xp_index (sample_plan i c tool) = i" "xp_id (sample_plan i c tool) = c" "xp_name (sample_plan i c tool) = tool"
  "xp_input (sample_plan i c tool) = JNull" "xp_approval_required (sample_plan i c tool)"
  "xp_blocked_error (sample_plan i c tool) = None" "xp_guard_result (sample_plan i c tool) = None"
  "es_cache (sample_state d) = Map.empty" "es_approvals (sample_state d) = [''c1'' \<mapsto> d]"
  "es_log (sample_state d) = []"
  by (simp_all add: sample_env_def sample_plan_def sample_state_def)

text \<open>A write that the user allowed runs.\<close>

lemma sample_write_runs:
  assumes "ee_scheduler env = SchedDag" "ee_uses_v3 env" "ee_cancelled env = (\<lambda>_. False)"
    and "ee_stage_gate env = (\<lambda>_. None)" "ee_before_hook env = (\<lambda>_ _ _. Inr None)" "ee_registry env \<noteq> None"
  shows "\<exists>s' o1. execute_tool_plans env (sample_state V3Approved) st [sample_plan 0 ''c1'' ''write_file''] = Some (s', [o1]) \<and>
    Ran ''c1'' ''write_file'' JNull None \<in> set (es_log s') \<and> oc_result o1 = ee_tool env 0 ''write_file'' JNull None"
proof -
  let ?s = "sample_state V3Approved" and ?p = "sample_plan 0 ''c1'' ''write_file''"
  have special: "''write_file'' \<noteq> MULTI_TOOL_PARALLEL_NAME" "''write_file'' \<noteq> CODE_EXECUTION_TOOL_NAME"
    "''write_file'' \<noteq> REQUEST_USER_INPUT_NAME" "\<not> is_tool_search_tool ''write_file''" "\<not> is_mcp_tool_name ''write_file''"
    by (simp_all add: MULTI_TOOL_PARALLEL_NAME_def CODE_EXECUTION_TOOL_NAME_def REQUEST_USER_INPUT_NAME_def
        is_tool_search_tool_def is_mcp_tool_name_def starts_with_def)
  have "\<not> cache_hit env s tool input" if "es_cache s = Map.empty" for s tool input
    using that by (simp add: cache_hit_def approval_cache_hit_def cache_check_def)
  then have plain: "run_plain env s ?p =
      (note_event (Ran ''c1'' ''write_file'' JNull None) ((note_event (SavedWorkspace ''c1'') s)\<lparr>es_runs := es_runs s + 1\<rparr>),
       outcome_of ?p JNull (ee_tool env (es_runs s) ''write_file'' JNull None))"
    if "es_cache s = Map.empty" "es_approvals s = [''c1'' \<mapsto> V3Approved]" for s
    using that special assms
    by (auto simp: run_plain_def approval_of_plan_def execute_plan_def edits_files_def note_event_def sample_fields Let_def)
  have batch: "execute_tool_plans_batch env (?s\<lparr>es_checks := n\<rparr>) [?p] (Some False) =
      (let (s', o1) = run_plain env (?s\<lparr>es_checks := n + 1\<rparr>) ?p in (s', [o1]))" for n
    using special assms by (simp add: execute_tool_plans_batch_def is_cancelled_def run_sequential_plan_def
        maybe_block_tool_def sample_fields Let_def case_prod_beta)
  have runs: "es_runs (?s\<lparr>es_checks := n\<rparr>) = 0" for n by (simp add: sample_state_def)
  show ?thesis
    using assms
    by (simp add: execute_tool_plans_def scheduled_def dag_execution_groups_def tool_execution_plan.defs batch plain runs
        split_wave_execution_subgroups_def wave_parallel_allowed_def is_cancelled_def sample_fields Let_def
        note_event_def outcome_of_def store_outcomes_def)
qed

text \<open>A turn that was cancelled before its two calls: both are answered.\<close>

theorem every_call_answered_witness:
  "\<exists>s' os. execute_tool_plans (sample_env (\<lambda>_. True)) (sample_state V3Denied) no_shadow_stats
      [sample_plan 0 ''c1'' ''write_file'', sample_plan 1 ''c2'' ''exec_shell''] = Some (s', os) \<and>
     map oc_id os = [''c1'', ''c2'']"
proof -
  have "numbered (scheduled [sample_plan 0 ''c1'' ''write_file'', sample_plan 1 ''c2'' ''exec_shell''])"
    by (simp add: numbered_def scheduled_def sample_plan_def tool_execution_plan.defs upt_rec)
  from every_call_answered [OF this, of "sample_env (\<lambda>_. True)" "sample_state V3Denied" no_shadow_stats]
  show ?thesis by (auto simp: sample_plan_def)
qed

text \<open>A write that the user allowed runs, and the theorem gives his consent back.\<close>

theorem no_unapproved_run_witness:
  "consented (sample_env (\<lambda>_. False)) (sample_state V3Approved) (sample_plan 0 ''c1'' ''write_file'')"
proof -
  let ?env = "sample_env (\<lambda>_. False)" and ?s = "sample_state V3Approved" and ?p = "sample_plan 0 ''c1'' ''write_file''"
  have numbered: "numbered (scheduled [?p])"
    by (simp add: numbered_def scheduled_def sample_plan_def tool_execution_plan.defs upt_rec)
  obtain s' os where run: "execute_tool_plans ?env ?s no_shadow_stats [?p] = Some (s', os)"
    "Ran ''c1'' ''write_file'' JNull None \<in> set (es_log s')"
    using sample_write_runs [of ?env no_shadow_stats] by (auto simp: sample_fields)
  have "es_log ?s = []" by (simp add: sample_fields)
  with no_unapproved_run [OF numbered run(1), of "''c1''" "''write_file''" JNull None] run(2)
  have "xp_approval_required ?p \<longrightarrow> consented ?env ?s ?p"
    by (auto simp: sample_plan_def MULTI_TOOL_PARALLEL_NAME_def)
  then show ?thesis by (simp add: sample_plan_def)
qed


end
