(* ===== verification/Tool_Catalog.thy ===== *)
theory Tool_Catalog
  imports Tool_Execution "HOL-Library.Product_Lexorder"
begin

text \<open>
  The catalog of tools that a request offers to the model: \<open>crates/core/src/engine/tool_catalog.rs\<close>, which
  tools are deferred, which are active, how a search activates them and what is proposed for a name that
  does not exist; and the resolution of such a name by the registry (\<open>resolve\<close> of
  \<open>crates/runtime-server/src/tools/registry.rs\<close>).

  A \<open>HashSet\<close> of names is a set. The regular expressions, the Unicode tables and the text of a JSON value
  are fields of \<open>text_tables\<close>. The registry's \<open>HashMap\<close> is given by the list of its names in the order in which
  the map iterates; the code relies on no order, so neither do the definitions.
\<close>

section \<open>Tools on offer\<close>

record catalog_tool =
  ct_type :: "string option"
  ct_name :: string
  ct_description :: string
  ct_schema :: json
  ct_callers :: "string list option"
  ct_defer :: "bool option"
  ct_examples :: "json list option"
  ct_strict :: "bool option"
  ct_cache_control :: "cache_control option"

definition TOOL_SEARCH_REGEX_NAME :: string where
  "TOOL_SEARCH_REGEX_NAME = ''tool_search_tool_regex''"

definition TOOL_SEARCH_REGEX_TYPE :: string where
  "TOOL_SEARCH_REGEX_TYPE = ''tool_search_tool_regex_20251119''"

definition TOOL_SEARCH_BM25_NAME :: string where
  "TOOL_SEARCH_BM25_NAME = ''tool_search_tool_bm25''"

definition TOOL_SEARCH_BM25_TYPE :: string where
  "TOOL_SEARCH_BM25_TYPE = ''tool_search_tool_bm25_20251119''"

definition shell_names :: "string list" where
  "shell_names = [''exec_shell'', ''exec_shell_wait'', ''exec_shell_interact'', ''exec_shell_cancel'',
     ''exec_wait'', ''exec_interact'']"

definition eager_names :: "string list" where
  "eager_names =
     [''read_file'', ''file_info'', ''list_dir'', ''glob_files'', ''grep_files'', ''file_search'', ''load_skill'',
      ''diagnostics'', ''rlm'', ''recall_archive'', MULTI_TOOL_PARALLEL_NAME, ''update_plan'',
      ''checklist_write'', ''todo_write'', ''describe_image'', ''task_list'', ''task_read'',
      ''task_gate_run'', ''task_shell_start'', ''task_shell_wait'', ''github_issue_context'',
      ''github_pr_context'', ''scratchpad_status'', ''scratchpad_init'', ''scratchpad_append'',
      ''scratchpad_set_area'', ''scratchpad_list_notes'', ''investigate'', ''answer_from_repo'',
      ''explore_codebase'', ''change_and_verify'', ''edit_and_check'', ''promote_to_context'',
      REQUEST_USER_INPUT_NAME]"

definition should_default_defer_tool :: "string \<Rightarrow> turn_loop_mode \<Rightarrow> bool" where
  "should_default_defer_tool name m =
     (if m = turn_loop_mode.Yolo then False
      else if m = turn_loop_mode.Agent \<and> name \<in> set shell_names then False
      else name \<notin> set eager_names)"

definition audit_scratchpad_eager_tool :: "string \<Rightarrow> bool" where
  "audit_scratchpad_eager_tool name \<longleftrightarrow>
     name \<in> {''agent_spawn'', ''spawn_agent'', ''delegate_to_agent'', ''agent_list'', ''agent_result'',
             ''agent_wait''}"

definition audit_scratchpad_defer_task_create :: "string \<Rightarrow> bool \<Rightarrow> bool" where
  "audit_scratchpad_defer_task_create name scratchpad_active \<longleftrightarrow> scratchpad_active \<and> name = ''task_create''"

definition apply_native_tool_deferral ::
  "catalog_tool list \<Rightarrow> turn_loop_mode \<Rightarrow> string option \<Rightarrow> catalog_tool list" where
  "apply_native_tool_deferral catalog m run_id =
     (let scratchpad_active = (case run_id of Some i \<Rightarrow> trim i \<noteq> [] | None \<Rightarrow> False) in
      map (\<lambda>t.
        let d0 = should_default_defer_tool (ct_name t) m;
            d1 = (if scratchpad_active \<and> audit_scratchpad_eager_tool (ct_name t) then False else d0);
            d2 = (if audit_scratchpad_defer_task_create (ct_name t) scratchpad_active then True else d1)
        in t\<lparr>ct_defer := Some d2\<rparr>) catalog)"

definition scratchpad_defer_set_area_batch_error :: "nat \<Rightarrow> tool_error option" where
  "scratchpad_defer_set_area_batch_error batch_count =
     (if batch_count \<le> 1 then None
      else Some (InvalidInput (''P2 workflow: do not issue '' @ show_nat batch_count @
        '' scratchpad_set_area(deferred) calls in one step. '' @
        ''For each pending area, in separate steps: (1) scratchpad_append with kind=meta and a non-empty '' @
        ''claim (defer reason), (2) scratchpad_set_area(deferred) for that single area_id. '' @
        ''Call scratchpad_status for pending_area_ids; repeat one area at a time.'')))"

definition is_audit_scratchpad_bind_tool :: "string \<Rightarrow> bool" where
  "is_audit_scratchpad_bind_tool name \<longleftrightarrow>
     name \<in> {''scratchpad_init'', ''scratchpad_append'', ''scratchpad_set_area'', ''scratchpad_verify_note'',
             ''scratchpad_import_agent''}"

definition deferred :: "catalog_tool \<Rightarrow> bool" where
  "deferred t \<longleftrightarrow> (case ct_defer t of Some d \<Rightarrow> d | None \<Rightarrow> False)"

definition activate_audit_subagent_tools ::
  "catalog_tool list \<Rightarrow> turn_loop_mode \<Rightarrow> string option \<Rightarrow> string set \<Rightarrow> catalog_tool list \<times> string set" where
  "activate_audit_subagent_tools catalog m run_id active =
     (let catalog' = apply_native_tool_deferral catalog m run_id in
      (catalog', active \<union> set (map ct_name (filter (\<lambda>t. audit_scratchpad_eager_tool (ct_name t) \<and>
         \<not> (case ct_defer t of Some d \<Rightarrow> d | None \<Rightarrow> True)) catalog'))))"

definition should_keep_mcp_tool_loaded :: "string \<Rightarrow> bool" where
  "should_keep_mcp_tool_loaded name \<longleftrightarrow>
     name \<in> {''list_mcp_resources'', ''list_mcp_resource_templates'', ''mcp_read_resource'',
             ''read_mcp_resource'', ''mcp_get_prompt''}"

definition apply_mcp_tool_deferral :: "catalog_tool list \<Rightarrow> turn_loop_mode \<Rightarrow> catalog_tool list" where
  "apply_mcp_tool_deferral catalog m =
     map (\<lambda>t. t\<lparr>ct_defer := Some (m \<noteq> turn_loop_mode.Yolo \<and> \<not> should_keep_mcp_tool_loaded (ct_name t))\<rparr>) catalog"

definition build_model_tool_catalog ::
  "catalog_tool list \<Rightarrow> catalog_tool list \<Rightarrow> turn_loop_mode \<Rightarrow> string option \<Rightarrow> catalog_tool list" where
  "build_model_tool_catalog native_tools mcp_tools m run_id =
     sort_key ct_name (apply_native_tool_deferral native_tools m run_id) @
     sort_key ct_name (apply_mcp_tool_deferral mcp_tools m)"

definition search_tool :: "string \<Rightarrow> string \<Rightarrow> string \<Rightarrow> string \<Rightarrow> catalog_tool" where
  "search_tool type name description query_text =
     \<lparr>ct_type = Some type, ct_name = name, ct_description = description,
      ct_schema = JObject [(''type'', JString ''object''),
        (''properties'', JObject [(''query'', JObject [(''type'', JString ''string''),
           (''description'', JString query_text)])]),
        (''required'', JArray [JString ''query''])],
      ct_callers = Some [''direct''], ct_defer = Some False, ct_examples = None, ct_strict = None,
      ct_cache_control = None\<rparr>"

definition ensure_advanced_tooling :: "catalog_tool list \<Rightarrow> catalog_tool list" where
  "ensure_advanced_tooling catalog =
     (let has = (\<lambda>c name. list_ex (\<lambda>t. ct_name t = name) c);
          c1 = (if has catalog TOOL_SEARCH_REGEX_NAME then catalog
                else catalog @ [search_tool TOOL_SEARCH_REGEX_TYPE TOOL_SEARCH_REGEX_NAME
                  ''Search deferred tool definitions using a regex query and return matching tool references.''
                  ''Regex pattern to search tool names/descriptions/schema.'']) in
      if has c1 TOOL_SEARCH_BM25_NAME then c1
      else c1 @ [search_tool TOOL_SEARCH_BM25_TYPE TOOL_SEARCH_BM25_NAME
        ''Search deferred tool definitions using natural-language matching and return matching tool references.''
        ''Natural language query for tool discovery.''])"

definition initial_active_tools :: "catalog_tool list \<Rightarrow> string set" where
  "initial_active_tools catalog =
     (let active = set (map ct_name (filter (\<lambda>t. \<not> deferred t \<or> is_tool_search_tool (ct_name t)) catalog)) in
      if active = {} then (case catalog of [] \<Rightarrow> {} | t # _ \<Rightarrow> {ct_name t}) else active)"

definition active_tool_list_from_catalog :: "catalog_tool list \<Rightarrow> string set \<Rightarrow> catalog_tool list" where
  "active_tool_list_from_catalog catalog active =
     (let offered = filter (\<lambda>t. ct_name t \<in> active) catalog in
      filter (\<lambda>t. \<not> deferred t) offered @ filter deferred offered)"

definition active_tools_for_step :: "catalog_tool list \<Rightarrow> string set \<Rightarrow> bool \<Rightarrow> catalog_tool list" where
  "active_tools_for_step catalog active force_update_plan =
     (let forced = filter (\<lambda>t. ct_name t = ''update_plan'') catalog in
      if force_update_plan \<and> forced \<noteq> [] then forced else active_tool_list_from_catalog catalog active)"

section \<open>Search\<close>

record text_tables =
  tt_lower :: "string \<Rightarrow> string"
  tt_is_upper :: "string \<Rightarrow> bool"
  tt_json_text :: "json \<Rightarrow> string"
  tt_regex :: "string \<Rightarrow> string + (string \<Rightarrow> bool)"

definition tool_search_haystack :: "text_tables \<Rightarrow> catalog_tool \<Rightarrow> string" where
  "tool_search_haystack tt t =
     to_lowercase (tt_lower tt) (ct_name t) @ [CHR 0x0A] @
     to_lowercase (tt_lower tt) (ct_description t) @ [CHR 0x0A] @
     to_lowercase (tt_lower tt) (tt_json_text tt (ct_schema t))"

definition discover_tools_with_regex ::
  "text_tables \<Rightarrow> catalog_tool list \<Rightarrow> string \<Rightarrow> tool_error + string list" where
  "discover_tools_with_regex tt catalog query =
     (case tt_regex tt query of
        Inl err \<Rightarrow> Inl (InvalidInput (''Invalid regex query: '' @ err))
      | Inr is_match \<Rightarrow>
          Inr (take 5 (map ct_name (filter (\<lambda>t. \<not> is_tool_search_tool (ct_name t) \<and>
            is_match (tool_search_haystack tt t)) catalog))))"

definition bm25_score :: "text_tables \<Rightarrow> string list \<Rightarrow> catalog_tool \<Rightarrow> int" where
  "bm25_score tt terms t =
     sum_list (map (\<lambda>term.
       (if str_contains (tool_search_haystack tt t) term then 1 else 0) +
       (if str_contains (to_lowercase (tt_lower tt) (ct_name t)) term then 2 else 0)) terms)"

definition discover_tools_with_bm25_like :: "text_tables \<Rightarrow> catalog_tool list \<Rightarrow> string \<Rightarrow> string list" where
  "discover_tools_with_bm25_like tt catalog query =
     (let terms = filter (\<lambda>t. t \<noteq> []) (map (\<lambda>t. to_lowercase (tt_lower tt) (trim t)) (split_whitespace query)) in
      if terms = [] then []
      else
        let scored = filter (\<lambda>(score, _). 0 < score)
              (map (\<lambda>t. (bm25_score tt terms t, ct_name t))
                (filter (\<lambda>t. \<not> is_tool_search_tool (ct_name t)) catalog))
        in map snd (take 5 (sort_key (\<lambda>(score, name). (- score, name)) scored)))"

definition maybe_activate_requested_deferred_tool ::
  "string \<Rightarrow> catalog_tool list \<Rightarrow> string set \<Rightarrow> string set \<times> bool" where
  "maybe_activate_requested_deferred_tool name catalog active =
     (case List.find (\<lambda>t. ct_name t = name) catalog of
        None \<Rightarrow> (active, False)
      | Some t \<Rightarrow> if \<not> deferred t \<or> name \<in> active then (active, False) else (insert name active, True))"

text \<open>The answer of a search, and the names it found.\<close>

definition tool_search ::
  "text_tables \<Rightarrow> string \<Rightarrow> json \<Rightarrow> catalog_tool list \<Rightarrow> (tool_error + tool_result) \<times> string list" where
  "tool_search tt name input catalog =
     (case required_str input ''query'' of
        Inl e \<Rightarrow> (Inl e, [])
      | Inr query \<Rightarrow>
          (case (if name = TOOL_SEARCH_REGEX_NAME then discover_tools_with_regex tt catalog query
                 else Inr (discover_tools_with_bm25_like tt catalog query)) of
             Inl e \<Rightarrow> (Inl e, [])
           | Inr discovered \<Rightarrow>
               (Inr \<lparr>to_content = tt_json_text tt (JObject [(''type'', JString ''tool_search_tool_search_result''),
                       (''tool_references'', JArray (map (\<lambda>n. JObject [(''type'', JString ''tool_reference''),
                          (''tool_name'', JString n)]) discovered))]),
                     to_success = True,
                     to_metadata = Some (JObject [(''tool_references'', JArray (map JString discovered))])\<rparr>,
                discovered)))"

definition execute_tool_search ::
  "text_tables \<Rightarrow> string \<Rightarrow> json \<Rightarrow> catalog_tool list \<Rightarrow> string set \<Rightarrow> string set \<times> (tool_error + tool_result)" where
  "execute_tool_search tt name input catalog active =
     (case tool_search tt name input catalog of (r, discovered) \<Rightarrow> (active \<union> set discovered, r))"

section \<open>Names that do not exist\<close>

text \<open>The distance between two names: two rows of the table, \<open>d\<close> and \<open>u\<close> the cells above left and above.\<close>

fun row_from :: "'a \<Rightarrow> nat \<Rightarrow> 'a list \<Rightarrow> nat list \<Rightarrow> nat list" where
  "row_from a left (b # bs) (d # u # prev) =
     (let x = min (min (u + 1) (left + 1)) (d + (if a = b then 0 else 1)) in x # row_from a x bs (u # prev))"
| "row_from a left bs prev = []"

definition next_row :: "nat \<Rightarrow> 'a \<Rightarrow> 'a list \<Rightarrow> nat list \<Rightarrow> nat list" where
  "next_row i a bs prev = (i + 1) # row_from a (i + 1) bs prev"

fun distance_rows :: "nat \<Rightarrow> 'a list \<Rightarrow> 'a list \<Rightarrow> nat list \<Rightarrow> nat list" where
  "distance_rows i [] bs prev = prev"
| "distance_rows i (a # as) bs prev = distance_rows (i + 1) as bs (next_row i a bs prev)"

definition edit_distance :: "string \<Rightarrow> string \<Rightarrow> nat" where
  "edit_distance a b =
     (if a = b then 0
      else if a = [] then char_count b
      else if b = [] then char_count a
      else let bs = text_chars b in
        distance_rows 0 (text_chars a) bs [0..<length bs + 1] ! length bs)"

fun dedup_names :: "(nat \<times> nat \<times> string) list \<Rightarrow> (nat \<times> nat \<times> string) list" where
  "dedup_names (c # d # cs) =
     (if snd (snd d) = snd (snd c) then dedup_names (c # cs) else c # dedup_names (d # cs))"
| "dedup_names cs = cs"

definition suggestion_of :: "string \<Rightarrow> string \<Rightarrow> (nat \<times> nat \<times> string) option" where
  "suggestion_of requested name =
     (let candidate = to_ascii_lowercase name;
          prefix_match = starts_with candidate requested \<or> starts_with requested candidate;
          contains_match = str_contains candidate requested \<or> str_contains requested candidate;
          distance = edit_distance candidate requested in
      if \<not> (prefix_match \<or> contains_match \<or> distance \<le> 3) then None
      else Some (if prefix_match then 0 else if contains_match then 1 else 2, distance, name))"

definition suggest_tool_names :: "catalog_tool list \<Rightarrow> string \<Rightarrow> nat \<Rightarrow> string list" where
  "suggest_tool_names catalog requested0 limit =
     (let requested = to_ascii_lowercase (trim requested0) in
      if requested = [] \<or> limit = 0 then []
      else map (snd \<circ> snd) (take limit (dedup_names (sort
        (List.map_filter (\<lambda>t. suggestion_of requested (ct_name t)) catalog)))))"

definition missing_tool_error_message :: "string \<Rightarrow> catalog_tool list \<Rightarrow> string" where
  "missing_tool_error_message name catalog =
     (let suggestions = suggest_tool_names catalog name 3;
          start = ''Tool '' @ in_quotes name @ '' is not available in the current tool catalog. '' in
      if suggestions = [] then
        start @ ''Verify mode/feature flags, or use '' @ TOOL_SEARCH_BM25_NAME @ '' with a short query.''
      else start @ ''Did you mean: '' @ join '', '' suggestions @ ''? You can also use '' @
        TOOL_SEARCH_BM25_NAME @ '' to discover tools.'')"

subsection \<open>The registry's resolution\<close>

fun to_snake_case_from :: "text_tables \<Rightarrow> bool \<Rightarrow> string list \<Rightarrow> string" where
  "to_snake_case_from tt first [] = []"
| "to_snake_case_from tt first (ch # chs) =
     (if (if is_ascii ch then list_all ascii_upper ch else tt_is_upper tt ch)
      then (if first then [] else ''_'') @ to_ascii_lowercase ch
      else ch) @ to_snake_case_from tt False chs"

definition to_snake_case :: "text_tables \<Rightarrow> string \<Rightarrow> string" where
  "to_snake_case tt s = to_snake_case_from tt True (text_chars s)"

definition strip_suffix :: "string \<Rightarrow> string \<Rightarrow> string option" where
  "strip_suffix s suf = (if ends_with s suf then Some (take (length s - length suf) s) else None)"

definition strip_tool_suffix :: "string \<Rightarrow> string" where
  "strip_tool_suffix s =
     (case find_map (strip_suffix s) [''_tool'', ''-tool'', ''tool''] of Some s' \<Rightarrow> s' | None \<Rightarrow> s)"

definition fuzzy_name :: "string \<Rightarrow> string \<Rightarrow> bool" where
  "fuzzy_name lower n \<longleftrightarrow> 3 \<le> length n \<and> (starts_with n lower \<or> starts_with lower n)"

text \<open>The steps that look for one name, and the last one.\<close>

definition resolve_ladder :: "text_tables \<Rightarrow> string list \<Rightarrow> string \<Rightarrow> string option" where
  "resolve_ladder tt names requested =
     (let lower = to_lowercase (tt_lower tt) requested;
          snaked = map (\<lambda>c. if c = CHR ''-'' \<or> c = CHR '' '' then CHR ''_'' else c) lower;
          cc = to_snake_case tt requested;
          stripped = strip_tool_suffix (strip_tool_suffix cc) in
      case List.find (\<lambda>n. to_lowercase (tt_lower tt) n = lower) names of
        Some n \<Rightarrow> Some n
      | None \<Rightarrow>
          (case List.find (\<lambda>n. n = snaked) names of
             Some n \<Rightarrow> Some n
           | None \<Rightarrow>
               (case List.find (\<lambda>n. n = cc) names of
                  Some n \<Rightarrow> Some n
                | None \<Rightarrow> if stripped \<noteq> [] then List.find (\<lambda>n. n = stripped) names else None)))"

definition resolve_name :: "text_tables \<Rightarrow> string list \<Rightarrow> string \<Rightarrow> string option" where
  "resolve_name tt names requested =
     (let lower = to_lowercase (tt_lower tt) requested in
      case resolve_ladder tt names requested of
        Some n \<Rightarrow> Some n
      | None \<Rightarrow> if 3 \<le> length lower then List.find (fuzzy_name lower) names else None)"

definition resolve_hallucinated_tool_name ::
  "text_tables \<Rightarrow> string list option \<Rightarrow> string \<Rightarrow> catalog_tool list \<Rightarrow> string option" where
  "resolve_hallucinated_tool_name tt names name catalog =
     (case Option.bind names (\<lambda>ns. resolve_name tt ns name) of
        Some canonical \<Rightarrow> if list_ex (\<lambda>t. ct_name t = canonical) catalog then Some canonical else None
      | None \<Rightarrow> None)"

section \<open>The distance is the least number of edits\<close>

text \<open>An alignment of two lists with its number of substitutions, deletions and insertions.\<close>

inductive aligns :: "'a list \<Rightarrow> 'a list \<Rightarrow> nat \<Rightarrow> bool" where
  ends: "aligns [] [] 0"
| keeps: "aligns as bs n \<Longrightarrow> aligns (a # as) (a # bs) n"
| substitutes: "aligns as bs n \<Longrightarrow> aligns (a # as) (b # bs) (Suc n)"
| deletes: "aligns as bs n \<Longrightarrow> aligns (a # as) bs (Suc n)"
| inserts: "aligns as bs n \<Longrightarrow> aligns as (b # bs) (Suc n)"

fun distance :: "'a list \<Rightarrow> 'a list \<Rightarrow> nat" where
  "distance [] bs = length bs"
| "distance (a # as) [] = Suc (length as)"
| "distance (a # as) (b # bs) =
     min (min (distance as (b # bs) + 1) (distance (a # as) bs + 1)) (distance as bs + (if a = b then 0 else 1))"

lemma distance_Nil [simp]: "distance as [] = length as"
  by (cases as) simp_all

lemma distance_aligns: "aligns as bs (distance as bs)"
proof (induction as bs rule: distance.induct)
  case (1 bs)
  show ?case by (induction bs) (auto intro: aligns.intros)
next
  case (2 a as)
  have "aligns as [] (length as)" by (induction as) (auto intro: aligns.intros)
  then show ?case by (auto intro: aligns.intros)
next
  case (3 a as b bs)
  then show ?case
    by (auto simp: min_def intro: aligns.intros)
qed

lemma distance_deletes: "distance (a # as) bs \<le> Suc (distance as bs)"
  by (cases bs) simp_all

lemma distance_inserts: "distance as (b # bs) \<le> Suc (distance as bs)"
  by (cases as) simp_all

lemma distance_least: "aligns as bs n \<Longrightarrow> distance as bs \<le> n"
proof (induction rule: aligns.induct)
  case (deletes as bs n a)
  then show ?case using distance_deletes [of a as bs] by linarith
next
  case (inserts as bs n b)
  then show ?case using distance_inserts [of as b bs] by linarith
qed (auto simp: min_le_iff_disj)

lemma aligns_append: "aligns as bs n \<Longrightarrow> aligns cs ds m \<Longrightarrow> aligns (as @ cs) (bs @ ds) (n + m)"
  by (induction rule: aligns.induct) (auto intro: aligns.intros)

lemma aligns_rev: "aligns as bs n \<Longrightarrow> aligns (rev as) (rev bs) n"
proof (induction rule: aligns.induct)
  case (keeps as bs n a)
  have "aligns [a] [a] 0" by (auto intro: aligns.intros)
  with aligns_append [OF keeps.IH this] show ?case by simp
next
  case (substitutes as bs n a b)
  have "aligns [a] [b] 1" using aligns.substitutes [OF aligns.ends] by auto
  with aligns_append [OF substitutes.IH this] show ?case by simp
next
  case (deletes as bs n a)
  have "aligns [a] [] 1" using aligns.deletes [OF aligns.ends] by auto
  with aligns_append [OF deletes.IH this] show ?case by simp
next
  case (inserts as bs n b)
  have "aligns [] [b] 1" using aligns.inserts [OF aligns.ends] by auto
  with aligns_append [OF inserts.IH this] show ?case by simp
qed (auto intro: aligns.intros)

lemma distance_rev: "distance (rev as) (rev bs) = distance as bs"
  using distance_least [OF aligns_rev [OF distance_aligns [of as bs]]]
    distance_least [OF aligns_rev [OF distance_aligns [of "rev as" "rev bs"]]] by simp

text \<open>A row of the table: the distances of a beginning of the first list to all beginnings of the second.\<close>

definition table_row :: "'a list \<Rightarrow> 'a list \<Rightarrow> 'a list \<Rightarrow> nat list" where
  "table_row xs ys bs = map (\<lambda>j. distance xs (rev (take j bs) @ ys)) [0..<Suc (length bs)]"

lemma table_row_Cons: "table_row xs ys (b # bs) = distance xs ys # table_row xs (b # ys) bs"
  unfolding table_row_def by (simp add: upt_conv_Cons map_Suc_upt [symmetric] del: upt_Suc)

lemma table_row_hd: "table_row xs ys bs = distance xs ys # tl (table_row xs ys bs)"
  by (cases bs) (simp_all only: table_row_Cons list.sel, simp add: table_row_def)

lemma row_from_table:
  "row_from a (distance (a # xs) ys) bs (table_row xs ys bs) = tl (table_row (a # xs) ys bs)"
proof (induction bs arbitrary: ys)
  case Nil
  then show ?case by (simp add: table_row_def)
next
  case (Cons b bs)
  let ?x = "distance (a # xs) (b # ys)"
  note first = table_row_hd [of xs "b # ys" bs] and last = table_row_hd [of "a # xs" "b # ys" bs]
  have "row_from a ?x bs (distance xs (b # ys) # tl (table_row xs (b # ys) bs)) = tl (table_row (a # xs) (b # ys) bs)"
    using Cons.IH [of "b # ys"] first by simp
  then have "row_from a (distance (a # xs) ys) (b # bs)
      (distance xs ys # distance xs (b # ys) # tl (table_row xs (b # ys) bs)) =
      ?x # tl (table_row (a # xs) (b # ys) bs)" by (simp add: Let_def)
  then show ?case using first last by (simp add: table_row_Cons)
qed

lemma distance_rows_table:
  "distance_rows (length xs) as bs (table_row xs [] bs) = table_row (rev as @ xs) [] bs"
proof (induction as arbitrary: xs)
  case (Cons a as)
  have "next_row (length xs) a bs (table_row xs [] bs) = table_row (a # xs) [] bs"
    using row_from_table [of a xs "[]" bs] table_row_hd [of "a # xs" "[]" bs] by (simp add: next_row_def)
  then show ?case using Cons.IH [of "a # xs"] by simp
qed simp

lemma edit_distance_table: "edit_distance a b = distance (text_chars a) (text_chars b)"
proof -
  have same: "distance cs cs = 0" for cs :: "string list"
  proof -
    have "aligns cs cs 0" by (induction cs) (auto intro: aligns.intros)
    then show ?thesis using distance_least by force
  qed
  have "table_row [] [] bs = [0..<length bs + 1]" for bs :: "string list"
    by (auto simp: table_row_def intro!: map_idI)
  with distance_rows_table [of "[]" "text_chars a" "text_chars b"]
  have "distance_rows 0 (text_chars a) (text_chars b) [0..<length (text_chars b) + 1] ! length (text_chars b) =
      table_row (rev (text_chars a)) [] (text_chars b) ! length (text_chars b)" by simp
  also have "\<dots> = distance (rev (text_chars a)) (rev (text_chars b))"
    by (simp add: table_row_def del: upt_Suc)
  finally show ?thesis
    by (simp add: edit_distance_def Let_def distance_rev same char_count_def)
qed

text \<open>
  C28. The distance of two names is the least number of insertions, deletions and substitutions of
  characters that turn one into the other: the two-row loop computes it for all names.
\<close>

theorem edit_distance_least:
  "edit_distance a b = (LEAST n. aligns (text_chars a) (text_chars b) n)"
  unfolding edit_distance_table
  by (rule sym, rule Least_equality) (auto intro: distance_aligns distance_least)

section \<open>Which name is meant\<close>

lemma find_eq: "List.find (\<lambda>n. n = x) names = (if x \<in> set names then Some x else None)"
  by (induction names) auto

lemma find_unique:
  assumes "\<forall>n \<in> set names. \<forall>m \<in> set names. P n \<and> P m \<longrightarrow> n = m" and "set names' = set names"
  shows "List.find P names' = List.find P names"
proof (cases "List.find P names")
  case None
  then have "List.find P names' = None" using assms(2) by (simp add: find_None_iff)
  with None show ?thesis by simp
next
  case (Some n)
  then have n: "n \<in> set names" "P n" by (auto simp: find_Some_iff)
  then obtain m where m: "List.find P names' = Some m"
    using assms(2) by (metis find_None_iff not_Some_eq)
  then have "m \<in> set names" "P m" using assms(2) by (auto simp: find_Some_iff intro: nth_mem)
  with m Some n assms(1) show ?thesis by auto
qed

lemma ladder_order_free:
  assumes "\<forall>n \<in> set names. to_lowercase (tt_lower tt) n = n" and "set names' = set names"
  shows "resolve_ladder tt names' requested = resolve_ladder tt names requested"
proof -
  have "List.find (\<lambda>n. to_lowercase (tt_lower tt) n = lower) names' =
      List.find (\<lambda>n. to_lowercase (tt_lower tt) n = lower) names" for lower
    using assms by (intro find_unique) auto
  moreover have "List.find (\<lambda>n. n = x) names' = List.find (\<lambda>n. n = x) names" for x
    using assms(2) by (simp add: find_eq)
  ultimately show ?thesis unfolding resolve_ladder_def by presburger
qed

text \<open>
  C29. The registry iterates over a hash map, whose order differs from run to run. For lower-case names
  the resolution of a name is the same in every order exactly when one of the steps before the last finds
  it, or it is shorter than three bytes, or at most one registered name extends it or is a beginning of it.
\<close>

theorem resolution_order_iff:
  assumes "\<forall>n \<in> set names. to_lowercase (tt_lower tt) n = n"
  shows "(\<forall>names'. mset names' = mset names \<longrightarrow> resolve_name tt names' requested = resolve_name tt names requested) \<longleftrightarrow>
    resolve_ladder tt names requested \<noteq> None \<or> length (to_lowercase (tt_lower tt) requested) < 3 \<or>
    (\<forall>n \<in> set names. \<forall>m \<in> set names. fuzzy_name (to_lowercase (tt_lower tt) requested) n \<and>
       fuzzy_name (to_lowercase (tt_lower tt) requested) m \<longrightarrow> n = m)"
    (is "?same \<longleftrightarrow> ?found \<or> ?short \<or> ?one")
proof
  assume same: ?same
  show "?found \<or> ?short \<or> ?one"
  proof (rule ccontr)
    assume "\<not> (?found \<or> ?short \<or> ?one)"
    then obtain n m where nm: "n \<in> set names" "m \<in> set names" "n \<noteq> m"
      and fuzzy: "fuzzy_name (to_lowercase (tt_lower tt) requested) n" "fuzzy_name (to_lowercase (tt_lower tt) requested) m"
      and steps: "resolve_ladder tt names requested = None" "\<not> ?short" by auto
    have "resolve_name tt (k # remove1 k names) requested = Some k"
      if "k \<in> set names" "fuzzy_name (to_lowercase (tt_lower tt) requested) k" for k
    proof -
      have "mset (k # remove1 k names) = mset names" using that(1) by simp
      then have "set (k # remove1 k names) = set names" by (rule mset_eq_setD)
      from ladder_order_free [OF assms this] steps that(2) show ?thesis
        by (simp add: resolve_name_def Let_def)
    qed
    moreover have "resolve_name tt (k # remove1 k names) requested = resolve_name tt names requested"
      if "k \<in> set names" for k
    proof -
      have "mset (k # remove1 k names) = mset names" using that by simp
      with same show ?thesis by blast
    qed
    ultimately show False using nm fuzzy by (metis option.inject)
  qed
next
  assume either: "?found \<or> ?short \<or> ?one"
  show ?same
  proof (intro allI impI)
    fix names' assume "mset names' = mset names"
    then have names: "set names' = set names" by (rule mset_eq_setD)
    note ladder = ladder_order_free [OF assms names, of requested]
    from either find_unique [OF _ names, of "fuzzy_name (to_lowercase (tt_lower tt) requested)"]
    show "resolve_name tt names' requested = resolve_name tt names requested"
      by (auto simp: resolve_name_def ladder Let_def split: option.split)
  qed
qed

text \<open>A model that asks for \<open>exec\<close> gets \<open>exec_shell\<close> or \<open>exec_wait\<close>, as the hash seed has it.\<close>

definition plain_tables :: text_tables where
  "plain_tables =
     \<lparr>tt_lower = (\<lambda>s. s), tt_is_upper = (\<lambda>_. False), tt_json_text = (\<lambda>_. []), tt_regex = (\<lambda>_. Inl [])\<rparr>"

theorem resolution_order_iff_witness:
  "\<exists>names'. mset names' = mset [''exec_shell'', ''exec_wait''] \<and>
     resolve_name plain_tables names' ''exec'' \<noteq> resolve_name plain_tables [''exec_shell'', ''exec_wait''] ''exec''"
proof -
  let ?names = "[''exec_shell'', ''exec_wait'']"
  have lower: "to_lowercase (tt_lower plain_tables) s = to_ascii_lowercase s" if "is_ascii s" for s
    using that by (simp add: to_lowercase_def)
  have names: "\<forall>n \<in> set ?names. to_lowercase (tt_lower plain_tables) n = n"
    by (simp add: to_lowercase_def to_ascii_lowercase_def ascii_lower_char_def is_ascii_def plain_tables_def)
  have exec: "to_lowercase (tt_lower plain_tables) ''exec'' = ''exec''"
    by (simp add: to_lowercase_def to_ascii_lowercase_def ascii_lower_char_def is_ascii_def plain_tables_def)
  have "to_snake_case plain_tables ''exec'' = ''exec''"
    by (simp add: to_snake_case_def is_ascii_def ascii_upper_def char_width_def)
  then have "resolve_ladder plain_tables ?names ''exec'' = None"
    using names by (simp add: resolve_ladder_def exec strip_tool_suffix_def strip_suffix_def ends_with_def Let_def)
  moreover have "fuzzy_name ''exec'' ''exec_shell''" "fuzzy_name ''exec'' ''exec_wait''"
    by (simp_all add: fuzzy_name_def starts_with_def)
  ultimately have "\<not> (\<forall>names'. mset names' = mset ?names \<longrightarrow>
      resolve_name plain_tables names' ''exec'' = resolve_name plain_tables ?names ''exec'')"
    using resolution_order_iff [OF names, of "''exec''"] exec by simp
  then show ?thesis by blast
qed

section \<open>What is offered\<close>

text \<open>What changes the active tools in the course of a turn: a call of a deferred tool, and a search.\<close>

datatype offer_op = Requests string | Searches string json

fun offer_step :: "text_tables \<Rightarrow> catalog_tool list \<Rightarrow> string set \<Rightarrow> offer_op \<Rightarrow> string set" where
  "offer_step tt catalog active (Requests name) = fst (maybe_activate_requested_deferred_tool name catalog active)"
| "offer_step tt catalog active (Searches name input) = fst (execute_tool_search tt name input catalog active)"

lemma offers_grow: "active \<subseteq> offer_step tt catalog active op"
  by (cases op) (auto simp: maybe_activate_requested_deferred_tool_def execute_tool_search_def
      split: option.splits prod.splits)

lemma all_offers_grow: "active \<subseteq> foldl (offer_step tt catalog) active ops"
proof (induction ops arbitrary: active)
  case (Cons op ops)
  from subset_trans [OF offers_grow [of active tt catalog op] Cons.IH] show ?case by simp
qed simp

lemma eager_active: "t \<in> set catalog \<Longrightarrow> \<not> deferred t \<Longrightarrow> ct_name t \<in> initial_active_tools catalog"
  by (auto simp: initial_active_tools_def Let_def)

lemma offered_split:
  assumes "initial_active_tools catalog \<subseteq> active"
  shows "active_tools_for_step catalog active False =
    filter (\<lambda>t. \<not> deferred t) catalog @ filter (\<lambda>t. deferred t \<and> ct_name t \<in> active) catalog"
proof -
  have "filter (\<lambda>t. \<not> deferred t \<and> ct_name t \<in> active) catalog = filter (\<lambda>t. \<not> deferred t) catalog"
    using assms eager_active by (auto intro!: filter_cong)
  then show ?thesis
    by (simp add: active_tools_for_step_def active_tool_list_from_catalog_def Let_def conj_commute)
qed

lemma filter_subseq: "(\<And>x. P x \<Longrightarrow> Q x) \<Longrightarrow> subseq (filter P xs) (filter Q xs)"
  by (induction xs) auto


end
