(* ===== verification/Network_Policy.thy ===== *)
theory Network_Policy
  imports Text_Ops
begin

text \<open>
  The per-domain policy for outbound calls
  (\<open>crates/runtime-adapters/src/network_policy.rs\<close>) and its gate
  (\<open>crates/runtime-adapters/src/tools/network_gate.rs\<close>, without the IP part): matching of hosts, the
  session cache, the decider with its audit lines. The lines are kept as entries; the time stamp, the
  file and the lock around the cache are left out. \<open>host_of\<close> stands for the host of a URL as the URL
  library parses it.
\<close>

section \<open>Hosts and rules\<close>

datatype net_decision = Allow | Deny | Prompt

definition parse_decision :: "string \<Rightarrow> net_decision" where
  "parse_decision v =
     (let s = to_ascii_lowercase (trim v) in
      if s = ''allow'' then Allow
      else if s = ''deny'' \<or> s = ''block'' then Deny
      else Prompt)"

definition trim_end_dots :: "string \<Rightarrow> string" where
  "trim_end_dots s = rev (dropWhile (\<lambda>c. c = CHR ''.'') (rev s))"

definition normalize_host :: "string \<Rightarrow> string" where
  "normalize_host host =
     (let trimmed = to_ascii_lowercase (trim_end_dots (trim host)) in
      case strip_prefix trimmed ''*.'' of
        Some rest \<Rightarrow> CHR ''.'' # rest
      | None \<Rightarrow> trimmed)"

definition host_matches :: "string \<Rightarrow> string \<Rightarrow> bool" where
  "host_matches entry normalized_host =
     (let entry_norm = normalize_host entry in
      case strip_prefix entry_norm ''.'' of
        Some base \<Rightarrow> base \<noteq> [] \<and> ends_with normalized_host (CHR ''.'' # base)
      | None \<Rightarrow> entry_norm = normalized_host)"

section \<open>The policy\<close>

record network_policy =
  np_default :: net_decision
  np_allow :: "string list"
  np_deny :: "string list"
  np_audit :: bool

definition default_network_policy :: network_policy where
  "default_network_policy = \<lparr>np_default = Prompt, np_allow = [], np_deny = [], np_audit = True\<rparr>"

definition decide_host :: "network_policy \<Rightarrow> string \<Rightarrow> net_decision" where
  "decide_host p host =
     (let normalized = normalize_host host in
      if normalized = [] then np_default p
      else if list_ex (\<lambda>entry. host_matches entry normalized) (np_deny p) then Deny
      else if list_ex (\<lambda>entry. host_matches entry normalized) (np_allow p) then Allow
      else np_default p)"

definition add_allow :: "network_policy \<Rightarrow> string \<Rightarrow> network_policy" where
  "add_allow p host =
     (let normalized = normalize_host host in
      if normalized = [] then p
      else if list_ex (\<lambda>existing. normalize_host existing = normalized) (np_allow p) then p
      else p\<lparr>np_allow := np_allow p @ [normalized]\<rparr>)"

section \<open>Session cache and audit log\<close>

record session_cache =
  sc_approved :: "string set"
  sc_denied :: "string set"

definition is_approved :: "session_cache \<Rightarrow> string \<Rightarrow> bool" where
  "is_approved c host \<longleftrightarrow> normalize_host host \<in> sc_approved c"

definition is_denied :: "session_cache \<Rightarrow> string \<Rightarrow> bool" where
  "is_denied c host \<longleftrightarrow> normalize_host host \<in> sc_denied c"

definition cache_approve :: "session_cache \<Rightarrow> string \<Rightarrow> session_cache" where
  "cache_approve c host =
     \<lparr>sc_approved = insert (normalize_host host) (sc_approved c),
      sc_denied = sc_denied c - {normalize_host host}\<rparr>"

definition cache_deny :: "session_cache \<Rightarrow> string \<Rightarrow> session_cache" where
  "cache_deny c host =
     \<lparr>sc_approved = sc_approved c - {normalize_host host},
      sc_denied = insert (normalize_host host) (sc_denied c)\<rparr>"

text \<open>An audit line: host, tool and label; white space in a field becomes an underscore.\<close>

lemma leading_white_shrinks: "leading_white s = Some w \<Longrightarrow> w \<noteq> [] \<and> s \<noteq> [] \<and> length w \<le> length s"
  by (auto simp: leading_white_def find_Some_iff starts_with_iff dest: white_seqs(1))
     (metis nth_mem white_seqs(1))+

function sanitize_field :: "string \<Rightarrow> string" where
  "sanitize_field s =
     (case leading_white s of
        Some w \<Rightarrow> CHR ''_'' # sanitize_field (drop (length w) s)
      | None \<Rightarrow> (case s of [] \<Rightarrow> [] | c # cs \<Rightarrow> c # sanitize_field cs))"
  by pat_completeness auto
termination
  by (relation "measure length") (auto dest: leading_white_shrinks)

declare sanitize_field.simps [simp del]

type_synonym audit_line = "string \<times> string \<times> string"

record decider =
  nd_policy :: network_policy
  nd_cache :: session_cache
  nd_auditor :: "audit_line list option"

definition new_decider :: "network_policy \<Rightarrow> audit_line list option \<Rightarrow> decider" where
  "new_decider p auditor =
     \<lparr>nd_policy = p, nd_cache = \<lparr>sc_approved = {}, sc_denied = {}\<rparr>, nd_auditor = auditor\<rparr>"

definition with_default_audit :: "network_policy \<Rightarrow> decider" where
  "with_default_audit p = new_decider p (if np_audit p then Some [] else None)"

definition audit_record :: "string \<Rightarrow> string \<Rightarrow> string \<Rightarrow> decider \<Rightarrow> decider" where
  "audit_record host tool label d =
     d\<lparr>nd_auditor := map_option (\<lambda>ls. ls @ [(sanitize_field host, sanitize_field tool, label)]) (nd_auditor d)\<rparr>"

definition evaluate :: "decider \<Rightarrow> string \<Rightarrow> string \<Rightarrow> decider \<times> net_decision" where
  "evaluate d host tool =
     (let normalized = normalize_host host in
      if normalized = [] then (d, np_default (nd_policy d))
      else if is_denied (nd_cache d) normalized then (audit_record normalized tool ''Deny'' d, Deny)
      else if is_approved (nd_cache d) normalized then (audit_record normalized tool ''Allow'' d, Allow)
      else case decide_host (nd_policy d) normalized of
        Allow \<Rightarrow> (audit_record normalized tool ''Allow'' d, Allow)
      | Deny \<Rightarrow> (audit_record normalized tool ''Deny'' d, Deny)
      | Prompt \<Rightarrow> (d, Prompt))"

definition approve_session :: "decider \<Rightarrow> string \<Rightarrow> string \<Rightarrow> decider" where
  "approve_session d host tool =
     audit_record host tool ''Prompt-Approved'' (d\<lparr>nd_cache := cache_approve (nd_cache d) host\<rparr>)"

definition deny_session :: "decider \<Rightarrow> string \<Rightarrow> string \<Rightarrow> decider" where
  "deny_session d host tool =
     audit_record host tool ''Prompt-Denied'' (d\<lparr>nd_cache := cache_deny (nd_cache d) host\<rparr>)"

definition approve_persistent :: "decider \<Rightarrow> string \<Rightarrow> string \<Rightarrow> decider" where
  "approve_persistent d host tool =
     audit_record host tool ''Prompt-Approved''
       (d\<lparr>nd_policy := add_allow (nd_policy d) host, nd_cache := cache_approve (nd_cache d) host\<rparr>)"

section \<open>The gate\<close>

datatype gate_error = Denied string string | PromptRequired string string

fun denial_message :: "gate_error \<Rightarrow> string" where
  "denial_message (Denied host tool) =
     ''network call to '' @ [CHR 0x27] @ host @ [CHR 0x27] @ '' blocked by network policy''"
| "denial_message (PromptRequired host tool) =
     ''network call to '' @ [CHR 0x27] @ host @ [CHR 0x27] @ '' requires approval; re-run after '' @
     [CHR 0x60] @ ''/network allow '' @ host @ [CHR 0x60] @ '' or set network.default = '' @
     [CHR 0x22] @ ''allow'' @ [CHR 0x22] @ '' in config''"

definition gate_of :: "net_decision \<Rightarrow> string \<Rightarrow> string \<Rightarrow> gate_error + unit" where
  "gate_of v host tool =
     (case v of Allow \<Rightarrow> Inr () | Deny \<Rightarrow> Inl (Denied host tool) | Prompt \<Rightarrow> Inl (PromptRequired host tool))"

definition check_host_policy ::
  "decider option \<Rightarrow> string \<Rightarrow> string \<Rightarrow> decider option \<times> (gate_error + unit)" where
  "check_host_policy dec tool host =
     (case dec of
        None \<Rightarrow> (None, Inr ())
      | Some d \<Rightarrow> (case evaluate d host tool of (d', v) \<Rightarrow> (Some d', gate_of v host tool)))"

definition host_from_url :: "(string \<Rightarrow> string option) \<Rightarrow> string \<Rightarrow> string option" where
  "host_from_url host_of url = map_option to_ascii_lowercase (host_of (trim url))"

definition check_url_policy ::
  "(string \<Rightarrow> string option) \<Rightarrow> decider option \<Rightarrow> string \<Rightarrow> string \<Rightarrow>
   decider option \<times> (gate_error + string option)" where
  "check_url_policy host_of dec tool url =
     (case host_from_url host_of url of
        None \<Rightarrow> (dec, Inr None)
      | Some host \<Rightarrow>
          (case check_host_policy dec tool host of
             (dec', Inl e) \<Rightarrow> (dec', Inl e)
           | (dec', Inr _) \<Rightarrow> (dec', Inr (Some host))))"

definition check_host_with_policy ::
  "network_policy \<Rightarrow> string \<Rightarrow> string \<Rightarrow> gate_error + unit" where
  "check_host_with_policy p tool host = gate_of (decide_host p host) host tool"

definition is_http_url :: "string \<Rightarrow> bool" where
  "is_http_url url \<longleftrightarrow> starts_with (trim url) ''http://'' \<or> starts_with (trim url) ''https://''"

section \<open>Rules by labels\<close>

lemma join_append: "ws \<noteq> [] \<Longrightarrow> vs \<noteq> [] \<Longrightarrow> join sep (ws @ vs) = join sep ws @ sep @ join sep vs"
  by (induction ws) (auto simp: join_Cons)

lemma ends_with_iff: "ends_with s t \<longleftrightarrow> (\<exists>p. s = p @ t)"
  unfolding ends_with_def starts_with_iff by (metis rev_append rev_rev_ident)

lemma dotted_suffix:
  "ends_with h (CHR ''.'' # s) \<longleftrightarrow>
    (\<exists>ls. ls \<noteq> [] \<and> split_char (CHR ''.'') h = ls @ split_char (CHR ''.'') s)"
proof
  assume "ends_with h (CHR ''.'' # s)"
  then obtain p where "h = p @ CHR ''.'' # s" by (auto simp: ends_with_iff)
  then show "\<exists>ls. ls \<noteq> [] \<and> split_char (CHR ''.'') h = ls @ split_char (CHR ''.'') s"
    by (intro exI [of _ "split_char (CHR ''.'') p"]) (simp add: split_char_append_sep)
next
  assume "\<exists>ls. ls \<noteq> [] \<and> split_char (CHR ''.'') h = ls @ split_char (CHR ''.'') s"
  then obtain ls where ls: "ls \<noteq> []" "split_char (CHR ''.'') h = ls @ split_char (CHR ''.'') s" by blast
  have "h = join ''.'' (ls @ split_char (CHR ''.'') s)"
    using join_split [of "CHR ''.''" h] by (simp add: ls(2))
  also have "\<dots> = join ''.'' ls @ CHR ''.'' # s"
    using ls(1) by (simp add: join_append join_split)
  finally show "ends_with h (CHR ''.'' # s)" by (auto simp: ends_with_iff)
qed

text \<open>
  What a rule of the policy matches. An entry that, written as the code compares it, begins with a
  dot matches exactly the hosts that have its labels at their end and at least one label before them,
  so never its own apex and never a host that merely ends in the same letters; a lone dot matches
  nothing. Any other entry matches exactly the host it spells.
\<close>

theorem rule_matches_by_labels:
  "host_matches entry host \<longleftrightarrow>
    (case normalize_host entry of
       CHR ''.'' # base \<Rightarrow>
         base \<noteq> [] \<and> (\<exists>ls. ls \<noteq> [] \<and> split_char (CHR ''.'') host = ls @ split_char (CHR ''.'') base)
     | spelled \<Rightarrow> spelled = host)"
  by (auto simp: host_matches_def strip_prefix_def starts_with_def dotted_suffix Let_def
      split: list.splits char.splits bool.splits)

section \<open>Normal forms\<close>

lemma white_free_part: "white_free (a @ b @ c) \<Longrightarrow> white_free b"
  by (auto simp: white_free_def str_contains_iff) (metis append.assoc)

lemma trim_white_free: "white_free s \<Longrightarrow> trim s = s"
proof (rule trim_fixed; unfold list_all_iff; intro ballI notI)
  fix w assume free: "white_free s" and w: "w \<in> set white_space_seqs"
  { assume "starts_with s w"
    then have "str_contains s w" by (auto simp: starts_with_iff str_contains_iff)
    with free w show False by (simp add: white_free_def) }
  { assume "starts_with (rev s) (rev w)"
    then obtain t where "rev s = rev w @ t" by (auto simp: starts_with_iff)
    then have "s = rev t @ w" by (metis rev_append rev_rev_ident)
    then have "str_contains s w" by (auto simp: str_contains_iff) (metis append_Nil2)
    with free w show False by (simp add: white_free_def) }
qed

lemma trim_end_dots_split:
  "\<exists>d. s = trim_end_dots s @ d \<and> (trim_end_dots s = [] \<or> last (trim_end_dots s) \<noteq> CHR ''.'')"
proof -
  let ?P = "\<lambda>c. c = CHR ''.''"
  have "rev s = takeWhile ?P (rev s) @ dropWhile ?P (rev s)" by simp
  then have "s = trim_end_dots s @ rev (takeWhile ?P (rev s))"
    unfolding trim_end_dots_def by (metis rev_append rev_rev_ident)
  moreover have "dropWhile ?P (rev s) = [] \<or> hd (dropWhile ?P (rev s)) \<noteq> CHR ''.''"
    using hd_dropWhile by blast
  ultimately show ?thesis by (metis trim_end_dots_def last_rev rev_is_Nil_conv)
qed

lemma trim_end_dots_fixed: "s = [] \<or> last s \<noteq> CHR ''.'' \<Longrightarrow> trim_end_dots s = s"
  by (cases s rule: rev_cases) (auto simp: trim_end_dots_def)

lemma last_lower: "s \<noteq> [] \<Longrightarrow> last (to_ascii_lowercase s) = ascii_lower_char (last s)"
  by (simp add: to_ascii_lowercase_def last_map)

lemma dot_not_lowered: "ascii_lower_char c = CHR ''.'' \<longleftrightarrow> c = CHR ''.''"
proof
  assume a: "ascii_lower_char c = CHR ''.''"
  show "c = CHR ''.''"
  proof (rule ccontr)
    assume "c \<noteq> CHR ''.''"
    with a have u: "ascii_upper c" and e: "char_of ((of_char c :: nat) + 32) = CHR ''.''"
      by (auto simp: ascii_lower_char_def ascii_upper_def Let_def split: if_splits)
    from e have "of_char (char_of ((of_char c :: nat) + 32) :: char) = (46 :: nat)" by simp
    with u show False by (simp add: ascii_upper_def of_char_of)
  qed
qed (simp add: ascii_lower_char_def)

lemma normalize_shape:
  assumes "white_free h"
  shows "white_free (normalize_host h)"
    and "normalize_host h = [] \<or> last (normalize_host h) \<noteq> CHR ''.''"
    and "\<not> starts_with (normalize_host h) ''*.''"
    and "to_ascii_lowercase (normalize_host h) = normalize_host h"
proof -
  define t where "t = to_ascii_lowercase (trim_end_dots h)"
  obtain d where d: "h = [] @ trim_end_dots h @ d"
    "trim_end_dots h = [] \<or> last (trim_end_dots h) \<noteq> CHR ''.''"
    using trim_end_dots_split [of h] by auto
  have "white_free (trim_end_dots h)" using assms d(1) white_free_part by metis
  then have t: "white_free t" "t = [] \<or> last t \<noteq> CHR ''.''" "to_ascii_lowercase t = t"
    using d(2) by (auto simp: t_def white_free_lowercase last_lower dot_not_lowered)
  have n: "normalize_host h = (case strip_prefix t ''*.'' of Some r \<Rightarrow> CHR ''.'' # r | None \<Rightarrow> t)"
    by (simp add: normalize_host_def trim_white_free [OF assms] t_def [symmetric] Let_def)
  have "white_free (normalize_host h) \<and> (normalize_host h = [] \<or> last (normalize_host h) \<noteq> CHR ''.'') \<and>
    \<not> starts_with (normalize_host h) ''*.'' \<and> to_ascii_lowercase (normalize_host h) = normalize_host h"
  proof (cases "starts_with t ''*.''")
    case True
    then obtain r where r: "t = ''*'' @ (CHR ''.'' # r) @ []" by (auto simp: starts_with_iff)
    then have n: "normalize_host h = CHR ''.'' # r" by (simp add: n strip_prefix_def starts_with_def)
    have "white_free (CHR ''.'' # r)" using t(1) r white_free_part by metis
    moreover have "last (CHR ''.'' # r) \<noteq> CHR ''.''" using t(2) by (simp add: r)
    moreover have "to_ascii_lowercase (CHR ''.'' # r) = CHR ''.'' # r"
      using t(3) by (simp add: r to_ascii_lowercase_def)
    ultimately show ?thesis unfolding n by (simp add: starts_with_def)
  next
    case False
    with t n show ?thesis by (simp add: strip_prefix_def)
  qed
  then show "white_free (normalize_host h)" "normalize_host h = [] \<or> last (normalize_host h) \<noteq> CHR ''.''"
    "\<not> starts_with (normalize_host h) ''*.''" "to_ascii_lowercase (normalize_host h) = normalize_host h"
    by simp_all
qed

lemma normalize_idem:
  assumes "white_free h"
  shows "normalize_host (normalize_host h) = normalize_host h"
  using normalize_shape [OF assms]
  by (simp add: normalize_host_def [of "normalize_host h"] trim_white_free trim_end_dots_fixed
      strip_prefix_def)

section \<open>Sessions\<close>

text \<open>
  What happens to a decider: calls are evaluated; the user answers prompts. An approval, for the
  session or for good, answers a call that was evaluated to \<open>Prompt\<close>; a denial can come at any time.
\<close>

inductive session :: "decider \<Rightarrow> decider \<Rightarrow> bool" for d0 where
  start: "session d0 d0"
| evaluates: "session d0 d \<Longrightarrow> session d0 (fst (evaluate d h t))"
| approves: "session d0 d \<Longrightarrow> white_free h \<Longrightarrow> snd (evaluate d h t) = Prompt \<Longrightarrow>
    session d0 (approve_session d h t)"
| persists: "session d0 d \<Longrightarrow> white_free h \<Longrightarrow> snd (evaluate d h t) = Prompt \<Longrightarrow>
    session d0 (approve_persistent d h t)"
| denies: "session d0 d \<Longrightarrow> session d0 (deny_session d h t)"

lemma audit_record_fields [simp]:
  "nd_policy (audit_record h t l d) = nd_policy d" "nd_cache (audit_record h t l d) = nd_cache d"
  by (simp_all add: audit_record_def)

lemma evaluate_state [simp]:
  "nd_policy (fst (evaluate d h t)) = nd_policy d" "nd_cache (fst (evaluate d h t)) = nd_cache d"
  by (simp_all add: evaluate_def Let_def split: net_decision.split)

lemma evaluate_answer:
  assumes "white_free h"
  shows "snd (evaluate d h t) =
    (let n = normalize_host h in
     if n = [] then np_default (nd_policy d)
     else if n \<in> sc_denied (nd_cache d) then Deny
     else if n \<in> sc_approved (nd_cache d) then Allow
     else decide_host (nd_policy d) n)"
  using normalize_idem [OF assms]
  by (simp add: evaluate_def is_denied_def is_approved_def Let_def split: net_decision.split)

definition deny_listed :: "network_policy \<Rightarrow> string \<Rightarrow> bool" where
  "deny_listed p n \<longleftrightarrow> list_ex (\<lambda>entry. host_matches entry n) (np_deny p)"

lemma decide_normal:
  assumes "white_free h" and "normalize_host h \<noteq> []"
  shows "decide_host p (normalize_host h) =
    (if deny_listed p (normalize_host h) then Deny
     else if list_ex (\<lambda>entry. host_matches entry (normalize_host h)) (np_allow p) then Allow
     else np_default p)"
  using assms by (simp add: decide_host_def normalize_idem deny_listed_def Let_def)

lemma prompted_not_listed:
  assumes "snd (evaluate d h t) = Prompt" and "white_free h"
  shows "normalize_host h = [] \<or> \<not> deny_listed (nd_policy d) (normalize_host h)"
proof (rule ccontr)
  assume "\<not> ?thesis"
  then show False
    using assms(1) by (auto simp: evaluate_answer [OF assms(2)] decide_normal [OF assms(2)] Let_def split: if_splits)
qed

lemma add_allow_deny [simp]: "np_deny (add_allow p h) = np_deny p"
  by (simp add: add_allow_def Let_def)

lemma session_invariant:
  "session d0 d \<Longrightarrow> sc_approved (nd_cache d0) = {} \<Longrightarrow>
    np_deny (nd_policy d) = np_deny (nd_policy d0) \<and>
    (\<forall>n\<in>sc_approved (nd_cache d). n = [] \<or> \<not> deny_listed (nd_policy d0) n)"
proof (induction rule: session.induct)
  case (approves d h t)
  then show ?case
    using prompted_not_listed [of d h t]
    by (auto simp: approve_session_def cache_approve_def deny_listed_def)
next
  case (persists d h t)
  then show ?case
    using prompted_not_listed [of d h t]
    by (auto simp: approve_persistent_def cache_approve_def deny_listed_def)
next
  case (denies d h t)
  then show ?case by (auto simp: deny_session_def cache_deny_def)
qed simp_all

lemma listed_host_denied:
  assumes "session (new_decider p auditor) d" and "white_free h" and "normalize_host h \<noteq> []"
    and "deny_listed p (normalize_host h)"
  shows "snd (evaluate d h tool) = Deny"
proof -
  have inv: "np_deny (nd_policy d) = np_deny p" "\<forall>n\<in>sc_approved (nd_cache d). n = [] \<or> \<not> deny_listed p n"
    using session_invariant [OF assms(1)] by (simp_all add: new_decider_def)
  have "deny_listed (nd_policy d) (normalize_host h)" using assms(4) inv(1) by (simp add: deny_listed_def)
  then show ?thesis
    using assms(3,4) inv(2) by (auto simp: evaluate_answer [OF assms(2)] decide_normal [OF assms(2)] Let_def)
qed

text \<open>
  C26. The deny list always wins. In a session that starts from any policy, in which users approve only
  what they were prompted for (once or for good) and calls and denials come in any order, a host that
  an entry of the deny list matches is denied at every point, whatever the allow list says.
\<close>

theorem deny_list_always_wins:
  assumes "session (new_decider p auditor) d" and "white_free h" and "normalize_host h \<noteq> []"
    and "deny_listed p (normalize_host h)"
  shows "snd (evaluate d h tool) = Deny"
  using assms by (rule listed_host_denied)

text \<open>
  The reach of an answer to a prompt. After the user approves or denies a host for the session, calls
  to that host, however it is written, are allowed or denied, and the answer for every other host is
  what it was before.
\<close>

theorem session_answer_reach:
  assumes "white_free h" and "white_free h'" and "normalize_host h' \<noteq> []"
  shows "snd (evaluate (approve_session d h tool) h' tool') =
      (if normalize_host h' = normalize_host h then Allow else snd (evaluate d h' tool')) \<and>
    snd (evaluate (deny_session d h tool) h' tool') =
      (if normalize_host h' = normalize_host h then Deny else snd (evaluate d h' tool'))"
  using assms(3)
  by (auto simp: evaluate_answer [OF assms(2)] approve_session_def deny_session_def cache_approve_def
      cache_deny_def Let_def)

section \<open>A session\<close>

definition sample_policy :: network_policy where
  "sample_policy = \<lparr>np_default = Prompt, np_allow = [''x.evil.com''], np_deny = [''*.Evil.com''], np_audit = True\<rparr>"

lemma sample_hosts:
  "white_free ''ok.com''" "white_free ''x.evil.com''" "white_free ''*.Evil.com''" "white_free ''OK.com.''"
  by (simp_all add: white_free_def white_space_seqs_def starts_with_def char_of_def bit_0)

lemma sample_normal:
  "normalize_host ''ok.com'' = ''ok.com''" "normalize_host ''x.evil.com'' = ''x.evil.com''"
  "normalize_host ''*.Evil.com'' = ''.evil.com''" "normalize_host ''OK.com.'' = ''ok.com''"
  by (simp_all add: normalize_host_def trim_white_free sample_hosts trim_end_dots_def to_ascii_lowercase_def
      ascii_lower_char_def strip_prefix_def starts_with_def char_of_def bit_0 Let_def)

lemma sample_listed: "deny_listed sample_policy ''x.evil.com''" "\<not> deny_listed sample_policy ''ok.com''"
  by (simp_all add: deny_listed_def sample_policy_def host_matches_def sample_normal strip_prefix_def
      starts_with_def ends_with_def)

lemma sample_session:
  "session (with_default_audit sample_policy)
     (approve_persistent (with_default_audit sample_policy) ''ok.com'' ''fetch_url'')"
proof (rule session.persists [OF session.start sample_hosts(1)])
  have "\<not> list_ex (\<lambda>entry. host_matches entry ''ok.com'') (np_allow sample_policy)"
    by (simp add: sample_policy_def host_matches_def sample_normal strip_prefix_def starts_with_def)
  then show "snd (evaluate (with_default_audit sample_policy) ''ok.com'' ''fetch_url'') = Prompt"
    using decide_normal [OF sample_hosts(1), of sample_policy] sample_listed(2)
    by (simp add: evaluate_answer [OF sample_hosts(1)] sample_normal with_default_audit_def new_decider_def)
       (simp add: sample_policy_def)
qed

theorem deny_list_always_wins_witness:
  "snd (evaluate (approve_persistent (with_default_audit sample_policy) ''ok.com'' ''fetch_url'')
     ''x.evil.com'' ''web_run'') = Deny"
proof -
  have start: "with_default_audit sample_policy = new_decider sample_policy (Some [])"
    by (simp add: with_default_audit_def sample_policy_def)
  show ?thesis
    using deny_list_always_wins [OF sample_session [unfolded start] sample_hosts(2)] sample_listed(1)
    by (simp add: start sample_normal)
qed

theorem session_answer_reach_witness:
  "snd (evaluate (approve_session (with_default_audit sample_policy) ''ok.com'' ''fetch_url'')
     ''OK.com.'' ''web_run'') = Allow"
  using session_answer_reach [OF sample_hosts(1) sample_hosts(4)] by (simp add: sample_normal)

text \<open>All trailing dots of a host are dropped, not one.\<close>

lemma every_trailing_dot_dropped: "trim_end_dots ''ok.com..'' = ''ok.com''"
  by (simp add: trim_end_dots_def)

end
