(* ===== verification/Ssrf_Guard.thy ===== *)
theory Ssrf_Guard
  imports Network_Policy Patch_Files
begin

text \<open>
  Outbound fetches: the restricted addresses of \<open>crates/runtime-adapters/src/tools/network_gate.rs\<close>, the
  guarded fetch with its redirects of \<open>crates/runtime-server/src/tools/ssrf.rs\<close> and the tool
  \<open>fetch_url\<close> of \<open>tools/fetch_url.rs\<close>.

  \<open>fetch_env\<close> holds what is asked of other code: the URL library (host, join, errors), the parser and
  printer of addresses, the resolver, the HTTP client, cancellation, and the conversion of a body to
  text. The answers of the resolver, the client and the token depend on the number of the hop, so
  they may change between hops. Time-outs and headers are left out.
\<close>

section \<open>Restricted addresses\<close>

datatype ip_addr = V4 "32 word" | V6 "128 word"

text \<open>\<open>octets\<close> and \<open>segments\<close> of the standard library, and its predicates, as documented there.\<close>

definition octet4 :: "32 word \<Rightarrow> nat \<Rightarrow> u8" where
  "octet4 a i = ucast (drop_bit (8 * (3 - i)) a)"

definition octet6 :: "128 word \<Rightarrow> nat \<Rightarrow> u8" where
  "octet6 a i = ucast (drop_bit (8 * (15 - i)) a)"

definition segment6 :: "128 word \<Rightarrow> nat \<Rightarrow> 16 word" where
  "segment6 a i = ucast (drop_bit (16 * (7 - i)) a)"

definition octets4 :: "32 word \<Rightarrow> u8 list" where
  "octets4 a = map (octet4 a) [0..<4]"

definition octets6 :: "128 word \<Rightarrow> u8 list" where
  "octets6 a = map (octet6 a) [0..<16]"

definition v4_is_private :: "32 word \<Rightarrow> bool" where
  "v4_is_private a \<longleftrightarrow>
     octet4 a 0 = 10 \<or> octet4 a 0 = 172 \<and> 16 \<le> octet4 a 1 \<and> octet4 a 1 \<le> 31 \<or>
     octet4 a 0 = 192 \<and> octet4 a 1 = 168"

definition is_restricted_v4 :: "32 word \<Rightarrow> bool" where
  "is_restricted_v4 a \<longleftrightarrow>
     octet4 a 0 = 127 \<or>
     v4_is_private a \<or>
     octet4 a 0 = 169 \<and> octet4 a 1 = 254 \<or>
     224 \<le> octet4 a 0 \<and> octet4 a 0 \<le> 239 \<or>
     octets4 a = [255, 255, 255, 255] \<or>
     octets4 a = [0, 0, 0, 0] \<or>
     octet4 a 0 = 100 \<and> 64 \<le> octet4 a 1 \<and> octet4 a 1 \<le> 127 \<or>
     octets4 a = [169, 254, 169, 254] \<or>
     octet4 a 0 = 198 \<and> 18 \<le> octet4 a 1 \<and> octet4 a 1 \<le> 19 \<or>
     240 \<le> octet4 a 0"

text \<open>An address made of four octets, the low 32 bits of \<open>::a.b.c.d\<close>, and \<open>to_ipv4_mapped\<close>.\<close>

definition v4_of_tail :: "128 word \<Rightarrow> 32 word" where
  "v4_of_tail a = ucast a"

definition to_ipv4_mapped :: "128 word \<Rightarrow> 32 word option" where
  "to_ipv4_mapped a =
     (if take 12 (octets6 a) = replicate 10 0 @ [0xFF, 0xFF] then Some (v4_of_tail a) else None)"

definition is_restricted_v6 :: "128 word \<Rightarrow> bool" where
  "is_restricted_v6 a \<longleftrightarrow>
     (if a = 0 \<or> take 12 (octets6 a) = replicate 10 0 @ [0xFF, 0xFF] then True
      else case to_ipv4_mapped a of
        Some v4 \<Rightarrow> is_restricted_v4 v4
      | None \<Rightarrow>
          if a \<noteq> 1 \<and> take 12 (octets6 a) = replicate 12 0 then is_restricted_v4 (v4_of_tail a)
          else a = 1 \<or> octet6 a 0 = 0xFF \<or>
            0xFC00 \<le> segment6 a 0 \<and> segment6 a 0 \<le> 0xFDFF \<or>
            0xFE80 \<le> segment6 a 0 \<and> segment6 a 0 \<le> 0xFEBF)"

fun is_restricted_ip :: "ip_addr \<Rightarrow> bool" where
  "is_restricted_ip (V4 a) = is_restricted_v4 a"
| "is_restricted_ip (V6 a) = is_restricted_v6 a"

section \<open>The guarded fetch\<close>

datatype body_event = Chunk string | BodyError string | BodyCancelled

record http_response =
  hr_url :: string
  hr_status :: nat
  hr_location :: "string option"
  hr_content_type :: "string option"
  hr_body :: "body_event list"

record fetch_env =
  fe_host_of :: "string \<Rightarrow> string option"
  fe_parse_ip :: "string \<Rightarrow> ip_addr option"
  fe_show_ip :: "ip_addr \<Rightarrow> string"
  fe_lookup :: "nat \<Rightarrow> string \<Rightarrow> string + ip_addr list"
  fe_cancelled :: "nat \<Rightarrow> bool"
  fe_client_error :: "nat \<Rightarrow> string option"
  fe_send :: "nat \<Rightarrow> string \<Rightarrow> (string \<times> ip_addr) option \<Rightarrow> string option + http_response"
  fe_base_error :: "string \<Rightarrow> string option"
  fe_join :: "string \<Rightarrow> string \<Rightarrow> string + string"
  fe_utf8_lossy :: "string \<Rightarrow> string"
  fe_readable :: "string \<Rightarrow> string"

definition MAX_REDIRECTS :: nat where "MAX_REDIRECTS = 5"

definition parse_host_as_ip :: "fetch_env \<Rightarrow> string \<Rightarrow> ip_addr option" where
  "parse_host_as_ip env host =
     (let trimmed = trim host in
      fe_parse_ip env
        (case strip_prefix trimmed ''['' of
           None \<Rightarrow> trimmed
         | Some rest \<Rightarrow> if rest \<noteq> [] \<and> last rest = CHR '']'' then butlast rest else trimmed))"

definition ensure_not_cancelled :: "bool \<Rightarrow> tool_error + unit" where
  "ensure_not_cancelled cancelled =
     (if cancelled then Inl (ExecutionFailed ''request canceled'') else Inr ())"

fun resolved_address :: "fetch_env \<Rightarrow> string \<Rightarrow> ip_addr option \<Rightarrow> ip_addr list \<Rightarrow> tool_error + (string \<times> ip_addr)" where
  "resolved_address env host first_valid [] =
     (case first_valid of
        Some ip \<Rightarrow> Inr (host, ip)
      | None \<Rightarrow> Inl (ExecutionFailed (''could not resolve host '' @ quoted host @ '' (no addresses)'')))"
| "resolved_address env host first_valid (ip # ips) =
     (if is_restricted_ip ip then
        Inl (PermissionDenied (''resolved IP '' @ fe_show_ip env ip @
          '' is a restricted address (private/loopback/link-local)''))
      else resolved_address env host (case first_valid of None \<Rightarrow> Some ip | Some v \<Rightarrow> Some v) ips)"

definition validate_url_ssrf ::
  "fetch_env \<Rightarrow> nat \<Rightarrow> decider option \<Rightarrow> string \<Rightarrow> string \<Rightarrow>
   decider option \<times> (tool_error + (string \<times> ip_addr) option)" where
  "validate_url_ssrf env n dec tool url =
     (case check_url_policy (fe_host_of env) dec tool url of
        (dec', Inl e) \<Rightarrow> (dec', Inl (PermissionDenied (denial_message e)))
      | (dec', Inr None) \<Rightarrow> (dec', Inr None)
      | (dec', Inr (Some host)) \<Rightarrow>
          (dec',
           if host = ''localhost'' \<or> host = ''localhost.localdomain'' then
             Inl (PermissionDenied ''requests to localhost are not allowed'')
           else case parse_host_as_ip env host of
             Some ip \<Rightarrow>
               if is_restricted_ip ip then
                 Inl (PermissionDenied (''IP '' @ fe_show_ip env ip @
                   '' is a restricted address (private/loopback/link-local)''))
               else Inr None
           | None \<Rightarrow>
               (case fe_lookup env n host of
                  Inl e \<Rightarrow> Inl (ExecutionFailed (''DNS resolution failed for '' @ quoted host @ '': '' @ e))
                | Inr ips \<Rightarrow> map_sum id Some (resolved_address env host None ips))))"

definition is_redirection :: "nat \<Rightarrow> bool" where
  "is_redirection status \<longleftrightarrow> 300 \<le> status \<and> status < 400"

text \<open>The next URL of a redirect.\<close>

definition redirect_target :: "fetch_env \<Rightarrow> string \<Rightarrow> string \<Rightarrow> tool_error + string" where
  "redirect_target env current location =
     (case fe_base_error env current of
        Some e \<Rightarrow> Inl (ExecutionFailed (''invalid current URL '' @ quoted current @ '': '' @ e))
      | None \<Rightarrow>
          (case fe_join env current location of
             Inl e \<Rightarrow> Inl (ExecutionFailed (''invalid redirect location '' @ quoted location @ '': '' @ e))
           | Inr nxt \<Rightarrow>
               if \<not> is_http_url nxt
               then Inl (PermissionDenied (''redirect to non-http(s) scheme blocked: '' @ nxt))
               else Inr nxt))"

text \<open>
  The loop, at most \<open>k\<close> more hops from hop \<open>n\<close>: the decider, the requests sent (hop, URL, pinned
  address) and the result.
\<close>

type_synonym request = "nat \<times> string \<times> (string \<times> ip_addr) option"

fun fetch_hops ::
  "fetch_env \<Rightarrow> string \<Rightarrow> nat \<Rightarrow> nat \<Rightarrow> decider option \<Rightarrow> string \<Rightarrow>
   decider option \<times> request list \<times> (tool_error + http_response)" where
  "fetch_hops env tool 0 n dec url =
     (dec, [], Inl (ExecutionFailed (''too many redirects (>'' @ show_nat MAX_REDIRECTS @ '')'')))"
| "fetch_hops env tool (Suc k) n dec url =
     (case ensure_not_cancelled (fe_cancelled env n) of
        Inl e \<Rightarrow> (dec, [], Inl e)
      | Inr _ \<Rightarrow>
          (case validate_url_ssrf env n dec tool url of
             (dec', Inl e) \<Rightarrow> (dec', [], Inl e)
           | (dec', Inr pin) \<Rightarrow>
               (case fe_client_error env n of
                  Some e \<Rightarrow> (dec', [], Inl (ExecutionFailed (''failed to build HTTP client: '' @ e)))
                | None \<Rightarrow>
                    (case fe_send env n url pin of
                       Inl None \<Rightarrow> (dec', [(n, url, pin)], Inl (ExecutionFailed ''request canceled''))
                     | Inl (Some e) \<Rightarrow>
                         (dec', [(n, url, pin)], Inl (ExecutionFailed (''request failed: '' @ e)))
                     | Inr resp \<Rightarrow>
                         (case (if is_redirection (hr_status resp) then hr_location resp else None) of
                            None \<Rightarrow> (dec', [(n, url, pin)], Inr resp)
                          | Some location \<Rightarrow>
                              (case redirect_target env url location of
                                 Inl e \<Rightarrow> (dec', [(n, url, pin)], Inl e)
                               | Inr nxt \<Rightarrow>
                                   (case fetch_hops env tool k (n + 1) dec' nxt of
                                      (dec'', reqs, r) \<Rightarrow> (dec'', (n, url, pin) # reqs, r))))))))"

definition fetch_with_ssrf_guard ::
  "fetch_env \<Rightarrow> decider option \<Rightarrow> string \<Rightarrow> string \<Rightarrow>
   decider option \<times> request list \<times> (tool_error + http_response)" where
  "fetch_with_ssrf_guard env dec tool url = fetch_hops env tool (MAX_REDIRECTS + 1) 0 dec url"

section \<open>The tool \<open>fetch_url\<close>\<close>

text \<open>The body, chunk by chunk up to a cap, and whether the server had more.\<close>

fun read_body_capped :: "nat \<Rightarrow> string \<Rightarrow> body_event list \<Rightarrow> tool_error + (string \<times> bool)" where
  "read_body_capped max_bytes buf [] = Inr (buf, False)"
| "read_body_capped max_bytes buf (BodyCancelled # es) = Inl (ExecutionFailed ''request canceled'')"
| "read_body_capped max_bytes buf (BodyError e # es) =
     Inl (ExecutionFailed (''failed to read body: '' @ e))"
| "read_body_capped max_bytes buf (Chunk c # es) =
     (let remaining = max_bytes - length buf in
      if length c > remaining then Inr (buf @ take remaining c, True)
      else read_body_capped max_bytes (buf @ c) es)"

datatype fetch_format = TextFormat | MarkdownFormat | RawFormat

definition parse_format :: "string option \<Rightarrow> tool_error + fetch_format" where
  "parse_format v =
     (let s = to_ascii_lowercase (trim (case v of Some s \<Rightarrow> s | None \<Rightarrow> ''markdown'')) in
      if s \<in> {''text'', ''txt'', ''plain''} then Inr TextFormat
      else if s \<in> {''markdown'', ''md''} then Inr MarkdownFormat
      else if s \<in> {''raw'', ''html'', ''bytes''} then Inr RawFormat
      else Inl (InvalidInput (''unknown format '' @ quoted s @ '' (allowed: text, markdown, raw)'')))"

definition DEFAULT_MAX_BYTES :: nat where "DEFAULT_MAX_BYTES = 1000000"
definition HARD_MAX_BYTES :: nat where "HARD_MAX_BYTES = 10 * 1024 * 1024"

datatype uncertainty_kind = Truncated | NotFound | Partial | Certain

record fetch_response =
  fr_url :: string
  fr_status :: nat
  fr_content_type :: string
  fr_content :: string
  fr_truncated :: bool

definition is_success_status :: "nat \<Rightarrow> bool" where
  "is_success_status status \<longleftrightarrow> 200 \<le> status \<and> status < 300"

definition fetch_uncertainty :: "fetch_response \<Rightarrow> uncertainty_kind" where
  "fetch_uncertainty r =
     (if fr_truncated r then Truncated
      else if trim (fr_content r) = [] then NotFound
      else if \<not> is_success_status (fr_status r) then Partial
      else Certain)"

definition response_of ::
  "fetch_env \<Rightarrow> fetch_format \<Rightarrow> http_response \<Rightarrow> string \<times> bool \<Rightarrow> fetch_response" where
  "response_of env fmt resp body =
     (let content_type = (case hr_content_type resp of Some t \<Rightarrow> t | None \<Rightarrow> ''application/octet-stream'');
          body_text = fe_utf8_lossy env (fst body);
          processed = (if fmt \<noteq> RawFormat \<and>
              (str_contains content_type ''text/html'' \<or> str_contains body_text ''<html'')
            then fe_readable env body_text else body_text)
      in \<lparr>fr_url = hr_url resp, fr_status = hr_status resp, fr_content_type = content_type,
          fr_content = processed, fr_truncated = snd body\<rparr>)"

text \<open>The call: the decider, the requests, and the response with its success flag and uncertainty.\<close>

definition execute_fetch_url ::
  "fetch_env \<Rightarrow> decider option \<Rightarrow> json \<Rightarrow>
   decider option \<times> request list \<times> (tool_error + (fetch_response \<times> bool \<times> uncertainty_kind))" where
  "execute_fetch_url env dec input =
     (case str_field input ''url'' of
        None \<Rightarrow> (dec, [], Inl (InvalidInput (quoted ''url'' @ '' is required'')))
      | Some raw \<Rightarrow>
          let url = trim raw in
          if url = [] then (dec, [], Inl (InvalidInput (quoted ''url'' @ '' cannot be empty'')))
          else if \<not> is_http_url url then
            (dec, [], Inl (InvalidInput ''only http:// and https:// URLs are supported''))
          else case parse_format (str_field input ''format'') of
            Inl e \<Rightarrow> (dec, [], Inl e)
          | Inr fmt \<Rightarrow>
              let max_bytes = min (optional_u64 input ''max_bytes'' DEFAULT_MAX_BYTES) HARD_MAX_BYTES in
              (case fetch_with_ssrf_guard env dec ''fetch_url'' url of
                 (dec', reqs, Inl e) \<Rightarrow> (dec', reqs, Inl e)
               | (dec', reqs, Inr resp) \<Rightarrow>
                   (case read_body_capped max_bytes [] (hr_body resp) of
                      Inl e \<Rightarrow> (dec', reqs, Inl e)
                    | Inr body \<Rightarrow>
                        let r = response_of env fmt resp body in
                        (dec', reqs, Inr (r, is_success_status (fr_status r), fetch_uncertainty r)))))"

section \<open>The restricted blocks\<close>

text \<open>An address block in CIDR form: the length of its prefix and an address of it.\<close>

definition in_block :: "'a::len word \<Rightarrow> nat \<times> 'a word \<Rightarrow> bool" where
  "in_block a b \<longleftrightarrow> drop_bit (LENGTH('a) - fst b) a = drop_bit (LENGTH('a) - fst b) (snd b)"

definition v4_blocks :: "(nat \<times> 32 word) list" where
  "v4_blocks =
     [(32, 0x00000000), (8, 0x0A000000), (10, 0x64400000), (8, 0x7F000000), (16, 0xA9FE0000),
      (12, 0xAC100000), (16, 0xC0A80000), (15, 0xC6120000), (4, 0xE0000000), (4, 0xF0000000)]"

definition v6_blocks :: "(nat \<times> 128 word) list" where
  "v6_blocks =
     [(128, 0), (128, 1), (96, 0xFFFF00000000), (8, push_bit 120 0xFF), (7, push_bit 120 0xFC),
      (10, push_bit 112 0xFE80)]"

lemma unat_octet4: "unat (octet4 a i) = unat a div 2 ^ (8 * (3 - i)) mod 256"
  unfolding octet4_def unsigned_ucast_eq unat_drop_bit_eq by (simp add: drop_bit_eq_div take_bit_eq_mod)

lemma in_block_nat:
  "in_block a (l, c) \<longleftrightarrow>
    unat a div 2 ^ (LENGTH('a) - l) = unat c div 2 ^ (LENGTH('a) - l)" for a :: "'a::len word"
  unfolding in_block_def word_unat_eq_iff unat_drop_bit_eq fst_conv snd_conv by (simp add: drop_bit_eq_div)

lemma bit_octet4: "j < 32 \<Longrightarrow> bit (octet4 a (3 - j div 8)) (j mod 8) = bit a j"
proof -
  assume "j < 32"
  then have "8 * (3 - (3 - j div 8)) + j mod 8 = j" by simp
  then show ?thesis by (simp add: octet4_def bit_simps)
qed

lemma octets4_inject: "octets4 a = octets4 b \<longleftrightarrow> a = b"
proof
  assume "octets4 a = octets4 b"
  then have o: "octet4 a i = octet4 b i" if "i < 4" for i
    using that by (simp add: octets4_def)
  show "a = b"
  proof (rule bit_word_eqI)
    fix j assume "j < LENGTH(32)"
    then show "bit a j = bit b j" using bit_octet4 [of j a] bit_octet4 [of j b] o [of "3 - j div 8"] by simp
  qed
qed simp

lemma octets4_const:
  "octets4 a = [255, 255, 255, 255] \<longleftrightarrow> a = - 1" "octets4 a = [0, 0, 0, 0] \<longleftrightarrow> a = 0"
  "octets4 a = [169, 254, 169, 254] \<longleftrightarrow> a = 0xA9FEA9FE"
proof -
  have "octets4 (- 1) = [255, 255, 255, 255]" "octets4 0 = [0, 0, 0, 0]"
    "octets4 0xA9FEA9FE = [169, 254, 169, 254]"
    by code_simp+
  then show "octets4 a = [255, 255, 255, 255] \<longleftrightarrow> a = - 1" "octets4 a = [0, 0, 0, 0] \<longleftrightarrow> a = 0"
    "octets4 a = [169, 254, 169, 254] \<longleftrightarrow> a = 0xA9FEA9FE"
    by (metis octets4_inject)+
qed

lemma v4_restricted_octets:
  assumes "unat (octet4 a 0) = p" and "unat (octet4 a 1) = q"
  shows "is_restricted_v4 a \<longleftrightarrow>
      p = 127 \<or> p = 10 \<or> p = 172 \<and> 16 \<le> q \<and> q \<le> 31 \<or> p = 192 \<and> q = 168 \<or> p = 169 \<and> q = 254 \<or>
      224 \<le> p \<or> a = 0 \<or> p = 100 \<and> 64 \<le> q \<and> q \<le> 127 \<or> p = 198 \<and> 18 \<le> q \<and> q \<le> 19"
proof -
  have eq: "octet4 a 0 = w \<longleftrightarrow> p = unat w" "octet4 a 1 = w \<longleftrightarrow> q = unat w"
    "w \<le> octet4 a 0 \<longleftrightarrow> unat w \<le> p" "octet4 a 0 \<le> w \<longleftrightarrow> p \<le> unat w"
    "w \<le> octet4 a 1 \<longleftrightarrow> unat w \<le> q" "octet4 a 1 \<le> w \<longleftrightarrow> q \<le> unat w" for w
    using assms by (auto simp: word_unat_eq_iff word_le_nat_alt)
  have top: "a = - 1 \<Longrightarrow> 224 \<le> p" "a = 0xA9FEA9FE \<Longrightarrow> p = 169 \<and> q = 254"
    using assms by (auto simp: unat_octet4)
  have num: "unat (127 :: u8) = 127" "unat (10 :: u8) = 10" "unat (172 :: u8) = 172" "unat (16 :: u8) = 16"
    "unat (31 :: u8) = 31" "unat (192 :: u8) = 192" "unat (168 :: u8) = 168" "unat (169 :: u8) = 169"
    "unat (254 :: u8) = 254" "unat (224 :: u8) = 224" "unat (239 :: u8) = 239" "unat (100 :: u8) = 100"
    "unat (64 :: u8) = 64" "unat (198 :: u8) = 198" "unat (18 :: u8) = 18" "unat (19 :: u8) = 19"
    "unat (240 :: u8) = 240"
    by simp_all
  have "p \<le> 239 \<or> 240 \<le> p" "240 \<le> p \<Longrightarrow> 224 \<le> p" by linarith+
  then show ?thesis
    unfolding is_restricted_v4_def v4_is_private_def octets4_const eq num
    using top by blast
qed

lemma div_is: "0 < k \<Longrightarrow> m div k = c \<longleftrightarrow> c * k \<le> m \<and> m < (c + 1) * k" for m :: nat
  by (metis div_less_iff_less_mult less_eq_div_iff_mult_less_eq less_Suc_eq_le nle_le Suc_eq_plus1)

lemma block_octets:
  fixes p q :: nat
  assumes "m = 256 * p + q" and "q < 256" and "p < 256"
  shows "p = 172 \<and> 16 \<le> q \<and> q \<le> 31 \<longleftrightarrow> m div 16 = 2753"
    "p = 192 \<and> q = 168 \<longleftrightarrow> m = 49320" "p = 169 \<and> q = 254 \<longleftrightarrow> m = 43518"
    "224 \<le> p \<longleftrightarrow> m div 4096 = 14 \<or> m div 4096 = 15"
    "p = 100 \<and> 64 \<le> q \<and> q \<le> 127 \<longleftrightarrow> m div 64 = 401"
    "p = 198 \<and> 18 \<le> q \<and> q \<le> 19 \<longleftrightarrow> m div 2 = 25353"
proof -
  show "p = 172 \<and> 16 \<le> q \<and> q \<le> 31 \<longleftrightarrow> m div 16 = 2753"
    using assms by (cases "p = 172") (auto simp: div_is)
  show "p = 192 \<and> q = 168 \<longleftrightarrow> m = 49320"
    using assms by (cases "p = 192") auto
  show "p = 169 \<and> q = 254 \<longleftrightarrow> m = 43518"
    using assms by (cases "p = 169") auto
  show "224 \<le> p \<longleftrightarrow> m div 4096 = 14 \<or> m div 4096 = 15"
    using assms by (auto simp: div_is)
  show "p = 100 \<and> 64 \<le> q \<and> q \<le> 127 \<longleftrightarrow> m div 64 = 401"
    using assms by (cases "p = 100") (auto simp: div_is)
  show "p = 198 \<and> 18 \<le> q \<and> q \<le> 19 \<longleftrightarrow> m div 2 = 25353"
    using assms by (cases "p = 198") (auto simp: div_is)
qed

lemma v4_restricted_iff: "is_restricted_v4 a \<longleftrightarrow> list_ex (in_block a) v4_blocks"
proof -
  define m where "m = unat a div 2 ^ 16"
  have n: "unat a < 2 ^ 32" using unsigned_less [of a] by simp
  have m: "m < 65536" using n by (simp add: m_def)
  have octets: "unat (octet4 a 0) = m div 256" "unat (octet4 a 1) = m mod 256"
    using m by (simp_all add: unat_octet4 m_def flip: div_mult2_eq)
  have high: "unat a div 2 ^ 24 = m div 256" "unat a div 2 ^ 22 = m div 64" "unat a div 2 ^ 20 = m div 16"
    "unat a div 2 ^ 17 = m div 2" "unat a div 2 ^ 28 = m div 4096"
    "unat a div 2 ^ 16 = m"
    by (simp_all add: m_def flip: div_mult2_eq)
  have "m = 256 * (m div 256) + m mod 256" "m mod 256 < 256" "m div 256 < 256" using m by simp_all
  note split = block_octets [OF this]
  have len: "LENGTH(32) - 32 = 0" "LENGTH(32) - 8 = 24" "LENGTH(32) - 10 = 22" "LENGTH(32) - 16 = 16"
    "LENGTH(32) - 12 = 20" "LENGTH(32) - 15 = 17" "LENGTH(32) - 4 = 28"
    by simp_all
  have zero: "unat a div 2 ^ 0 = unat (0 :: 32 word) div 2 ^ 0 \<longleftrightarrow> a = 0" by (simp add: unat_eq_zero)
  have block: "in_block a (32, 0) \<longleftrightarrow> a = 0" "in_block a (8, c) \<longleftrightarrow> m div 256 = unat c div 2 ^ 24"
    "in_block a (10, c) \<longleftrightarrow> m div 64 = unat c div 2 ^ 22" "in_block a (16, c) \<longleftrightarrow> m = unat c div 2 ^ 16"
    "in_block a (12, c) \<longleftrightarrow> m div 16 = unat c div 2 ^ 20" "in_block a (15, c) \<longleftrightarrow> m div 2 = unat c div 2 ^ 17"
    "in_block a (4, c) \<longleftrightarrow> m div 4096 = unat c div 2 ^ 28" for c
    unfolding in_block_nat len high zero by (rule refl)+
  have nets: "unat (0x0A000000 :: 32 word) div 2 ^ 24 = 10" "unat (0x64400000 :: 32 word) div 2 ^ 22 = 401"
    "unat (0x7F000000 :: 32 word) div 2 ^ 24 = 127" "unat (0xA9FE0000 :: 32 word) div 2 ^ 16 = 43518"
    "unat (0xAC100000 :: 32 word) div 2 ^ 20 = 2753" "unat (0xC0A80000 :: 32 word) div 2 ^ 16 = 49320"
    "unat (0xC6120000 :: 32 word) div 2 ^ 17 = 25353" "unat (0xE0000000 :: 32 word) div 2 ^ 28 = 14"
    "unat (0xF0000000 :: 32 word) div 2 ^ 28 = 15"
    by simp_all
  have blocks: "list_ex (in_block a) v4_blocks \<longleftrightarrow>
      a = 0 \<or> m div 256 = 10 \<or> m div 64 = 401 \<or> m div 256 = 127 \<or> m = 43518 \<or>
      m div 16 = 2753 \<or> m = 49320 \<or> m div 2 = 25353 \<or> m div 4096 = 14 \<or> m div 4096 = 15"
    unfolding v4_blocks_def list_ex_Cons_iff list_ex_Nil_iff block nets by (simp only: simp_thms)
  show ?thesis
    unfolding v4_restricted_octets [OF octets] split blocks by (simp only: disj_assoc disj_comms)
qed

lemma bit_octet6: "j < 128 \<Longrightarrow> bit (octet6 a (15 - j div 8)) (j mod 8) = bit a j"
proof -
  assume "j < 128"
  then have "8 * (15 - (15 - j div 8)) + j mod 8 = j" by simp
  then show ?thesis by (simp add: octet6_def bit_simps)
qed

text \<open>The first twelve octets are the address without its last 32 bits.\<close>

lemma leading_octets: "take 12 (octets6 a) = take 12 (octets6 b) \<longleftrightarrow> drop_bit 32 a = drop_bit 32 b"
proof
  assume "take 12 (octets6 a) = take 12 (octets6 b)"
  then have o: "octet6 a i = octet6 b i" if "i < 12" for i
    using that by (simp add: octets6_def take_map)
  show "drop_bit 32 a = drop_bit 32 b"
  proof (rule bit_word_eqI)
    fix j assume "j < LENGTH(128)"
    have "bit a (32 + j) = bit b (32 + j)"
    proof (cases "32 + j < 128")
      case True
      then have "15 - (32 + j) div 8 < 12" by simp
      from o [OF this] show ?thesis
        using True bit_octet6 [of "32 + j" a] bit_octet6 [of "32 + j" b] by simp
    next
      case False
      then show ?thesis by (auto dest: bit_imp_le_length)
    qed
    then show "bit (drop_bit 32 a) j = bit (drop_bit 32 b) j" by (simp add: bit_simps)
  qed
next
  assume d: "drop_bit 32 a = drop_bit 32 b"
  have "octet6 a i = octet6 b i" if "i < 12" for i
  proof -
    have "drop_bit (8 * (15 - i)) c = drop_bit (8 * (15 - i) - 32) (drop_bit 32 c)" for c :: "128 word"
      using that by (simp add: drop_bit_drop_bit)
    from this [of a] this [of b] show ?thesis unfolding octet6_def d by metis
  qed
  then show "take 12 (octets6 a) = take 12 (octets6 b)" by (simp add: octets6_def take_map)
qed

lemma leading_octets_const:
  "take 12 (octets6 a) = replicate 10 0 @ [0xFF, 0xFF] \<longleftrightarrow> in_block a (96, 0xFFFF00000000)"
  "take 12 (octets6 a) = replicate 12 0 \<longleftrightarrow> drop_bit 32 a = 0"
proof -
  have "take 12 (octets6 0xFFFF00000000) = replicate 10 0 @ [0xFF, 0xFF]"
    "take 12 (octets6 0) = replicate 12 0" by code_simp+
  with leading_octets [of a "0xFFFF00000000"] leading_octets [of a 0] show
    "take 12 (octets6 a) = replicate 10 0 @ [0xFF, 0xFF] \<longleftrightarrow> in_block a (96, 0xFFFF00000000)"
    "take 12 (octets6 a) = replicate 12 0 \<longleftrightarrow> drop_bit 32 a = 0"
    by (simp_all add: in_block_def)
qed

lemma segment_blocks:
  "octet6 a 0 = 0xFF \<longleftrightarrow> in_block a (8, push_bit 120 0xFF)"
  "0xFC00 \<le> segment6 a 0 \<and> segment6 a 0 \<le> 0xFDFF \<longleftrightarrow> in_block a (7, push_bit 120 0xFC)"
  "0xFE80 \<le> segment6 a 0 \<and> segment6 a 0 \<le> 0xFEBF \<longleftrightarrow> in_block a (10, push_bit 112 0xFE80)"
proof -
  define s where "s = unat a div 2 ^ 112"
  have "unat a < 2 ^ 128" using unsigned_less [of a] by simp
  then have "s < 65536" by (simp add: s_def)
  then have seg: "unat (segment6 a 0) = s"
    unfolding segment6_def unsigned_ucast_eq unat_drop_bit_eq
    by (simp add: s_def drop_bit_eq_div take_bit_eq_mod)
  have o: "unat (octet6 a 0) = s div 256"
    unfolding octet6_def unsigned_ucast_eq unat_drop_bit_eq
    using \<open>s < 65536\<close> by (simp add: s_def drop_bit_eq_div take_bit_eq_mod flip: div_mult2_eq)
  show "octet6 a 0 = 0xFF \<longleftrightarrow> in_block a (8, push_bit 120 0xFF)"
    by (simp add: word_unat_eq_iff [of "octet6 a 0"] o in_block_nat s_def flip: div_mult2_eq)
  have high: "unat a div 2 ^ 121 = s div 512" "unat a div 2 ^ 118 = s div 64"
    by (simp_all add: s_def flip: div_mult2_eq)
  have nets: "unat (push_bit 120 0xFC :: 128 word) div 2 ^ 121 = 126"
    "unat (push_bit 112 0xFE80 :: 128 word) div 2 ^ 118 = 1018"
    by simp_all
  have num: "unat (0xFC00 :: 16 word) = 0xFC00" "unat (0xFDFF :: 16 word) = 0xFDFF"
    "unat (0xFE80 :: 16 word) = 0xFE80" "unat (0xFEBF :: 16 word) = 0xFEBF"
    by simp_all
  have len: "LENGTH(128) - 7 = 121" "LENGTH(128) - 10 = 118" by simp_all
  show "0xFC00 \<le> segment6 a 0 \<and> segment6 a 0 \<le> 0xFDFF \<longleftrightarrow> in_block a (7, push_bit 120 0xFC)"
    unfolding in_block_nat len high nets word_le_nat_alt seg num by (auto simp: div_is)
  show "0xFE80 \<le> segment6 a 0 \<and> segment6 a 0 \<le> 0xFEBF \<longleftrightarrow> in_block a (10, push_bit 112 0xFE80)"
    unfolding in_block_nat len high nets word_le_nat_alt seg num by (auto simp: div_is)
qed

lemma in_block_full: "in_block a (LENGTH('a), c) \<longleftrightarrow> a = c" for a :: "'a::len word"
  by (simp add: in_block_def)

lemma v6_restricted_iff:
  "is_restricted_v6 a \<longleftrightarrow>
    list_ex (in_block a) v6_blocks \<or> drop_bit 32 a = 0 \<and> list_ex (in_block (v4_of_tail a)) v4_blocks"
proof -
  have full: "in_block a (128, 0) \<longleftrightarrow> a = 0" "in_block a (128, 1) \<longleftrightarrow> a = 1"
    using in_block_full [of a 0] in_block_full [of a 1] by simp_all
  have low: "\<not> in_block a (8, push_bit 120 0xFF)" "\<not> in_block a (7, push_bit 120 0xFC)"
    "\<not> in_block a (10, push_bit 112 0xFE80)" if "drop_bit 32 a = 0"
  proof -
    have "drop_bit k a = 0" if "32 \<le> k" for k
      using that \<open>drop_bit 32 a = 0\<close> drop_bit_drop_bit [of "k - 32" 32 a] by simp
    then have z: "drop_bit 120 a = 0" "drop_bit 121 a = 0" "drop_bit 118 a = 0" by simp_all
    have c: "drop_bit 120 (push_bit 120 0xFF) \<noteq> (0 :: 128 word)" "drop_bit 121 (push_bit 120 0xFC) \<noteq> (0 :: 128 word)"
      "drop_bit 118 (push_bit 112 0xFE80) \<noteq> (0 :: 128 word)"
      by simp_all
    have len: "LENGTH(128) - 8 = 120" "LENGTH(128) - 7 = 121" "LENGTH(128) - 10 = 118" by simp_all
    show "\<not> in_block a (8, push_bit 120 0xFF)" "\<not> in_block a (7, push_bit 120 0xFC)"
      "\<not> in_block a (10, push_bit 112 0xFE80)"
      unfolding in_block_def fst_conv snd_conv len z using c by metis+
  qed
  have one: "\<not> list_ex (in_block (v4_of_tail 1)) v4_blocks"
    by (simp add: v4_of_tail_def v4_blocks_def in_block_def)
  have mapped: "\<not> in_block a (96, 0xFFFF00000000)" if "drop_bit 32 a = 0"
    using that by (simp add: in_block_def)
  show ?thesis
    unfolding is_restricted_v6_def to_ipv4_mapped_def leading_octets_const v4_restricted_iff segment_blocks
    using low one mapped by (auto simp: v6_blocks_def full)
qed

text \<open>
  C24. Which addresses the guard restricts, in CIDR form. An IPv4 address exactly when it lies in one of
  ten blocks: 0.0.0.0/32, 10/8, 100.64/10, 127/8, 169.254/16, 172.16/12, 192.168/16, 198.18/15, 224/4
  and 240/4. An IPv6 address exactly when it is :: or ::1, lies in ff00::/8, fc00::/7, fe80::/10 or
  the mapped block ::ffff:0:0/96 (the whole of it), or is the compatible form ::a.b.c.d of a restricted
  IPv4 address.
\<close>

theorem restricted_iff_in_blocks:
  "is_restricted_ip ip \<longleftrightarrow>
    (case ip of
       V4 a \<Rightarrow> list_ex (in_block a) v4_blocks
     | V6 a \<Rightarrow> list_ex (in_block a) v6_blocks \<or>
         drop_bit 32 a = 0 \<and> list_ex (in_block (v4_of_tail a)) v4_blocks)"
  by (cases ip) (simp_all add: v4_restricted_iff v6_restricted_iff)

section \<open>Every hop is checked\<close>

lemma resolved_unrestricted:
  "resolved_address env host v ips = Inr (h, ip) \<Longrightarrow>
    (case v of Some w \<Rightarrow> \<not> is_restricted_ip w | None \<Rightarrow> True) \<Longrightarrow> h = host \<and> \<not> is_restricted_ip ip"
  by (induction ips arbitrary: v) (auto split: option.splits if_splits)

text \<open>
  The address a request reaches, as the HTTP client documents it: a literal address of the URL, else the
  address pinned for its host, else what the resolver says at that moment.
\<close>

definition connect_address ::
  "fetch_env \<Rightarrow> (nat \<Rightarrow> string \<Rightarrow> ip_addr option) \<Rightarrow> request \<Rightarrow> ip_addr option" where
  "connect_address env resolver rq =
     (case rq of (n, url, pin) \<Rightarrow>
        (case host_from_url (fe_host_of env) url of
           None \<Rightarrow> None
         | Some h \<Rightarrow>
             (case parse_host_as_ip env h of
                Some ip \<Rightarrow> Some ip
              | None \<Rightarrow>
                  (case pin of
                     Some (host, ip) \<Rightarrow> if host = h then Some ip else resolver n h
                   | None \<Rightarrow> resolver n h))))"

definition validated :: "fetch_env \<Rightarrow> string \<Rightarrow> (decider option \<Rightarrow> bool) \<Rightarrow> request \<Rightarrow> bool" where
  "validated env tool P rq =
     (case rq of (n, url, pin) \<Rightarrow>
        \<exists>dec dec'. P dec \<and> validate_url_ssrf env n dec tool url = (dec', Inr pin))"

lemma redirect_http: "redirect_target env u l = Inr nxt \<Longrightarrow> is_http_url nxt"
  by (auto simp: redirect_target_def split: option.splits sum.splits if_splits)

lemma one_hop:
  assumes "fetch_hops env tool (Suc k) n dec url = (dec', reqs, r)" and "reqs \<noteq> []"
  shows "\<exists>pin d1 rest. validate_url_ssrf env n dec tool url = (d1, Inr pin) \<and>
    reqs = (n, url, pin) # rest \<and>
    (rest = [] \<or> (\<exists>nxt d2 r'. is_http_url nxt \<and> fetch_hops env tool k (n + 1) d1 nxt = (d2, rest, r')))"
  using assms
  by (auto split: sum.splits option.splits prod.splits) (use redirect_http in blast)

lemma hops_validated:
  assumes "fetch_hops env tool k n dec url = (dec', reqs, r)" and "P dec"
    and "\<And>m d u d' x. P d \<Longrightarrow> validate_url_ssrf env m d tool u = (d', x) \<Longrightarrow> P d'"
  shows "list_all (validated env tool P) reqs"
  using assms(1,2)
proof (induction k arbitrary: n dec url dec' reqs r)
  case (Suc k)
  show ?case
  proof (cases "reqs = []")
    case False
    from one_hop [OF Suc.prems(1) this] obtain pin d1 rest where hop:
      "validate_url_ssrf env n dec tool url = (d1, Inr pin)" "reqs = (n, url, pin) # rest"
      "rest = [] \<or> (\<exists>nxt d2 r'. is_http_url nxt \<and> fetch_hops env tool k (n + 1) d1 nxt = (d2, rest, r'))"
      by blast
    have "P d1" using assms(3) Suc.prems(2) hop(1) by blast
    then have "list_all (validated env tool P) rest"
      using hop(3) Suc.IH by auto
    moreover have "validated env tool P (n, url, pin)"
      using hop(1) Suc.prems(2) by (auto simp: validated_def)
    ultimately show ?thesis using hop(2) by simp
  qed simp
qed simp


lemma validate_session:
  assumes "validate_url_ssrf env n (Some d) tool url = (dec', x)" and "session d0 d"
  shows "\<exists>d'. dec' = Some d' \<and> session d0 d'"
  using assms
  by (auto simp: validate_url_ssrf_def check_url_policy_def check_host_policy_def
      split: option.splits sum.splits prod.splits if_splits)
     (metis fst_conv session.evaluates)+

lemma validate_allowed:
  assumes "validate_url_ssrf env n (Some d) tool url = (dec', Inr pin)"
    and "host_from_url (fe_host_of env) url = Some h"
  shows "snd (evaluate d h tool) = Allow"
  using assms
  by (auto simp: validate_url_ssrf_def check_url_policy_def check_host_policy_def gate_of_def
      split: option.splits sum.splits prod.splits if_splits net_decision.splits)

text \<open>
  Redirects cannot leave the policy. A guarded fetch in a session in which the user approved only what
  was prompted never sends a request, first or redirected, to a host of the deny list.
\<close>

theorem redirects_respect_deny_list:
  assumes "session (new_decider p auditor) d"
    and "fetch_with_ssrf_guard env (Some d) tool url = (dec', reqs, r)" and "(n, u, pin) \<in> set reqs"
    and "host_from_url (fe_host_of env) u = Some h" and "white_free h" and "normalize_host h \<noteq> []"
  shows "\<not> deny_listed p (normalize_host h)"
proof
  assume listed: "deny_listed p (normalize_host h)"
  let ?P = "\<lambda>dec. \<exists>e. dec = Some e \<and> session (new_decider p auditor) e"
  have "list_all (validated env tool ?P) reqs"
    using assms(2) unfolding fetch_with_ssrf_guard_def
    by (rule hops_validated) (use assms(1) validate_session in blast)+
  then have "validated env tool ?P (n, u, pin)" using assms(3) by (auto simp: list_all_iff)
  then obtain e d' where e: "session (new_decider p auditor) e"
      "validate_url_ssrf env n (Some e) tool u = (d', Inr pin)"
    by (auto simp: validated_def)
  from validate_allowed [OF e(2) assms(4)] listed_host_denied [OF e(1) assms(5,6) listed]
  show False by simp
qed

lemma hops_bounded:
  assumes "fetch_hops env tool k n dec url = (dec', reqs, r)"
  shows "length reqs \<le> k \<and> map fst reqs = [n..<n + length reqs] \<and>
    (is_http_url url \<longrightarrow> list_all (\<lambda>(m, u, pin). is_http_url u) reqs)"
  using assms
proof (induction k arbitrary: n dec url dec' reqs r)
  case (Suc k)
  show ?case
  proof (cases "reqs = []")
    case False
    from one_hop [OF Suc.prems this] obtain pin d1 rest where hop:
      "reqs = (n, url, pin) # rest"
      "rest = [] \<or> (\<exists>nxt d2 r'. is_http_url nxt \<and> fetch_hops env tool k (n + 1) d1 nxt = (d2, rest, r'))"
      by blast
    show ?thesis
    proof (cases "rest = []")
      case False
      then obtain nxt d2 r' where "is_http_url nxt" "fetch_hops env tool k (n + 1) d1 nxt = (d2, rest, r')"
        using hop(2) by blast
      with Suc.IH [OF this(2)] show ?thesis by (simp add: hop(1) upt_conv_Cons del: upt_Suc)
    qed (simp add: hop(1))
  qed simp
qed simp

text \<open>
  A call of \<open>fetch_url\<close> sends at most six requests, one per hop in order, and every one of them to an
  http or https URL, whatever the servers redirect to.
\<close>

theorem fetch_requests_bounded:
  assumes "execute_fetch_url env dec input = (dec', reqs, r)"
  shows "length reqs \<le> 6 \<and> map fst reqs = [0..<length reqs] \<and>
    list_all (\<lambda>(n, u, pin). is_http_url u) reqs"
proof (cases "reqs = []")
  case False
  then obtain raw d1 res where run: "is_http_url (trim raw)"
      "fetch_hops env ''fetch_url'' (MAX_REDIRECTS + 1) 0 dec (trim raw) = (d1, reqs, res)"
    using assms
    by (auto simp: execute_fetch_url_def fetch_with_ssrf_guard_def Let_def
        split: option.splits sum.splits prod.splits if_splits)
  from hops_bounded [OF run(2)] run(1) show ?thesis by (simp add: MAX_REDIRECTS_def)
qed simp

lemma read_capped_from:
  "length buf \<le> max_bytes \<Longrightarrow>
    read_body_capped max_bytes buf (map Chunk cs) =
      Inr (take max_bytes (buf @ concat cs), max_bytes < length (buf @ concat cs))"
  by (induction cs arbitrary: buf) (auto simp: Let_def)

text \<open>
  The body of a response is cut exactly at the cap: of a body that arrives in any chunks, the first
  \<open>max_bytes\<close> bytes are kept, and it is marked truncated exactly when there were more.
\<close>

theorem body_cut_at_cap:
  "read_body_capped max_bytes [] (map Chunk cs) =
     Inr (take max_bytes (concat cs), max_bytes < length (concat cs))"
  using read_capped_from [of "[]"] by simp

section \<open>A fetch with a redirect\<close>

definition ok_response :: http_response where
  "ok_response =
     \<lparr>hr_url = ''http://b.com/'', hr_status = 200, hr_location = None, hr_content_type = Some ''text/plain'',
      hr_body = [Chunk ''hello '', Chunk ''world'']\<rparr>"

definition sample_fetch_env :: fetch_env where
  "sample_fetch_env =
     \<lparr>fe_host_of = [''http://a.com/'' \<mapsto> ''a.com'', ''http://b.com/'' \<mapsto> ''b.com''],
      fe_parse_ip = (\<lambda>s. None), fe_show_ip = (\<lambda>ip. ''address''),
      fe_lookup = (\<lambda>n h. Inr [V4 0x08080808]), fe_cancelled = (\<lambda>n. False), fe_client_error = (\<lambda>n. None),
      fe_send = (\<lambda>n u pin. Inr (if n = 0
        then ok_response\<lparr>hr_status := 302, hr_location := Some ''http://b.com/''\<rparr> else ok_response)),
      fe_base_error = (\<lambda>u. None), fe_join = (\<lambda>b l. Inr l), fe_utf8_lossy = (\<lambda>s. s), fe_readable = (\<lambda>s. s)\<rparr>"

definition open_decider :: decider where
  "open_decider = new_decider \<lparr>np_default = Allow, np_allow = [], np_deny = [''evil.com''], np_audit = False\<rparr> None"

definition sample_requests :: "request list" where
  "sample_requests =
     [(0, ''http://a.com/'', Some (''a.com'', V4 0x08080808)),
      (1, ''http://b.com/'', Some (''b.com'', V4 0x08080808))]"

lemma sample_free: "white_free ''a.com''" "white_free ''b.com''" "white_free ''evil.com''"
  "white_free ''http://a.com/''" "white_free ''http://b.com/''"
  by (simp_all add: white_free_def white_space_seqs_def starts_with_def char_of_def bit_0)

lemma sample_hosts_normal:
  "normalize_host ''a.com'' = ''a.com''" "normalize_host ''b.com'' = ''b.com''"
  "normalize_host ''evil.com'' = ''evil.com''"
  by (simp_all add: normalize_host_def trim_white_free sample_free trim_end_dots_def to_ascii_lowercase_def
      ascii_lower_char_def strip_prefix_def starts_with_def Let_def)

lemma sample_lower: "to_ascii_lowercase ''a.com'' = ''a.com''" "to_ascii_lowercase ''b.com'' = ''b.com''"
  by (simp_all add: to_ascii_lowercase_def ascii_lower_char_def)

lemma public_address: "\<not> is_restricted_v4 0x08080808"
  by (simp add: v4_restricted_iff v4_blocks_def in_block_def)

lemma open_evaluate:
  "evaluate open_decider ''a.com'' t = (open_decider, Allow)"
  "evaluate open_decider ''b.com'' t = (open_decider, Allow)"
  by (simp_all add: evaluate_def open_decider_def new_decider_def is_denied_def is_approved_def
      decide_host_def sample_hosts_normal host_matches_def strip_prefix_def starts_with_def audit_record_def)

lemma sample_fetch:
  "fetch_with_ssrf_guard sample_fetch_env (Some open_decider) ''fetch_url'' ''http://a.com/'' =
     (Some open_decider, sample_requests, Inr ok_response)"
  by (simp add: fetch_with_ssrf_guard_def MAX_REDIRECTS_def eval_nat_numeral ensure_not_cancelled_def
      validate_url_ssrf_def check_url_policy_def host_from_url_def check_host_policy_def gate_of_def
      open_evaluate parse_host_as_ip_def trim_white_free sample_free sample_lower public_address
      redirect_target_def is_http_url_def starts_with_def is_redirection_def strip_prefix_def
      sample_fetch_env_def ok_response_def sample_requests_def)


theorem redirects_respect_deny_list_witness:
  "\<not> deny_listed \<lparr>np_default = Allow, np_allow = [], np_deny = [''evil.com''], np_audit = False\<rparr> ''b.com''"
proof -
  have start: "session (new_decider
      \<lparr>np_default = Allow, np_allow = [], np_deny = [''evil.com''], np_audit = False\<rparr> None) open_decider"
    unfolding open_decider_def by (rule session.start)
  have "(1, ''http://b.com/'', Some (''b.com'', V4 0x08080808)) \<in> set sample_requests"
    by (simp add: sample_requests_def)
  moreover have "host_from_url (fe_host_of sample_fetch_env) ''http://b.com/'' = Some ''b.com''"
    by (simp add: host_from_url_def trim_white_free sample_free sample_lower sample_fetch_env_def)
  ultimately show ?thesis
    using redirects_respect_deny_list [OF start sample_fetch _ _ sample_free(2)] by (simp add: sample_hosts_normal)
qed

theorem fetch_requests_bounded_witness:
  "fst (snd (execute_fetch_url sample_fetch_env (Some open_decider)
      (JObject [(''url'', JString ''http://a.com/'')]))) = sample_requests \<and> length sample_requests \<le> 6"
proof -
  have run: "fst (snd (execute_fetch_url sample_fetch_env (Some open_decider)
      (JObject [(''url'', JString ''http://a.com/'')]))) = sample_requests"
  proof -
    have "trim ''markdown'' = ''markdown''" by (rule trim_fixed) (simp_all add: trim_eval bit_0)
    then have "parse_format None = Inr MarkdownFormat"
      by (simp add: parse_format_def to_ascii_lowercase_def ascii_lower_char_def)
    then show ?thesis
      by (simp add: execute_fetch_url_def str_field_def trim_white_free sample_free is_http_url_def
          starts_with_def sample_fetch ok_response_def read_capped_from [of "[]", simplified] Let_def
          split: sum.split prod.split)
  qed
  then obtain dec' r where "execute_fetch_url sample_fetch_env (Some open_decider)
      (JObject [(''url'', JString ''http://a.com/'')]) = (dec', sample_requests, r)"
    by (metis prod.collapse)
  from fetch_requests_bounded [OF this] run show ?thesis by simp
qed

end
