(* ===== verification/Tool_Context.thy ===== *)
theory Tool_Context
  imports Tool_Execution Ssrf_Guard
begin

text \<open>
  What the model is shown of a tool's result: the evidence a result carries (\<open>crates/tools/src/evidence.rs\<close>)
  and its compaction (\<open>compact_tool_result_for_context\<close> of \<open>crates/core/src/engine/context.rs\<close>), with the
  summary of sub-agent results.

  Parsing and printing of JSON and the derived decoding of an envelope are fields of \<open>context_env\<close>. A JSON
  object is the list of its entries in their order.
\<close>

section \<open>Evidence\<close>

record evidence_fact =
  ef_key :: string
  ef_value :: string

record evidence_citation =
  ec_path :: string
  ec_start_line :: "nat option"
  ec_end_line :: "nat option"

record evidence_envelope =
  ev_facts :: "evidence_fact list"
  ev_citations :: "evidence_citation list"
  ev_uncertainty :: uncertainty_kind

fun uncertainty_str :: "uncertainty_kind \<Rightarrow> string" where
  "uncertainty_str Certain = ''none''"
| "uncertainty_str NotFound = ''not_found''"
| "uncertainty_str Partial = ''partial''"
| "uncertainty_str Truncated = ''truncated''"

definition merge_uncertainty :: "uncertainty_kind \<Rightarrow> uncertainty_kind \<Rightarrow> uncertainty_kind" where
  "merge_uncertainty a b =
     (if a = Truncated \<or> b = Truncated then Truncated
      else if a = Partial \<or> b = Partial then Partial
      else if a = NotFound \<or> b = NotFound then NotFound
      else Certain)"

definition citation_display :: "evidence_citation \<Rightarrow> string" where
  "citation_display c =
     (case (ec_start_line c, ec_end_line c) of
        (Some s, Some e) \<Rightarrow>
          if s = e then ec_path c @ '':'' @ show_nat s
          else ec_path c @ '':'' @ show_nat s @ ''-'' @ show_nat e
      | (Some s, None) \<Rightarrow> ec_path c @ '':'' @ show_nat s
      | _ \<Rightarrow> ec_path c)"

definition format_ledger :: "evidence_envelope \<Rightarrow> string" where
  "format_ledger ev =
     join [CHR 0x0A]
       ([''[evidence uncertainty='' @ uncertainty_str (ev_uncertainty ev) @ '']''] @
        map (\<lambda>f. ''- fact: '' @ ef_key f @ ''='' @ ef_value f) (ev_facts ev) @
        map (\<lambda>c. ''- cite: '' @ citation_display c) (ev_citations ev) @
        (if ev_facts ev = [] \<and> ev_citations ev = [] then [''- (no facts/citations)''] else []))"

definition extend_new :: "'a list \<Rightarrow> 'a list \<Rightarrow> 'a list" where
  "extend_new xs ys = foldl (\<lambda>xs y. if y \<in> set xs then xs else xs @ [y]) xs ys"

definition merge_from :: "evidence_envelope \<Rightarrow> evidence_envelope \<Rightarrow> evidence_envelope" where
  "merge_from self other =
     \<lparr>ev_facts = extend_new (ev_facts self) (ev_facts other),
      ev_citations = extend_new (ev_citations self) (ev_citations other),
      ev_uncertainty = merge_uncertainty (ev_uncertainty self) (ev_uncertainty other)\<rparr>"

section \<open>Texts of bounded length\<close>

record context_env =
  cx_lower :: "string \<Rightarrow> string"
  cx_parse :: "string \<Rightarrow> json option"
  cx_text :: "json \<Rightarrow> string"
  cx_evidence :: "json \<Rightarrow> evidence_envelope option"

definition from_metadata :: "context_env \<Rightarrow> json option \<Rightarrow> evidence_envelope option" where
  "from_metadata cx metadata =
     Option.bind (Option.bind metadata (\<lambda>m. json_get m ''evidence'')) (cx_evidence cx)"

definition summarize_text :: "string \<Rightarrow> nat \<Rightarrow> string" where
  "summarize_text s limit =
     (if char_count s \<le> limit then s else take_chars (limit - 3) s @ ''...'')"

definition truncation_marker :: string where
  "truncation_marker =
     [CHR 0x0A, CHR 0x0A] @ ''[... output truncated for context ...]'' @ [CHR 0x0A, CHR 0x0A]"

definition summarize_text_head_tail :: "string \<Rightarrow> nat \<Rightarrow> string" where
  "summarize_text_head_tail s limit =
     (if char_count s \<le> limit then s
      else if limit \<le> 20 then summarize_text s limit
      else if limit \<le> char_count truncation_marker + 20 then summarize_text s limit
      else
        let remaining = limit - char_count truncation_marker;
            head_len = remaining * 2 div 3;
            tail_len = remaining - head_len
        in take_chars head_len s @ truncation_marker @ last_chars tail_len s)"

section \<open>Noisy tools and limits\<close>

definition tool_result_is_noisy :: "string \<Rightarrow> bool" where
  "tool_result_is_noisy tool \<longleftrightarrow>
     starts_with tool ''mcp__'' \<or> starts_with tool ''browser_'' \<or> starts_with tool ''mcp_'' \<or>
     tool \<in> set [''exec_shell'', ''exec_shell_wait'', ''exec_shell_interact'', ''exec_wait'', ''exec_interact'',
       ''multi_tool_use.parallel'', ''web_search'', ''fetch_url'', ''web.run'', ''grep_files'', ''glob_files'',
       ''explore_codebase'', ''investigate'', ''answer_from_repo'', ''change_and_verify'', ''promote_to_context'',
       ''run_tests'', ''task_gate_run'', ''browser_snapshot'', ''browser_get_text'', ''browser_console_tail'']"

definition tool_result_marked_noisy :: "json option \<Rightarrow> bool" where
  "tool_result_marked_noisy metadata =
     (case metadata of Some m \<Rightarrow> optional_bool m ''context_noisy'' False | None \<Rightarrow> False)"

record tool_result_context_limits =
  cl_hard_limit_chars :: nat
  cl_noisy_soft_limit_chars :: nat
  cl_snippet_chars :: nat

definition tool_result_context_limits_for_model :: "context_env \<Rightarrow> string \<Rightarrow> tool_result_context_limits" where
  "tool_result_context_limits_for_model cx model =
     (if (case context_window_for_model (cx_lower cx) model of
            Some w \<Rightarrow> w \<ge> LARGE_CONTEXT_WINDOW_TOKENS | None \<Rightarrow> False)
      then \<lparr>cl_hard_limit_chars = 180000, cl_noisy_soft_limit_chars = 60000, cl_snippet_chars = 40000\<rparr>
      else \<lparr>cl_hard_limit_chars = 12000, cl_noisy_soft_limit_chars = 2000, cl_snippet_chars = 900\<rparr>)"

definition noisy_soft_limit_chars :: "tool_result_context_limits \<Rightarrow> string \<Rightarrow> nat" where
  "noisy_soft_limit_chars limits tool =
     (if tool \<in> {''exec_shell'', ''exec_shell_wait'', ''exec_wait'', ''web_search'', ''fetch_url'', ''web.run'',
                 ''run_tests''}
      then cl_noisy_soft_limit_chars limits * 3 div 4 else cl_noisy_soft_limit_chars limits)"

definition tool_result_metadata_summary :: "json option \<Rightarrow> string option" where
  "tool_result_metadata_summary metadata =
     Option.bind metadata (\<lambda>m.
       find_map (\<lambda>key.
         case str_field m key of
           Some s \<Rightarrow> if trim s \<noteq> [] then Some (summarize_text (trim s) 320) else None
         | None \<Rightarrow> None) [''summary'', ''stdout_summary'', ''stderr_summary'', ''message''])"

section \<open>Results of sub-agents\<close>

definition summarize_subagent_status :: "context_env \<Rightarrow> json \<Rightarrow> string" where
  "summarize_subagent_status cx status =
     (case status of
        JString raw \<Rightarrow> raw
      | JObject ((kind, v) # _) \<Rightarrow>
          (case as_str v of
             Some reason \<Rightarrow>
               if trim reason \<noteq> [] then kind @ ''('' @ summarize_text (trim reason) 120 @ '')'' else kind
           | None \<Rightarrow> kind)
      | _ \<Rightarrow> cx_text cx status)"

definition as_u64 :: "json \<Rightarrow> nat option" where
  "as_u64 v =
     (case v of
        JNumber s \<Rightarrow>
          if s \<noteq> [] \<and> list_all is_ascii_digit s \<and> digits_value s < 2 ^ 64 then Some (digits_value s) else None
      | _ \<Rightarrow> None)"

definition summarize_subagent_snapshot :: "context_env \<Rightarrow> json \<Rightarrow> nat \<Rightarrow> string" where
  "summarize_subagent_snapshot cx snapshot index =
     (case snapshot of
        JObject _ \<Rightarrow>
          (let text_of = (\<lambda>v limit. case Option.bind v as_str of
                 Some s \<Rightarrow> if trim s \<noteq> [] then Some (summarize_text (trim s) limit) else None
               | None \<Rightarrow> None);
               or_else = (\<lambda>v d. case v of Some s \<Rightarrow> s | None \<Rightarrow> d);
               agent_id = or_else (str_field snapshot ''agent_id'') ''unknown'';
               agent_type = or_else (str_field snapshot ''agent_type'') ''agent'';
               status = (case json_get snapshot ''status'' of
                           Some v \<Rightarrow> summarize_subagent_status cx v | None \<Rightarrow> ''unknown'');
               objective = text_of (Option.bind (json_get snapshot ''assignment'') (\<lambda>a. json_get a ''objective'')) 220;
               result = text_of (json_get snapshot ''result'') 1600;
               steps = Option.bind (json_get snapshot ''steps_taken'') as_u64;
               duration_ms = Option.bind (json_get snapshot ''duration_ms'') as_u64;
               shown = (\<lambda>v. case v of Some n \<Rightarrow> show_nat n | None \<Rightarrow> ''?'')
           in join [CHR 0x0A]
             ([''- '' @ agent_id @ '' ('' @ agent_type @ '') status='' @ status] @
              (case objective of Some s \<Rightarrow> [''  objective: '' @ s] | None \<Rightarrow> []) @
              [case result of Some s \<Rightarrow> ''  result: '' @ s | None \<Rightarrow> ''  result: not available yet''] @
              (if steps \<noteq> None \<or> duration_ms \<noteq> None
               then [''  stats: steps='' @ shown steps @ '', duration_ms='' @ shown duration_ms] else [])))
      | _ \<Rightarrow> ''- item '' @ show_nat index @ '': '' @ summarize_text (cx_text cx snapshot) 240)"

definition trim_white_end :: "string \<Rightarrow> string" where
  "trim_white_end s = rev (trim_start (map rev white_space_seqs) (rev s))"

definition compact_subagent_tool_result_for_context :: "context_env \<Rightarrow> string \<Rightarrow> string \<Rightarrow> string option" where
  "compact_subagent_tool_result_for_context cx tool raw =
     (if tool \<notin> {''agent_result'', ''agent_wait'', ''wait''} then None
      else
        case (case cx_parse cx raw of
                Some (JArray items) \<Rightarrow> Some items
              | Some (JObject kvs) \<Rightarrow> Some [JObject kvs]
              | _ \<Rightarrow> None) of
          None \<Rightarrow> None
        | Some snapshots \<Rightarrow>
            Some (trim_white_end
              (''[sub-agent result summarized for parent context]'' @ [CHR 0x0A] @
               ''Use '' @ quoted ''agent_result'' @ '' again only if you need the full raw payload.'' @ [CHR 0x0A] @
               concat (map (\<lambda>(i, snapshot). summarize_subagent_snapshot cx snapshot (i + 1) @ [CHR 0x0A])
                 (enumerate 0 (take 8 snapshots))) @
               (if 8 < length snapshots
                then ''- ... '' @ show_nat (length snapshots - 8) @
                  '' more sub-agent result(s) omitted from context summary'' @ [CHR 0x0A]
                else []))))"

section \<open>The compaction\<close>

definition should_compact_result :: "context_env \<Rightarrow> string \<Rightarrow> string \<Rightarrow> tool_result \<Rightarrow> bool" where
  "should_compact_result cx model tool output =
     (let limits = tool_result_context_limits_for_model cx model;
          raw_chars = char_count (trim (to_content output));
          soft = noisy_soft_limit_chars limits tool;
          noisy = tool_result_is_noisy tool \<or> tool_result_marked_noisy (to_metadata output)
      in cl_hard_limit_chars limits < raw_chars \<or> noisy \<and> soft < raw_chars)"

definition compact_tool_result_for_context :: "context_env \<Rightarrow> string \<Rightarrow> string \<Rightarrow> tool_result \<Rightarrow> string" where
  "compact_tool_result_for_context cx model tool output =
     (let raw = trim (to_content output) in
      if raw = [] then []
      else case compact_subagent_tool_result_for_context cx tool raw of
        Some summary \<Rightarrow> summary
      | None \<Rightarrow>
          (let limits = tool_result_context_limits_for_model cx model;
               raw_chars = char_count raw;
               evidence = from_metadata cx (to_metadata output)
           in
           if \<not> should_compact_result cx model tool output then
             (case evidence of Some ev \<Rightarrow> format_ledger ev @ [CHR 0x0A, CHR 0x0A] @ raw | None \<Rightarrow> raw)
           else
             (let snippet = summarize_text_head_tail raw (cl_snippet_chars limits);
                  omitted = raw_chars - char_count snippet
              in
              ''['' @ tool @ '' output compacted to protect context]'' @ [CHR 0x0A] @
              (case evidence of
                 Some ev \<Rightarrow>
                   format_ledger ev @ [CHR 0x0A] @
                   (if ev_uncertainty ev \<in> {Truncated, Partial} then
                      ''Do not invent unread ranges; re-call the tool with a narrower window or '' @
                      ''promote_to_context if a workshop-ref is present.'' @ [CHR 0x0A]
                    else [])
               | None \<Rightarrow> []) @
              (case tool_result_metadata_summary (to_metadata output) of
                 Some summary \<Rightarrow> ''Summary: '' @ summary @ [CHR 0x0A] | None \<Rightarrow> []) @
              ''Snippet: '' @ snippet @ [CHR 0x0A] @ ''(Original: '' @ show_nat raw_chars @
              '' chars, omitted: '' @ show_nat omitted @ '' chars.)'')))"

section \<open>Merging evidence\<close>

lemma extend_new_set: "set (extend_new xs ys) = set xs \<union> set ys"
  unfolding extend_new_def by (induction ys arbitrary: xs) auto

lemma extend_new_known: "set ys \<subseteq> set xs \<Longrightarrow> extend_new xs ys = xs"
  unfolding extend_new_def by (induction ys) auto

lemma extend_new_distinct: "distinct xs \<Longrightarrow> distinct (extend_new xs ys)"
  unfolding extend_new_def by (induction ys arbitrary: xs) auto

text \<open>A merge loses nothing, adds nothing twice, and keeps the more severe doubt; a second merge is idle.\<close>

lemma merge_keeps:
  "set (ev_facts (merge_from a b)) = set (ev_facts a) \<union> set (ev_facts b)"
  "set (ev_citations (merge_from a b)) = set (ev_citations a) \<union> set (ev_citations b)"
  "merge_from (merge_from a b) b = merge_from a b"
  by (auto simp: merge_from_def extend_new_set extend_new_known merge_uncertainty_def)

lemma merge_uncertainty_laws:
  "merge_uncertainty a b = merge_uncertainty b a"
  "merge_uncertainty (merge_uncertainty a b) c = merge_uncertainty a (merge_uncertainty b c)"
  "merge_uncertainty a a = a" "merge_uncertainty a Certain = a"
  by (cases a; cases b; cases c; simp add: merge_uncertainty_def)
     (cases a; cases b; cases c; simp add: merge_uncertainty_def)+

section \<open>What the model sees\<close>

text \<open>A text is made of whole characters; every text of the program is, as UTF-8.\<close>

definition whole_chars :: "string \<Rightarrow> bool" where
  "whole_chars s \<longleftrightarrow> list_all (\<lambda>ch. length ch = char_width (hd ch)) (text_chars s)"

lemma text_chars_whole: "whole_chars a \<Longrightarrow> text_chars (a @ b) = text_chars a @ text_chars b"
proof (induction a rule: text_chars.induct)
  case (2 c cs)
  then have "char_width c - 1 \<le> length cs"
    by (auto simp: whole_chars_def)
  with 2 show ?case by (simp add: whole_chars_def)
qed simp

lemma char_count_whole: "whole_chars a \<Longrightarrow> char_count (a @ b) = char_count a + char_count b"
  by (simp add: char_count_def text_chars_whole)

lemma whole_ascii: "is_ascii s \<Longrightarrow> whole_chars s"
  by (auto simp: whole_chars_def text_chars_ascii list_all_iff is_ascii_def char_width_def)

lemma char_count_ascii_append: "is_ascii a \<Longrightarrow> char_count (a @ b) = length a + char_count b"
  by (simp add: char_count_whole whole_ascii char_count_ascii)

lemma char_count_Cons: "(of_char c :: nat) < 128 \<Longrightarrow> char_count (c # s) = Suc (char_count s)"
  by (simp add: char_count_def char_width_def)

lemma whole_take: "whole_chars s \<Longrightarrow> whole_chars (take_chars n s)"
  by (auto simp: whole_chars_def text_chars_take list_all_iff dest: in_set_takeD)

lemma whole_append: "whole_chars a \<Longrightarrow> whole_chars b \<Longrightarrow> whole_chars (a @ b)"
  by (simp add: whole_chars_def text_chars_whole [unfolded whole_chars_def])

lemma text_chars_concat:
  "\<forall>ch \<in> set chs. ch \<noteq> [] \<and> length ch = char_width (hd ch) \<Longrightarrow> text_chars (concat chs) = chs"
proof (induction chs)
  case (Cons ch chs)
  then obtain c cs where ch: "ch = c # cs" "length cs = char_width c - 1" by (cases ch) auto
  with Cons show ?case by simp
qed simp

lemma text_chars_last: "whole_chars s \<Longrightarrow> text_chars (last_chars n s) = drop (char_count s - n) (text_chars s)"
  unfolding last_chars_def
  by (intro text_chars_concat) (auto simp: whole_chars_def list_all_iff dest: in_set_dropD text_chars_proper)

lemma last_chars_count: "whole_chars s \<Longrightarrow> char_count (last_chars n s) \<le> n"
  by (simp add: char_count_def text_chars_last)

lemma whole_last: "whole_chars s \<Longrightarrow> whole_chars (last_chars n s)"
  using text_chars_last [of s n] by (auto simp: whole_chars_def list_all_iff dest: in_set_dropD)

lemma whole_head_tail: "whole_chars s \<Longrightarrow> whole_chars (summarize_text_head_tail s n)"
proof -
  assume s: "whole_chars s"
  have "whole_chars (take_chars k s @ ''...'')" for k
    using whole_append [OF whole_take [OF s] whole_ascii] by (simp add: is_ascii_def)
  moreover have "whole_chars (take_chars k s @ truncation_marker @ last_chars m s)" for k m
    by (intro whole_append whole_take whole_last whole_ascii s) (simp add: truncation_marker_def is_ascii_def)
  ultimately show ?thesis
    using s by (simp add: summarize_text_head_tail_def summarize_text_def Let_def)
qed

lemma summarize_text_count: "3 \<le> limit \<Longrightarrow> char_count (summarize_text s limit) \<le> limit"
proof (cases "char_count s \<le> limit")
  case False
  then have "text_chars (take_chars (limit - 3) s @ ''...'') = take (limit - 3) (text_chars s) @ text_chars ''...''"
    by (intro text_chars_append) simp
  moreover have "text_chars ''...'' = [''.'', ''.'', ''.'']" by (simp add: char_width_def)
  moreover assume "3 \<le> limit"
  ultimately show ?thesis using False by (simp add: summarize_text_def char_count_def)
qed (simp add: summarize_text_def)

lemma head_tail_count:
  assumes "whole_chars s" and "3 \<le> limit"
  shows "char_count (summarize_text_head_tail s limit) \<le> limit"
proof (cases "char_count s \<le> limit \<or> limit \<le> 20 \<or> limit \<le> char_count truncation_marker + 20")
  case True
  then show ?thesis using summarize_text_count [OF assms(2), of s] by (auto simp: summarize_text_head_tail_def)
next
  case False
  define r where "r = limit - char_count truncation_marker"
  have marker: "is_ascii truncation_marker" by (simp add: truncation_marker_def is_ascii_def)
  have "char_count (take_chars n s @ t) = min n (char_count s) + char_count t" for n t
    using char_count_whole [OF whole_take [OF assms(1)]] by (simp add: char_count_take)
  moreover have "char_count (last_chars (r - r * 2 div 3) s) \<le> r - r * 2 div 3"
    by (rule last_chars_count [OF assms(1)])
  moreover have "char_count truncation_marker = length truncation_marker" using marker by (rule char_count_ascii)
  ultimately have "char_count (take_chars (r * 2 div 3) s @ truncation_marker @ last_chars (r - r * 2 div 3) s) \<le>
      r * 2 div 3 + (char_count truncation_marker + (r - r * 2 div 3))"
    by (simp add: char_count_ascii_append [OF marker] le_diff_conv2)
  also have "\<dots> \<le> limit"
  proof -
    have "r * 2 div 3 \<le> r" by (rule div_le_mono [of "r * 2" "r * 3" 3, simplified])
    moreover have "char_count truncation_marker + r = limit" using False by (simp add: r_def)
    ultimately show ?thesis by linarith
  qed
  finally show ?thesis using False by (simp add: summarize_text_head_tail_def Let_def r_def)
qed

lemma show_nat_length: "n < 10 ^ Suc k \<Longrightarrow> length (show_nat n) \<le> Suc k"
proof (induction k arbitrary: n)
  case 0
  then show ?case by (simp add: show_nat.simps [of n])
next
  case (Suc k)
  show ?case
  proof (cases "n < 10")
    case False
    have "n div 10 < 10 ^ Suc k" using Suc.prems by (simp add: less_mult_imp_div_less)
    from Suc.IH [OF this] False show ?thesis by (simp add: show_nat.simps [of n])
  qed (simp add: show_nat.simps [of n])
qed

lemma show_nat_ascii: "is_ascii (show_nat n)"
  using show_nat_chars [of _ n] by (fastforce simp: is_ascii_def list_all_iff is_ascii_digit_def)

lemma shown_usize: "n < 2 ^ 64 \<Longrightarrow> length (show_nat n) \<le> 20"
  using show_nat_length [of n 19] by simp

lemma metadata_summary_count: "tool_result_metadata_summary md = Some t \<Longrightarrow> char_count t \<le> 320"
  using summarize_text_count [of 320]
  by (auto simp: tool_result_metadata_summary_def bind_eq_Some_conv split: option.splits if_splits)

lemma limits_fit: "cl_snippet_chars (tool_result_context_limits_for_model cx model) + 500 \<le>
    cl_hard_limit_chars (tool_result_context_limits_for_model cx model)"
  by (simp add: tool_result_context_limits_for_model_def)

text \<open>
  C31. A result never takes more of the context than the hard limit of its model and the name of its tool:
  whatever a tool that is not a sub-agent's returns without evidence, the text shown to the model has at
  most so many characters, the notes on the compaction included.
\<close>

theorem result_for_context_bounded:
  assumes "compact_subagent_tool_result_for_context cx tool (trim (to_content r)) = None"
    and "from_metadata cx (to_metadata r) = None" and "is_ascii tool"
    and "whole_chars (trim (to_content r))" and "char_count (trim (to_content r)) < 2 ^ 64"
    and "\<And>t. tool_result_metadata_summary (to_metadata r) = Some t \<Longrightarrow> whole_chars t"
  shows "char_count (compact_tool_result_for_context cx model tool r) \<le>
    cl_hard_limit_chars (tool_result_context_limits_for_model cx model) + length tool"
proof -
  let ?raw = "trim (to_content r)" and ?L = "tool_result_context_limits_for_model cx model"
  define snippet where "snippet = summarize_text_head_tail ?raw (cl_snippet_chars ?L)"
  have snippet: "char_count snippet \<le> cl_snippet_chars ?L"
    unfolding snippet_def using assms(4)
    by (rule head_tail_count) (simp add: tool_result_context_limits_for_model_def)
  have shown: "length (show_nat (char_count ?raw)) \<le> 20" "length (show_nat (char_count ?raw - k)) \<le> 20" for k
    using assms(5) by (auto intro!: shown_usize)
  define footer where "footer = [CHR 0x0A] @ ''(Original: '' @ show_nat (char_count ?raw) @
    '' chars, omitted: '' @ show_nat (char_count ?raw - char_count snippet) @ '' chars.)''"
  have "char_count footer \<le> length footer" by (rule char_count_le)
  also have "\<dots> \<le> 80" using shown(1) shown(2) [of "char_count snippet"] by (simp add: footer_def)
  finally have footer: "char_count footer \<le> 80" .
  have "whole_chars snippet" using assms(4) by (simp add: snippet_def whole_head_tail)
  then have body: "char_count (snippet @ footer) \<le> cl_snippet_chars ?L + 80"
    using snippet footer by (simp add: char_count_whole)
  define summary where "summary = (case tool_result_metadata_summary (to_metadata r) of
    Some t \<Rightarrow> ''Summary: '' @ t @ [CHR 0x0A] | None \<Rightarrow> [])"
  have summary: "char_count (summary @ t) \<le> 330 + char_count t" for t
    using metadata_summary_count [of "to_metadata r"] assms(6)
    by (auto simp: summary_def char_count_Cons char_count_whole split: option.split)
  have head: "char_count (''['' @ tool @ '' output compacted to protect context]'' @ [CHR 0x0A] @ t) =
      39 + length tool + char_count t" for t
    using assms(3) by (simp add: char_count_ascii_append char_count_Cons)
  have "char_count (''Snippet: '' @ snippet @ footer) = 9 + char_count (snippet @ footer)"
    by (simp add: char_count_Cons)
  with body head summary [of "''Snippet: '' @ snippet @ footer"] limits_fit [of cx model]
  have long: "char_count (''['' @ tool @ '' output compacted to protect context]'' @ [CHR 0x0A] @ summary @
      ''Snippet: '' @ snippet @ footer) \<le> cl_hard_limit_chars ?L + length tool" by simp
  have short: "char_count ?raw \<le> cl_hard_limit_chars ?L" if "\<not> should_compact_result cx model tool r"
    using that by (simp add: should_compact_result_def Let_def)
  show ?thesis
    using long short assms(1,2)
    by (cases "should_compact_result cx model tool r")
      (simp_all add: compact_tool_result_for_context_def Let_def summary_def snippet_def footer_def)
qed

text \<open>A context that parses nothing and finds the same evidence in every result that has some.\<close>

definition plain_context :: context_env where
  "plain_context =
     \<lparr>cx_lower = (\<lambda>s. s), cx_parse = (\<lambda>_. None), cx_text = (\<lambda>_. []),
      cx_evidence = (\<lambda>_. Some \<lparr>ev_facts = [\<lparr>ef_key = ''matches'', ef_value = ''3''\<rparr>], ev_citations = [],
        ev_uncertainty = Partial\<rparr>)\<rparr>"

lemma trim_hello: "trim ''hello'' = ''hello''"
  by (simp add: trim_eval)

theorem result_for_context_bounded_witness:
  "char_count (compact_tool_result_for_context plain_context ''m'' ''read_file'' (result_success ''hello'')) \<le>
     cl_hard_limit_chars (tool_result_context_limits_for_model plain_context ''m'') + 9"
proof -
  have "is_ascii ''hello''" "is_ascii ''read_file''" by (simp_all add: is_ascii_def)
  then show ?thesis
    using result_for_context_bounded [of plain_context "''read_file''" "result_success ''hello''" "''m''"]
    by (simp add: result_success_def trim_hello compact_subagent_tool_result_for_context_def from_metadata_def
        whole_ascii char_count_ascii tool_result_metadata_summary_def)
qed

text \<open>
  C30. Compaction keeps the evidence: what the model sees of a result with evidence, shortened or not, contains
  the ledger in full, unless the result is empty or a sub-agent's.
\<close>

theorem evidence_survives_compaction:
  assumes "from_metadata cx (to_metadata r) = Some ev" and "trim (to_content r) \<noteq> []"
    and "compact_subagent_tool_result_for_context cx tool (trim (to_content r)) = None"
  shows "\<exists>before after. compact_tool_result_for_context cx model tool r = before @ format_ledger ev @ after"
proof (cases "should_compact_result cx model tool r")
  case True
  then have "\<exists>rest. compact_tool_result_for_context cx model tool r =
      (''['' @ tool @ '' output compacted to protect context]'' @ [CHR 0x0A]) @ format_ledger ev @ rest"
    using assms by (simp add: compact_tool_result_for_context_def Let_def)
  then show ?thesis by blast
next
  case False
  then have "compact_tool_result_for_context cx model tool r =
      [] @ format_ledger ev @ [CHR 0x0A, CHR 0x0A] @ trim (to_content r)"
    using assms by (simp add: compact_tool_result_for_context_def Let_def)
  then show ?thesis by blast
qed

theorem evidence_survives_compaction_witness:
  "\<exists>before after. compact_tool_result_for_context plain_context ''m'' ''grep_files''
      \<lparr>to_content = ''hello'', to_success = True, to_metadata = Some (JObject [(''evidence'', JNull)])\<rparr> =
     before @ ''[evidence uncertainty=partial]'' @ [CHR 0x0A] @ ''- fact: matches=3'' @ after"
proof -
  let ?r = "\<lparr>to_content = ''hello'', to_success = True, to_metadata = Some (JObject [(''evidence'', JNull)])\<rparr>"
  let ?ev = "\<lparr>ev_facts = [\<lparr>ef_key = ''matches'', ef_value = ''3''\<rparr>], ev_citations = [], ev_uncertainty = Partial\<rparr>"
  have "from_metadata plain_context (to_metadata ?r) = Some ?ev"
    by (simp add: from_metadata_def plain_context_def)
  from evidence_survives_compaction [OF this] trim_hello
  have "\<exists>before after. compact_tool_result_for_context plain_context ''m'' ''grep_files'' ?r =
      before @ format_ledger ?ev @ after"
    by (simp add: compact_subagent_tool_result_for_context_def)
  then show ?thesis by (simp add: format_ledger_def)
qed

end
