(* ===== verification/Tool_Phase.thy ===== *)
theory Tool_Phase
  imports Tool_Catalog Tool_Context Error_Taxonomy Outer_Loop
begin

text \<open>
  The tool phase of a turn step: \<open>run_tool_execution_phase\<close> of \<open>core/src/engine/turn_loop/tool_phase.rs\<close>,
  with the checks of a call and the texts of errors in \<open>dispatch.rs\<close>, the events of composite tools
  (\<open>composite_tool_events.rs\<close>) and the errors as envelopes (\<open>error_taxonomy.rs\<close>). The phase plans the
  calls of the model, has them executed, and gives every result to the model, the log, the loop guard and the turn.

  A host's answers are fields of \<open>phase_env\<close>: after how many milliseconds an outcome came, what the
  long-horizon plan adds to a result, the run of the scratchpad, the events that the execution itself logs
  (resolved approvals, stage gates), and what the capacity checkpoint decides. What the phase only tells
  observers (the working set, the language server, audit lines) is left out.
\<close>

section \<open>The checks of a call\<close>

record tool_use_state =
  tu_id :: string
  tu_name :: string
  tu_input :: json
  tu_caller :: "tool_caller option"
  tu_input_buffer :: string
  tu_arg_parse_error :: "string option"

definition caller_type_for_tool_use :: "tool_caller option \<Rightarrow> string" where
  "caller_type_for_tool_use caller = (case caller of None \<Rightarrow> ''direct'' | Some c \<Rightarrow> caller_type c)"

definition caller_allowed_for_tool :: "tool_caller option \<Rightarrow> catalog_tool option \<Rightarrow> bool" where
  "caller_allowed_for_tool caller tool_def \<longleftrightarrow>
     (let requested = caller_type_for_tool_use caller in
      case Option.bind tool_def ct_callers of
        Some allowed \<Rightarrow> if allowed = [] then requested = ''direct'' else requested \<in> set allowed
      | None \<Rightarrow> requested = ''direct'')"

fun format_tool_error :: "tool_error \<Rightarrow> string \<Rightarrow> string" where
  "format_tool_error (tool_error.InvalidInput msg) tool =
     ''Invalid input for tool '' @ in_quotes tool @ '': '' @ msg"
| "format_tool_error (MissingField field) tool =
     ''Tool '' @ in_quotes tool @ '' is missing required field '' @ in_quotes field"
| "format_tool_error (PathEscape path) tool =
     ''Path escapes workspace: '' @ path @ ''. Use a workspace-relative path or enable trust mode.''"
| "format_tool_error (ExecutionFailed msg) tool = msg"
| "format_tool_error (ToolTimeout seconds) tool =
     ''Tool '' @ in_quotes tool @ '' timed out after '' @ show_nat (unat seconds) @
     ''s. Try a narrower scope or a longer timeout.''"
| "format_tool_error (NotAvailable msg) tool =
     (let lower = to_ascii_lowercase msg in
      if str_contains lower ''current tool catalog'' \<or> str_contains lower ''did you mean:'' then msg
      else ''Tool '' @ in_quotes tool @ '' is not available: '' @ msg @
        ''. Check mode, feature flags, or tool name.'')"
| "format_tool_error (PermissionDenied msg) tool =
     ''Tool '' @ in_quotes tool @ '' was denied: '' @ msg @ ''. Adjust approval mode or request permission.''"

fun tool_error_envelope :: "tool_error \<Rightarrow> error_envelope" where
  "tool_error_envelope (tool_error.InvalidInput msg) =
     new_envelope error_category.InvalidInput SevError False ''tool_invalid_input'' msg"
| "tool_error_envelope (MissingField field) =
     new_envelope error_category.InvalidInput SevError False ''tool_missing_field''
       (''Missing required field: '' @ field)"
| "tool_error_envelope (PathEscape path) =
     new_envelope Authorization SevError False ''tool_path_escape'' (''Path escapes workspace: '' @ path)"
| "tool_error_envelope (ExecutionFailed msg) = new_envelope ErrTool SevError True ''tool_execution_failed'' msg"
| "tool_error_envelope (ToolTimeout seconds) =
     new_envelope ErrTimeout SevWarning True ''tool_timeout''
       (''Tool timed out after '' @ show_nat (unat seconds) @ ''s'')"
| "tool_error_envelope (NotAvailable msg) = new_envelope ErrState SevError False ''tool_not_available'' msg"
| "tool_error_envelope (PermissionDenied msg) =
     new_envelope Authorization SevError False ''tool_permission_denied'' msg"

definition should_stop_after_plan_tool :: "bool \<Rightarrow> string \<Rightarrow> tool_error + tool_result \<Rightarrow> bool" where
  "should_stop_after_plan_tool is_plan_mode tool r \<longleftrightarrow> is_plan_mode \<and> tool = ''update_plan'' \<and> \<not> isl r"

definition is_scratchpad_write_tool :: "string \<Rightarrow> bool" where
  "is_scratchpad_write_tool name \<longleftrightarrow>
     name \<in> {''scratchpad_init'', ''scratchpad_append'', ''scratchpad_set_area'', ''scratchpad_defer_remaining'',
             ''scratchpad_verify_note'', ''scratchpad_import_agent''}"

text \<open>The texts of the loop guard.\<close>

definition block_message :: "string \<Rightarrow> u32 \<Rightarrow> string" where
  "block_message tool n =
     ''Blocked: this exact call ('' @ quoted tool @ '' with these arguments) has already run '' @
     show_nat (unat n) @ '' times this turn. Stop retrying it unchanged. '' @
     ''Either change the arguments or pick a different tool.''"

definition halt_message :: "string \<Rightarrow> u32 \<Rightarrow> string" where
  "halt_message tool failures =
     ''Stop retrying '' @ quoted tool @ '' - it has failed '' @ show_nat (unat failures) @
     '' consecutive times. Choose a different approach.''"

definition warn_message :: "string \<Rightarrow> u32 \<Rightarrow> string" where
  "warn_message tool failures =
     ''Tool '' @ quoted tool @ '' has failed '' @ show_nat (unat failures) @ '' consecutive times this turn.''"

section \<open>The phase\<close>

record phase_env =
  pe_ext :: externals
  pe_tables :: text_tables
  pe_context :: context_env
  pe_policy :: policy_context
  pe_names :: "string list option"
  pe_exec :: exec_env
  pe_shadow :: scheduler_shadow_stats
  pe_mode :: turn_loop_mode
  pe_model :: string
  pe_gate_events :: "exec_state \<Rightarrow> exec_state \<Rightarrow> kernel_event list"
  pe_run_id :: "nat \<Rightarrow> string option"
  pe_suffix :: "nat \<Rightarrow> string option"
  pe_millis :: "nat \<Rightarrow> nat"
  pe_checkpoint :: "nat \<Rightarrow> u32 \<Rightarrow> bool"

record phase_state =
  ps_turn :: turn_context
  ps_guard :: loop_guard
  ps_catalog :: "catalog_tool list"
  ps_exec :: exec_state
  ps_log :: "kernel_event list"
  ps_messages :: "message list"
  ps_status :: "string list"

definition log_event :: "kernel_event \<Rightarrow> phase_state \<Rightarrow> phase_state" where
  "log_event e s = s\<lparr>ps_log := ps_log s @ [e]\<rparr>"

definition send_status :: "string \<Rightarrow> phase_state \<Rightarrow> phase_state" where
  "send_status msg s = s\<lparr>ps_status := ps_status s @ [msg]\<rparr>"

subsection \<open>Planning\<close>

definition maybe_activate_deferred_tool :: "string \<Rightarrow> phase_state \<Rightarrow> phase_state \<times> bool" where
  "maybe_activate_deferred_tool name s =
     (case maybe_activate_requested_deferred_tool name (ps_catalog s) (es_active_tools (ps_exec s)) of
        (active, b) \<Rightarrow> (s\<lparr>ps_exec := (ps_exec s)\<lparr>es_active_tools := active\<rparr>\<rparr>, b))"

definition activated_event :: "string \<Rightarrow> phase_state \<Rightarrow> kernel_event" where
  "activated_event name s = DeferredToolActivated (tc_id (ps_turn s)) (tc_step (ps_turn s)) name"

definition load_deferred :: "string \<Rightarrow> string \<Rightarrow> phase_state \<Rightarrow> phase_state" where
  "load_deferred name msg s =
     (case maybe_activate_deferred_tool name s of
        (s', True) \<Rightarrow> log_event (activated_event name s') (send_status msg s')
      | (s', False) \<Rightarrow> s')"

text \<open>The tool that is meant: the state after the activations, its name, and its definition.\<close>

definition find_definition ::
  "phase_env \<Rightarrow> phase_state \<Rightarrow> string \<Rightarrow> phase_state \<times> string \<times> catalog_tool option" where
  "find_definition env s name =
     (let lookup = (\<lambda>n. List.find (\<lambda>t. ct_name t = n) (ps_catalog s));
          s1 = load_deferred name (''Auto-loaded deferred tool '' @ in_quotes name @ '' after model request.'') s in
      case lookup name of
        Some t \<Rightarrow> (s1, name, Some t)
      | None \<Rightarrow>
          (case resolve_hallucinated_tool_name (pe_tables env) (pe_names env) name (ps_catalog s) of
             None \<Rightarrow> (s1, name, None)
           | Some canonical \<Rightarrow>
               (case lookup canonical of
                  None \<Rightarrow> (s1, name, None)
                | Some t \<Rightarrow>
                    (load_deferred canonical (''Auto-loaded deferred tool '' @ in_quotes canonical @
                        '' after resolving '' @ in_quotes canonical @ ''.'') s1, canonical, Some t))))"

definition blocked_reason :: "phase_state \<Rightarrow> string \<Rightarrow> catalog_tool option \<Rightarrow> tool_use_state \<Rightarrow> tool_error option" where
  "blocked_reason s name tool_def u =
     (case tu_arg_parse_error u of
        Some e \<Rightarrow> Some (tool_error.InvalidInput e)
      | None \<Rightarrow>
          if \<not> caller_allowed_for_tool (tu_caller u) tool_def then
            Some (PermissionDenied (''Tool '' @ in_quotes name @ '' does not allow caller '' @
              in_quotes (caller_type_for_tool_use (tu_caller u))))
          else if tool_def = None \<and> \<not> is_mcp_tool_name name \<and> name \<noteq> CODE_EXECUTION_TOOL_NAME \<and>
            \<not> is_tool_search_tool name then
            Some (NotAvailable (missing_tool_error_message name (ps_catalog s)))
          else None)"

definition sets_area_deferred :: "string \<Rightarrow> json \<Rightarrow> bool" where
  "sets_area_deferred name input \<longleftrightarrow> name = ''scratchpad_set_area'' \<and> str_field input ''status'' = Some ''deferred''"

definition guard_answer :: "string \<Rightarrow> u32 \<Rightarrow> tool_result" where
  "guard_answer tool n =
     (result_success (block_message tool n))
       \<lparr>to_metadata := Some (JObject [(''loop_guard'', JString ''identical_tool_call'')])\<rparr>"

definition check_attempt ::
  "phase_env \<Rightarrow> phase_state \<Rightarrow> string \<Rightarrow> string \<Rightarrow> json \<Rightarrow> phase_state \<times> tool_result option" where
  "check_attempt env s call_id name input =
     (case record_attempt (pe_ext env) (ps_guard s) name input of
        (g, Proceed) \<Rightarrow> (s\<lparr>ps_guard := g\<rparr>, None)
      | (g, Block tool n) \<Rightarrow>
          (log_event (LoopGuardTriggered (tc_id (ps_turn s)) call_id ''identical_tool_call'') (s\<lparr>ps_guard := g\<rparr>),
           Some (guard_answer tool n)))"

definition no_approval_meta :: tool_plan_approval_meta where
  "no_approval_meta =
     \<lparr>am_approval_required = False, am_approval_description = ''Tool execution requires approval'',
      am_supports_parallel = False, am_read_only = False\<rparr>"

definition plan_use :: "phase_env \<Rightarrow> nat \<Rightarrow> phase_state \<Rightarrow> nat \<Rightarrow> tool_use_state \<Rightarrow> phase_state \<times> tool_plan" where
  "plan_use env batch s index u =
     (case find_definition env s (tu_name u) of
        (s1, name, tool_def) \<Rightarrow>
          (let interactive = (tu_name u = ''exec_shell'' \<and> optional_bool (tu_input u) ''interactive'' False \<or>
                 tu_name u = REQUEST_USER_INPUT_NAME);
               reason = blocked_reason s1 name tool_def u;
               meta = (if reason = None then resolve_tool_plan_approval_meta (pe_policy env) name (tu_input u)
                       else no_approval_meta);
               batch_error = (if reason = None \<and> sets_area_deferred name (tu_input u)
                              then scratchpad_defer_set_area_batch_error batch else None);
               s2 = (if batch_error \<noteq> None
                     then log_event (LoopGuardTriggered (tc_id (ps_turn s1)) (tu_id u) ''deferred_set_area_batch'') s1
                     else s1);
               blocked = (case reason of Some e \<Rightarrow> Some e | None \<Rightarrow> batch_error)
           in case (if blocked = None then check_attempt env s2 (tu_id u) name (tu_input u) else (s2, None)) of
             (s3, guard) \<Rightarrow>
               (s3, \<lparr>xp_index = index, xp_id = tu_id u, xp_name = name, xp_input = tu_input u,
                     xp_interactive = interactive, xp_approval_required = am_approval_required meta,
                     xp_supports_parallel = am_supports_parallel meta, xp_read_only = am_read_only meta,
                     xp_caller = tu_caller u, xp_approval_description = am_approval_description meta,
                     xp_blocked_error = blocked, xp_guard_result = guard\<rparr>)))"

fun plan_uses ::
  "phase_env \<Rightarrow> nat \<Rightarrow> phase_state \<Rightarrow> nat \<Rightarrow> tool_use_state list \<Rightarrow> phase_state \<times> tool_plan list" where
  "plan_uses env batch s i [] = (s, [])"
| "plan_uses env batch s i (u # us) =
     (case plan_use env batch s i u of
        (s1, plan) \<Rightarrow> (case plan_uses env batch s1 (i + 1) us of (s2, plans) \<Rightarrow> (s2, plan # plans)))"

definition plan_events :: "phase_env \<Rightarrow> turn_context \<Rightarrow> tool_plan \<Rightarrow> kernel_event list" where
  "plan_events env t plan =
     [ToolCallPlanned (tc_id t) (tc_step t) (xp_id plan) (xp_name plan) (tt_json_text (pe_tables env) (xp_input plan))
        (policy_decision_new (xp_approval_required plan) (xp_supports_parallel plan) (xp_read_only plan)),
      ToolCallStarted (tc_id t) (xp_id plan) 0]"

subsection \<open>Outcomes\<close>

record phase_tally =
  pt_errors :: nat
  pt_categories :: "error_category list"
  pt_stop :: bool
  pt_halt :: "string option"

definition note_outcome :: "string \<Rightarrow> string \<Rightarrow> bool \<Rightarrow> phase_state \<times> phase_tally \<Rightarrow> phase_state \<times> phase_tally" where
  "note_outcome call_id name ok st =
     (case st of (s, t) \<Rightarrow>
        (case record_outcome (ps_guard s) name ok of
           (g, outcome_decision.Continue) \<Rightarrow> (s\<lparr>ps_guard := g\<rparr>, t)
         | (g, Warn tool n) \<Rightarrow> (send_status (warn_message tool n) (s\<lparr>ps_guard := g\<rparr>), t)
         | (g, Halt tool n) \<Rightarrow>
             (log_event (LoopGuardTriggered (tc_id (ps_turn s)) call_id ''failure_halt'') (s\<lparr>ps_guard := g\<rparr>),
              t\<lparr>pt_halt := Some (case pt_halt t of Some m \<Rightarrow> m | None \<Rightarrow> halt_message tool n)\<rparr>)))"

definition on_audit_scratchpad_bind_success :: "phase_env \<Rightarrow> nat \<Rightarrow> string \<Rightarrow> phase_state \<Rightarrow> phase_state" where
  "on_audit_scratchpad_bind_success env i name s =
     (if \<not> is_scratchpad_write_tool name \<or> pe_run_id env i = None then s
      else case activate_audit_subagent_tools (ps_catalog s) (pe_mode env) (pe_run_id env i)
             (es_active_tools (ps_exec s)) of
        (catalog, active) \<Rightarrow>
          s\<lparr>ps_catalog := catalog, ps_exec := (ps_exec s)\<lparr>es_active_tools := active\<rparr>\<rparr>)"

definition result_message :: "string \<Rightarrow> string \<Rightarrow> bool option \<Rightarrow> message" where
  "result_message call_id text is_error =
     \<lparr>role = ''user'', content = [ToolResult call_id text is_error None]\<rparr>"

definition composite_event :: "string \<Rightarrow> string \<Rightarrow> nat \<Rightarrow> json \<Rightarrow> kernel_event" where
  "composite_event turn_id parent idx step =
     (let tool = (case str_field step ''tool'' of Some n \<Rightarrow> n | None \<Rightarrow> ''<unknown>'') in
      ToolCallFinished turn_id (parent @ '':step:'' @ show_nat idx) tool
        (if optional_bool step ''success'' False then Success
         else ToolError (case str_field step ''error'' of Some e \<Rightarrow> e | None \<Rightarrow> ''composite step failed''))
        (of_nat (case Option.bind (json_get step ''duration_ms'') as_u64 of Some n \<Rightarrow> n | None \<Rightarrow> 0))
        (tool_writes_state tool)
        (summarize_text (case str_field step ''preview'' of Some p \<Rightarrow> p | None \<Rightarrow> []) 512) [])"

definition composite_step_events :: "string \<Rightarrow> string \<Rightarrow> json option \<Rightarrow> kernel_event list" where
  "composite_step_events turn_id parent metadata =
     (case Option.bind metadata (\<lambda>m. Option.bind (json_get m ''composite_steps'') as_array) of
        Some steps \<Rightarrow> map (\<lambda>(idx, step). composite_event turn_id parent idx step) (enumerate 0 steps)
      | None \<Rightarrow> [])"

definition finished_event :: "string \<Rightarrow> turn_tool_call \<Rightarrow> string \<Rightarrow> kernel_event" where
  "finished_event turn_id call session_content =
     ToolCallFinished turn_id (call_call_id call) (call_name call)
       (if call_result call \<noteq> None then Success
        else ToolError (case call_error call of Some e \<Rightarrow> e | None \<Rightarrow> []))
       (case call_duration call of Some d \<Rightarrow> of_nat d | None \<Rightarrow> 0)
       (tool_writes_state (call_name call))
       (case (case call_result call of Some r \<Rightarrow> Some r | None \<Rightarrow> call_error call) of
          Some r \<Rightarrow> summarize_text r 512 | None \<Rightarrow> [])
       session_content"

text \<open>A result: the guard hears of it, the model sees it, the turn keeps it.\<close>

definition take_result ::
  "phase_env \<Rightarrow> nat \<Rightarrow> exec_outcome \<Rightarrow> tool_result \<Rightarrow> phase_state \<times> phase_tally \<Rightarrow> phase_state \<times> phase_tally" where
  "take_result env i o1 output st =
     (let name = oc_name o1;
          result_text = to_content output @ (case pe_suffix env i of Some suf \<Rightarrow> suf | None \<Rightarrow> []);
          bound = (case st of (s, t) \<Rightarrow>
             (if to_success output \<and> is_audit_scratchpad_bind_tool name
              then on_audit_scratchpad_bind_success env i name s else s, t)) in
      case note_outcome (oc_id o1) name (to_success output) bound of
        (s1, t1) \<Rightarrow>
          (let s2 = (if to_success output \<and> is_state_mutating_tool name
                     then s1\<lparr>ps_guard := note_state_changed (ps_guard s1)\<rparr> else s1);
               shown = compact_tool_result_for_context (pe_context env) (pe_model env) name
                         (output\<lparr>to_content := result_text\<rparr>);
               call = set_result (turn_tool_call_new (oc_id o1) name (oc_input o1)) result_text (pe_millis env i);
               turn_id = tc_id (ps_turn s2)
           in (s2\<lparr>ps_messages := ps_messages s2 @ [result_message (oc_id o1) shown None],
                  ps_log := ps_log s2 @ finished_event turn_id call shown #
                    composite_step_events turn_id (oc_id o1) (to_metadata output),
                  ps_turn := record_tool_call (ps_turn s2) call\<rparr>, t1)))"

definition take_error ::
  "phase_env \<Rightarrow> nat \<Rightarrow> exec_outcome \<Rightarrow> tool_error \<Rightarrow> phase_state \<times> phase_tally \<Rightarrow> phase_state \<times> phase_tally" where
  "take_error env i o1 e st =
     (case note_outcome (oc_id o1) (oc_name o1) False st of
        (s1, t1) \<Rightarrow>
          (let err = format_tool_error e (oc_name o1);
               shown = ''Error: '' @ err;
               call = set_error (turn_tool_call_new (oc_id o1) (oc_name o1) (oc_input o1)) err (pe_millis env i)
           in (s1\<lparr>ps_messages := ps_messages s1 @ [result_message (oc_id o1) shown (Some True)],
                  ps_log := ps_log s1 @ [finished_event (tc_id (ps_turn s1)) call shown],
                  ps_turn := record_tool_call (ps_turn s1) call\<rparr>,
               t1\<lparr>pt_errors := pt_errors t1 + 1,
                  pt_categories := pt_categories t1 @ [ee_category (tool_error_envelope e)]\<rparr>)))"

definition take_outcome ::
  "phase_env \<Rightarrow> nat \<Rightarrow> exec_outcome \<Rightarrow> phase_state \<times> phase_tally \<Rightarrow> phase_state \<times> phase_tally" where
  "take_outcome env i o1 st =
     (case (case oc_result o1 of
              Inr output \<Rightarrow> take_result env i o1 output st
            | Inl e \<Rightarrow> take_error env i o1 e st) of
        (s1, t1) \<Rightarrow>
          (s1, t1\<lparr>pt_stop := pt_stop t1 \<or>
             should_stop_after_plan_tool (pe_mode env = turn_loop_mode.Plan) (oc_name o1) (oc_result o1)\<rparr>))"

fun take_outcomes ::
  "phase_env \<Rightarrow> nat \<Rightarrow> exec_outcome list \<Rightarrow> phase_state \<times> phase_tally \<Rightarrow> phase_state \<times> phase_tally" where
  "take_outcomes env i [] st = st"
| "take_outcomes env i (o1 # os) st = take_outcomes env (i + 1) os (take_outcome env i o1 st)"

text \<open>
  The calls planned and executed: the state, the plans, and their outcomes; \<open>None\<close> is a panic.
\<close>

definition run_plans ::
  "phase_env \<Rightarrow> phase_state \<Rightarrow> tool_use_state list \<Rightarrow> (phase_state \<times> tool_plan list \<times> exec_outcome list) option" where
  "run_plans env s uses =
     (let wants_pool = list_ex (\<lambda>u. is_mcp_tool_name (tu_name u)) uses;
          pool_error = (if wants_pool then ee_ensure_pool (pe_exec env) else None);
          s0 = (case pool_error of Some e \<Rightarrow> send_status (tool_error_display e) s | None \<Rightarrow> s);
          batch = length (filter (\<lambda>u. sets_area_deferred (tu_name u) (tu_input u)) uses)
      in case plan_uses env batch s0 0 uses of
        (s1, plans) \<Rightarrow>
          (let exec = (pe_exec env)
                 \<lparr>ee_search := (\<lambda>name input. tool_search (pe_tables env) name input (ps_catalog s1)),
                  ee_mcp_pool := wants_pool \<and> pool_error = None\<rparr>
           in case execute_tool_plans exec (ps_exec s1) (pe_shadow env) plans of
             None \<Rightarrow> None
           | Some (x, os) \<Rightarrow>
               Some (s1\<lparr>ps_exec := x,
                   ps_log := ps_log s1 @ concat (map (plan_events env (ps_turn s1)) plans) @
                     pe_gate_events env (ps_exec s1) x\<rparr>, plans, os)))"

text \<open>The whole phase, with the renamed calls. \<open>consecutive\<close> is the number of steps in a row that had errors.\<close>

definition no_tally :: phase_tally where
  "no_tally = \<lparr>pt_errors = 0, pt_categories = [], pt_stop = False, pt_halt = None\<rparr>"

definition tool_phase ::
  "phase_env \<Rightarrow> phase_state \<Rightarrow> u32 \<Rightarrow> tool_use_state list \<Rightarrow>
   (phase_state \<times> tool_use_state list \<times> tool_phase_outcome) option" where
  "tool_phase env s consecutive uses =
     (case run_plans env s uses of
        None \<Rightarrow> None
      | Some (s2, plans, os) \<Rightarrow>
          (case take_outcomes env 0 os (s2, no_tally) of
             (s3, t) \<Rightarrow>
               Some (case pt_halt t of Some msg \<Rightarrow> send_status msg s3 | None \<Rightarrow> s3,
                 map2 (\<lambda>u plan. u\<lparr>tu_name := xp_name plan\<rparr>) uses plans,
                 \<lparr>tp_step_error_count = pt_errors t, tp_step_error_categories = pt_categories t,
                  tp_break_outer_loop = pt_stop t \<or> pt_halt t \<noteq> None,
                  tp_loop_guard_halted = pt_halt t \<noteq> None,
                  tp_continue_outer_loop = pe_checkpoint env (pt_errors t) consecutive\<rparr>)))"

section \<open>Every call gets one result\<close>

lemma load_deferred_keeps [simp]:
  "ps_messages (load_deferred name msg s) = ps_messages s" "ps_guard (load_deferred name msg s) = ps_guard s"
  "ps_turn (load_deferred name msg s) = ps_turn s" "ps_catalog (load_deferred name msg s) = ps_catalog s"
  "es_log (ps_exec (load_deferred name msg s)) = es_log (ps_exec s)"
  "es_cache (ps_exec (load_deferred name msg s)) = es_cache (ps_exec s)"
  "es_approvals (ps_exec (load_deferred name msg s)) = es_approvals (ps_exec s)"
  "es_inbox (ps_exec (load_deferred name msg s)) = es_inbox (ps_exec s)"
  by (simp_all add: load_deferred_def maybe_activate_deferred_tool_def log_event_def send_status_def
      split: prod.split bool.split)

lemma find_definition_keeps:
  assumes "find_definition env s name = (s', name', d)"
  shows "ps_messages s' = ps_messages s" "ps_guard s' = ps_guard s" "ps_turn s' = ps_turn s"
    "ps_catalog s' = ps_catalog s"
  using assms by (auto simp: find_definition_def Let_def split: option.splits)

lemma check_attempt_keeps:
  assumes "check_attempt env s call_id name input = (s', r)"
  shows "ps_messages s' = ps_messages s" "ps_turn s' = ps_turn s" "ps_catalog s' = ps_catalog s"
    "ps_exec s' = ps_exec s"
    "ps_guard s' = fst (record_attempt (pe_ext env) (ps_guard s) name input)"
    "r = None \<longleftrightarrow> \<not> is_Block (snd (record_attempt (pe_ext env) (ps_guard s) name input))"
  using assms by (auto simp: check_attempt_def log_event_def split: prod.splits attempt_decision.splits)

lemma planned:
  assumes "plan_use env batch s i u = (s', plan)" and "find_definition env s (tu_name u) = (s1, name, d)"
  shows "xp_index plan = i \<and> xp_id plan = tu_id u \<and> xp_input plan = tu_input u \<and> xp_name plan = name"
    and "xp_blocked_error plan = None \<Longrightarrow> blocked_reason s1 name d u = None \<and>
      xp_approval_required plan =
        am_approval_required (resolve_tool_plan_approval_meta (pe_policy env) name (tu_input u)) \<and>
      check_attempt env s1 (tu_id u) name (tu_input u) = (s', xp_guard_result plan)"
    and "xp_blocked_error plan \<noteq> None \<Longrightarrow> xp_guard_result plan = None \<and>
      s' \<in> {s1, log_event (LoopGuardTriggered (tc_id (ps_turn s1)) (tu_id u) ''deferred_set_area_batch'') s1}"
  using assms(1)
  by (cases "blocked_reason s1 name d u"; force simp: plan_use_def assms(2) Let_def split: prod.splits if_splits)+

lemma plan_use_keeps:
  assumes "plan_use env batch s i u = (s', plan)"
  shows "ps_messages s' = ps_messages s \<and> ps_turn s' = ps_turn s \<and> ps_catalog s' = ps_catalog s \<and>
    xp_index plan = i \<and> xp_id plan = tu_id u \<and> xp_input plan = tu_input u"
proof -
  obtain s1 name d where f: "find_definition env s (tu_name u) = (s1, name, d)" by (metis surj_pair)
  note plan = planned [OF assms f] and keeps = find_definition_keeps [OF f]
  show ?thesis
  proof (cases "xp_blocked_error plan")
    case None
    with plan(2) have "check_attempt env s1 (tu_id u) name (tu_input u) = (s', xp_guard_result plan)" by simp
    from check_attempt_keeps [OF this] plan(1) keeps show ?thesis by simp
  next
    case (Some e)
    with plan(1,3) keeps show ?thesis by (auto simp: log_event_def)
  qed
qed

lemma plan_uses_keep:
  "plan_uses env batch s i us = (s', plans) \<Longrightarrow>
     ps_messages s' = ps_messages s \<and> ps_turn s' = ps_turn s \<and> length plans = length us \<and>
     map xp_index plans = [i..<i + length us] \<and> map xp_id plans = map tu_id us \<and>
     map xp_input plans = map tu_input us"
proof (induction us arbitrary: s i plans)
  case (Cons u us)
  obtain s1 plan where p: "plan_use env batch s i u = (s1, plan)" by (metis surj_pair)
  obtain s2 ps where ps: "plan_uses env batch s1 (i + 1) us = (s2, ps)" by (metis surj_pair)
  have eq: "s' = s2" "plans = plan # ps" using Cons.prems p ps by simp_all
  show ?case using Cons.IH [OF ps [folded eq(1)]] plan_use_keeps [OF p] by (simp add: eq upt_conv_Cons del: upt_Suc)
qed simp

text \<open>What \<open>run_plans\<close> does, with the status message of an MCP pool that cannot be had left open.\<close>

definition executed :: "phase_env \<Rightarrow> phase_state \<Rightarrow> tool_plan list \<Rightarrow> exec_state \<Rightarrow> phase_state" where
  "executed env s1 plans x = s1\<lparr>ps_exec := x,
     ps_log := ps_log s1 @ concat (map (plan_events env (ps_turn s1)) plans) @ pe_gate_events env (ps_exec s1) x\<rparr>"

lemma run_plans_shape:
  obtains status batch s1 plans search pool where
    "plan_uses env batch (s\<lparr>ps_status := status\<rparr>) 0 uses = (s1, plans)"
    and "run_plans env s uses =
      map_option (\<lambda>(x, os). (executed env s1 plans x, plans, os))
        (execute_tool_plans ((pe_exec env)\<lparr>ee_search := search, ee_mcp_pool := pool\<rparr>) (ps_exec s1) (pe_shadow env) plans)"
proof -
  define wants_pool where "wants_pool = list_ex (\<lambda>u. is_mcp_tool_name (tu_name u)) uses"
  define pool_error where "pool_error = (if wants_pool then ee_ensure_pool (pe_exec env) else None)"
  define batch where "batch = length (filter (\<lambda>u. sets_area_deferred (tu_name u) (tu_input u)) uses)"
  define status where
    "status = ps_status s @ (case pool_error of Some e \<Rightarrow> [tool_error_display e] | None \<Rightarrow> [])"
  have s0: "(case pool_error of Some e \<Rightarrow> send_status (tool_error_display e) s | None \<Rightarrow> s) = s\<lparr>ps_status := status\<rparr>"
    by (simp add: status_def send_status_def split: option.split)
  obtain s1 plans where p: "plan_uses env batch (s\<lparr>ps_status := status\<rparr>) 0 uses = (s1, plans)" by (metis surj_pair)
  define search where "search = (\<lambda>name input. tool_search (pe_tables env) name input (ps_catalog s1))"
  have "run_plans env s uses = map_option (\<lambda>(x, os). (executed env s1 plans x, plans, os))
      (execute_tool_plans ((pe_exec env)\<lparr>ee_search := search, ee_mcp_pool := wants_pool \<and> pool_error = None\<rparr>)
        (ps_exec s1) (pe_shadow env) plans)"
    unfolding run_plans_def Let_def
    unfolding wants_pool_def [symmetric] unfolding pool_error_def [symmetric] unfolding s0 batch_def [symmetric] p
    by (simp add: search_def executed_def split: option.split prod.split)
  from p this show ?thesis by (rule that)
qed

lemma run_plans_parts:
  assumes "run_plans env s uses = Some (s2, plans, os)"
  obtains status batch s1 search pool x where
    "plan_uses env batch (s\<lparr>ps_status := status\<rparr>) 0 uses = (s1, plans)"
    and "execute_tool_plans ((pe_exec env)\<lparr>ee_search := search, ee_mcp_pool := pool\<rparr>) (ps_exec s1)
      (pe_shadow env) plans = Some (x, os)"
    and "s2 = executed env s1 plans x"
proof (rule run_plans_shape [of env s uses])
  fix status batch s1 ps search pool
  assume "plan_uses env batch (s\<lparr>ps_status := status\<rparr>) 0 uses = (s1, ps)"
    and "run_plans env s uses = map_option (\<lambda>(x, os). (executed env s1 ps x, ps, os))
      (execute_tool_plans ((pe_exec env)\<lparr>ee_search := search, ee_mcp_pool := pool\<rparr>) (ps_exec s1) (pe_shadow env) ps)"
  with assms show thesis by (auto intro: that)
qed

lemma planned_numbered: "plan_uses env batch s 0 uses = (s', plans) \<Longrightarrow> numbered (scheduled plans)"
  using plan_uses_keep [of env batch s 0 uses s' plans]
  by (simp add: numbered_def scheduled_def tool_execution_plan.defs comp_def)

lemma run_plans_total:
  "\<exists>s2 plans os. run_plans env s uses = Some (s2, plans, os) \<and> map xp_id plans = map tu_id uses \<and>
     map oc_id os = map tu_id uses \<and> map oc_name os = map xp_name plans \<and>
     ps_messages s2 = ps_messages s \<and> ps_turn s2 = ps_turn s"
proof (rule run_plans_shape [of env s uses])
  fix status batch s1 plans search pool
  assume p: "plan_uses env batch (s\<lparr>ps_status := status\<rparr>) 0 uses = (s1, plans)"
    and run: "run_plans env s uses = map_option (\<lambda>(x, os). (executed env s1 plans x, plans, os))
      (execute_tool_plans ((pe_exec env)\<lparr>ee_search := search, ee_mcp_pool := pool\<rparr>) (ps_exec s1) (pe_shadow env) plans)"
  from all_answered [OF planned_numbered [OF p]] obtain x os where
    "execute_tool_plans ((pe_exec env)\<lparr>ee_search := search, ee_mcp_pool := pool\<rparr>) (ps_exec s1) (pe_shadow env) plans =
      Some (x, os)" "map oc_id os = map xp_id plans" "map oc_name os = map xp_name plans" by blast
  with plan_uses_keep [OF p] run show ?thesis by (auto simp: executed_def)
qed

lemma note_outcome_keeps:
  assumes "note_outcome call_id name ok (s, t) = (s', t')"
  shows "ps_messages s' = ps_messages s" "ps_turn s' = ps_turn s"
    "ps_guard s' = fst (record_outcome (ps_guard s) name ok)"
    "ps_log s' = ps_log s @ (if is_Halt (snd (record_outcome (ps_guard s) name ok))
       then [LoopGuardTriggered (tc_id (ps_turn s)) call_id ''failure_halt''] else [])"
    "pt_halt t' = None \<longleftrightarrow> pt_halt t = None \<and> \<not> is_Halt (snd (record_outcome (ps_guard s) name ok))"
    "pt_errors t' = pt_errors t" "ps_exec s' = ps_exec s"
  using assms
  by (auto simp: note_outcome_def log_event_def send_status_def split: prod.splits outcome_decision.splits option.splits)

lemma on_bind_keeps [simp]:
  "ps_messages (on_audit_scratchpad_bind_success env i name s) = ps_messages s"
  "ps_turn (on_audit_scratchpad_bind_success env i name s) = ps_turn s"
  "ps_guard (on_audit_scratchpad_bind_success env i name s) = ps_guard s"
  "ps_log (on_audit_scratchpad_bind_success env i name s) = ps_log s"
  "es_log (ps_exec (on_audit_scratchpad_bind_success env i name s)) = es_log (ps_exec s)"
  by (auto simp: on_audit_scratchpad_bind_success_def split: prod.split)

text \<open>The call that a message of the session answers, and what the loop guard hears of an outcome.\<close>

definition answered_call :: "message \<Rightarrow> string option" where
  "answered_call m =
     (case content m of [ToolResult call_id _ _ _] \<Rightarrow> if role m = ''user'' then Some call_id else None | _ \<Rightarrow> None)"

definition succeeded :: "exec_outcome \<Rightarrow> bool" where
  "succeeded o1 \<longleftrightarrow> (case oc_result o1 of Inr r \<Rightarrow> to_success r | Inl _ \<Rightarrow> False)"

definition outcome_ops :: "exec_outcome \<Rightarrow> guard_op list" where
  "outcome_ops o1 =
     Outcome (oc_name o1) (succeeded o1) #
     (if succeeded o1 \<and> is_state_mutating_tool (oc_name o1) then [StateChanged] else [])"

text \<open>The events of an outcome: the call is finished, unless it failed with an error it counts as a success.\<close>

definition event_outcome :: "exec_outcome \<Rightarrow> tool_outcome" where
  "event_outcome o1 =
     (case oc_result o1 of Inr r \<Rightarrow> Success | Inl e \<Rightarrow> ToolError (format_tool_error e (oc_name o1)))"

definition outcome_metadata :: "exec_outcome \<Rightarrow> json option" where
  "outcome_metadata o1 = (case oc_result o1 of Inr r \<Rightarrow> to_metadata r | Inl e \<Rightarrow> None)"

definition outcome_text :: "phase_env \<Rightarrow> nat \<Rightarrow> exec_outcome \<Rightarrow> string" where
  "outcome_text env i o1 =
     (case oc_result o1 of
        Inr r \<Rightarrow> to_content r @ (case pe_suffix env i of Some suf \<Rightarrow> suf | None \<Rightarrow> [])
      | Inl e \<Rightarrow> format_tool_error e (oc_name o1))"

definition shown_outcome :: "phase_env \<Rightarrow> nat \<Rightarrow> exec_outcome \<Rightarrow> string" where
  "shown_outcome env i o1 =
     (case oc_result o1 of
        Inr r \<Rightarrow> compact_tool_result_for_context (pe_context env) (pe_model env) (oc_name o1)
          (r\<lparr>to_content := outcome_text env i o1\<rparr>)
      | Inl e \<Rightarrow> ''Error: '' @ outcome_text env i o1)"

definition outcome_message :: "phase_env \<Rightarrow> nat \<Rightarrow> exec_outcome \<Rightarrow> message" where
  "outcome_message env i o1 = result_message (oc_id o1) (shown_outcome env i o1)
     (if isl (oc_result o1) then Some True else None)"

definition outcome_call :: "phase_env \<Rightarrow> nat \<Rightarrow> exec_outcome \<Rightarrow> turn_tool_call" where
  "outcome_call env i o1 =
     (if isl (oc_result o1) then set_error else set_result)
       (turn_tool_call_new (oc_id o1) (oc_name o1) (oc_input o1)) (outcome_text env i o1) (pe_millis env i)"

lemma outcome_answers_call: "answered_call (outcome_message env i o1) = Some (oc_id o1)"
  by (simp add: outcome_message_def result_message_def answered_call_def)

lemma outcome_call_fields:
  "call_call_id (outcome_call env i o1) = oc_id o1" "call_name (outcome_call env i o1) = oc_name o1"
  by (simp_all add: outcome_call_def set_error_def set_result_def turn_tool_call_new_def)

lemma outcome_finished:
  "\<exists>d p. finished_event turn_id (outcome_call env i o1) text =
     ToolCallFinished turn_id (oc_id o1) (oc_name o1) (event_outcome o1) d (tool_writes_state (oc_name o1)) p text"
  by (cases "oc_result o1")
     (simp_all add: finished_event_def outcome_call_def outcome_text_def set_error_def set_result_def
       turn_tool_call_new_def event_outcome_def)

lemma take_outcome_effect:
  assumes "take_outcome env i o1 (s, t) = (s', t')"
  shows "ps_messages s' = ps_messages s @ [outcome_message env i o1]"
    and "ps_turn s' = record_tool_call (ps_turn s) (outcome_call env i o1)"
    and "ps_guard s' = foldl (guard_step (pe_ext env)) (ps_guard s) (outcome_ops o1)"
    and "pt_halt t' = None \<longleftrightarrow>
      pt_halt t = None \<and> \<not> is_Halt (snd (record_outcome (ps_guard s) (oc_name o1) (succeeded o1)))"
    and "ps_log s' = ps_log s @
      (if is_Halt (snd (record_outcome (ps_guard s) (oc_name o1) (succeeded o1)))
       then [LoopGuardTriggered (tc_id (ps_turn s)) (oc_id o1) ''failure_halt''] else []) @
      finished_event (tc_id (ps_turn s)) (outcome_call env i o1) (shown_outcome env i o1) #
      composite_step_events (tc_id (ps_turn s)) (oc_id o1) (outcome_metadata o1)"
    and "es_log (ps_exec s') = es_log (ps_exec s)"
    and "pt_errors t' = pt_errors t + (if isl (oc_result o1) then 1 else 0)"
proof -
  define s0 where "s0 = (case oc_result o1 of Inr r \<Rightarrow>
      if to_success r \<and> is_audit_scratchpad_bind_tool (oc_name o1)
      then on_audit_scratchpad_bind_success env i (oc_name o1) s else s | Inl _ \<Rightarrow> s)"
  have s0: "ps_messages s0 = ps_messages s" "ps_turn s0 = ps_turn s" "ps_guard s0 = ps_guard s" "ps_log s0 = ps_log s"
    "es_log (ps_exec s0) = es_log (ps_exec s)"
    by (simp_all add: s0_def split: sum.split)
  obtain s1 t1 where n: "note_outcome (oc_id o1) (oc_name o1) (succeeded o1) (s0, t) = (s1, t1)" by (metis surj_pair)
  note keeps = note_outcome_keeps [OF n, unfolded s0]
  have "s' = s1\<lparr>ps_guard := (if succeeded o1 \<and> is_state_mutating_tool (oc_name o1)
        then note_state_changed (ps_guard s1) else ps_guard s1),
      ps_messages := ps_messages s1 @ [outcome_message env i o1],
      ps_log := ps_log s1 @ finished_event (tc_id (ps_turn s1)) (outcome_call env i o1) (shown_outcome env i o1) #
        composite_step_events (tc_id (ps_turn s1)) (oc_id o1) (outcome_metadata o1),
      ps_turn := record_tool_call (ps_turn s1) (outcome_call env i o1)\<rparr> \<and> pt_halt t' = pt_halt t1 \<and>
    pt_errors t' = pt_errors t1 + (if isl (oc_result o1) then 1 else 0)"
  proof (cases "oc_result o1")
    case (Inl e)
    with n have "note_outcome (oc_id o1) (oc_name o1) False (s, t) = (s1, t1)" by (simp add: s0_def succeeded_def)
    with assms Inl show ?thesis
      by (simp add: take_outcome_def take_error_def Let_def succeeded_def outcome_message_def shown_outcome_def
          outcome_call_def outcome_metadata_def outcome_text_def composite_step_events_def) auto
  next
    case (Inr r)
    with n have "note_outcome (oc_id o1) (oc_name o1) (to_success r)
        (if to_success r \<and> is_audit_scratchpad_bind_tool (oc_name o1)
         then on_audit_scratchpad_bind_success env i (oc_name o1) s else s, t) = (s1, t1)"
      by (simp add: s0_def succeeded_def)
    with assms Inr show ?thesis
      by (simp add: take_outcome_def take_result_def Let_def succeeded_def outcome_message_def shown_outcome_def
          outcome_call_def outcome_metadata_def outcome_text_def) auto
  qed
  with keeps show "ps_messages s' = ps_messages s @ [outcome_message env i o1]"
    "ps_turn s' = record_tool_call (ps_turn s) (outcome_call env i o1)"
    "ps_guard s' = foldl (guard_step (pe_ext env)) (ps_guard s) (outcome_ops o1)"
    "pt_halt t' = None \<longleftrightarrow>
      pt_halt t = None \<and> \<not> is_Halt (snd (record_outcome (ps_guard s) (oc_name o1) (succeeded o1)))"
    "ps_log s' = ps_log s @
      (if is_Halt (snd (record_outcome (ps_guard s) (oc_name o1) (succeeded o1)))
       then [LoopGuardTriggered (tc_id (ps_turn s)) (oc_id o1) ''failure_halt''] else []) @
      finished_event (tc_id (ps_turn s)) (outcome_call env i o1) (shown_outcome env i o1) #
      composite_step_events (tc_id (ps_turn s)) (oc_id o1) (outcome_metadata o1)"
    "es_log (ps_exec s') = es_log (ps_exec s)"
    "pt_errors t' = pt_errors t + (if isl (oc_result o1) then 1 else 0)"
    by (simp_all add: outcome_ops_def s0)
qed

lemma map_enumerate: "map (\<lambda>x. f (snd x)) (enumerate i xs) = map f xs"
  by (induction xs arbitrary: i) simp_all

lemma take_outcomes_effect:
  "take_outcomes env i os (s, t) = (s', t') \<Longrightarrow>
     ps_messages s' = ps_messages s @ map (case_prod (outcome_message env)) (enumerate i os) \<and>
     tc_tool_calls (ps_turn s') =
       tc_tool_calls (ps_turn s) @ map (case_prod (outcome_call env)) (enumerate i os) \<and>
     ps_guard s' = foldl (guard_step (pe_ext env)) (ps_guard s) (concat (map outcome_ops os))"
proof (induction os arbitrary: i s t)
  case (Cons o1 os)
  obtain s1 t1 where 1: "take_outcome env i o1 (s, t) = (s1, t1)" by (metis surj_pair)
  with Cons.prems have "take_outcomes env (i + 1) os (s1, t1) = (s', t')" by simp
  from Cons.IH [OF this] take_outcome_effect(1-3) [OF 1] show ?case
    by (simp add: record_tool_call_def)
qed simp


section \<open>What the guard hears\<close>

definition plan_ops :: "tool_plan \<Rightarrow> guard_op list" where
  "plan_ops plan = (if xp_blocked_error plan = None then [Attempt (xp_name plan) (xp_input plan)] else [])"

lemma plan_use_guard:
  assumes "plan_use env batch s i u = (s', plan)"
  shows "ps_guard s' = foldl (guard_step (pe_ext env)) (ps_guard s) (plan_ops plan)"
    and "xp_guard_result plan \<noteq> None \<longleftrightarrow> xp_blocked_error plan = None \<and>
      is_Block (snd (record_attempt (pe_ext env) (ps_guard s) (xp_name plan) (xp_input plan)))"
proof -
  obtain s1 name d where f: "find_definition env s (tu_name u) = (s1, name, d)" by (metis surj_pair)
  note plan = planned [OF assms f] and keeps = find_definition_keeps [OF f]
  have "ps_guard s' = foldl (guard_step (pe_ext env)) (ps_guard s) (plan_ops plan) \<and>
    (xp_guard_result plan \<noteq> None \<longleftrightarrow> xp_blocked_error plan = None \<and>
      is_Block (snd (record_attempt (pe_ext env) (ps_guard s) (xp_name plan) (xp_input plan))))"
  proof (cases "xp_blocked_error plan")
    case None
    with plan(2) have c: "check_attempt env s1 (tu_id u) name (tu_input u) = (s', xp_guard_result plan)" by simp
    from check_attempt_keeps(5,6) [OF this] None plan(1) keeps show ?thesis by (simp add: plan_ops_def)
  next
    case (Some e)
    with plan(1,3) keeps show ?thesis by (auto simp: plan_ops_def log_event_def)
  qed
  then show "ps_guard s' = foldl (guard_step (pe_ext env)) (ps_guard s) (plan_ops plan)"
    and "xp_guard_result plan \<noteq> None \<longleftrightarrow> xp_blocked_error plan = None \<and>
      is_Block (snd (record_attempt (pe_ext env) (ps_guard s) (xp_name plan) (xp_input plan)))" by simp_all
qed

lemma plan_uses_guard:
  "plan_uses env batch s i us = (s', plans) \<Longrightarrow>
     ps_guard s' = foldl (guard_step (pe_ext env)) (ps_guard s) (concat (map plan_ops plans))"
proof (induction us arbitrary: s i plans)
  case (Cons u us)
  obtain s1 plan where p: "plan_use env batch s i u = (s1, plan)" by (metis surj_pair)
  obtain s2 ps where ps: "plan_uses env batch s1 (i + 1) us = (s2, ps)" by (metis surj_pair)
  have eq: "s' = s2" "plans = plan # ps" using Cons.prems p ps by simp_all
  show ?case using Cons.IH [OF ps [folded eq(1)]] plan_use_guard(1) [OF p] by (simp add: eq)
qed simp

text \<open>An outcome is the eighth failure in a row, or a later one.\<close>

definition halting :: "guard_op list \<Rightarrow> exec_outcome list \<Rightarrow> nat \<Rightarrow> bool" where
  "halting ops os k \<longleftrightarrow> \<not> succeeded (os ! k) \<and>
     7 \<le> failure_streak (oc_name (os ! k)) (rev (ops @ concat (map outcome_ops (take k os))))"

lemma take_outcomes_halt:
  "take_outcomes env i os (s, t) = (s', t') \<Longrightarrow> ps_guard s = run_guard (pe_ext env) ops \<Longrightarrow>
     pt_halt t' = None \<longleftrightarrow> pt_halt t = None \<and> (\<forall>k < length os. \<not> halting ops os k)"
proof (induction os arbitrary: i s t ops)
  case (Cons o1 os)
  obtain s1 t1 where 1: "take_outcome env i o1 (s, t) = (s1, t1)" by (metis surj_pair)
  with Cons.prems(1) have rest: "take_outcomes env (i + 1) os (s1, t1) = (s', t')" by simp
  note effect = take_outcome_effect [OF 1]
  have "ps_guard s1 = run_guard (pe_ext env) (ops @ outcome_ops o1)"
    by (simp add: effect(3) Cons.prems(2) run_guard_snoc)
  from Cons.IH [OF rest this] have "pt_halt t' = None \<longleftrightarrow> pt_halt t1 = None \<and>
      (\<forall>k < length os. \<not> halting ops (o1 # os) (Suc k))" by (simp add: halting_def)
  moreover have "pt_halt t1 = None \<longleftrightarrow> pt_halt t = None \<and> \<not> halting ops (o1 # os) 0"
    by (simp add: effect(4) Cons.prems(2) outcome_decides_history(1) halting_def)
  ultimately show ?case by (simp add: All_less_Suc2)
qed simp

text \<open>The history of a phase: the attempts of its plans, and what came out of them.\<close>

definition phase_ops :: "tool_plan list \<Rightarrow> exec_outcome list \<Rightarrow> guard_op list" where
  "phase_ops plans os = concat (map plan_ops plans) @ concat (map outcome_ops os)"

lemma run_plans_guard:
  assumes "run_plans env s uses = Some (s2, plans, os)"
  shows "ps_guard s2 = foldl (guard_step (pe_ext env)) (ps_guard s) (concat (map plan_ops plans))"
  using assms
proof (rule run_plans_parts)
  fix status batch s1 search pool x
  assume p: "plan_uses env batch (s\<lparr>ps_status := status\<rparr>) 0 uses = (s1, plans)"
    and s2: "s2 = executed env s1 plans x"
  from plan_uses_guard [OF p] show ?thesis by (simp add: s2 executed_def)
qed

lemma phase_guard:
  assumes "ps_guard s = run_guard (pe_ext env) ops" and "run_plans env s uses = Some (s2, plans, os)"
    and "tool_phase env s consecutive uses = Some (s', uses', out)"
  shows "ps_guard s' = run_guard (pe_ext env) (ops @ phase_ops plans os)"
    and "tp_loop_guard_halted out \<longleftrightarrow> (\<exists>k < length os. halting (ops @ concat (map plan_ops plans)) os k)"
proof -
  obtain s3 t where os: "take_outcomes env 0 os (s2, no_tally) = (s3, t)" by (metis surj_pair)
  have s2: "ps_guard s2 = run_guard (pe_ext env) (ops @ concat (map plan_ops plans))"
    using run_plans_guard [OF assms(2)] assms(1) by (simp add: run_guard_snoc)
  have "ps_guard s' = ps_guard s3" "tp_loop_guard_halted out \<longleftrightarrow> pt_halt t \<noteq> None"
    using assms(2,3) by (auto simp: tool_phase_def os send_status_def split: option.splits)
  with take_outcomes_effect [OF os] take_outcomes_halt [OF os s2] s2
  show "ps_guard s' = run_guard (pe_ext env) (ops @ phase_ops plans os)"
    "tp_loop_guard_halted out \<longleftrightarrow> (\<exists>k < length os. halting (ops @ concat (map plan_ops plans)) os k)"
    by (auto simp: run_guard_snoc phase_ops_def no_tally_def)
qed

text \<open>
  C6. When a phase stops the turn. For a guard with a history, the guard after a phase has the same history,
  followed by the attempts of the plans that nothing blocked and by the outcomes, with a change of the workspace
  after each success of a tool that writes. The phase halts the turn exactly when one of its outcomes is a failure
  after seven others of the same tool in a row in this history.
\<close>

theorem phase_halts_iff:
  assumes "ps_guard s = run_guard (pe_ext env) ops" and "run_plans env s uses = Some (s2, plans, os)"
    and "tool_phase env s consecutive uses = Some (s', uses', out)"
  shows "ps_guard s' = run_guard (pe_ext env) (ops @ phase_ops plans os) \<and>
    (tp_loop_guard_halted out \<longleftrightarrow> (\<exists>k < length os. \<not> succeeded (os ! k) \<and>
      7 \<le> failure_streak (oc_name (os ! k)) (rev (ops @ concat (map plan_ops plans) @
        concat (map outcome_ops (take k os))))))"
  using phase_guard [OF assms] by (simp add: halting_def)

section \<open>The same failing call, again and again\<close>

lemma run_plans_single:
  assumes "run_plans env s [u] = Some (s2, [plan], [o1])"
  shows "oc_name o1 = xp_name plan" and "xp_input plan = tu_input u"
    and "xp_guard_result plan \<noteq> None \<longleftrightarrow> xp_blocked_error plan = None \<and>
      is_Block (snd (record_attempt (pe_ext env) (ps_guard s) (xp_name plan) (xp_input plan)))"
    and "xp_guard_result plan = Some r \<Longrightarrow> to_success r"
proof -
  show "oc_name o1 = xp_name plan"
    using run_plans_total [of env s "[u]"] assms by auto
  obtain s0 batch s1 where p: "plan_uses env batch s0 0 [u] = (s1, [plan])" "ps_guard s0 = ps_guard s"
    by (rule run_plans_parts [OF assms]) (rule that, assumption, simp)
  then have plan: "plan_use env batch s0 0 u = (s1, plan)" by (auto split: prod.splits)
  show "xp_input plan = tu_input u" using plan_use_keeps [OF plan] by simp
  show "xp_guard_result plan \<noteq> None \<longleftrightarrow> xp_blocked_error plan = None \<and>
      is_Block (snd (record_attempt (pe_ext env) (ps_guard s) (xp_name plan) (xp_input plan)))"
    using plan_use_guard(2) [OF plan] p(2) by simp
  show "to_success r" if r: "xp_guard_result plan = Some r"
  proof -
    obtain s2 name d where f: "find_definition env s0 (tu_name u) = (s2, name, d)" by (metis surj_pair)
    have "xp_blocked_error plan = None" using plan_use_guard(2) [OF plan] r by simp
    with planned(2) [OF plan f] r have "check_attempt env s2 (tu_id u) name (tu_input u) = (s1, Some r)" by simp
    then show ?thesis
      by (auto simp: check_attempt_def guard_answer_def result_success_def split: prod.splits attempt_decision.splits)
  qed
qed

text \<open>
  A step that repeats a call: nothing but the loop guard holds it back, the guard's answer is its result, and
  when it runs it fails.
\<close>

definition fails_again :: "string \<Rightarrow> json \<Rightarrow> tool_plan \<Rightarrow> exec_outcome \<Rightarrow> bool" where
  "fails_again tool args plan o1 \<longleftrightarrow> xp_name plan = tool \<and> xp_input plan = args \<and> xp_blocked_error plan = None \<and>
     (case xp_guard_result plan of Some r \<Rightarrow> oc_result o1 = Inr r | None \<Rightarrow> \<not> succeeded o1)"

inductive hammered :: "externals \<Rightarrow> string \<Rightarrow> json \<Rightarrow> nat \<Rightarrow> phase_state \<Rightarrow> bool" for ext tool args where
  fresh: "ps_guard s = default_loop_guard \<Longrightarrow> hammered ext tool args 0 s"
| again: "hammered ext tool args n s \<Longrightarrow> pe_ext env = ext \<Longrightarrow> run_plans env s [u] = Some (s2, [plan], [o1]) \<Longrightarrow>
    fails_again tool args plan o1 \<Longrightarrow> tool_phase env s consecutive [u] = Some (s', us, out) \<Longrightarrow>
    hammered ext tool args (Suc n) s'"

lemma hammered_step:
  assumes "ps_guard s = run_guard ext ops"
    and "attempts_since_change ext (tool, hash_args ext args) (rev ops) = n mod 3" and "failure_streak tool (rev ops) = n mod 3"
    and "pe_ext env = ext" and "is_state_mutating_tool tool"
    and "run_plans env s [u] = Some (s2, [plan], [o1])" and "fails_again tool args plan o1"
  shows "xp_guard_result plan \<noteq> None \<longleftrightarrow> n mod 3 = 2"
    and "attempts_since_change ext (tool, hash_args ext args) (rev (ops @ phase_ops [plan] [o1])) = Suc n mod 3"
    and "failure_streak tool (rev (ops @ phase_ops [plan] [o1])) = Suc n mod 3"
    and "\<not> halting (ops @ plan_ops plan) [o1] 0"
proof -
  note single = run_plans_single [OF assms(6)]
  have plan: "xp_name plan = tool" "xp_input plan = args" "xp_blocked_error plan = None" "oc_name o1 = tool"
    using assms(7) single(1) by (simp_all add: fails_again_def)
  have blocked: "xp_guard_result plan \<noteq> None \<longleftrightarrow> 2 \<le> n mod 3"
    using single(3) attempt_blocks_history [of ext ops tool args] assms(1,2,4) plan by simp
  have small: "n mod 3 < 3" by simp
  from blocked small show iff: "xp_guard_result plan \<noteq> None \<longleftrightarrow> n mod 3 = 2" by auto
  have ok: "succeeded o1 \<longleftrightarrow> n mod 3 = 2"
    using assms(7) iff single(4) by (auto simp: fails_again_def succeeded_def split: option.splits)
  have ops: "rev (ops @ phase_ops [plan] [o1]) =
      (if n mod 3 = 2 then [StateChanged, Outcome tool True] else [Outcome tool False]) @ Attempt tool args # rev ops"
    using ok plan assms(5) by (auto simp: phase_ops_def plan_ops_def outcome_ops_def)
  from small have "Suc n mod 3 = (if n mod 3 = 2 then 0 else Suc (n mod 3))" by (simp add: mod_Suc)
  then show "attempts_since_change ext (tool, hash_args ext args) (rev (ops @ phase_ops [plan] [o1])) = Suc n mod 3"
    "failure_streak tool (rev (ops @ phase_ops [plan] [o1])) = Suc n mod 3"
    by (simp_all only: ops) (simp_all add: assms(2,3))
  show "\<not> halting (ops @ plan_ops plan) [o1] 0"
  proof -
    from small have "\<not> 7 \<le> n mod 3" by linarith
    then show ?thesis by (simp add: halting_def plan plan_ops_def assms(3))
  qed
qed

lemma hammered_history:
  assumes "hammered ext tool args n s" and "is_state_mutating_tool tool"
  shows "\<exists>ops. ps_guard s = run_guard ext ops \<and>
    attempts_since_change ext (tool, hash_args ext args) (rev ops) = n mod 3 \<and> failure_streak tool (rev ops) = n mod 3"
  using assms(1)
proof induction
  case (fresh s)
  then show ?case by (intro exI [of _ "[]"]) (simp add: run_guard_def)
next
  case (again n s env u s2 plan o1 consecutive s' us out)
  then obtain ops where ops: "ps_guard s = run_guard ext ops"
    "attempts_since_change ext (tool, hash_args ext args) (rev ops) = n mod 3" "failure_streak tool (rev ops) = n mod 3"
    by blast
  note step = hammered_step [OF ops again.hyps(2) assms(2) again.hyps(3,4)]
  have "ps_guard s' = run_guard ext (ops @ phase_ops [plan] [o1])"
    using phase_guard(1) [OF _ again.hyps(3,5)] ops(1) again.hyps(2) by simp
  with step(2,3) show ?case by blast
qed

text \<open>
  C36. A tool that writes is never stopped. The guard's answer to a repeated call counts as a success of the tool,
  and as a change of the workspace. A model that repeats one failing call of such a tool, with a new guard and step
  by step, is blocked at every third attempt only, and the turn is never halted: eight failures in a row do not occur.
\<close>

theorem hammering_never_halts:
  assumes "hammered ext tool args n s" and "is_state_mutating_tool tool" and "pe_ext env = ext"
    and "run_plans env s [u] = Some (s2, [plan], [o1])" and "fails_again tool args plan o1"
    and "tool_phase env s consecutive [u] = Some (s', us, out)"
  shows "\<not> tp_loop_guard_halted out \<and> (xp_guard_result plan \<noteq> None \<longleftrightarrow> n mod 3 = 2)"
proof -
  obtain ops where ops: "ps_guard s = run_guard ext ops"
    "attempts_since_change ext (tool, hash_args ext args) (rev ops) = n mod 3" "failure_streak tool (rev ops) = n mod 3"
    using hammered_history [OF assms(1,2)] by blast
  note step = hammered_step [OF ops assms(3,2,4,5)]
  with phase_guard(2) [OF _ assms(4,6)] ops(1) assms(3) show ?thesis by (auto simp: less_Suc_eq)
qed

section \<open>What runs was permitted\<close>

text \<open>The tool that a name means in a catalog.\<close>

definition meant :: "phase_env \<Rightarrow> catalog_tool list \<Rightarrow> string \<Rightarrow> string \<times> catalog_tool option" where
  "meant env catalog name =
     (case List.find (\<lambda>t. ct_name t = name) catalog of
        Some t \<Rightarrow> (name, Some t)
      | None \<Rightarrow>
          (case resolve_hallucinated_tool_name (pe_tables env) (pe_names env) name catalog of
             None \<Rightarrow> (name, None)
           | Some canonical \<Rightarrow>
               (case List.find (\<lambda>t. ct_name t = canonical) catalog of
                  None \<Rightarrow> (name, None) | Some t \<Rightarrow> (canonical, Some t))))"

lemma find_definition_meant:
  assumes "find_definition env s name = (s', name', d)"
  shows "meant env (ps_catalog s) name = (name', d)"
proof -
  have "snd (find_definition env s name) = meant env (ps_catalog s) name"
    by (simp add: find_definition_def meant_def Let_def split: option.split)
  with assms show ?thesis by simp
qed

definition same_consent :: "exec_state \<Rightarrow> exec_state \<Rightarrow> bool" where
  "same_consent x y \<longleftrightarrow> es_log x = es_log y \<and> es_cache x = es_cache y \<and> es_approvals x = es_approvals y \<and>
     es_inbox x = es_inbox y"

lemma plan_use_consent:
  assumes "plan_use env batch s i u = (s', plan)"
  shows "same_consent (ps_exec s') (ps_exec s)"
proof -
  obtain s1 name d where f: "find_definition env s (tu_name u) = (s1, name, d)" by (metis surj_pair)
  have "same_consent (ps_exec s1) (ps_exec s)"
    using f by (auto simp: find_definition_def Let_def same_consent_def split: option.splits)
  moreover have "ps_exec s' = ps_exec s1"
  proof (cases "xp_blocked_error plan")
    case None
    with planned(2) [OF assms f] show ?thesis by (auto dest: check_attempt_keeps(4))
  next
    case (Some e)
    with planned(3) [OF assms f] show ?thesis by (auto simp: log_event_def)
  qed
  ultimately show ?thesis by simp
qed

lemma plan_uses_consent:
  "plan_uses env batch s i us = (s', plans) \<Longrightarrow> same_consent (ps_exec s') (ps_exec s)"
proof (induction us arbitrary: s i plans)
  case (Cons u us)
  obtain s1 plan where p: "plan_use env batch s i u = (s1, plan)" by (metis surj_pair)
  obtain s2 ps where ps: "plan_uses env batch s1 (i + 1) us = (s2, ps)" by (metis surj_pair)
  have "s' = s2" using Cons.prems p ps by simp
  with Cons.IH [OF ps [folded this]] plan_use_consent [OF p] show ?case by (simp add: same_consent_def)
qed (simp add: same_consent_def)

text \<open>A use whose plan nothing blocks.\<close>

definition permitted_use :: "phase_env \<Rightarrow> catalog_tool list \<Rightarrow> tool_use_state \<Rightarrow> tool_plan \<Rightarrow> bool" where
  "permitted_use env catalog u plan \<longleftrightarrow>
     (\<exists>d. meant env catalog (tu_name u) = (xp_name plan, d) \<and> tu_arg_parse_error u = None \<and>
        caller_allowed_for_tool (tu_caller u) d \<and>
        (d = None \<longrightarrow> is_mcp_tool_name (xp_name plan) \<or> xp_name plan = CODE_EXECUTION_TOOL_NAME \<or>
           is_tool_search_tool (xp_name plan))) \<and>
     xp_approval_required plan =
       am_approval_required (resolve_tool_plan_approval_meta (pe_policy env) (xp_name plan) (tu_input u))"

lemma plan_use_permitted:
  assumes "plan_use env batch s i u = (s', plan)" and "xp_blocked_error plan = None"
  shows "permitted_use env (ps_catalog s) u plan"
proof -
  obtain s1 name d where f: "find_definition env s (tu_name u) = (s1, name, d)" by (metis surj_pair)
  note plan = planned(1) [OF assms(1) f] planned(2) [OF assms(1) f assms(2)]
  have "blocked_reason s1 name d u = None" using plan(2) by blast
  then have "tu_arg_parse_error u = None \<and> caller_allowed_for_tool (tu_caller u) d \<and>
      (d = None \<longrightarrow> is_mcp_tool_name name \<or> name = CODE_EXECUTION_TOOL_NAME \<or> is_tool_search_tool name)"
    by (auto simp: blocked_reason_def split: option.splits if_splits)
  with plan find_definition_meant [OF f] show ?thesis by (simp add: permitted_use_def)
qed

lemma plan_uses_permitted:
  "plan_uses env batch s i us = (s', plans) \<Longrightarrow> plan \<in> set plans \<Longrightarrow>
     \<exists>u \<in> set us. xp_id plan = tu_id u \<and> xp_input plan = tu_input u \<and>
       (xp_blocked_error plan = None \<longrightarrow> permitted_use env (ps_catalog s) u plan)"
proof (induction us arbitrary: s i plans)
  case (Cons u us)
  obtain s1 p1 where p: "plan_use env batch s i u = (s1, p1)" by (metis surj_pair)
  obtain s2 ps where ps: "plan_uses env batch s1 (i + 1) us = (s2, ps)" by (metis surj_pair)
  have eq: "s' = s2" "plans = p1 # ps" using Cons.prems p ps by simp_all
  note keeps = plan_use_keeps [OF p]
  show ?case
  proof (cases "plan = p1")
    case True
    with keeps plan_use_permitted [OF p] show ?thesis by auto
  next
    case False
    with Cons.prems(2) eq have "plan \<in> set ps" by simp
    from Cons.IH [OF ps [folded eq(1)] this] keeps show ?thesis by auto
  qed
qed simp

lemma take_outcomes_log:
  "take_outcomes env i os (s, t) = (s', t') \<Longrightarrow> es_log (ps_exec s') = es_log (ps_exec s)"
proof (induction os arbitrary: i s t)
  case (Cons o1 os)
  obtain s1 t1 where 1: "take_outcome env i o1 (s, t) = (s1, t1)" by (metis surj_pair)
  with Cons.prems have "take_outcomes env (i + 1) os (s1, t1) = (s', t')" by simp
  from Cons.IH [OF this] take_outcome_effect(6) [OF 1] show ?case by simp
qed simp

lemma phase_returns:
  "run_plans env s uses = Some (s2, plans, os) \<Longrightarrow> \<exists>s' uses' out. tool_phase env s consecutive uses = Some (s', uses', out)"
  by (simp add: tool_phase_def split: prod.split)

lemma phase_log:
  assumes "tool_phase env s consecutive uses = Some (s', uses', out)" and "run_plans env s uses = Some (s2, plans, os)"
  shows "es_log (ps_exec s') = es_log (ps_exec s2)"
proof -
  obtain s3 t where os: "take_outcomes env 0 os (s2, no_tally) = (s3, t)" by (metis surj_pair)
  show ?thesis
    using assms take_outcomes_log [OF os] by (auto simp: tool_phase_def os send_status_def split: option.splits)
qed


section \<open>Failures that the log does not show\<close>

text \<open>No call ends with an error in an event; a log that shows a halt has an event for it.\<close>

fun no_error_event :: "kernel_event \<Rightarrow> bool" where
  "no_error_event (ToolCallFinished _ _ _ outcome _ _ _ _) \<longleftrightarrow> outcome = Success"
| "no_error_event e \<longleftrightarrow> True"

definition log_grows :: "phase_state \<Rightarrow> phase_state \<Rightarrow> bool" where
  "log_grows s s' \<longleftrightarrow> (\<exists>new. ps_log s' = ps_log s @ new \<and> list_all no_error_event new)"

lemma log_grows_refl [simp]: "log_grows s s"
  by (simp add: log_grows_def)

lemma log_grows_trans [trans]: "log_grows s s' \<Longrightarrow> log_grows s' s'' \<Longrightarrow> log_grows s s''"
  by (auto simp: log_grows_def)

lemma log_event_grows: "no_error_event e \<Longrightarrow> log_grows s (log_event e s)"
  by (simp add: log_grows_def log_event_def)

lemma load_deferred_grows: "log_grows s (load_deferred name msg s)"
  by (auto simp: load_deferred_def maybe_activate_deferred_tool_def log_event_def send_status_def log_grows_def
      activated_event_def split: prod.split bool.split)

lemma plan_use_grows:
  assumes "plan_use env batch s i u = (s', plan)"
  shows "log_grows s s'"
proof -
  obtain s1 name d where f: "find_definition env s (tu_name u) = (s1, name, d)" by (metis surj_pair)
  have "log_grows s s1"
    using f load_deferred_grows log_grows_trans [OF load_deferred_grows load_deferred_grows]
    by (auto simp: find_definition_def Let_def split: option.splits)
  also have "log_grows s1 s'"
  proof (cases "xp_blocked_error plan")
    case None
    with planned(2) [OF assms f] show ?thesis
      by (auto simp: check_attempt_def log_grows_def log_event_def split: prod.splits attempt_decision.splits)
  next
    case (Some e)
    with planned(3) [OF assms f] show ?thesis by (auto intro: log_event_grows)
  qed
  finally show ?thesis .
qed

lemma plan_uses_grow: "plan_uses env batch s i us = (s', plans) \<Longrightarrow> log_grows s s'"
proof (induction us arbitrary: s i plans)
  case (Cons u us)
  obtain s1 p1 where p: "plan_use env batch s i u = (s1, p1)" by (metis surj_pair)
  obtain s2 ps where ps: "plan_uses env batch s1 (i + 1) us = (s2, ps)" by (metis surj_pair)
  have "s' = s2" using Cons.prems p ps by simp
  with log_grows_trans [OF plan_use_grows [OF p] Cons.IH [OF ps [folded this]]] show ?case by simp
qed simp

lemma run_plans_grow:
  assumes "run_plans env s uses = Some (s2, plans, os)" and "\<And>x y. list_all no_error_event (pe_gate_events env x y)"
  shows "log_grows s s2"
  using assms(1)
proof (rule run_plans_parts)
  fix status batch s1 search pool x
  assume p: "plan_uses env batch (s\<lparr>ps_status := status\<rparr>) 0 uses = (s1, plans)" and s2: "s2 = executed env s1 plans x"
  have "log_grows s s1" using plan_uses_grow [OF p] by (simp add: log_grows_def)
  also have "log_grows s1 s2"
    using assms(2) [of "ps_exec s1" x] by (auto simp: s2 executed_def log_grows_def plan_events_def list_all_iff)
  finally show ?thesis .
qed

text \<open>An outcome with a result, which does not list the steps of a composite tool.\<close>

definition plain_result :: "exec_outcome \<Rightarrow> bool" where
  "plain_result o1 \<longleftrightarrow> (case oc_result o1 of Inr r \<Rightarrow> to_metadata r = None | Inl e \<Rightarrow> False)"

lemma take_outcome_grows:
  assumes "take_outcome env i o1 (s, t) = (s', t')" and "plain_result o1"
  shows "log_grows s s'"
    and "pt_halt t' = None \<longleftrightarrow> pt_halt t = None \<and> \<not> (\<exists>e \<in> set (drop (length (ps_log s)) (ps_log s')). has_reason ''failure_halt'' e)"
proof -
  have o1: "event_outcome o1 = Success" "outcome_metadata o1 = None"
    using assms(2) by (auto simp: plain_result_def event_outcome_def outcome_metadata_def split: sum.splits)
  obtain d p where "finished_event (tc_id (ps_turn s)) (outcome_call env i o1) (shown_outcome env i o1) =
      ToolCallFinished (tc_id (ps_turn s)) (oc_id o1) (oc_name o1) Success d (tool_writes_state (oc_name o1)) p
        (shown_outcome env i o1)"
    using outcome_finished [of "tc_id (ps_turn s)" env i o1 "shown_outcome env i o1"] o1(1) by auto
  with take_outcome_effect(4,5) [OF assms(1)] o1(2)
  show "log_grows s s'" "pt_halt t' = None \<longleftrightarrow> pt_halt t = None \<and>
      \<not> (\<exists>e \<in> set (drop (length (ps_log s)) (ps_log s')). has_reason ''failure_halt'' e)"
    by (simp_all add: log_grows_def composite_step_events_def has_reason_def)
qed

lemma take_outcomes_grow:
  "take_outcomes env i os (s, t) = (s', t') \<Longrightarrow> list_all plain_result os \<Longrightarrow>
     log_grows s s' \<and> (pt_halt t' \<noteq> None \<longrightarrow> pt_halt t \<noteq> None \<or> list_ex (has_reason ''failure_halt'') (ps_log s'))"
proof (induction os arbitrary: i s t)
  case (Cons o1 os)
  obtain s1 t1 where 1: "take_outcome env i o1 (s, t) = (s1, t1)" by (metis surj_pair)
  with Cons.prems(1) have rest: "take_outcomes env (i + 1) os (s1, t1) = (s', t')" by simp
  have plain: "plain_result o1" "list_all plain_result os" using Cons.prems(2) by simp_all
  note first = take_outcome_grows [OF 1 plain(1)] and IH = Cons.IH [OF rest plain(2)]
  have "list_ex (has_reason ''failure_halt'') (ps_log s')"
    if "e \<in> set (drop (length (ps_log s)) (ps_log s1))" "has_reason ''failure_halt'' e" for e
  proof -
    have "e \<in> set (ps_log s')" using in_set_dropD [OF that(1)] IH by (auto simp: log_grows_def)
    with that(2) show ?thesis by (auto simp: list_ex_iff)
  qed
  then have "list_ex (has_reason ''failure_halt'') (ps_log s')" if "pt_halt t1 \<noteq> None" "pt_halt t = None"
    using first(2) that by blast
  with IH log_grows_trans [OF first(1)] show ?case by metis
qed simp

lemma take_outcomes_errors:
  "take_outcomes env i os (s, t) = (s', t') \<Longrightarrow> pt_errors t' = pt_errors t + length (filter (\<lambda>o1. isl (oc_result o1)) os)"
proof (induction os arbitrary: i s t)
  case (Cons o1 os)
  obtain s1 t1 where 1: "take_outcome env i o1 (s, t) = (s1, t1)" by (metis surj_pair)
  with Cons.prems have "take_outcomes env (i + 1) os (s1, t1) = (s', t')" by simp
  from Cons.IH [OF this] take_outcome_effect(7) [OF 1] show ?case by simp
qed simp

lemma no_halt_due: "list_all no_error_event es \<Longrightarrow> count_due ext halt_due hist es = 0"
proof (induction es arbitrary: hist)
  case (Cons e es)
  then have "\<not> halt_due ext hist e" by (cases e) simp_all
  with Cons show ?case by simp
qed simp


section \<open>Samples\<close>

text \<open>A phase with one call of a tool that reports a failure; the user allowed the call.\<close>

definition write_spec :: tool_spec where
  "write_spec =
     \<lparr>ts_description = [], ts_approval_requirement = ApprovalRequired, ts_is_read_only = False, ts_supports_parallel = False,
      ts_manifest = default_manifest ''write_file'' [WritesFiles]\<rparr>"

definition sample_phase :: phase_env where
  "sample_phase =
     \<lparr>pe_ext = quiet_externals, pe_tables = plain_tables, pe_context = plain_context,
      pe_policy = \<lparr>pc_policy_mode = PolicyLegacy, pc_turn_mode = turn_loop_mode.Agent, pc_trust_mode = False,
        pc_registry = Some [''write_file'' \<mapsto> write_spec], pc_browser = one_preference,
        pc_yolo_variable = None, pc_lower = (\<lambda>s. s)\<rparr>,
      pe_names = None,
      pe_exec = (sample_env (\<lambda>_. False))
        \<lparr>ee_tool := (\<lambda>_ _ _ _. Inr \<lparr>to_content = ''denied'', to_success = False, to_metadata = None\<rparr>)\<rparr>,
      pe_shadow = no_shadow_stats, pe_mode = turn_loop_mode.Agent, pe_model = ''m'',
      pe_gate_events = (\<lambda>_ _. []), pe_run_id = (\<lambda>_. None), pe_suffix = (\<lambda>_. None), pe_millis = (\<lambda>_. 0),
      pe_checkpoint = (\<lambda>_ _. False)\<rparr>"

definition sample_start :: "loop_guard \<Rightarrow> string list \<Rightarrow> phase_state" where
  "sample_start g status =
     \<lparr>ps_turn = with_id 10 ''t'', ps_guard = g,
      ps_catalog = [\<lparr>ct_type = None, ct_name = ''write_file'', ct_description = [], ct_schema = JNull, ct_callers = None,
        ct_defer = None, ct_examples = None, ct_strict = None, ct_cache_control = None\<rparr>],
      ps_exec = sample_state V3Approved, ps_log = [], ps_messages = [], ps_status = status\<rparr>"

definition sample_use :: tool_use_state where
  "sample_use =
     \<lparr>tu_id = ''c1'', tu_name = ''write_file'', tu_input = JNull, tu_caller = None, tu_input_buffer = [],
      tu_arg_parse_error = None\<rparr>"

lemma sample_planned:
  assumes "record_attempt quiet_externals g ''write_file'' JNull = (g', Proceed)"
  shows "plan_use sample_phase batch (sample_start g status) 0 sample_use =
    ((sample_start g status)\<lparr>ps_guard := g'\<rparr>, sample_plan 0 ''c1'' ''write_file'')"
proof -
  let ?s = "sample_start g status"
  have find: "find_definition sample_phase ?s ''write_file'' = (?s, ''write_file'', Some (hd (ps_catalog ?s)))"
    by (simp add: find_definition_def load_deferred_def maybe_activate_deferred_tool_def
        maybe_activate_requested_deferred_tool_def deferred_def sample_start_def sample_state_def Let_def)
  have reason: "blocked_reason ?s ''write_file'' (Some (hd (ps_catalog ?s))) sample_use = None"
    by (simp add: blocked_reason_def sample_use_def sample_start_def caller_allowed_for_tool_def
        caller_type_for_tool_use_def Let_def)
  have meta: "resolve_tool_plan_approval_meta (pe_policy sample_phase) ''write_file'' JNull =
    \<lparr>am_approval_required = True, am_approval_description = [], am_supports_parallel = False, am_read_only = False\<rparr>"
    by (simp add: resolve_tool_plan_approval_meta_def legacy_tool_plan_approval_meta_def sample_phase_def write_spec_def
        find_tool_def is_mcp_tool_name_def starts_with_def browser_corrections_def is_browser_write_tool_def)
  show ?thesis
    using assms find reason meta
    by (simp add: plan_use_def sample_use_def check_attempt_def sample_phase_def sample_start_def sets_area_deferred_def
        REQUEST_USER_INPUT_NAME_def sample_plan_def Let_def)
qed

lemma sample_runs:
  assumes "record_attempt quiet_externals g ''write_file'' JNull = (g', Proceed)"
  obtains s2 o1 where "run_plans sample_phase (sample_start g []) [sample_use] =
      Some (s2, [sample_plan 0 ''c1'' ''write_file''], [o1])"
    and "oc_result o1 = Inr \<lparr>to_content = ''denied'', to_success = False, to_metadata = None\<rparr>"
    and "Ran ''c1'' ''write_file'' JNull None \<in> set (es_log (ps_exec s2))" and "length (ps_log s2) = 2"
proof (rule run_plans_shape [of sample_phase "sample_start g []" "[sample_use]"])
  fix status batch s1 plans search pool
  let ?env = "(pe_exec sample_phase)\<lparr>ee_search := search, ee_mcp_pool := pool\<rparr>"
  assume p: "plan_uses sample_phase batch ((sample_start g [])\<lparr>ps_status := status\<rparr>) 0 [sample_use] = (s1, plans)"
    and run: "run_plans sample_phase (sample_start g []) [sample_use] =
      map_option (\<lambda>(x, os). (executed sample_phase s1 plans x, plans, os))
        (execute_tool_plans ?env (ps_exec s1) (pe_shadow sample_phase) plans)"
  have start: "(sample_start g [])\<lparr>ps_status := status\<rparr> = sample_start g status" by (simp add: sample_start_def)
  have fields: "ps_exec (sample_start g status) = sample_state V3Approved" "ps_log (sample_start g status) = []"
    by (simp_all add: sample_start_def)
  from p have eq: "plans = [sample_plan 0 ''c1'' ''write_file'']" "ps_exec s1 = sample_state V3Approved" "ps_log s1 = []"
    unfolding start by (auto simp: sample_planned [OF assms] fields)
  obtain x o1 where "execute_tool_plans ?env (sample_state V3Approved) (pe_shadow sample_phase)
      [sample_plan 0 ''c1'' ''write_file''] = Some (x, [o1])"
    "Ran ''c1'' ''write_file'' JNull None \<in> set (es_log x)" "oc_result o1 = ee_tool ?env 0 ''write_file'' JNull None"
    using sample_write_runs [of ?env "pe_shadow sample_phase"] by (auto simp: sample_phase_def sample_env_def)
  with run eq show thesis
    by (intro that) (auto simp: executed_def sample_phase_def plan_events_def)
qed

definition failed_before :: "guard_op list" where
  "failed_before = replicate 7 (Outcome ''write_file'' False)"

lemma sample_proceeds:
  assumes "attempts_since_change quiet_externals (''write_file'', hash_args quiet_externals JNull) (rev ops) = 0"
  obtains g' where "record_attempt quiet_externals (run_guard quiet_externals ops) ''write_file'' JNull = (g', Proceed)"
  using attempt_blocks_history [of quiet_externals ops "''write_file''" JNull] assms that
  by (cases "record_attempt quiet_externals (run_guard quiet_externals ops) ''write_file'' JNull"; cases "snd
      (record_attempt quiet_externals (run_guard quiet_externals ops) ''write_file'' JNull)") auto

lemma failed_before_proceeds:
  obtains g' where
    "record_attempt quiet_externals (run_guard quiet_externals failed_before) ''write_file'' JNull = (g', Proceed)"
proof -
  have "attempts_since_change quiet_externals (''write_file'', hash_args quiet_externals JNull) (rev failed_before) = 0"
    by (simp add: failed_before_def numeral_eq_Suc)
  from sample_proceeds [OF this] that show thesis by blast
qed

lemma sample_ext [simp]: "pe_ext sample_phase = quiet_externals" "ps_guard (sample_start g status) = g"
  by (simp_all add: sample_phase_def sample_start_def)

text \<open>The eighth failure halts the turn.\<close>

theorem phase_halts_iff_witness:
  "\<exists>s' us out. tool_phase sample_phase (sample_start (run_guard quiet_externals failed_before) []) 0 [sample_use] =
     Some (s', us, out) \<and> tp_loop_guard_halted out"
proof -
  obtain g' where "record_attempt quiet_externals (run_guard quiet_externals failed_before) ''write_file'' JNull =
      (g', Proceed)" by (rule failed_before_proceeds)
  then show ?thesis
  proof (rule sample_runs)
    fix s2 o1
    assume run: "run_plans sample_phase (sample_start (run_guard quiet_externals failed_before) []) [sample_use] =
        Some (s2, [sample_plan 0 ''c1'' ''write_file''], [o1])"
      and r: "oc_result o1 = Inr \<lparr>to_content = ''denied'', to_success = False, to_metadata = None\<rparr>"
    obtain s' us out where phase: "tool_phase sample_phase (sample_start (run_guard quiet_externals failed_before) []) 0
        [sample_use] = Some (s', us, out)" using phase_returns [OF run] by blast
    have "\<not> succeeded o1" by (simp add: succeeded_def r)
    moreover have "oc_name o1 = ''write_file''"
      using run_plans_single(1) [OF run] by (simp add: sample_plan_def)
    ultimately have "tp_loop_guard_halted out"
      using phase_halts_iff [OF _ run phase, of failed_before]
      by (simp add: plan_ops_def sample_plan_def failed_before_def numeral_eq_Suc)
    with phase show ?thesis by blast
  qed
qed

theorem hammering_never_halts_witness:
  "\<exists>s' us out. tool_phase sample_phase (sample_start default_loop_guard []) 0 [sample_use] = Some (s', us, out) \<and>
     \<not> tp_loop_guard_halted out"
proof (rule sample_proceeds [of "[]"], simp)
  fix g'
  assume "record_attempt quiet_externals (run_guard quiet_externals []) ''write_file'' JNull = (g', Proceed)"
  then have "record_attempt quiet_externals default_loop_guard ''write_file'' JNull = (g', Proceed)"
    by (simp add: run_guard_def)
  then show ?thesis
  proof (rule sample_runs)
    fix s2 o1
    assume run: "run_plans sample_phase (sample_start default_loop_guard []) [sample_use] =
        Some (s2, [sample_plan 0 ''c1'' ''write_file''], [o1])"
      and r: "oc_result o1 = Inr \<lparr>to_content = ''denied'', to_success = False, to_metadata = None\<rparr>"
    obtain s' us out where phase: "tool_phase sample_phase (sample_start default_loop_guard []) 0
        [sample_use] = Some (s', us, out)" using phase_returns [OF run] by blast
    have again: "fails_again ''write_file'' JNull (sample_plan 0 ''c1'' ''write_file'') o1"
      by (simp add: fails_again_def sample_plan_def succeeded_def r)
    have fresh: "hammered quiet_externals ''write_file'' JNull 0 (sample_start default_loop_guard [])"
      by (rule hammered.fresh) simp
    have "is_state_mutating_tool ''write_file''"
      by (simp add: is_state_mutating_tool_def tool_writes_state_def loop_guard_state_mutating_whitelist_def)
    from hammering_never_halts [OF fresh this sample_ext(1) run again phase] phase show ?thesis by blast
  qed
qed



end
