(* ===== verification/Spec2Isabelle.thy ===== *)
theory Spec2Isabelle
  imports Thread_Replay Resource_Locks Compaction Tool_Phase
begin

text \<open>
  Verification library for the turn kernel of Zagens ("Kernel V3") and for the policies of its
  tool layer.

  \<^bold>\<open>The program.\<close> Zagens runs agent turns: a loop asks a model, runs the tools it calls, and goes
  round until the turn ends. The kernel (\<open>src/crates/core/src/engine/\<close>) is event-sourced. Every
  step of a turn appends \<open>KernelEvent\<close>s to a log; a \<open>projection\<close> folds the log into the state
  the kernel decides from; a \<open>replay machine\<close> derives from each event the effects that must have
  happened; and a family of checks compares log, projection, replayed effects, live state and the
  stored session, at the end of a turn, in CI and when a thread is resumed.

  \<^bold>\<open>How the parts interact.\<close> \<open>handle_deepseek_turn\<close> (\<open>turn_loop/run.rs\<close>) drives the outer loop
  of \<open>live_turn_machine.rs\<close>. At its boundaries (step limit, loop-guard halt, context overflow,
  in-turn cycle) it consults the pure gates of \<open>live_turn_outer_driver.rs\<close> and
  \<open>live_outer_loop_policy.rs\<close>, whose caps are in \<open>continuation_boundary_policy.rs\<close>; a passed gate
  yields a grant, which updates the loop counters, the step budget, the log and the runtime's
  grant record (\<open>crates/runtime-server/.../kernel_outer_boundary.rs\<close>). At the end of the turn
  the live snapshot is compared with the projection of the log. On resume the logs of a thread
  are replayed (\<open>replay_thread_projection\<close>), the session is checked and, when it differs,
  rebuilt from the logs (\<open>message_body_rebuild_policy.rs\<close>, \<open>kernel_log_session_repair.rs\<close>).

  Beside the loop stands the tool layer. The calls a model plans are cut into batches by the
  resource scheduler (\<open>crates/tools/src/dag_scheduler.rs\<close>, \<open>schedule_bridge.rs\<close>), which takes the
  safety level of a shell command from \<open>command_safety.rs\<close>; a batch runs under resource locks
  (\<open>resource_locks.rs\<close>); approvals are remembered by fingerprint (\<open>approval_cache.rs\<close>). Whether a
  call needs an approval is decided by the policy engine from the manifest of its tool
  (\<open>policy_engine.rs\<close>, \<open>tool_manifest.rs\<close>, \<open>policy_bridge.rs\<close>); \<open>tool_plans_exec.rs\<close> runs the plans of a
  step, asks where the policy says so, and answers every call. Which tools a request
  offers, and what becomes of a name that does not exist, is in \<open>tool_catalog.rs\<close> and \<open>registry.rs\<close>; what
  the model sees of a result is cut to size by \<open>context.rs\<close>. The tool phase (\<open>tool_phase.rs\<close>) joins these
  parts in a step: it plans the calls, has them executed, and hands every result to the model, the log, the loop
  guard and the turn.

  The session itself is kept within the window of its model. The catalog (\<open>model_catalog.rs\<close>,
  \<open>chat.rs\<close>) gives the window and \<open>context.rs\<close> the input budget of a request; token estimates
  (\<open>token_estimate.rs\<close>) are compared with it. A session over its threshold is compacted
  (\<open>crates/runtime-server/src/compaction/\<close>): old tool results are pruned, the plan pins what must
  stay together with the partners of its tool calls, the rest is summarised by the model, retried on
  transient errors (\<open>error_taxonomy.rs\<close>), and \<open>cycle_hooks.rs\<close> merges the result into the session.
  An emergency trim (\<open>context_trim.rs\<close>) drains messages when a request is already too long.

  Files are edited by the tool \<open>apply_patch\<close> (\<open>tools/apply_patch.rs\<close>): a unified diff is parsed, its
  hunks are placed in the text of the file by a fuzzy search, and all files are written or, when one
  write fails, restored.

  What leaves the machine passes two gates. A fetch (\<open>tools/fetch_url.rs\<close>, \<open>tools/ssrf.rs\<close>) asks the
  network policy (\<open>network_policy.rs\<close>, \<open>network_gate.rs\<close>) at every hop of its redirects, refuses
  addresses of local networks and pins the address it checked. The browser of the desktop opens an
  agent's page only by the rules of \<open>crates/browser-policy\<close>, after an approval card of the runtime
  server (\<open>policy_bridge.rs\<close>, \<open>browser_session.rs\<close>, \<open>browser.rs\<close>) and through the gate of
  \<open>desktop/src/browser/mod.rs\<close>, which keeps the agent's rules for the pages that follow
  (\<open>nav_actor.rs\<close>).

  \<^bold>\<open>Theories, in import order.\<close>
  \<^item> \<open>Kernel_Prelude\<close>: machine words with saturating arithmetic, reports of diagnostics,
    counting, \<open>find_map\<close>, and the operations on byte strings the code uses.
  \<^item> \<open>Kernel_Events\<close>: \<open>kernel_event.rs\<close>, the modes of \<open>turn.rs\<close>, \<open>models.rs\<close>.
  \<^item> \<open>Kernel_Projection\<close>: \<open>TurnKernelProjection\<close> with \<open>apply\<close> and \<open>from_events\<close>
    (\<open>turn_machine.rs\<close>). The locales \<open>projection_view\<close> and \<open>projection_counter\<close> state that a
    component of the projection is a fold over the log; they are interpreted for every counter.
  \<^item> \<open>Kernel_Effects\<close>: \<open>Effect\<close>, \<open>ReplayTurnMachine::step\<close>, the replay loops, effect counts, the
    memory-plane query policy.
  \<^item> \<open>Replay_Anchors\<close>, \<open>Anchor_Checks\<close>: which effect answers which event (locales
    \<open>replay_anchor\<close>, \<open>exact_anchor\<close>, eleven interpretations) and the step and thread checks that
    rest on it. They show that no anchor check can fail and that effect counts are exact.
  \<^item> \<open>Loop_Guard\<close>: \<open>loop_guard.rs\<close> and its replay (\<open>loop_guard_replay_policy.rs\<close>). The guard is
    specified by the history of its operations; blocking and halting are characterised by it.
  \<^item> \<open>Memory_Plane\<close>: layers, compaction timeline, working-layer simulation, queries, compiler
    sources, layered seams, prompt refresh, capacity checkpoints (the \<open>memory_plane_*\<close>,
    \<open>layered_context_replay\<close>, \<open>system_prompt_refresh*\<close>, \<open>capacity_replay\<close> policies).
  \<^item> \<open>Transcript_Rebuild\<close>: message types of \<open>chat.rs\<close>, the rebuilt transcripts, log repair.
  \<^item> \<open>Outer_Policy\<close>: \<open>TurnContext\<close>, caps, eligibility, gates, grants, effect plans, inner-step
    plans, and the checks of each against the replay machine.
  \<^item> \<open>Outer_Loop\<close>: the live turn loop and the grant record, run over a list of host answers.
  \<^item> \<open>Outer_Bounds\<close>: the contract of a grant (locale \<open>boundary_grant\<close>, interpreted for the four
    grants of the driver), the loop invariant, the progress measure.
  \<^item> \<open>Turn_Results\<close>: what every finished turn satisfies: caps, agreement of the grant record,
    step budget, progress.
  \<^item> \<open>Replay_Coherence\<close>: the live comparison and the unified replay gate of a turn log.
  \<^item> \<open>Thread_Replay\<close>: thread statistics, session coverage report, resume hints, resume gate.
  \<^item> \<open>Text_Ops\<close>: splitting, joining, replacing and lower-casing of byte strings, with the laws of
    words; \<open>Command_Tables\<close>, \<open>Command_Safety\<close>: \<open>command_safety.rs\<close>, what an allow rule covers,
    which commands are read-only or blocked, and that unreported paths stay in the workspace.
  \<^item> \<open>Approval_Cache\<close>: \<open>approval_cache.rs\<close>, the reach of a session approval.
  \<^item> \<open>Tool_Scheduler\<close>: resources, waves and batches. Every call runs once, conflicting calls keep
    their order, only reads run in parallel.
  \<^item> \<open>Resource_Locks\<close>: what a call locks, and concurrent acquisition as a step relation. The locale
    \<open>ordered_locks\<close> has the argument for any ordered requests; it is interpreted on the code's.
  \<^item> \<open>Model_Catalog\<close>: families, windows, output caps, thresholds, budgets. A stated window is found
    exactly when the name has one as a word; for which models a budget exists.
  \<^item> \<open>Message_Tokens\<close>: characters of UTF-8 texts and the token estimates; \<open>Error_Taxonomy\<close>:
    categories of errors and what may be retried.
  \<^item> \<open>Tool_Pairs\<close>: the pairing of calls and results. The locale \<open>pairing\<close> has the loop on any graph
    of partners, with the fixed point it reaches; it is interpreted on the partners of a session.
  \<^item> \<open>Compaction_Plan\<close>, \<open>Tool_Prune\<close>, \<open>Context_Trim\<close>, \<open>Compaction\<close>: what a compaction keeps (whole
    pairs, every message once), its retries and artifact, the prompts it leaves, and the trim.

  \<^item> \<open>Patch_Parse\<close>, \<open>Patch_Apply\<close>, \<open>Patch_Files\<close>: \<open>apply_patch.rs\<close> and the encodings of \<open>tools/file\<close>.
    A printed patch is read back, a diff applies to the text it was made from, a hunk lands at the
    nearest matching block, and a failed call leaves every file as it was.
  \<^item> \<open>Network_Policy\<close>: which rule matches which host, by labels; the deny list wins in every session, and
    how far an answer to a prompt reaches. \<open>Ssrf_Guard\<close>: the restricted addresses are a list of address
    blocks; no request goes to one of them, redirects respect the deny list, and their number is bounded.
  \<^item> \<open>Browser_Policy\<close>: runs of an agent's navigations. External pages were approved, as long as the text
    of a URL shows the host it is on; the agent's rules outlive its call.

  \<^item> \<open>Tool_Policy\<close>: manifests, the policy engine, the texts of approval cards. Which calls run without
    a question; tools of MCP servers never do. \<open>Tool_Execution\<close>: the execution of the plans of a
    step. Every call is answered once, in order; no tool runs against the policy.
  \<^item> \<open>Tool_Catalog\<close>: deferred and active tools, searches, suggestions, the registry's resolution of names.
    The tools on offer only grow behind a fixed start; the distance of names is the least number of
    edits. \<open>Tool_Context\<close>: what the model sees of a result, its size and its evidence.
  \<^item> \<open>Tool_Phase\<close>: \<open>run_tool_execution_phase\<close>, from the calls of the model to its next request. It rests on the
    policy, the execution, the catalog, the loop guard and the compaction of results: every call gets one
    result, no tool runs but as the policy permits, and the phase halts exactly as the guard's history says.

  \<^bold>\<open>Conventions.\<close> \<open>u32\<close>, \<open>u64\<close>, \<open>u8\<close> are words: \<open>+=\<close> wraps, as in a release build, and
  \<open>saturating_add\<close> is \<open>sat_add\<close>; \<open>usize\<close> is \<open>nat\<close>. A Rust string is the list of its bytes as
  characters. A check that returns \<open>Option<String>\<close> returns an optional list of diagnostics, each
  the template of its \<open>format!\<close> call with its arguments. Rust maps are Isabelle maps, ordered
  sets that are only iterated are sorted lists. Third-party functions (\<open>serde_json\<close> parsing and
  printing, the path regex, \<open>DefaultHasher\<close>) are fields of the record \<open>externals\<close>.

  \<^bold>\<open>The host.\<close> The outer loop calls back into a host (\<open>V3TurnHost\<close>): the model stream, tools,
  compaction, cancellation. One iteration of \<open>loop_iteration\<close> consumes one record
  \<open>host_answers\<close>; a theorem over all lists of answers is a theorem over all hosts. What an inner step answers
  of its tools is computed in \<open>Tool_Phase\<close>; the loop takes it as it comes. The predicate
  \<open>host_quiet\<close> is what the loop relies on: the host emits no turn start, no turn end and no
  boundary event of its own (except \<open>CycleAdvanced\<close>, once, when it did advance a cycle), and the
  inner step advances the step only when it asks to continue the loop.

  \<^bold>\<open>Bounds and fuel.\<close> No definition needs fuel; the wave loop of the scheduler terminates by the
  number of remaining calls: \<open>turn_loop\<close> is structural in the list of host
  answers and returns \<open>None\<close> while the turn is still running. The liveness property of
  \<open>Turn_Results\<close> states how many answers are enough. Theorems that count events as \<open>u32\<close> assume logs shorter than
  \<open>2 ^ 32\<close> where the wrap would matter, and say so.

  \<^bold>\<open>What the theorems show of the code.\<close> Besides the guarantees, four theorems show where it
  departs from its intention: the live comparison in \<open>Replay_Coherence\<close> (the projection keeps the
  initial step budget, so a turn that was granted a continuation is reported as divergent), two
  properties of \<open>Transcript_Rebuild\<close> (the log repair of a thread with several turns loses user
  inputs and mixes up tool calls), and the inner-step request check in \<open>Outer_Policy\<close> (which
  fails whenever queries are logged before the request).

  In the tool layer: a command is read-only by its first letters, \<open>$HOME\<close> is never recognised, a
  session approval reaches chained commands, and two spellings of a path do not conflict.

  In the compaction: a long chain of pairs stops the pairing before it has converged, the emergency
  trim never reaches its tiers, compactions pile up pointers in the prompt, and the search for the
  latest history message finds the oldest.

  In the patch tool: sections without a \<open>diff --git\<close> line merge into one file, a second section of a
  file overwrites the first, an insertion lands a line too early, and a directory that cannot be
  created leaves a patch half applied.

  In the gates: a page can be opened without approval when a URL has a user name, because the desktop
  reads the host from the text of the URL, and names that begin like a private address are refused.

  In the execution of tools: Python code runs before the approval that the policy requires for it, and
  the name of a tool that does not exist is resolved by the order of a hash map. In the tool phase: the
  guard's own answer to a repeated call makes it forget the repetition when the tool writes, and failures that
  a tool reports in its result halt the turn without a trace in the log that the replay could follow.

  \<^bold>\<open>Not modelled.\<close> The model stream, the tools themselves (but for the patch tool and the guarded fetch),
  persistence, HTTP, the terminal and the desktop are input and output around these parts; configuration and the
  wire types have little behaviour of their own. The capacity controller (\<open>capacity.rs\<close>) decides on
  floating-point profiles, which this library does not model. The context compiler, the stream filters
  (\<open>streaming.rs\<close>), sub-agents, topic memory, the sandboxes and the long-horizon gates are not modelled.
\<close>

section \<open>Resuming what the loop left\<close>

text \<open>C18. Resuming after a turn restores the loop's counters: when the last log of a thread is
  that of a finished turn, the resume hints carry the turn's id and exactly the four
  continuation counters of its live snapshot; the step budget they carry is the initial one.\<close>

theorem resume_restores_counters:
  assumes "handle_deepseek_turn m h t = Some r" and "list_all host_quiet (th_answers h)"
    and "tc_step t \<le> tc_max_steps t"
  shows "let k = resumed_hints ext tid (turns @ [(tc_id t, tr_log r)]); v = tr_snapshot r in
    kh_step_limit_continuations k = lv_step_limit_continuations v \<and>
    kh_loop_guard_continuations k = lv_loop_guard_continuations v \<and>
    kh_cycle_handoff_attempts k = lv_cycle_handoff_attempts v \<and>
    kh_in_turn_cycle_advances k = lv_in_turn_cycle_advances v \<and>
    kh_max_steps k = tc_max_steps t \<and>
    (tc_id t \<noteq> [] \<longrightarrow> kh_latest_turn_id k = Some (tc_id t))"
proof -
  note c = turn_result_counts [OF assms]
  obtain rest out n where log: "tr_log r = TurnStarted (tc_id t) m (th_input_text h)
      (tc_max_steps t) # rest @ [TurnEnded (tc_id t) out n]"
      "\<forall>e \<in> set rest. \<not> is_TurnStarted e \<and> \<not> is_TurnEnded e"
    using c(7) by blast
  have quiet: "\<forall>e \<in> set (rest @ [TurnEnded (tc_id t) out n]). \<not> is_TurnStarted e"
    using log(2) by auto
  have ne: "tr_log r \<noteq> []" by (simp add: log(1))
  show ?thesis
    using projected_start [OF log(1) quiet, of ext]
    by (simp add: Let_def resumed_counters latest_turn_snoc [OF ne] projected_counters c(3-6))
       (simp add: resumed_hints_def kernel_resume_hints_from_thread_projection_def
         kernel_resume_hints_from_projection_def projection_fields latest_turn_snoc [OF ne])
qed

theorem resume_restores_counters_witness:
  "kh_step_limit_continuations (resumed_hints quiet_externals ''thread'' [(''t1'', tr_log sample_result)]) =
     lv_step_limit_continuations (tr_snapshot sample_result)"
  using resume_restores_counters [OF sample_run(1) sample_quiet(3) sample_start,
      of quiet_externals "''thread''" "[]"]
  by (simp add: Let_def with_id_def)

end
